(* ===== verification/Prelude.thy ===== *)
theory Prelude
  imports Main "HOL-Library.Word"
begin

text \<open>
  The vocabulary shared by every component of the development.

  Firmware code runs on a state, may stop before it returns (a failed assertion, a panic, an
  access outside an array, a core that powers itself down) and otherwise returns a value. A
  piece of C is therefore a \<open>prog\<close>: a function from the state to an \<open>outcome\<close>, either
  \<open>Ret v s'\<close> or \<open>Stop r s'\<close> with the reason \<open>r\<close>. The combinators \<open>mret\<close>, \<open>mbind\<close>,
  \<open>mstop\<close>, \<open>mget\<close>, \<open>mmodify\<close> and \<open>mfold\<close> (a counted loop) are the only ones the
  translation uses; \<open>wp\<close> is the weakest precondition with one postcondition for the normal
  return and one for the stops, and the collection \<open>wp_simps\<close> holds its equations.
\<close>

unbundle bit_operations_syntax

named_theorems wp_simps \<open>equations that push a weakest precondition through a program\<close>
named_theorems prog_simps \<open>equations that run a program on a state\<close>

type_synonym u8 = "8 word"
type_synonym u32 = "32 word"
type_synonym u64 = "64 word"

section \<open>Outcomes and programs\<close>

text \<open>
  The reasons for which control does not come back to the caller. \<open>Assertion_failed\<close> is
  \<^verbatim>\<open>assert()\<close> in a build with assertions, \<open>Panicked\<close> is \<^verbatim>\<open>panic()\<close>, \<open>Out_of_bounds\<close> is an
  array access outside the array (undefined behaviour in C), \<open>Null_pointer\<close> a call through a
  NULL function pointer, \<open>Blocked\<close> a lock that is held, \<open>Powered_down\<close> the final wait for
  interrupt of a core that loses power, \<open>System_halted\<close> a system off or reset, and
  \<open>Device_hangs\<close> a polling loop on a register that the device never changes, and
  \<open>Left_to_normal_world\<close> a secure payload that returns to the normal world while the monitor waits
  for it.
\<close>

datatype stop =
    Assertion_failed | Panicked | Out_of_bounds | Null_pointer | Blocked
  | Powered_down | System_halted | Device_hangs | Left_to_normal_world

datatype ('s, 'a) outcome = Ret 'a 's | Stop stop 's

type_synonym ('s, 'a) prog = "'s \<Rightarrow> ('s, 'a) outcome"

definition mret :: "'a \<Rightarrow> ('s, 'a) prog" where
  "mret v s = Ret v s"

definition mstop :: "stop \<Rightarrow> ('s, 'a) prog" where
  "mstop r s = Stop r s"

definition mbind :: "('s, 'a) prog \<Rightarrow> ('a \<Rightarrow> ('s, 'b) prog) \<Rightarrow> ('s, 'b) prog" where
  "mbind m f s = (case m s of Ret v s' \<Rightarrow> f v s' | Stop r s' \<Rightarrow> Stop r s')"

definition mget :: "('s \<Rightarrow> 'a) \<Rightarrow> ('s, 'a) prog" where
  "mget f s = Ret (f s) s"

definition mmodify :: "('s \<Rightarrow> 's) \<Rightarrow> ('s, unit) prog" where
  "mmodify f s = Ret () (f s)"

text \<open>\<open>mwhen c m\<close> is an \<^verbatim>\<open>if\<close> without an \<^verbatim>\<open>else\<close>.\<close>

definition mwhen :: "bool \<Rightarrow> ('s, unit) prog \<Rightarrow> ('s, unit) prog" where
  "mwhen c m = (if c then m else mret ())"

text \<open>\<open>mfold f xs a\<close> runs the body \<open>f\<close> for every element of \<open>xs\<close>, threading an accumulator.\<close>

primrec mfold :: "('b \<Rightarrow> 'a \<Rightarrow> ('s, 'a) prog) \<Rightarrow> 'b list \<Rightarrow> 'a \<Rightarrow> ('s, 'a) prog" where
  "mfold f [] a = mret a"
| "mfold f (x # xs) a = mbind (f x a) (mfold f xs)"

text \<open>A read of \<^verbatim>\<open>xs[i]\<close>, with the bound the C array has.\<close>

definition array_get :: "'a list \<Rightarrow> nat \<Rightarrow> ('s, 'a) prog" where
  "array_get xs i = (if i < length xs then mret (xs ! i) else mstop Out_of_bounds)"

text \<open>The access is in bounds: what a write to \<^verbatim>\<open>xs[i]\<close> needs first.\<close>

definition array_check :: "'a list \<Rightarrow> nat \<Rightarrow> ('s, unit) prog" where
  "array_check xs i = (if i < length xs then mret () else mstop Out_of_bounds)"

text \<open>\<^verbatim>\<open>assert()\<close> in a build where \<open>dbg\<close> is the option \<^verbatim>\<open>ENABLE_ASSERTIONS\<close>.\<close>

definition dbg_assert :: "bool \<Rightarrow> bool \<Rightarrow> ('s, unit) prog" where
  "dbg_assert dbg b = (if dbg \<and> \<not> b then mstop Assertion_failed else mret ())"

lemmas prog_run [prog_simps] = mret_def mstop_def mget_def mmodify_def

lemma mbind_run:
  "m s = Ret v s' \<Longrightarrow> mbind m f s = f v s'"
  "m s = Stop r s' \<Longrightarrow> mbind m f s = Stop r s'"
  by (simp_all add: mbind_def)

lemma mbind_mret [simp]: "mbind (mret v) f = f v"
  by (rule ext) (simp add: mbind_def mret_def)

lemma mbind_mstop [simp]: "mbind (mstop r) f = mstop r"
  by (rule ext) (simp add: mbind_def mstop_def)

lemma mbind_mget_run [simp]: "mbind (mget g) f s = f (g s) s"
  by (simp add: mbind_def mget_def)

lemma mbind_mmodify_run [simp]: "mbind (mmodify g) f s = f () (g s)"
  by (simp add: mbind_def mmodify_def)

lemma mbind_mret_right [simp]: "mbind m mret = m"
  by (rule ext) (simp add: mbind_def mret_def split: outcome.splits)

lemma mbind_assoc: "mbind (mbind m f) g = mbind m (\<lambda>x. mbind (f x) g)"
  by (rule ext) (simp add: mbind_def split: outcome.splits)

lemma mbind_then_run: "mbind m (\<lambda>_. n) s = Ret v t \<Longrightarrow> mbind m (\<lambda>_. mbind n f) s = f v t"
  by (auto simp: mbind_def split: outcome.splits)

lemma mwhen_simps [simp]: "mwhen True m = m" "mwhen False m = mret ()"
  by (simp_all add: mwhen_def)

lemma array_get_in [simp]: "i < length xs \<Longrightarrow> array_get xs i = mret (xs ! i)"
  by (simp add: array_get_def)

lemma array_check_in [simp]: "i < length xs \<Longrightarrow> array_check xs i = mret ()"
  by (simp add: array_check_def)

lemma array_get_out [simp]: "\<not> i < length xs \<Longrightarrow> array_get xs i = mstop Out_of_bounds"
  by (simp add: array_get_def)

lemma array_check_out [simp]: "\<not> i < length xs \<Longrightarrow> array_check xs i = mstop Out_of_bounds"
  by (simp add: array_check_def)

lemma dbg_assert_False [simp]: "dbg_assert False b = mret ()"
  by (simp add: dbg_assert_def)

lemma dbg_assert_holds [simp]: "b \<Longrightarrow> dbg_assert dbg b = mret ()"
  by (simp add: dbg_assert_def)

lemma mfold_append: "mfold f (xs @ ys) a = mbind (mfold f xs a) (mfold f ys)"
proof (induction xs arbitrary: a)
  case Nil
  show ?case by simp
next
  case (Cons x xs)
  have "mfold f (xs @ ys) = (\<lambda>a. mbind (mfold f xs a) (mfold f ys))"
    by (rule ext) (rule Cons.IH)
  then show ?case by (simp add: mbind_assoc)
qed

section \<open>Weakest preconditions\<close>

definition wp ::
  "('s, 'a) prog \<Rightarrow> ('a \<Rightarrow> 's \<Rightarrow> bool) \<Rightarrow> (stop \<Rightarrow> 's \<Rightarrow> bool) \<Rightarrow> 's \<Rightarrow> bool" where
  "wp m Q E s = (case m s of Ret v s' \<Rightarrow> Q v s' | Stop r s' \<Rightarrow> E r s')"

lemma wp_mret [wp_simps]: "wp (mret v) Q E s = Q v s"
  by (simp add: wp_def prog_simps)

lemma wp_mstop [wp_simps]: "wp (mstop r) Q E s = E r s"
  by (simp add: wp_def prog_simps)

lemma wp_mget [wp_simps]: "wp (mget g) Q E s = Q (g s) s"
  by (simp add: wp_def prog_simps)

lemma wp_mmodify [wp_simps]: "wp (mmodify h) Q E s = Q () (h s)"
  by (simp add: wp_def prog_simps)

lemma wp_mbind [wp_simps]: "wp (mbind m f) Q E s = wp m (\<lambda>v. wp (f v) Q E) E s"
  by (simp add: wp_def mbind_def split: outcome.splits)

lemma wp_if [wp_simps]:
  "wp (if c then m else m') Q E s = (if c then wp m Q E s else wp m' Q E s)"
  by simp

lemma wp_mwhen [wp_simps]:
  "wp (mwhen c m) Q E s = (if c then wp m Q E s else Q () s)"
  by (simp add: wp_simps)

lemma wp_array_get [wp_simps]:
  "wp (array_get xs i) Q E s = (if i < length xs then Q (xs ! i) s else E Out_of_bounds s)"
  by (simp add: wp_simps)

lemma wp_array_check [wp_simps]:
  "wp (array_check xs i) Q E s = (if i < length xs then Q () s else E Out_of_bounds s)"
  by (simp add: wp_simps)

lemma wp_mono:
  assumes "wp m Q E s" "\<And>v t. Q v t \<Longrightarrow> Q' v t" "\<And>r t. E r t \<Longrightarrow> E' r t"
  shows "wp m Q' E' s"
  using assms by (simp add: wp_def split: outcome.splits)

lemma wp_run: "m s = Ret v t \<Longrightarrow> wp m Q E s = Q v t"
  by (simp add: wp_def)

lemma wpD:
  assumes "wp m Q E s"
  shows "m s = Ret v t \<Longrightarrow> Q v t" and "m s = Stop r t \<Longrightarrow> E r t"
  using assms by (simp_all add: wp_def)

text \<open>A loop keeps an invariant that its body keeps.\<close>

lemma wp_mfold:
  assumes "P a s"
    and "\<And>x a s. x \<in> set xs \<Longrightarrow> P a s \<Longrightarrow> wp (f x a) P E s"
  shows "wp (mfold f xs a) P E s"
  using assms
proof (induction xs arbitrary: a s)
  case Nil
  then show ?case by (simp add: wp_simps)
next
  case (Cons x xs)
  from Cons.prems have "wp (f x a) P E s" by simp
  then have "wp (f x a) (\<lambda>v. wp (mfold f xs v) P E) E s"
    by (rule wp_mono) (use Cons in auto)
  then show ?case by (simp add: wp_simps)
qed

section \<open>Shared facts on lists and words\<close>

lemma word_le_min_list: "(a :: 'a :: len word) \<le> min b c \<longleftrightarrow> a \<le> b \<and> a \<le> c"
  by simp

lemma nth_list_update_same [simp]: "xs[i := f (xs ! i)] ! j =
    (if i = j \<and> j < length xs then f (xs ! j) else xs ! j)"
  by (metis nth_list_update_eq nth_list_update_neq list_update_beyond not_less)

lemma upt_Suc_le: "m \<le> n \<Longrightarrow> [m..<Suc n] = [m..<n] @ [n]"
  by simp

end
