(* ===== verification/Psci_Types.thy ===== *)
theory Psci_Types
  imports Prelude
begin

text \<open>
  The data of the PSCI library: the constants of \<^verbatim>\<open>include/lib/psci/psci.h\<close>, the power domain
  tree, per-CPU data and lock helpers of \<^verbatim>\<open>lib/psci/psci_private.h\<close>, the hook tables that the
  platform port and the secure payload dispatcher fill in, and the state the library keeps.

  Everything the platform port supplies as a constant or a pure function is a field of the
  record \<open>plat_port\<close>; the registers a core reads are fields of its extension \<open>cpu_regs\<close>. Power
  levels, core and node indices are \<open>nat\<close> (they are bounded by the array sizes, which every
  access checks); local power states are \<^typ>\<open>u8\<close>, function identifiers and power state
  parameters \<^typ>\<open>u32\<close>, registers \<^typ>\<open>u64\<close>; C's \<^verbatim>\<open>int\<close> return codes are \<^typ>\<open>int\<close>.

  Data cache maintenance and barriers are not part of the state: memory is sequentially
  consistent. The remaining architectural actions (assembly routines, context management,
  published events) are appended to the log \<open>arch_log\<close> in the order the code performs them.
\<close>

section \<open>Constants\<close>

abbreviation PSCI_CPU_PWR_LVL :: nat where "PSCI_CPU_PWR_LVL \<equiv> 0"
abbreviation PSCI_LOCAL_STATE_RUN :: u8 where "PSCI_LOCAL_STATE_RUN \<equiv> 0"
abbreviation PSCI_INVALID_MPIDR :: u64 where "PSCI_INVALID_MPIDR \<equiv> NOT 0"

abbreviation PSCI_E_SUCCESS :: int where "PSCI_E_SUCCESS \<equiv> 0"
abbreviation PSCI_E_NOT_SUPPORTED :: int where "PSCI_E_NOT_SUPPORTED \<equiv> -1"
abbreviation PSCI_E_INVALID_PARAMS :: int where "PSCI_E_INVALID_PARAMS \<equiv> -2"
abbreviation PSCI_E_DENIED :: int where "PSCI_E_DENIED \<equiv> -3"
abbreviation PSCI_E_ALREADY_ON :: int where "PSCI_E_ALREADY_ON \<equiv> -4"
abbreviation PSCI_E_ON_PENDING :: int where "PSCI_E_ON_PENDING \<equiv> -5"
abbreviation PSCI_E_INTERN_FAIL :: int where "PSCI_E_INTERN_FAIL \<equiv> -6"
abbreviation PSCI_E_NOT_PRESENT :: int where "PSCI_E_NOT_PRESENT \<equiv> -7"
abbreviation PSCI_E_INVALID_ADDRESS :: int where "PSCI_E_INVALID_ADDRESS \<equiv> -9"

abbreviation PSCI_TOS_UP_MIG_CAP :: int where "PSCI_TOS_UP_MIG_CAP \<equiv> 0"
abbreviation PSCI_TOS_NOT_UP_MIG_CAP :: int where "PSCI_TOS_NOT_UP_MIG_CAP \<equiv> 1"
abbreviation PSCI_TOS_NOT_PRESENT_MP :: int where "PSCI_TOS_NOT_PRESENT_MP \<equiv> 2"

abbreviation PSTATE_TYPE_STANDBY :: u32 where "PSTATE_TYPE_STANDBY \<equiv> 0"
abbreviation PSTATE_TYPE_POWERDOWN :: u32 where "PSTATE_TYPE_POWERDOWN \<equiv> 1"

section \<open>Values and tables\<close>

type_synonym plat_local_state_t = u8

text \<open>\<^verbatim>\<open>psci_power_state_t\<close>: the local state of every power level, level 0 first.\<close>

type_synonym psci_power_state_t = "plat_local_state_t list"

datatype aff_info_state_t = AFF_STATE_ON | AFF_STATE_OFF | AFF_STATE_ON_PENDING

text \<open>The numbers the enumeration gives to the states, as AFFINITY\_INFO reports them.\<close>

fun aff_info_val :: "aff_info_state_t \<Rightarrow> int" where
  "aff_info_val AFF_STATE_ON = 0"
| "aff_info_val AFF_STATE_OFF = 1"
| "aff_info_val AFF_STATE_ON_PENDING = 2"

datatype plat_local_state_type = STATE_TYPE_RUN | STATE_TYPE_RETN | STATE_TYPE_OFF

record non_cpu_pd_node_t =
  cpu_start_idx :: nat
  ncpus :: nat
  parent_node :: nat
  local_state :: plat_local_state_t
  pd_level :: nat
  lock_index :: nat

text \<open>The CPU node's spin lock records the core that holds it.\<close>

record cpu_pd_node_t =
  node_mpidr :: u64
  cpu_parent_node :: nat
  cpu_lock :: "nat option"

record psci_cpu_data_t =
  aff_info_state :: aff_info_state_t
  target_pwrlvl :: nat
  cpu_local_state :: plat_local_state_t

text \<open>
  \<^verbatim>\<open>entry_point_info_t\<close>: the attributes of its header (type \<^verbatim>\<open>PARAM_EP\<close>, version 1 and size are
  fixed by \<^verbatim>\<open>SET_PARAM_HEAD\<close>), program counter, saved program status and arguments.
\<close>

record entry_point_info_t =
  ep_attr :: u32
  ep_pc :: u64
  ep_spsr :: u32
  ep_args :: "u64 list"

record psci_stat_t =
  stat_residency :: u64
  stat_count :: u64

section \<open>The platform port and the executing core\<close>

text \<open>
  Constants of \<^verbatim>\<open>platform_def.h\<close>, build options, and the functions of the port that have no
  effect: the topology descriptor, the mapping from MPIDR to a core index (negative for an
  unknown core) and the counter frequency.
\<close>

record plat_port =
  PLATFORM_CORE_COUNT :: nat
  PLAT_MAX_PWR_LVL :: nat
  PSCI_NUM_PWR_DOMAINS :: nat
  PLAT_MAX_RET_STATE :: plat_local_state_t
  PLAT_MAX_OFF_STATE :: plat_local_state_t
  PLAT_MAX_PWR_LVL_STATES :: nat
  ENABLE_ASSERTIONS :: bool
  ENABLE_PSCI_STAT :: bool
  HW_ASSISTED_COHERENCY :: bool
  WARMBOOT_ENABLE_DCACHE_EARLY :: bool
  plat_power_domain_tree_desc :: "nat list"
  plat_core_pos_by_mpidr :: "u64 \<Rightarrow> int"
  plat_syscnt_freq2 :: u64

text \<open>
  The registers of the core that executes the code: its index and MPIDR, pending interrupts,
  the EL3 and lower EL configuration, and the counter values at the points where a time stamp
  is captured. \<open>uninit_power_state\<close> is what an uninitialised local \<^verbatim>\<open>psci_power_state_t\<close> holds.
\<close>

record cpu_regs = plat_port +
  plat_my_core_pos :: nat
  mpidr_el1 :: u64
  isr_el1 :: u64
  scr_el3 :: u64
  sctlr_el1 :: u64
  sctlr_el2 :: u64
  cntfrq_el0 :: u64
  enter_ts :: u64
  exit_ts :: u64
  uninit_power_state :: psci_power_state_t

abbreviation PSCI_NUM_NON_CPU_PWR_DOMAINS :: "'a plat_port_scheme \<Rightarrow> nat" where
  "PSCI_NUM_NON_CPU_PWR_DOMAINS e \<equiv> PSCI_NUM_PWR_DOMAINS e - PLATFORM_CORE_COUNT e"

abbreviation PSCI_INVALID_PWR_LVL :: "'a plat_port_scheme \<Rightarrow> nat" where
  "PSCI_INVALID_PWR_LVL e \<equiv> PLAT_MAX_PWR_LVL e + 1"

section \<open>Hook tables\<close>

text \<open>
  \<^verbatim>\<open>plat_psci_ops_t\<close> and \<^verbatim>\<open>spd_pm_ops_t\<close>: each hook is a function pointer that may be NULL
  (\<open>None\<close>). A hook runs on the part \<open>'w\<close> of the world that lies outside the PSCI library
  (device registers, the secure payload) and may itself stop. An output parameter is part of
  the result. The hooks marked \<^verbatim>\<open>__dead2\<close> in the source return \<open>unit\<close> here; the caller treats
  their return as the end of the core's execution.
\<close>

record 'w plat_psci_ops_t =
  cpu_standby :: "(cpu_regs \<Rightarrow> plat_local_state_t \<Rightarrow> ('w, unit) prog) option"
  pwr_domain_on :: "(cpu_regs \<Rightarrow> u64 \<Rightarrow> ('w, int) prog) option"
  pwr_domain_off :: "(cpu_regs \<Rightarrow> psci_power_state_t \<Rightarrow> ('w, unit) prog) option"
  pwr_domain_suspend_pwrdown_early :: "(cpu_regs \<Rightarrow> psci_power_state_t \<Rightarrow> ('w, unit) prog) option"
  pwr_domain_suspend :: "(cpu_regs \<Rightarrow> psci_power_state_t \<Rightarrow> ('w, unit) prog) option"
  pwr_domain_on_finish :: "(cpu_regs \<Rightarrow> psci_power_state_t \<Rightarrow> ('w, unit) prog) option"
  pwr_domain_suspend_finish :: "(cpu_regs \<Rightarrow> psci_power_state_t \<Rightarrow> ('w, unit) prog) option"
  pwr_domain_pwr_down_wfi :: "(cpu_regs \<Rightarrow> psci_power_state_t \<Rightarrow> ('w, unit) prog) option"
  system_off :: "(cpu_regs \<Rightarrow> ('w, unit) prog) option"
  system_reset :: "(cpu_regs \<Rightarrow> ('w, unit) prog) option"
  validate_power_state ::
    "(cpu_regs \<Rightarrow> u32 \<Rightarrow> psci_power_state_t \<Rightarrow> ('w, int \<times> psci_power_state_t) prog) option"
  validate_ns_entrypoint :: "(cpu_regs \<Rightarrow> u64 \<Rightarrow> ('w, int) prog) option"
  get_sys_suspend_power_state ::
    "(cpu_regs \<Rightarrow> psci_power_state_t \<Rightarrow> ('w, psci_power_state_t) prog) option"
  get_pwr_lvl_state_idx :: "(cpu_regs \<Rightarrow> plat_local_state_t \<Rightarrow> nat \<Rightarrow> ('w, int) prog) option"
  translate_power_state_by_mpidr ::
    "(cpu_regs \<Rightarrow> u64 \<Rightarrow> u32 \<Rightarrow> psci_power_state_t \<Rightarrow> ('w, int \<times> psci_power_state_t) prog) option"
  get_node_hw_state :: "(cpu_regs \<Rightarrow> u64 \<Rightarrow> u32 \<Rightarrow> ('w, int) prog) option"
  mem_protect_chk :: "(cpu_regs \<Rightarrow> u64 \<Rightarrow> u64 \<Rightarrow> ('w, int) prog) option"
  read_mem_protect :: "(cpu_regs \<Rightarrow> ('w, int \<times> int) prog) option"
  write_mem_protect :: "(cpu_regs \<Rightarrow> int \<Rightarrow> ('w, int) prog) option"
  system_reset2 :: "(cpu_regs \<Rightarrow> int \<Rightarrow> int \<Rightarrow> u64 \<Rightarrow> ('w, int) prog) option"

record 'w spd_pm_ops_t =
  svc_on :: "(cpu_regs \<Rightarrow> u64 \<Rightarrow> ('w, unit) prog) option"
  svc_off :: "(cpu_regs \<Rightarrow> u64 \<Rightarrow> ('w, int) prog) option"
  svc_suspend :: "(cpu_regs \<Rightarrow> u64 \<Rightarrow> ('w, unit) prog) option"
  svc_on_finish :: "(cpu_regs \<Rightarrow> u64 \<Rightarrow> ('w, unit) prog) option"
  svc_suspend_finish :: "(cpu_regs \<Rightarrow> u64 \<Rightarrow> ('w, unit) prog) option"
  svc_migrate :: "(cpu_regs \<Rightarrow> u64 \<Rightarrow> u64 \<Rightarrow> ('w, int) prog) option"
  svc_migrate_info :: "(cpu_regs \<Rightarrow> ('w, int \<times> u64) prog) option"
  svc_system_off :: "(cpu_regs \<Rightarrow> ('w, unit) prog) option"
  svc_system_reset :: "(cpu_regs \<Rightarrow> ('w, unit) prog) option"

section \<open>The state of the library\<close>

text \<open>Architectural actions outside the C code of the library, in the order they happen.\<close>

datatype arch_event =
    Ev_write_cntfrq_el0 u64
  | Ev_init_cpu_ops
  | Ev_print_errata_status
  | Ev_prepare_cpu_pwr_dwn nat
  | Ev_pwrdown_cache_maintenance nat
  | Ev_pwrup_cache_maintenance
  | Ev_wfi
  | Ev_console_flush
  | Ev_cpu_on_finish
  | Ev_suspend_pwrdown_start
  | Ev_suspend_pwrdown_finish
  | Ev_prepare_el3_exit
  | Ev_plat_wfi

text \<open>
  The global variables of the library (names as in the source), the per-CPU non-secure contexts
  that context management fills from an entry point, the per-CPU time stamps of the PSCI
  statistics, the log, and the world the hooks act on. A lock holds the index of the core that
  has taken it.
\<close>

record 'w psci_state =
  psci_non_cpu_pd_nodes :: "non_cpu_pd_node_t list"
  psci_cpu_pd_nodes :: "cpu_pd_node_t list"
  psci_req_local_pwr_states :: "plat_local_state_t list list"
  psci_svc_cpu_data :: "psci_cpu_data_t list"
  psci_locks :: "nat option list"
  psci_caps :: u32
  psci_plat_pm_ops :: "'w plat_psci_ops_t"
  psci_spd_pm :: "'w spd_pm_ops_t option"
  psci_ns_context :: "entry_point_info_t option list"
  last_cpu_in_non_cpu_pd :: "int list"
  psci_cpu_stat :: "psci_stat_t list list"
  psci_non_cpu_stat :: "psci_stat_t list list"
  stat_enter_ts :: "u64 list"
  stat_exit_ts :: "u64 list"
  arch_log :: "arch_event list"
  world :: 'w

text \<open>
  The environment of one call: the port, the registers of the executing core, and what the other
  cores do to the shared state while this core waits for an interrupt in the middle of the call.
\<close>

record 'w cpu_env = cpu_regs +
  wfi_others :: "'w psci_state \<Rightarrow> 'w psci_state"

abbreviation regs :: "'w cpu_env \<Rightarrow> cpu_regs" where
  "regs e \<equiv> cpu_regs.truncate e"

section \<open>Running hooks, assertions and the log\<close>

definition lift_world :: "('w, 'a) prog \<Rightarrow> ('w psci_state, 'a) prog" where
  "lift_world m s =
     (case m (world s) of
        Ret v w \<Rightarrow> Ret v (s\<lparr>world := w\<rparr>)
      | Stop r w \<Rightarrow> Stop r (s\<lparr>world := w\<rparr>))"

text \<open>A call through a function pointer, with its arguments supplied by \<open>args\<close>.\<close>

definition call_hook :: "'f option \<Rightarrow> ('f \<Rightarrow> ('w, 'a) prog) \<Rightarrow> ('w psci_state, 'a) prog" where
  "call_hook h args = (case h of None \<Rightarrow> mstop Null_pointer | Some f \<Rightarrow> lift_world (args f))"

text \<open>A call that the code makes only when the pointer is not NULL.\<close>

definition call_if_set :: "'f option \<Rightarrow> ('f \<Rightarrow> ('w, unit) prog) \<Rightarrow> ('w psci_state, unit) prog" where
  "call_if_set h args = (case h of None \<Rightarrow> mret () | Some f \<Rightarrow> lift_world (args f))"

definition spd_hook :: "('w spd_pm_ops_t \<Rightarrow> 'f option) \<Rightarrow> 'w psci_state \<Rightarrow> 'f option" where
  "spd_hook sel s = (case psci_spd_pm s of None \<Rightarrow> None | Some pm \<Rightarrow> sel pm)"

definition c_assert :: "'w cpu_env \<Rightarrow> bool \<Rightarrow> ('w psci_state, unit) prog" where
  "c_assert e b = (if ENABLE_ASSERTIONS e \<and> \<not> b then mstop Assertion_failed else mret ())"

definition emit :: "arch_event \<Rightarrow> ('w psci_state, unit) prog" where
  "emit ev = mmodify (\<lambda>s. s\<lparr>arch_log := arch_log s @ [ev]\<rparr>)"

lemma c_assert_True [simp]: "c_assert e True = mret ()"
  by (simp add: c_assert_def)

lemma wp_c_assert [wp_simps]:
  "wp (c_assert e b) Q E s = (if ENABLE_ASSERTIONS e \<and> \<not> b then E Assertion_failed s else Q () s)"
  by (simp add: c_assert_def wp_simps)

lemma wp_emit [wp_simps]:
  "wp (emit ev) Q E s = Q () (s\<lparr>arch_log := arch_log s @ [ev]\<rparr>)"
  by (simp add: emit_def wp_simps)

lemma wp_lift_world [wp_simps]:
  "wp (lift_world m) Q E s =
     wp m (\<lambda>v w. Q v (s\<lparr>world := w\<rparr>)) (\<lambda>r w. E r (s\<lparr>world := w\<rparr>)) (world s)"
  by (simp add: wp_def lift_world_def split: outcome.splits)

lemma wp_call_hook [wp_simps]:
  "wp (call_hook h args) Q E s =
     (case h of None \<Rightarrow> E Null_pointer s | Some f \<Rightarrow> wp (lift_world (args f)) Q E s)"
  by (simp add: call_hook_def wp_simps split: option.splits)

lemma wp_call_if_set [wp_simps]:
  "wp (call_if_set h args) Q E s =
     (case h of None \<Rightarrow> Q () s | Some f \<Rightarrow> wp (lift_world (args f)) Q E s)"
  by (simp add: call_if_set_def wp_simps split: option.splits)

section \<open>Helpers of psci.h\<close>

definition define_psci_cap :: "u32 \<Rightarrow> u32" where
  "define_psci_cap x = push_bit (unat (x AND 0x1f)) 1"

definition psci_get_pstate_id :: "u32 \<Rightarrow> u32" where
  "psci_get_pstate_id power_state = power_state AND 0xffff"

definition psci_get_pstate_type :: "u32 \<Rightarrow> u32" where
  "psci_get_pstate_type power_state = drop_bit 16 power_state AND 1"

definition psci_get_pstate_pwrlvl :: "u32 \<Rightarrow> u32" where
  "psci_get_pstate_pwrlvl power_state = drop_bit 24 power_state AND 3"

definition psci_make_powerstate :: "u32 \<Rightarrow> u32 \<Rightarrow> u32 \<Rightarrow> u32" where
  "psci_make_powerstate state_id type pwrlvl =
     ((state_id AND 0xffff) OR push_bit 16 (type AND 1)) OR push_bit 24 (pwrlvl AND 3)"

definition psci_check_power_state :: "u32 \<Rightarrow> u32" where
  "psci_check_power_state power_state = power_state AND 0xFCFE0000"

definition is_local_state_run :: "plat_local_state_t \<Rightarrow> bool" where
  "is_local_state_run st \<longleftrightarrow> st = PSCI_LOCAL_STATE_RUN"

definition is_local_state_retn :: "'a plat_port_scheme \<Rightarrow> plat_local_state_t \<Rightarrow> bool" where
  "is_local_state_retn e st \<longleftrightarrow> st > PSCI_LOCAL_STATE_RUN \<and> st \<le> PLAT_MAX_RET_STATE e"

definition is_local_state_off :: "'a plat_port_scheme \<Rightarrow> plat_local_state_t \<Rightarrow> bool" where
  "is_local_state_off e st \<longleftrightarrow> st > PLAT_MAX_RET_STATE e \<and> st \<le> PLAT_MAX_OFF_STATE e"

section \<open>Helpers of psci\_private.h\<close>

definition psci_set_aff_info_state_by_idx ::
  "nat \<Rightarrow> aff_info_state_t \<Rightarrow> ('w psci_state, unit) prog" where
  "psci_set_aff_info_state_by_idx idx st =
     mbind (mget psci_svc_cpu_data) (\<lambda>d.
     mbind (array_check d idx) (\<lambda>_.
     mmodify (\<lambda>s. s\<lparr>psci_svc_cpu_data := (psci_svc_cpu_data s)
       [idx := (psci_svc_cpu_data s ! idx)\<lparr>aff_info_state := st\<rparr>]\<rparr>)))"

definition psci_get_aff_info_state_by_idx :: "nat \<Rightarrow> ('w psci_state, aff_info_state_t) prog" where
  "psci_get_aff_info_state_by_idx idx =
     mbind (mget psci_svc_cpu_data) (\<lambda>d.
     mbind (array_get d idx) (\<lambda>c. mret (aff_info_state c)))"

definition psci_set_aff_info_state ::
  "'w cpu_env \<Rightarrow> aff_info_state_t \<Rightarrow> ('w psci_state, unit) prog" where
  "psci_set_aff_info_state e st = psci_set_aff_info_state_by_idx (plat_my_core_pos e) st"

definition psci_get_aff_info_state :: "'w cpu_env \<Rightarrow> ('w psci_state, aff_info_state_t) prog" where
  "psci_get_aff_info_state e = psci_get_aff_info_state_by_idx (plat_my_core_pos e)"

definition psci_get_suspend_pwrlvl :: "'w cpu_env \<Rightarrow> ('w psci_state, nat) prog" where
  "psci_get_suspend_pwrlvl e =
     mbind (mget psci_svc_cpu_data) (\<lambda>d.
     mbind (array_get d (plat_my_core_pos e)) (\<lambda>c. mret (target_pwrlvl c)))"

definition psci_set_suspend_pwrlvl :: "'w cpu_env \<Rightarrow> nat \<Rightarrow> ('w psci_state, unit) prog" where
  "psci_set_suspend_pwrlvl e target_lvl =
     mbind (mget psci_svc_cpu_data) (\<lambda>d.
     mbind (array_check d (plat_my_core_pos e)) (\<lambda>_.
     mmodify (\<lambda>s. s\<lparr>psci_svc_cpu_data := (psci_svc_cpu_data s)
       [plat_my_core_pos e := (psci_svc_cpu_data s ! plat_my_core_pos e)\<lparr>target_pwrlvl := target_lvl\<rparr>]\<rparr>)))"

definition psci_set_cpu_local_state ::
  "'w cpu_env \<Rightarrow> plat_local_state_t \<Rightarrow> ('w psci_state, unit) prog" where
  "psci_set_cpu_local_state e st =
     mbind (mget psci_svc_cpu_data) (\<lambda>d.
     mbind (array_check d (plat_my_core_pos e)) (\<lambda>_.
     mmodify (\<lambda>s. s\<lparr>psci_svc_cpu_data := (psci_svc_cpu_data s)
       [plat_my_core_pos e := (psci_svc_cpu_data s ! plat_my_core_pos e)\<lparr>cpu_local_state := st\<rparr>]\<rparr>)))"

definition psci_get_cpu_local_state_by_idx :: "nat \<Rightarrow> ('w psci_state, plat_local_state_t) prog" where
  "psci_get_cpu_local_state_by_idx idx =
     mbind (mget psci_svc_cpu_data) (\<lambda>d.
     mbind (array_get d idx) (\<lambda>c. mret (cpu_local_state c)))"

definition psci_get_cpu_local_state :: "'w cpu_env \<Rightarrow> ('w psci_state, plat_local_state_t) prog" where
  "psci_get_cpu_local_state e = psci_get_cpu_local_state_by_idx (plat_my_core_pos e)"

definition is_cpu_standby_req :: "u32 \<Rightarrow> nat \<Rightarrow> bool" where
  "is_cpu_standby_req is_power_down_state retn_lvl \<longleftrightarrow> is_power_down_state = 0 \<and> retn_lvl = 0"

text \<open>
  \<^verbatim>\<open>psci_lock_get\<close> and \<^verbatim>\<open>psci_lock_release\<close> on the node with index \<open>idx\<close>: the lock is the one
  the node names. Taking a lock that is held waits (\<open>Blocked\<close>).
\<close>

definition psci_lock_get :: "'w cpu_env \<Rightarrow> nat \<Rightarrow> ('w psci_state, unit) prog" where
  "psci_lock_get e idx =
     mbind (mget psci_non_cpu_pd_nodes) (\<lambda>nodes.
     mbind (array_get nodes idx) (\<lambda>n.
     mbind (mget psci_locks) (\<lambda>locks.
     mbind (array_get locks (lock_index n)) (\<lambda>owner.
     if owner = None
     then mmodify (\<lambda>s. s\<lparr>psci_locks := (psci_locks s)[lock_index n := Some (plat_my_core_pos e)]\<rparr>)
     else mstop Blocked))))"

definition psci_lock_release :: "nat \<Rightarrow> ('w psci_state, unit) prog" where
  "psci_lock_release idx =
     mbind (mget psci_non_cpu_pd_nodes) (\<lambda>nodes.
     mbind (array_get nodes idx) (\<lambda>n.
     mbind (mget psci_locks) (\<lambda>locks.
     mbind (array_check locks (lock_index n)) (\<lambda>_.
     mmodify (\<lambda>s. s\<lparr>psci_locks := (psci_locks s)[lock_index n := None]\<rparr>)))))"

definition psci_lock_init :: "non_cpu_pd_node_t list \<Rightarrow> nat \<Rightarrow> non_cpu_pd_node_t list" where
  "psci_lock_init nodes idx = nodes[idx := (nodes ! idx)\<lparr>lock_index := idx\<rparr>]"

end
