(* ===== verification/Psci_Common.thy ===== *)
theory Psci_Common
  imports Psci_Types
begin

text \<open>
  \<^verbatim>\<open>lib/psci/psci_common.c\<close> and the default state coordination of
  \<^verbatim>\<open>plat/common/plat_psci_common.c\<close>: the requested and target power states, their coordination
  over the power domain tree, the locks along a path of the tree, the validation of suspend
  requests and entry points, and the bookkeeping helpers. The definitions follow the order of
  the source; \<^verbatim>\<open>psci_warmboot_entrypoint\<close>, which calls the finishers, is in \<open>Psci_Power\<close>.
  The lemmas on these functions are in \<open>Psci_Coordination\<close>.
\<close>

section \<open>Categories of local states\<close>

definition find_local_state_type ::
  "'a plat_port_scheme \<Rightarrow> plat_local_state_t \<Rightarrow> plat_local_state_type" where
  "find_local_state_type e st =
     (if st \<noteq> 0 then (if st > PLAT_MAX_RET_STATE e then STATE_TYPE_OFF else STATE_TYPE_RETN)
      else STATE_TYPE_RUN)"

text \<open>The enumeration's order: RUN below RETENTION below OFF.\<close>

fun state_type_val :: "plat_local_state_type \<Rightarrow> nat" where
  "state_type_val STATE_TYPE_RUN = 0"
| "state_type_val STATE_TYPE_RETN = 1"
| "state_type_val STATE_TYPE_OFF = 2"

lemma state_type_val_inject: "state_type_val a = state_type_val b \<Longrightarrow> a = b"
  by (cases a; cases b) simp_all

instantiation plat_local_state_type :: linorder
begin

definition less_eq_plat_local_state_type :: "plat_local_state_type \<Rightarrow> plat_local_state_type \<Rightarrow> bool" where
  "less_eq_plat_local_state_type a b \<longleftrightarrow> state_type_val a \<le> state_type_val b"

definition less_plat_local_state_type :: "plat_local_state_type \<Rightarrow> plat_local_state_type \<Rightarrow> bool" where
  "less_plat_local_state_type a b \<longleftrightarrow> state_type_val a < state_type_val b"

instance
  by standard
    (auto simp: less_eq_plat_local_state_type_def less_plat_local_state_type_def
      intro: state_type_val_inject)

end

section \<open>Power state parameters\<close>

definition psci_validate_power_state ::
  "'w cpu_env \<Rightarrow> u32 \<Rightarrow> psci_power_state_t \<Rightarrow> ('w psci_state, int \<times> psci_power_state_t) prog" where
  "psci_validate_power_state e power_state state_info =
     (if psci_check_power_state power_state \<noteq> 0 then mret (PSCI_E_INVALID_PARAMS, state_info)
      else
        mbind (mget psci_plat_pm_ops) (\<lambda>ops.
        mbind (c_assert e (validate_power_state ops \<noteq> None)) (\<lambda>_.
        call_hook (validate_power_state ops) (\<lambda>f. f (regs e) power_state state_info))))"

definition psci_query_sys_suspend_pwrstate ::
  "'w cpu_env \<Rightarrow> psci_power_state_t \<Rightarrow> ('w psci_state, psci_power_state_t) prog" where
  "psci_query_sys_suspend_pwrstate e state_info =
     mbind (mget psci_plat_pm_ops) (\<lambda>ops.
     mbind (c_assert e (get_sys_suspend_power_state ops \<noteq> None)) (\<lambda>_.
     call_hook (get_sys_suspend_power_state ops) (\<lambda>f. f (regs e) state_info)))"

text \<open>The loop of \<^verbatim>\<open>psci_is_last_on_cpu\<close> over the core indices.\<close>

fun last_on_cpu_loop :: "'w cpu_env \<Rightarrow> nat list \<Rightarrow> ('w psci_state, bool) prog" where
  "last_on_cpu_loop e [] = mret True"
| "last_on_cpu_loop e (cpu_idx # rest) =
     (if cpu_idx = plat_my_core_pos e then
        mbind (psci_get_aff_info_state e) (\<lambda>a.
        mbind (c_assert e (a = AFF_STATE_ON)) (\<lambda>_.
        last_on_cpu_loop e rest))
      else
        mbind (psci_get_aff_info_state_by_idx cpu_idx) (\<lambda>a.
        if a \<noteq> AFF_STATE_OFF then mret False else last_on_cpu_loop e rest))"

definition psci_is_last_on_cpu :: "'w cpu_env \<Rightarrow> ('w psci_state, bool) prog" where
  "psci_is_last_on_cpu e = last_on_cpu_loop e [0..<PLATFORM_CORE_COUNT e]"

definition get_power_on_target_pwrlvl :: "'w cpu_env \<Rightarrow> ('w psci_state, nat) prog" where
  "get_power_on_target_pwrlvl e =
     mbind (psci_get_suspend_pwrlvl e) (\<lambda>pwrlvl.
     mret (if pwrlvl = PSCI_INVALID_PWR_LVL e then PLAT_MAX_PWR_LVL e else pwrlvl))"

section \<open>Requested local states\<close>

definition psci_set_req_local_pwr_state ::
  "'w cpu_env \<Rightarrow> nat \<Rightarrow> nat \<Rightarrow> plat_local_state_t \<Rightarrow> ('w psci_state, unit) prog" where
  "psci_set_req_local_pwr_state e pwrlvl cpu_idx req_pwr_state =
     mbind (c_assert e (pwrlvl > PSCI_CPU_PWR_LVL)) (\<lambda>_.
     mbind (mget psci_req_local_pwr_states) (\<lambda>req.
     mbind (array_get req (pwrlvl - 1)) (\<lambda>row.
     mbind (array_check row cpu_idx) (\<lambda>_.
     mmodify (\<lambda>s. s\<lparr>psci_req_local_pwr_states := (psci_req_local_pwr_states s)
       [pwrlvl - 1 := (psci_req_local_pwr_states s ! (pwrlvl - 1))[cpu_idx := req_pwr_state]]\<rparr>)))))"

definition psci_init_req_local_pwr_states :: "'w cpu_env \<Rightarrow> ('w psci_state, unit) prog" where
  "psci_init_req_local_pwr_states e =
     mmodify (\<lambda>s. s\<lparr>psci_req_local_pwr_states :=
       replicate (PLAT_MAX_PWR_LVL e) (replicate (PLATFORM_CORE_COUNT e) (PLAT_MAX_OFF_STATE e))\<rparr>)"

text \<open>
  The pointer the source returns is read by its caller over the \<open>n\<close> cores of a power domain;
  the model returns those entries.
\<close>

definition psci_get_req_local_pwr_states ::
  "'w cpu_env \<Rightarrow> nat \<Rightarrow> nat \<Rightarrow> nat \<Rightarrow> ('w psci_state, plat_local_state_t list) prog" where
  "psci_get_req_local_pwr_states e pwrlvl cpu_idx n =
     mbind (c_assert e (pwrlvl > PSCI_CPU_PWR_LVL)) (\<lambda>_.
     mbind (mget psci_req_local_pwr_states) (\<lambda>req.
     mbind (array_get req (pwrlvl - 1)) (\<lambda>row.
     if cpu_idx + n \<le> length row then mret (take n (drop cpu_idx row)) else mstop Out_of_bounds)))"

section \<open>Nodes of the tree\<close>

text \<open>\<^verbatim>\<open>psci_non_cpu_pd_nodes[idx].parent_node\<close> and \<^verbatim>\<open>psci_cpu_pd_nodes[idx].parent_node\<close>.\<close>

definition non_cpu_parent_node :: "nat \<Rightarrow> ('w psci_state, nat) prog" where
  "non_cpu_parent_node idx =
     mbind (mget psci_non_cpu_pd_nodes) (\<lambda>nodes.
     mbind (array_get nodes idx) (\<lambda>n. mret (parent_node n)))"

definition cpu_node_parent :: "nat \<Rightarrow> ('w psci_state, nat) prog" where
  "cpu_node_parent idx =
     mbind (mget psci_cpu_pd_nodes) (\<lambda>cpus.
     mbind (array_get cpus idx) (\<lambda>c. mret (cpu_parent_node c)))"

definition get_non_cpu_pd_node_local_state :: "nat \<Rightarrow> ('w psci_state, plat_local_state_t) prog" where
  "get_non_cpu_pd_node_local_state parent_idx =
     mbind (mget psci_non_cpu_pd_nodes) (\<lambda>nodes.
     mbind (array_get nodes parent_idx) (\<lambda>n. mret (local_state n)))"

definition set_non_cpu_pd_node_local_state ::
  "nat \<Rightarrow> plat_local_state_t \<Rightarrow> ('w psci_state, unit) prog" where
  "set_non_cpu_pd_node_local_state parent_idx st =
     mbind (mget psci_non_cpu_pd_nodes) (\<lambda>nodes.
     mbind (array_check nodes parent_idx) (\<lambda>_.
     mmodify (\<lambda>s. s\<lparr>psci_non_cpu_pd_nodes := (psci_non_cpu_pd_nodes s)
       [parent_idx := (psci_non_cpu_pd_nodes s ! parent_idx)\<lparr>local_state := st\<rparr>]\<rparr>)))"

section \<open>Target states along the path of the executing core\<close>

text \<open>The levels \<open>from, \<dots>, to\<close> of a counted loop.\<close>

abbreviation levels :: "nat \<Rightarrow> nat \<Rightarrow> nat list" where
  "levels from to \<equiv> [from..<Suc to]"

definition psci_get_target_local_pwr_states ::
  "'w cpu_env \<Rightarrow> nat \<Rightarrow> psci_power_state_t \<Rightarrow> ('w psci_state, psci_power_state_t) prog" where
  "psci_get_target_local_pwr_states e end_pwrlvl target_state =
     mbind (psci_get_cpu_local_state e) (\<lambda>st0.
     mbind (array_check target_state PSCI_CPU_PWR_LVL) (\<lambda>_.
     mbind (cpu_node_parent (plat_my_core_pos e)) (\<lambda>parent_idx.
     mbind (mfold (\<lambda>lvl (pd_state, parent_idx).
              mbind (get_non_cpu_pd_node_local_state parent_idx) (\<lambda>st.
              mbind (array_check pd_state lvl) (\<lambda>_.
              mbind (non_cpu_parent_node parent_idx) (\<lambda>parent_idx.
              mret (pd_state[lvl := st], parent_idx)))))
            (levels (PSCI_CPU_PWR_LVL + 1) end_pwrlvl)
            (target_state[PSCI_CPU_PWR_LVL := st0], parent_idx)) (\<lambda>(pd_state, _).
     mfold (\<lambda>lvl pd_state.
              mbind (array_check pd_state lvl) (\<lambda>_.
              mret (pd_state[lvl := PSCI_LOCAL_STATE_RUN])))
       (levels (max (PSCI_CPU_PWR_LVL + 1) (end_pwrlvl + 1)) (PLAT_MAX_PWR_LVL e)) pd_state))))"

definition psci_set_target_local_pwr_states ::
  "'w cpu_env \<Rightarrow> nat \<Rightarrow> psci_power_state_t \<Rightarrow> ('w psci_state, unit) prog" where
  "psci_set_target_local_pwr_states e end_pwrlvl target_state =
     mbind (array_get target_state PSCI_CPU_PWR_LVL) (\<lambda>st0.
     mbind (psci_set_cpu_local_state e st0) (\<lambda>_.
     mbind (cpu_node_parent (plat_my_core_pos e)) (\<lambda>parent_idx.
     mbind (mfold (\<lambda>lvl parent_idx.
              mbind (array_get target_state lvl) (\<lambda>st.
              mbind (set_non_cpu_pd_node_local_state parent_idx st) (\<lambda>_.
              non_cpu_parent_node parent_idx)))
            (levels 1 end_pwrlvl) parent_idx) (\<lambda>_.
     mret ()))))"

definition psci_get_parent_pwr_domain_nodes :: "nat \<Rightarrow> nat \<Rightarrow> ('w psci_state, nat list) prog" where
  "psci_get_parent_pwr_domain_nodes cpu_idx end_lvl =
     mbind (cpu_node_parent cpu_idx) (\<lambda>parent_node.
     mbind (mfold (\<lambda>i (node_index, parent_node).
              mbind (non_cpu_parent_node parent_node) (\<lambda>p.
              mret (node_index @ [parent_node], p)))
            (levels (PSCI_CPU_PWR_LVL + 1) end_lvl) ([], parent_node)) (\<lambda>(node_index, _).
     mret node_index))"

definition psci_set_pwr_domains_to_run :: "'w cpu_env \<Rightarrow> nat \<Rightarrow> ('w psci_state, unit) prog" where
  "psci_set_pwr_domains_to_run e end_pwrlvl =
     mbind (cpu_node_parent (plat_my_core_pos e)) (\<lambda>parent_idx.
     mbind (mfold (\<lambda>lvl parent_idx.
              mbind (set_non_cpu_pd_node_local_state parent_idx PSCI_LOCAL_STATE_RUN) (\<lambda>_.
              mbind (psci_set_req_local_pwr_state e lvl (plat_my_core_pos e) PSCI_LOCAL_STATE_RUN) (\<lambda>_.
              non_cpu_parent_node parent_idx)))
            (levels (PSCI_CPU_PWR_LVL + 1) end_pwrlvl) parent_idx) (\<lambda>_.
     mbind (psci_set_aff_info_state e AFF_STATE_ON) (\<lambda>_.
     psci_set_cpu_local_state e PSCI_LOCAL_STATE_RUN)))"

section \<open>State coordination\<close>

text \<open>
  The \<^verbatim>\<open>do \<dots> while (n > 0U)\<close> loop of \<^verbatim>\<open>plat_get_target_pwr_state\<close>: the counter is unsigned, so
  a count of 0 wraps and the loop runs off the array.
\<close>

fun target_pwr_state_loop ::
  "plat_local_state_t list \<Rightarrow> nat \<Rightarrow> plat_local_state_t \<Rightarrow> ('s, plat_local_state_t) prog" where
  "target_pwr_state_loop [] n target = mstop Out_of_bounds"
| "target_pwr_state_loop (temp # st) n target =
     (let target = (if temp < target then temp else target);
          n = (if n = 0 then 2 ^ 32 - 1 else n - 1)
      in if n > 0 then target_pwr_state_loop st n target else mret target)"

definition plat_get_target_pwr_state ::
  "'w cpu_env \<Rightarrow> nat \<Rightarrow> plat_local_state_t list \<Rightarrow> nat \<Rightarrow> ('w psci_state, plat_local_state_t) prog" where
  "plat_get_target_pwr_state e lvl states ncpu =
     mbind (c_assert e (ncpu > 0)) (\<lambda>_.
     target_pwr_state_loop states ncpu (PLAT_MAX_OFF_STATE e))"

text \<open>
  The first loop of \<^verbatim>\<open>psci_do_state_coordination\<close>. It returns the updated \<^verbatim>\<open>state_info\<close> and the
  levels it has not visited because it left the loop early.
\<close>

fun coordination_loop ::
  "'w cpu_env \<Rightarrow> nat list \<Rightarrow> psci_power_state_t \<Rightarrow> nat \<Rightarrow>
    ('w psci_state, psci_power_state_t \<times> nat list) prog" where
  "coordination_loop e [] state_info parent_idx = mret (state_info, [])"
| "coordination_loop e (lvl # rest) state_info parent_idx =
     mbind (array_get state_info lvl) (\<lambda>req_state.
     mbind (psci_set_req_local_pwr_state e lvl (plat_my_core_pos e) req_state) (\<lambda>_.
     mbind (mget psci_non_cpu_pd_nodes) (\<lambda>nodes.
     mbind (array_get nodes parent_idx) (\<lambda>n.
     mbind (psci_get_req_local_pwr_states e lvl (cpu_start_idx n) (ncpus n)) (\<lambda>req_states.
     mbind (plat_get_target_pwr_state e lvl req_states (ncpus n)) (\<lambda>target_state.
     if is_local_state_run target_state then mret (state_info[lvl := target_state], rest)
     else coordination_loop e rest (state_info[lvl := target_state]) (parent_node n)))))))"

definition psci_do_state_coordination ::
  "'w cpu_env \<Rightarrow> nat \<Rightarrow> psci_power_state_t \<Rightarrow> ('w psci_state, psci_power_state_t) prog" where
  "psci_do_state_coordination e end_pwrlvl state_info =
     mbind (c_assert e (end_pwrlvl \<le> PLAT_MAX_PWR_LVL e)) (\<lambda>_.
     mbind (cpu_node_parent (plat_my_core_pos e)) (\<lambda>parent_idx.
     mbind (coordination_loop e (levels (PSCI_CPU_PWR_LVL + 1) end_pwrlvl) state_info parent_idx)
       (\<lambda>(state_info, rest).
     mbind (mfold (\<lambda>lvl state_info.
              mbind (array_get state_info lvl) (\<lambda>req_state.
              mbind (psci_set_req_local_pwr_state e lvl (plat_my_core_pos e) req_state) (\<lambda>_.
              mret (state_info[lvl := PSCI_LOCAL_STATE_RUN])))) rest state_info) (\<lambda>state_info.
     mbind (psci_set_target_local_pwr_states e end_pwrlvl state_info) (\<lambda>_.
     mret state_info)))))"

section \<open>Validation of suspend requests\<close>

definition psci_find_max_off_lvl :: "'a plat_port_scheme \<Rightarrow> psci_power_state_t \<Rightarrow> nat" where
  "psci_find_max_off_lvl e state_info =
     (case find (\<lambda>i. is_local_state_off e (state_info ! i)) (rev (levels PSCI_CPU_PWR_LVL (PLAT_MAX_PWR_LVL e))) of
        Some i \<Rightarrow> i | None \<Rightarrow> PSCI_INVALID_PWR_LVL e)"

definition psci_find_target_suspend_lvl :: "'a plat_port_scheme \<Rightarrow> psci_power_state_t \<Rightarrow> nat" where
  "psci_find_target_suspend_lvl e state_info =
     (case find (\<lambda>i. \<not> is_local_state_run (state_info ! i)) (rev (levels PSCI_CPU_PWR_LVL (PLAT_MAX_PWR_LVL e))) of
        Some i \<Rightarrow> i | None \<Rightarrow> PSCI_INVALID_PWR_LVL e)"

text \<open>The loop of \<^verbatim>\<open>psci_validate_suspend_req\<close> from the target level down: may it pass?\<close>

fun suspend_req_loop ::
  "'a plat_port_scheme \<Rightarrow> psci_power_state_t \<Rightarrow> nat list \<Rightarrow> plat_local_state_type \<Rightarrow> bool" where
  "suspend_req_loop e state_info [] deepest = True"
| "suspend_req_loop e state_info (i # rest) deepest =
     (let req_state_type = find_local_state_type e (state_info ! i)
      in if req_state_type < deepest then False
         else suspend_req_loop e state_info rest req_state_type)"

definition psci_validate_suspend_req :: "'a plat_port_scheme \<Rightarrow> psci_power_state_t \<Rightarrow> u32 \<Rightarrow> int" where
  "psci_validate_suspend_req e state_info is_power_down_state =
     (let target_lvl = psci_find_target_suspend_lvl e state_info
      in if target_lvl = PSCI_INVALID_PWR_LVL e then PSCI_E_INVALID_PARAMS
         else if \<not> suspend_req_loop e state_info (rev (levels PSCI_CPU_PWR_LVL target_lvl)) STATE_TYPE_RUN
         then PSCI_E_INVALID_PARAMS
         else
           (let max_off_lvl = psci_find_max_off_lvl e state_info;
                max_retn_lvl = (if target_lvl \<noteq> max_off_lvl then target_lvl else PSCI_INVALID_PWR_LVL e)
            in if is_power_down_state = 0 \<and>
                  (max_off_lvl \<noteq> PSCI_INVALID_PWR_LVL e \<or> max_retn_lvl = PSCI_INVALID_PWR_LVL e)
               then PSCI_E_INVALID_PARAMS else PSCI_E_SUCCESS))"

section \<open>Locks along a path\<close>

definition psci_acquire_pwr_domain_locks :: "'w cpu_env \<Rightarrow> nat \<Rightarrow> nat \<Rightarrow> ('w psci_state, unit) prog" where
  "psci_acquire_pwr_domain_locks e end_pwrlvl cpu_idx =
     mbind (cpu_node_parent cpu_idx) (\<lambda>parent_idx.
     mbind (mfold (\<lambda>level parent_idx.
              mbind (psci_lock_get e parent_idx) (\<lambda>_.
              non_cpu_parent_node parent_idx))
            (levels (PSCI_CPU_PWR_LVL + 1) end_pwrlvl) parent_idx) (\<lambda>_.
     mret ()))"

definition psci_release_pwr_domain_locks :: "nat \<Rightarrow> nat \<Rightarrow> ('w psci_state, unit) prog" where
  "psci_release_pwr_domain_locks end_pwrlvl cpu_idx =
     mbind (psci_get_parent_pwr_domain_nodes cpu_idx end_pwrlvl) (\<lambda>parent_nodes.
     mfold (\<lambda>level _.
              mbind (array_get parent_nodes (level - 1)) (\<lambda>parent_idx.
              psci_lock_release parent_idx))
       (rev (levels (PSCI_CPU_PWR_LVL + 1) end_pwrlvl)) ())"

section \<open>Entry points\<close>

definition psci_validate_mpidr :: "'a plat_port_scheme \<Rightarrow> u64 \<Rightarrow> int" where
  "psci_validate_mpidr e mpidr =
     (if plat_core_pos_by_mpidr e mpidr < 0 then PSCI_E_INVALID_PARAMS else PSCI_E_SUCCESS)"

definition SPSR_64 :: "u32 \<Rightarrow> u32 \<Rightarrow> u32 \<Rightarrow> u32" where
  "SPSR_64 el sp daif = (push_bit 2 (el AND 3) OR (sp AND 1)) OR push_bit 6 (daif AND 0xf)"

definition SPSR_MODE32 :: "u32 \<Rightarrow> u32 \<Rightarrow> u32 \<Rightarrow> u32 \<Rightarrow> u32" where
  "SPSR_MODE32 mode isa endian aif =
     push_bit 4 1 OR (mode AND 0xf) OR push_bit 5 (isa AND 1) OR push_bit 9 (endian AND 1)
     OR push_bit 6 (aif AND 7)"

text \<open>The AArch64 version of \<^verbatim>\<open>psci_get_ns_ep_info\<close>: an error code or the entry point.\<close>

definition psci_get_ns_ep_info ::
  "'a cpu_regs_scheme \<Rightarrow> u64 \<Rightarrow> u64 \<Rightarrow> int + entry_point_info_t" where
  "psci_get_ns_ep_info e entrypoint context_id =
     (let hce = (scr_el3 e AND push_bit 8 1 \<noteq> 0);
          sctlr = (if hce then sctlr_el2 e else sctlr_el1 e);
          big = (sctlr AND push_bit 25 1 \<noteq> 0);
          ep = \<lparr>ep_attr = (if big then 1 OR 2 else 1), ep_pc = entrypoint, ep_spsr = 0,
                ep_args = context_id # replicate 7 0\<rparr>
      in if scr_el3 e AND push_bit 10 1 \<noteq> 0 then
           (if entrypoint AND 1 \<noteq> 0 then Inl PSCI_E_INVALID_ADDRESS
            else Inr (ep\<lparr>ep_spsr := SPSR_64 (if hce then 2 else 1) 1 0xf\<rparr>))
         else
           Inr (ep\<lparr>ep_spsr := SPSR_MODE32 (if hce then 0xa else 3) (ucast (entrypoint AND 1))
                      (if big then 1 else 0) 7\<rparr>))"

definition psci_validate_entry_point ::
  "'w cpu_env \<Rightarrow> u64 \<Rightarrow> u64 \<Rightarrow> ('w psci_state, int + entry_point_info_t) prog" where
  "psci_validate_entry_point e entrypoint context_id =
     mbind (mget psci_plat_pm_ops) (\<lambda>ops.
     case validate_ns_entrypoint ops of
       None \<Rightarrow> mret (psci_get_ns_ep_info e entrypoint context_id)
     | Some f \<Rightarrow>
         mbind (lift_world (f (regs e) entrypoint)) (\<lambda>rc.
         if rc \<noteq> PSCI_E_SUCCESS then mret (Inl PSCI_E_INVALID_ADDRESS)
         else mret (psci_get_ns_ep_info e entrypoint context_id)))"

section \<open>Hooks of the secure payload dispatcher and remaining helpers\<close>

definition psci_register_spd_pm_hook :: "'w spd_pm_ops_t \<Rightarrow> ('w psci_state, unit) prog" where
  "psci_register_spd_pm_hook pm =
     mmodify (\<lambda>s. s\<lparr>psci_spd_pm := Some pm,
       psci_caps := psci_caps s
         OR (if svc_migrate pm \<noteq> None then define_psci_cap 0xc4000005 else 0)
         OR (if svc_migrate_info pm \<noteq> None
             then define_psci_cap 0xc4000007 OR define_psci_cap 0x84000006 else 0)\<rparr>)"

text \<open>
  The second component stands for the output parameter; when no hook is called it is what the
  caller's variable held before.
\<close>

definition psci_spd_migrate_info :: "'w cpu_env \<Rightarrow> u64 \<Rightarrow> ('w psci_state, int \<times> u64) prog" where
  "psci_spd_migrate_info e mpidr =
     mbind (mget (spd_hook svc_migrate_info)) (\<lambda>h.
     case h of
       None \<Rightarrow> mret (PSCI_E_NOT_SUPPORTED, mpidr)
     | Some f \<Rightarrow>
         mbind (lift_world (f (regs e))) (\<lambda>(rc, mpidr).
         mbind (c_assert e (rc = PSCI_TOS_UP_MIG_CAP \<or> rc = PSCI_TOS_NOT_UP_MIG_CAP \<or>
                            rc = PSCI_TOS_NOT_PRESENT_MP \<or> rc = PSCI_E_NOT_SUPPORTED)) (\<lambda>_.
         mret (rc, mpidr))))"

definition psci_secondaries_brought_up :: "'w cpu_env \<Rightarrow> ('w psci_state, int) prog" where
  "psci_secondaries_brought_up e =
     mbind (mget psci_cpu_pd_nodes) (\<lambda>cpus.
     let n_valid = length (filter (\<lambda>c. node_mpidr c \<noteq> PSCI_INVALID_MPIDR) cpus)
     in mbind (c_assert e (n_valid > 0)) (\<lambda>_. mret (if n_valid > 1 then 1 else 0)))"

definition psci_do_pwrdown_sequence :: "'w cpu_env \<Rightarrow> nat \<Rightarrow> ('w psci_state, unit) prog" where
  "psci_do_pwrdown_sequence e power_level =
     (if HW_ASSISTED_COHERENCY e then emit (Ev_prepare_cpu_pwr_dwn power_level)
      else emit (Ev_pwrdown_cache_maintenance power_level))"

end
