(* ===== verification/Psci_Stat.thy ===== *)
theory Psci_Stat
  imports Psci_Common
begin

text \<open>
  \<^verbatim>\<open>lib/psci/psci_stat.c\<close> and the residency accounting of \<^verbatim>\<open>plat/common/plat_psci_common.c\<close>: the
  count and residency of every power state of every power domain. A time stamp captured by the
  performance measurement framework is the entry of the executing core in \<open>stat_enter_ts\<close> or
  \<open>stat_exit_ts\<close>.
\<close>

definition get_stat_idx :: "'w cpu_env \<Rightarrow> plat_local_state_t \<Rightarrow> nat \<Rightarrow> ('w psci_state, nat) prog" where
  "get_stat_idx e st pwr_lvl =
     mbind (mget psci_plat_pm_ops) (\<lambda>ops.
     case get_pwr_lvl_state_idx ops of
       None \<Rightarrow>
         mbind (c_assert e (PLAT_MAX_PWR_LVL_STATES e = 2)) (\<lambda>_.
         if is_local_state_retn e st then mret 0
         else mbind (c_assert e (is_local_state_off e st)) (\<lambda>_. mret 1))
     | Some f \<Rightarrow>
         mbind (lift_world (f (regs e) st pwr_lvl)) (\<lambda>idx.
         mbind (c_assert e (idx \<ge> 0 \<and> idx < int (PLAT_MAX_PWR_LVL_STATES e))) (\<lambda>_.
         if idx < 0 then mstop Out_of_bounds else mret (nat idx))))"

definition calc_stat_residency :: "'w cpu_env \<Rightarrow> u64 \<Rightarrow> u64 \<Rightarrow> ('w psci_state, u64) prog" where
  "calc_stat_residency e pwrupts pwrdnts =
     (let residency_div = cntfrq_el0 e div 1000000
      in mbind (c_assert e (residency_div > 0)) (\<lambda>_.
         mret ((if pwrupts < pwrdnts then (NOT 0) - pwrdnts + pwrupts else pwrupts - pwrdnts)
               div residency_div)))"

definition plat_psci_stat_accounting_start :: "'w cpu_env \<Rightarrow> ('w psci_state, unit) prog" where
  "plat_psci_stat_accounting_start e =
     mbind (mget stat_enter_ts) (\<lambda>ts.
     mbind (array_check ts (plat_my_core_pos e)) (\<lambda>_.
     mmodify (\<lambda>s. s\<lparr>stat_enter_ts := (stat_enter_ts s)[plat_my_core_pos e := enter_ts e]\<rparr>)))"

definition plat_psci_stat_accounting_stop :: "'w cpu_env \<Rightarrow> ('w psci_state, unit) prog" where
  "plat_psci_stat_accounting_stop e =
     mbind (mget stat_exit_ts) (\<lambda>ts.
     mbind (array_check ts (plat_my_core_pos e)) (\<lambda>_.
     mmodify (\<lambda>s. s\<lparr>stat_exit_ts := (stat_exit_ts s)[plat_my_core_pos e := exit_ts e]\<rparr>)))"

definition plat_psci_stat_get_residency ::
  "'w cpu_env \<Rightarrow> nat \<Rightarrow> psci_power_state_t \<Rightarrow> nat \<Rightarrow> ('w psci_state, u64) prog" where
  "plat_psci_stat_get_residency e lvl state_info last_cpu_idx =
     mbind (c_assert e (lvl \<le> PLAT_MAX_PWR_LVL e)) (\<lambda>_.
     mbind (c_assert e (last_cpu_idx \<le> PLATFORM_CORE_COUNT e)) (\<lambda>_.
     mbind (c_assert e (lvl = PSCI_CPU_PWR_LVL \<longrightarrow> last_cpu_idx = plat_my_core_pos e)) (\<lambda>_.
     mbind (array_get state_info PSCI_CPU_PWR_LVL) (\<lambda>st.
     mbind (c_assert e (is_local_state_off e st \<or> is_local_state_retn e st)) (\<lambda>_.
     mbind (mget stat_enter_ts) (\<lambda>enter.
     mbind (array_get enter last_cpu_idx) (\<lambda>pwrdn_ts.
     mbind (mget stat_exit_ts) (\<lambda>exit.
     mbind (array_get exit (plat_my_core_pos e)) (\<lambda>pwrup_ts.
     calc_stat_residency e pwrup_ts pwrdn_ts)))))))))"

text \<open>The loop of \<^verbatim>\<open>psci_stats_update_pwr_down\<close>, which stops at the first level that stays in RUN.\<close>

fun stats_pwr_down_loop ::
  "'w cpu_env \<Rightarrow> psci_power_state_t \<Rightarrow> nat list \<Rightarrow> nat \<Rightarrow> ('w psci_state, unit) prog" where
  "stats_pwr_down_loop e state_info [] parent_idx = mret ()"
| "stats_pwr_down_loop e state_info (lvl # rest) parent_idx =
     mbind (array_get state_info lvl) (\<lambda>st.
     if is_local_state_run st then mret ()
     else
       mbind (mget last_cpu_in_non_cpu_pd) (\<lambda>last.
       mbind (array_check last parent_idx) (\<lambda>_.
       mbind (mmodify (\<lambda>s. s\<lparr>last_cpu_in_non_cpu_pd :=
                (last_cpu_in_non_cpu_pd s)[parent_idx := int (plat_my_core_pos e)]\<rparr>)) (\<lambda>_.
       mbind (non_cpu_parent_node parent_idx) (\<lambda>parent_idx.
       stats_pwr_down_loop e state_info rest parent_idx)))))"

definition psci_stats_update_pwr_down ::
  "'w cpu_env \<Rightarrow> nat \<Rightarrow> psci_power_state_t \<Rightarrow> ('w psci_state, unit) prog" where
  "psci_stats_update_pwr_down e end_pwrlvl state_info =
     mbind (c_assert e (end_pwrlvl \<le> PLAT_MAX_PWR_LVL e)) (\<lambda>_.
     mbind (cpu_node_parent (plat_my_core_pos e)) (\<lambda>parent_idx.
     stats_pwr_down_loop e state_info (levels (PSCI_CPU_PWR_LVL + 1) end_pwrlvl) parent_idx))"

text \<open>\<^verbatim>\<open>row[idx].residency += residency; row[idx].count++\<close> in a table of statistics.\<close>

definition stat_bump :: "u64 \<Rightarrow> psci_stat_t \<Rightarrow> psci_stat_t" where
  "stat_bump residency st =
     st\<lparr>stat_residency := stat_residency st + residency, stat_count := stat_count st + 1\<rparr>"

definition bump_cpu_stat :: "nat \<Rightarrow> nat \<Rightarrow> u64 \<Rightarrow> ('w psci_state, unit) prog" where
  "bump_cpu_stat i idx residency =
     mbind (mget psci_cpu_stat) (\<lambda>tab.
     mbind (array_get tab i) (\<lambda>row.
     mbind (array_check row idx) (\<lambda>_.
     mmodify (\<lambda>s. s\<lparr>psci_cpu_stat := (psci_cpu_stat s)
       [i := (psci_cpu_stat s ! i)[idx := stat_bump residency (psci_cpu_stat s ! i ! idx)]]\<rparr>))))"

definition bump_non_cpu_stat :: "nat \<Rightarrow> nat \<Rightarrow> u64 \<Rightarrow> ('w psci_state, unit) prog" where
  "bump_non_cpu_stat i idx residency =
     mbind (mget psci_non_cpu_stat) (\<lambda>tab.
     mbind (array_get tab i) (\<lambda>row.
     mbind (array_check row idx) (\<lambda>_.
     mmodify (\<lambda>s. s\<lparr>psci_non_cpu_stat := (psci_non_cpu_stat s)
       [i := (psci_non_cpu_stat s ! i)[idx := stat_bump residency (psci_non_cpu_stat s ! i ! idx)]]\<rparr>))))"

fun stats_pwr_up_loop ::
  "'w cpu_env \<Rightarrow> psci_power_state_t \<Rightarrow> nat list \<Rightarrow> nat \<Rightarrow> ('w psci_state, unit) prog" where
  "stats_pwr_up_loop e state_info [] parent_idx = mret ()"
| "stats_pwr_up_loop e state_info (lvl # rest) parent_idx =
     mbind (array_get state_info lvl) (\<lambda>st.
     if is_local_state_run st then mret ()
     else
       mbind (mget last_cpu_in_non_cpu_pd) (\<lambda>last.
       mbind (array_get last parent_idx) (\<lambda>last_cpu.
       mbind (c_assert e (last_cpu \<noteq> -1)) (\<lambda>_.
       mbind (if last_cpu < 0 then mstop Out_of_bounds
              else plat_psci_stat_get_residency e lvl state_info (nat last_cpu)) (\<lambda>residency.
       mbind (mmodify (\<lambda>s. s\<lparr>last_cpu_in_non_cpu_pd :=
                (last_cpu_in_non_cpu_pd s)[parent_idx := -1]\<rparr>)) (\<lambda>_.
       mbind (get_stat_idx e st lvl) (\<lambda>stat_idx.
       mbind (bump_non_cpu_stat parent_idx stat_idx residency) (\<lambda>_.
       mbind (non_cpu_parent_node parent_idx) (\<lambda>parent_idx.
       stats_pwr_up_loop e state_info rest parent_idx)))))))))"

definition psci_stats_update_pwr_up ::
  "'w cpu_env \<Rightarrow> nat \<Rightarrow> psci_power_state_t \<Rightarrow> ('w psci_state, unit) prog" where
  "psci_stats_update_pwr_up e end_pwrlvl state_info =
     mbind (c_assert e (end_pwrlvl \<le> PLAT_MAX_PWR_LVL e)) (\<lambda>_.
     mbind (array_get state_info PSCI_CPU_PWR_LVL) (\<lambda>st.
     mbind (get_stat_idx e st PSCI_CPU_PWR_LVL) (\<lambda>stat_idx.
     mbind (plat_psci_stat_get_residency e PSCI_CPU_PWR_LVL state_info (plat_my_core_pos e)) (\<lambda>residency.
     mbind (bump_cpu_stat (plat_my_core_pos e) stat_idx residency) (\<lambda>_.
     mbind (cpu_node_parent (plat_my_core_pos e)) (\<lambda>parent_idx.
     mbind (mget last_cpu_in_non_cpu_pd) (\<lambda>last.
     mbind (array_get last parent_idx) (\<lambda>last_cpu.
     if last_cpu = -1 then mret ()
     else stats_pwr_up_loop e state_info (levels (PSCI_CPU_PWR_LVL + 1) end_pwrlvl) parent_idx))))))))"

text \<open>\<^verbatim>\<open>psci_get_stat\<close>: an error code, or the statistics of the domain and state asked for.\<close>

definition psci_get_stat :: "'w cpu_env \<Rightarrow> u64 \<Rightarrow> u32 \<Rightarrow> ('w psci_state, int + psci_stat_t) prog" where
  "psci_get_stat e target_cpu power_state =
     (let pos = plat_core_pos_by_mpidr e target_cpu; target_idx = nat (pos mod 2 ^ 32);
          run = replicate (PLAT_MAX_PWR_LVL e + 1) PSCI_LOCAL_STATE_RUN
      in if pos = -1 then mret (Inl PSCI_E_INVALID_PARAMS)
         else
           mbind (mget psci_plat_pm_ops) (\<lambda>ops.
           mbind (case translate_power_state_by_mpidr ops of
                    None \<Rightarrow> psci_validate_power_state e power_state run
                  | Some f \<Rightarrow> lift_world (f (regs e) target_cpu power_state run)) (\<lambda>(rc, state_info).
           if rc \<noteq> PSCI_E_SUCCESS then mret (Inl PSCI_E_INVALID_PARAMS)
           else
             let pwrlvl = psci_find_target_suspend_lvl e state_info
             in if pwrlvl = PSCI_INVALID_PWR_LVL e then mstop Panicked
                else
                  mbind (array_get state_info pwrlvl) (\<lambda>st.
                  mbind (get_stat_idx e st pwrlvl) (\<lambda>stat_idx.
                  if pwrlvl > PSCI_CPU_PWR_LVL then
                    mbind (cpu_node_parent target_idx) (\<lambda>parent_idx.
                    mbind (mfold (\<lambda>lvl. non_cpu_parent_node)
                             [PSCI_CPU_PWR_LVL + 1..<pwrlvl] parent_idx) (\<lambda>parent_idx.
                    mbind (mget psci_non_cpu_stat) (\<lambda>tab.
                    mbind (array_get tab parent_idx) (\<lambda>row.
                    mbind (array_get row stat_idx) (\<lambda>r. mret (Inr r))))))
                  else
                    mbind (mget psci_cpu_stat) (\<lambda>tab.
                    mbind (array_get tab target_idx) (\<lambda>row.
                    mbind (array_get row stat_idx) (\<lambda>r. mret (Inr r)))))))))"

definition psci_stat_residency :: "'w cpu_env \<Rightarrow> u64 \<Rightarrow> u32 \<Rightarrow> ('w psci_state, u64) prog" where
  "psci_stat_residency e target_cpu power_state =
     mbind (psci_get_stat e target_cpu power_state) (\<lambda>r.
     mret (case r of Inl _ \<Rightarrow> 0 | Inr st \<Rightarrow> stat_residency st))"

definition psci_stat_count :: "'w cpu_env \<Rightarrow> u64 \<Rightarrow> u32 \<Rightarrow> ('w psci_state, u64) prog" where
  "psci_stat_count e target_cpu power_state =
     mbind (psci_get_stat e target_cpu power_state) (\<lambda>r.
     mret (case r of Inl _ \<Rightarrow> 0 | Inr st \<Rightarrow> stat_count st))"

end
