(* ===== verification/Psci_Power.thy ===== *)
theory Psci_Power
  imports Psci_Stat
begin

text \<open>
  The power operations of the library: \<^verbatim>\<open>lib/psci/psci_on.c\<close>, \<^verbatim>\<open>psci_off.c\<close>, \<^verbatim>\<open>psci_suspend.c\<close>,
  \<^verbatim>\<open>psci_system_off.c\<close>, \<^verbatim>\<open>psci_mem_protect.c\<close> and \<^verbatim>\<open>psci_warmboot_entrypoint\<close> of \<^verbatim>\<open>psci_common.c\<close>.
  Each definition is the whole C function, in its order of effects. A core that reaches its final
  wait for interrupt leaves with \<open>Stop Powered_down\<close>. When a core waits in a standby state and
  wakes up again, the function \<open>wfi_others\<close> of its environment describes what the other cores did
  to the shared state in between.
\<close>

section \<open>psci\_setup.c: architectural setup\<close>

definition psci_arch_setup :: "'w cpu_env \<Rightarrow> ('w psci_state, unit) prog" where
  "psci_arch_setup e =
     mbind (emit (Ev_write_cntfrq_el0 (plat_syscnt_freq2 e))) (\<lambda>_.
     mbind (emit Ev_init_cpu_ops) (\<lambda>_.
     emit Ev_print_errata_status))"

text \<open>
  \<^verbatim>\<open>cm_init_context_by_index\<close>: the non-secure context of a core is initialised from an entry
  point (EL3 context management, outside the library).
\<close>

definition cm_init_context_by_index :: "nat \<Rightarrow> entry_point_info_t \<Rightarrow> ('w psci_state, unit) prog" where
  "cm_init_context_by_index idx ep =
     mbind (mget psci_ns_context) (\<lambda>ctx.
     mbind (array_check ctx idx) (\<lambda>_.
     mmodify (\<lambda>s. s\<lparr>psci_ns_context := (psci_ns_context s)[idx := Some ep]\<rparr>)))"

section \<open>psci\_on.c\<close>

definition psci_spin_lock_cpu :: "'w cpu_env \<Rightarrow> nat \<Rightarrow> ('w psci_state, unit) prog" where
  "psci_spin_lock_cpu e idx =
     mbind (mget psci_cpu_pd_nodes) (\<lambda>cpus.
     mbind (array_get cpus idx) (\<lambda>c.
     if cpu_lock c = None
     then mmodify (\<lambda>s. s\<lparr>psci_cpu_pd_nodes := (psci_cpu_pd_nodes s)
            [idx := (psci_cpu_pd_nodes s ! idx)\<lparr>cpu_lock := Some (plat_my_core_pos e)\<rparr>]\<rparr>)
     else mstop Blocked))"

definition psci_spin_unlock_cpu :: "nat \<Rightarrow> ('w psci_state, unit) prog" where
  "psci_spin_unlock_cpu idx =
     mbind (mget psci_cpu_pd_nodes) (\<lambda>cpus.
     mbind (array_check cpus idx) (\<lambda>_.
     mmodify (\<lambda>s. s\<lparr>psci_cpu_pd_nodes := (psci_cpu_pd_nodes s)
       [idx := (psci_cpu_pd_nodes s ! idx)\<lparr>cpu_lock := None\<rparr>]\<rparr>)))"

definition cpu_on_validate_state :: "aff_info_state_t \<Rightarrow> int" where
  "cpu_on_validate_state aff_state =
     (if aff_state = AFF_STATE_ON then PSCI_E_ALREADY_ON
      else if aff_state = AFF_STATE_ON_PENDING then PSCI_E_ON_PENDING
      else PSCI_E_SUCCESS)"

text \<open>The part of \<^verbatim>\<open>psci_cpu_on_start\<close> after the state of the target has been found to be OFF.\<close>

definition cpu_on_request :: "'w cpu_env \<Rightarrow> u64 \<Rightarrow> nat \<Rightarrow> entry_point_info_t \<Rightarrow> ('w psci_state, int) prog" where
  "cpu_on_request e target_cpu target_idx ep =
     mbind (mget (spd_hook svc_on)) (\<lambda>h.
     mbind (call_if_set h (\<lambda>f. f (regs e) target_cpu)) (\<lambda>_.
     mbind (psci_set_aff_info_state_by_idx target_idx AFF_STATE_ON_PENDING) (\<lambda>_.
     mbind (psci_get_aff_info_state_by_idx target_idx) (\<lambda>target_aff_state.
     mbind (mwhen (target_aff_state \<noteq> AFF_STATE_ON_PENDING)
       (mbind (c_assert e (target_aff_state = AFF_STATE_OFF)) (\<lambda>_.
        mbind (psci_set_aff_info_state_by_idx target_idx AFF_STATE_ON_PENDING) (\<lambda>_.
        mbind (psci_get_aff_info_state_by_idx target_idx) (\<lambda>a.
        c_assert e (a = AFF_STATE_ON_PENDING)))))) (\<lambda>_.
     mbind (mget psci_plat_pm_ops) (\<lambda>ops.
     mbind (call_hook (pwr_domain_on ops) (\<lambda>f. f (regs e) target_cpu)) (\<lambda>rc.
     mbind (c_assert e (rc = PSCI_E_SUCCESS \<or> rc = PSCI_E_INTERN_FAIL)) (\<lambda>_.
     mbind (if rc = PSCI_E_SUCCESS then cm_init_context_by_index target_idx ep
            else psci_set_aff_info_state_by_idx target_idx AFF_STATE_OFF) (\<lambda>_.
     mret rc)))))))))"

definition psci_cpu_on_start :: "'w cpu_env \<Rightarrow> u64 \<Rightarrow> entry_point_info_t \<Rightarrow> ('w psci_state, int) prog" where
  "psci_cpu_on_start e target_cpu ep =
     (let pos = plat_core_pos_by_mpidr e target_cpu; target_idx = nat pos
      in mbind (c_assert e (pos \<ge> 0)) (\<lambda>_.
         mbind (mget psci_plat_pm_ops) (\<lambda>ops.
         mbind (c_assert e (pwr_domain_on ops \<noteq> None \<and> pwr_domain_on_finish ops \<noteq> None)) (\<lambda>_.
         mbind (if pos < 0 then mstop Out_of_bounds else psci_spin_lock_cpu e target_idx) (\<lambda>_.
         mbind (psci_get_aff_info_state_by_idx target_idx) (\<lambda>aff_state.
         mbind (let rc = cpu_on_validate_state aff_state
                in if rc \<noteq> PSCI_E_SUCCESS then mret rc
                   else cpu_on_request e target_cpu target_idx ep) (\<lambda>rc.
         mbind (psci_spin_unlock_cpu target_idx) (\<lambda>_.
         mret rc))))))))"

definition psci_cpu_on_finish :: "'w cpu_env \<Rightarrow> nat \<Rightarrow> psci_power_state_t \<Rightarrow> ('w psci_state, unit) prog" where
  "psci_cpu_on_finish e cpu_idx state_info =
     mbind (mget psci_plat_pm_ops) (\<lambda>ops.
     mbind (call_hook (pwr_domain_on_finish ops) (\<lambda>f. f (regs e) state_info)) (\<lambda>_.
     mbind (mwhen (\<not> (HW_ASSISTED_COHERENCY e \<or> WARMBOOT_ENABLE_DCACHE_EARLY e))
              (emit Ev_pwrup_cache_maintenance)) (\<lambda>_.
     mbind (psci_arch_setup e) (\<lambda>_.
     mbind (psci_spin_lock_cpu e cpu_idx) (\<lambda>_.
     mbind (psci_spin_unlock_cpu cpu_idx) (\<lambda>_.
     mbind (psci_get_aff_info_state e) (\<lambda>a.
     mbind (c_assert e (a = AFF_STATE_ON_PENDING)) (\<lambda>_.
     mbind (mget (spd_hook svc_on_finish)) (\<lambda>h.
     mbind (call_if_set h (\<lambda>f. f (regs e) 0)) (\<lambda>_.
     mbind (emit Ev_cpu_on_finish) (\<lambda>_.
     mbind (mmodify (\<lambda>s. s\<lparr>psci_cpu_pd_nodes := (psci_cpu_pd_nodes s)
              [cpu_idx := (psci_cpu_pd_nodes s ! cpu_idx)\<lparr>node_mpidr := mpidr_el1 e AND 0xff00ffffff\<rparr>]\<rparr>)) (\<lambda>_.
     emit Ev_prepare_el3_exit))))))))))))"

section \<open>psci\_off.c\<close>

definition psci_set_power_off_state :: "'a plat_port_scheme \<Rightarrow> psci_power_state_t" where
  "psci_set_power_off_state e = replicate (PLAT_MAX_PWR_LVL e + 1) (PLAT_MAX_OFF_STATE e)"

text \<open>
  \<^verbatim>\<open>pwr_domain_pwr_down_wfi\<close> or, without that hook, \<^verbatim>\<open>psci_power_down_wfi\<close>: the core does not
  come back.
\<close>

definition final_wfi :: "'w cpu_env \<Rightarrow> psci_power_state_t \<Rightarrow> ('w psci_state, 'a) prog" where
  "final_wfi e state_info =
     mbind (mget psci_plat_pm_ops) (\<lambda>ops.
     mbind (case pwr_domain_pwr_down_wfi ops of
              Some f \<Rightarrow> mbind (lift_world (f (regs e) state_info)) (\<lambda>_. emit Ev_plat_wfi)
            | None \<Rightarrow> emit Ev_wfi) (\<lambda>_.
     mstop Powered_down))"

definition psci_do_cpu_off :: "'w cpu_env \<Rightarrow> nat \<Rightarrow> ('w psci_state, int) prog" where
  "psci_do_cpu_off e end_pwrlvl =
     mbind (mget psci_plat_pm_ops) (\<lambda>ops.
     mbind (c_assert e (pwr_domain_off ops \<noteq> None)) (\<lambda>_.
     mbind (psci_acquire_pwr_domain_locks e end_pwrlvl (plat_my_core_pos e)) (\<lambda>_.
     mbind (mget (spd_hook svc_off)) (\<lambda>h.
     mbind (case h of None \<Rightarrow> mret PSCI_E_SUCCESS | Some f \<Rightarrow> lift_world (f (regs e) 0)) (\<lambda>rc.
     mbind
       (if rc \<noteq> 0 then mret (psci_set_power_off_state e)
        else
          mbind (psci_do_state_coordination e end_pwrlvl (psci_set_power_off_state e)) (\<lambda>state_info.
          mbind (mwhen (ENABLE_PSCI_STAT e) (psci_stats_update_pwr_down e end_pwrlvl state_info)) (\<lambda>_.
          mbind (psci_do_pwrdown_sequence e (psci_find_max_off_lvl e state_info)) (\<lambda>_.
          mbind (call_hook (pwr_domain_off ops) (\<lambda>f. f (regs e) state_info)) (\<lambda>_.
          mbind (mwhen (ENABLE_PSCI_STAT e) (plat_psci_stat_accounting_start e)) (\<lambda>_.
          mret state_info)))))) (\<lambda>state_info.
     mbind (psci_release_pwr_domain_locks end_pwrlvl (plat_my_core_pos e)) (\<lambda>_.
     if rc = PSCI_E_SUCCESS then
       mbind (psci_set_aff_info_state e AFF_STATE_OFF) (\<lambda>_.
       final_wfi e state_info)
     else mret rc)))))))"

section \<open>psci\_suspend.c\<close>

definition psci_suspend_to_standby_finisher :: "'w cpu_env \<Rightarrow> nat \<Rightarrow> nat \<Rightarrow> ('w psci_state, unit) prog" where
  "psci_suspend_to_standby_finisher e cpu_idx end_pwrlvl =
     mbind (psci_acquire_pwr_domain_locks e end_pwrlvl cpu_idx) (\<lambda>_.
     mbind (psci_get_target_local_pwr_states e end_pwrlvl (uninit_power_state e)) (\<lambda>state_info.
     mbind (mwhen (ENABLE_PSCI_STAT e)
              (mbind (plat_psci_stat_accounting_stop e) (\<lambda>_.
               psci_stats_update_pwr_up e end_pwrlvl state_info))) (\<lambda>_.
     mbind (mget psci_plat_pm_ops) (\<lambda>ops.
     mbind (call_hook (pwr_domain_suspend_finish ops) (\<lambda>f. f (regs e) state_info)) (\<lambda>_.
     mbind (psci_set_pwr_domains_to_run e end_pwrlvl) (\<lambda>_.
     psci_release_pwr_domain_locks end_pwrlvl cpu_idx))))))"

definition psci_suspend_to_pwrdown_start ::
  "'w cpu_env \<Rightarrow> nat \<Rightarrow> entry_point_info_t \<Rightarrow> psci_power_state_t \<Rightarrow> ('w psci_state, unit) prog" where
  "psci_suspend_to_pwrdown_start e end_pwrlvl ep state_info =
     (let max_off_lvl = psci_find_max_off_lvl e state_info
      in mbind (emit Ev_suspend_pwrdown_start) (\<lambda>_.
         mbind (psci_set_suspend_pwrlvl e end_pwrlvl) (\<lambda>_.
         mbind (mget (spd_hook svc_suspend)) (\<lambda>h.
         mbind (call_if_set h (\<lambda>f. f (regs e) (of_nat max_off_lvl))) (\<lambda>_.
         mbind (mget psci_plat_pm_ops) (\<lambda>ops.
         mbind (mwhen (\<not> HW_ASSISTED_COHERENCY e)
                  (call_if_set (pwr_domain_suspend_pwrdown_early ops) (\<lambda>f. f (regs e) state_info))) (\<lambda>_.
         mbind (cm_init_context_by_index (plat_my_core_pos e) ep) (\<lambda>_.
         psci_do_pwrdown_sequence e max_off_lvl))))))))"

text \<open>
  \<^verbatim>\<open>psci_cpu_suspend_start\<close> up to the point where the locks have been released: \<open>None\<close> when a
  pending interrupt made it give up, otherwise the negotiated states.
\<close>

definition suspend_start_locked ::
  "'w cpu_env \<Rightarrow> entry_point_info_t \<Rightarrow> nat \<Rightarrow> psci_power_state_t \<Rightarrow> u32 \<Rightarrow>
    ('w psci_state, psci_power_state_t option) prog" where
  "suspend_start_locked e ep end_pwrlvl state_info is_power_down_state =
     mbind (mget psci_plat_pm_ops) (\<lambda>ops.
     mbind (c_assert e (pwr_domain_suspend ops \<noteq> None \<and> pwr_domain_suspend_finish ops \<noteq> None)) (\<lambda>_.
     mbind (psci_acquire_pwr_domain_locks e end_pwrlvl (plat_my_core_pos e)) (\<lambda>_.
     mbind
       (if isr_el1 e \<noteq> 0 then mret None
        else
          mbind (psci_do_state_coordination e end_pwrlvl state_info) (\<lambda>state_info.
          mbind (mwhen (ENABLE_PSCI_STAT e) (psci_stats_update_pwr_down e end_pwrlvl state_info)) (\<lambda>_.
          mbind (mwhen (is_power_down_state \<noteq> 0)
                   (psci_suspend_to_pwrdown_start e end_pwrlvl ep state_info)) (\<lambda>_.
          mbind (call_hook (pwr_domain_suspend ops) (\<lambda>f. f (regs e) state_info)) (\<lambda>_.
          mbind (mwhen (ENABLE_PSCI_STAT e) (plat_psci_stat_accounting_start e)) (\<lambda>_.
          mret (Some state_info))))))) (\<lambda>r.
     mbind (psci_release_pwr_domain_locks end_pwrlvl (plat_my_core_pos e)) (\<lambda>_.
     mret r)))))"

definition psci_cpu_suspend_start ::
  "'w cpu_env \<Rightarrow> entry_point_info_t \<Rightarrow> nat \<Rightarrow> psci_power_state_t \<Rightarrow> u32 \<Rightarrow> ('w psci_state, unit) prog" where
  "psci_cpu_suspend_start e ep end_pwrlvl state_info is_power_down_state =
     mbind (suspend_start_locked e ep end_pwrlvl state_info is_power_down_state) (\<lambda>r.
     case r of
       None \<Rightarrow> mret ()
     | Some state_info \<Rightarrow>
         if is_power_down_state \<noteq> 0 then final_wfi e state_info
         else
           mbind (emit Ev_wfi) (\<lambda>_.
           mbind (mmodify (wfi_others e)) (\<lambda>_.
           psci_suspend_to_standby_finisher e (plat_my_core_pos e) end_pwrlvl)))"

definition psci_cpu_suspend_finish ::
  "'w cpu_env \<Rightarrow> nat \<Rightarrow> psci_power_state_t \<Rightarrow> ('w psci_state, unit) prog" where
  "psci_cpu_suspend_finish e cpu_idx state_info =
     mbind (psci_get_aff_info_state e) (\<lambda>a.
     mbind (array_get state_info PSCI_CPU_PWR_LVL) (\<lambda>st0.
     mbind (c_assert e (a = AFF_STATE_ON \<and> is_local_state_off e st0)) (\<lambda>_.
     mbind (mget psci_plat_pm_ops) (\<lambda>ops.
     mbind (call_hook (pwr_domain_suspend_finish ops) (\<lambda>f. f (regs e) state_info)) (\<lambda>_.
     mbind (mwhen (\<not> (HW_ASSISTED_COHERENCY e \<or> WARMBOOT_ENABLE_DCACHE_EARLY e))
              (emit Ev_pwrup_cache_maintenance)) (\<lambda>_.
     mbind (emit (Ev_write_cntfrq_el0 (plat_syscnt_freq2 e))) (\<lambda>_.
     mbind (mget (spd_hook svc_suspend_finish)) (\<lambda>h.
     mbind (case h of
              None \<Rightarrow> mret ()
            | Some f \<Rightarrow>
                let max_off_lvl = psci_find_max_off_lvl e state_info
                in mbind (c_assert e (max_off_lvl \<noteq> PSCI_INVALID_PWR_LVL e)) (\<lambda>_.
                   lift_world (f (regs e) (of_nat max_off_lvl)))) (\<lambda>_.
     mbind (psci_set_suspend_pwrlvl e (PSCI_INVALID_PWR_LVL e)) (\<lambda>_.
     mbind (emit Ev_suspend_pwrdown_finish) (\<lambda>_.
     emit Ev_prepare_el3_exit)))))))))))"

section \<open>psci\_common.c: the warm boot entry point\<close>

definition psci_warmboot_entrypoint :: "'w cpu_env \<Rightarrow> ('w psci_state, unit) prog" where
  "psci_warmboot_entrypoint e =
     mbind (psci_get_aff_info_state e) (\<lambda>a.
     if a = AFF_STATE_OFF then mstop Panicked
     else
       mbind (get_power_on_target_pwrlvl e) (\<lambda>end_pwrlvl.
       mbind (psci_acquire_pwr_domain_locks e end_pwrlvl (plat_my_core_pos e)) (\<lambda>_.
       mbind (psci_get_target_local_pwr_states e end_pwrlvl
                (replicate (PLAT_MAX_PWR_LVL e + 1) PSCI_LOCAL_STATE_RUN)) (\<lambda>state_info.
       mbind (mwhen (ENABLE_PSCI_STAT e) (plat_psci_stat_accounting_stop e)) (\<lambda>_.
       mbind (psci_get_aff_info_state e) (\<lambda>a.
       mbind (if a = AFF_STATE_ON_PENDING then psci_cpu_on_finish e (plat_my_core_pos e) state_info
              else psci_cpu_suspend_finish e (plat_my_core_pos e) state_info) (\<lambda>_.
       mbind (psci_set_pwr_domains_to_run e end_pwrlvl) (\<lambda>_.
       mbind (mwhen (ENABLE_PSCI_STAT e) (psci_stats_update_pwr_up e end_pwrlvl state_info)) (\<lambda>_.
       psci_release_pwr_domain_locks end_pwrlvl (plat_my_core_pos e))))))))))"

section \<open>psci\_system\_off.c and psci\_mem\_protect.c\<close>

definition psci_system_off :: "'w cpu_env \<Rightarrow> ('w psci_state, 'a) prog" where
  "psci_system_off e =
     mbind (mget psci_plat_pm_ops) (\<lambda>ops.
     mbind (c_assert e (system_off ops \<noteq> None)) (\<lambda>_.
     mbind (mget (spd_hook svc_system_off)) (\<lambda>h.
     mbind (call_if_set h (\<lambda>f. f (regs e))) (\<lambda>_.
     mbind (emit Ev_console_flush) (\<lambda>_.
     mbind (call_hook (system_off ops) (\<lambda>f. f (regs e))) (\<lambda>_.
     mstop System_halted))))))"

definition psci_system_reset :: "'w cpu_env \<Rightarrow> ('w psci_state, 'a) prog" where
  "psci_system_reset e =
     mbind (mget psci_plat_pm_ops) (\<lambda>ops.
     mbind (c_assert e (system_reset ops \<noteq> None)) (\<lambda>_.
     mbind (mget (spd_hook svc_system_reset)) (\<lambda>h.
     mbind (call_if_set h (\<lambda>f. f (regs e))) (\<lambda>_.
     mbind (emit Ev_console_flush) (\<lambda>_.
     mbind (call_hook (system_reset ops) (\<lambda>f. f (regs e))) (\<lambda>_.
     mstop System_halted))))))"

definition psci_system_reset2 :: "'w cpu_env \<Rightarrow> u32 \<Rightarrow> u64 \<Rightarrow> ('w psci_state, u64) prog" where
  "psci_system_reset2 e reset_type cookie =
     mbind (mget psci_plat_pm_ops) (\<lambda>ops.
     mbind (c_assert e (system_reset2 ops \<noteq> None)) (\<lambda>_.
     let is_vendor = drop_bit 31 reset_type AND 1;
         go = mbind (mget (spd_hook svc_system_reset)) (\<lambda>h.
              mbind (call_if_set h (\<lambda>f. f (regs e))) (\<lambda>_.
              mbind (emit Ev_console_flush) (\<lambda>_.
              mbind (call_hook (system_reset2 ops) (\<lambda>f. f (regs e) (uint is_vendor) (sint reset_type) cookie)) (\<lambda>rc.
              mret (word_of_int rc)))))
     in if is_vendor = 0 then
          (if reset_type \<noteq> 0 then mret (word_of_int PSCI_E_INVALID_PARAMS)
           else
             (case write_mem_protect ops of
                None \<Rightarrow> go
              | Some f \<Rightarrow>
                  mbind (lift_world (f (regs e) 0)) (\<lambda>rc.
                  if rc < 0 then mret (word_of_int PSCI_E_NOT_SUPPORTED) else go)))
        else go))"

definition psci_mem_protect :: "'w cpu_env \<Rightarrow> u32 \<Rightarrow> ('w psci_state, u64) prog" where
  "psci_mem_protect e enable =
     mbind (mget psci_plat_pm_ops) (\<lambda>ops.
     mbind (c_assert e (read_mem_protect ops \<noteq> None)) (\<lambda>_.
     mbind (c_assert e (write_mem_protect ops \<noteq> None)) (\<lambda>_.
     mbind (call_hook (read_mem_protect ops) (\<lambda>f. f (regs e))) (\<lambda>(rc, val).
     if rc < 0 then mret (word_of_int PSCI_E_NOT_SUPPORTED)
     else
       mbind (call_hook (write_mem_protect ops) (\<lambda>f. f (regs e) (sint enable))) (\<lambda>rc.
       if rc < 0 then mret (word_of_int PSCI_E_NOT_SUPPORTED)
       else mret (if val \<noteq> 0 then 1 else 0))))))"

definition check_uptr_overflow :: "u64 \<Rightarrow> u64 \<Rightarrow> bool" where
  "check_uptr_overflow ptr inc \<longleftrightarrow> ptr > (NOT 0) - inc"

definition psci_mem_chk_range :: "'w cpu_env \<Rightarrow> u64 \<Rightarrow> u64 \<Rightarrow> ('w psci_state, u64) prog" where
  "psci_mem_chk_range e base len =
     mbind (mget psci_plat_pm_ops) (\<lambda>ops.
     mbind (c_assert e (mem_protect_chk ops \<noteq> None)) (\<lambda>_.
     if len = 0 \<or> check_uptr_overflow base (len - 1) then mret (word_of_int PSCI_E_DENIED)
     else
       mbind (call_hook (mem_protect_chk ops) (\<lambda>f. f (regs e) base len)) (\<lambda>ret.
       mret (if ret < 0 then word_of_int PSCI_E_DENIED else word_of_int PSCI_E_SUCCESS))))"

end
