(* ===== verification/Psci_Setup.thy ===== *)
theory Psci_Setup
  imports Psci_Power
begin

text \<open>
  \<^verbatim>\<open>lib/psci/psci_setup.c\<close>: building the power domain tree from the platform's topology
  descriptor, the limits of every domain, and the capabilities of the library.
\<close>

section \<open>Building the tree\<close>

definition psci_init_pwr_domain_node :: "'w cpu_env \<Rightarrow> nat \<Rightarrow> nat \<Rightarrow> nat \<Rightarrow> ('w psci_state, unit) prog" where
  "psci_init_pwr_domain_node e node_idx parent_idx level =
     (if level > PSCI_CPU_PWR_LVL then
        mbind (mget psci_non_cpu_pd_nodes) (\<lambda>nodes.
        mbind (array_check nodes node_idx) (\<lambda>_.
        mmodify (\<lambda>s.
          let nodes = psci_non_cpu_pd_nodes s;
              nodes = nodes[node_idx := (nodes ! node_idx)\<lparr>pd_level := level\<rparr>];
              nodes = psci_lock_init nodes node_idx;
              nodes = nodes[node_idx := (nodes ! node_idx)\<lparr>parent_node := parent_idx,
                              local_state := PLAT_MAX_OFF_STATE e\<rparr>]
          in s\<lparr>psci_non_cpu_pd_nodes := nodes\<rparr>)))
      else
        mbind (mget psci_cpu_pd_nodes) (\<lambda>cpus.
        mbind (array_check cpus node_idx) (\<lambda>_.
        mbind (mmodify (\<lambda>s. s\<lparr>psci_cpu_pd_nodes := (psci_cpu_pd_nodes s)
                 [node_idx := (psci_cpu_pd_nodes s ! node_idx)
                    \<lparr>cpu_parent_node := parent_idx, node_mpidr := PSCI_INVALID_MPIDR\<rparr>]\<rparr>)) (\<lambda>_.
        mbind (mget psci_svc_cpu_data) (\<lambda>d.
        mbind (array_check d node_idx) (\<lambda>_.
        mbind (mmodify (\<lambda>s. s\<lparr>psci_svc_cpu_data := (psci_svc_cpu_data s)
                 [node_idx := (psci_svc_cpu_data s ! node_idx)
                    \<lparr>aff_info_state := AFF_STATE_OFF, target_pwrlvl := PSCI_INVALID_PWR_LVL e,
                     cpu_local_state := PLAT_MAX_OFF_STATE e\<rparr>]\<rparr>)) (\<lambda>_.
        mbind (mget psci_ns_context) (\<lambda>ctx.
        array_check ctx node_idx))))))))"

text \<open>One CPU of \<^verbatim>\<open>psci_update_pwrlvl_limits\<close>; the accumulator is the array \<^verbatim>\<open>nodes_idx\<close>.\<close>

definition update_limits_of_cpu :: "'w cpu_env \<Rightarrow> nat \<Rightarrow> nat list \<Rightarrow> ('w psci_state, nat list) prog" where
  "update_limits_of_cpu e cpu_idx nodes_idx =
     mbind (psci_get_parent_pwr_domain_nodes cpu_idx (PLAT_MAX_PWR_LVL e)) (\<lambda>temp_index.
     mfold (\<lambda>j nodes_idx.
       mbind (array_get temp_index j) (\<lambda>t.
       mbind (array_get nodes_idx j) (\<lambda>n.
       mbind (mget psci_non_cpu_pd_nodes) (\<lambda>nodes.
       mbind (array_check nodes t) (\<lambda>_.
       mbind (mwhen (t \<noteq> n) (mmodify (\<lambda>s. s\<lparr>psci_non_cpu_pd_nodes := (psci_non_cpu_pd_nodes s)
                [t := (psci_non_cpu_pd_nodes s ! t)\<lparr>cpu_start_idx := cpu_idx\<rparr>]\<rparr>))) (\<lambda>_.
       mbind (mmodify (\<lambda>s. s\<lparr>psci_non_cpu_pd_nodes := (psci_non_cpu_pd_nodes s)
                [t := (psci_non_cpu_pd_nodes s ! t)\<lparr>ncpus := ncpus (psci_non_cpu_pd_nodes s ! t) + 1\<rparr>]\<rparr>)) (\<lambda>_.
       mret (nodes_idx[j := t]))))))))
     (rev [0..<PLAT_MAX_PWR_LVL e]) nodes_idx)"

definition psci_update_pwrlvl_limits :: "'w cpu_env \<Rightarrow> ('w psci_state, unit) prog" where
  "psci_update_pwrlvl_limits e =
     mbind (mfold (update_limits_of_cpu e) [0..<PLATFORM_CORE_COUNT e]
              (replicate (PLAT_MAX_PWR_LVL e) 0)) (\<lambda>_.
     mret ())"

text \<open>
  The body of the outer loop of \<^verbatim>\<open>populate_power_domain_tree\<close> for one level: the accumulator holds
  \<^verbatim>\<open>num_nodes_at_lvl\<close>, \<^verbatim>\<open>node_index\<close>, \<^verbatim>\<open>parent_node_index\<close> and \<^verbatim>\<open>j\<close>. Node indices and levels pass
  through an \<^verbatim>\<open>unsigned char\<close>; the parent of a root is \<^verbatim>\<open>(unsigned int)-1\<close>.
\<close>

definition populate_level ::
  "'w cpu_env \<Rightarrow> nat list \<Rightarrow> nat \<Rightarrow> nat \<times> nat \<times> nat \<times> nat \<Rightarrow> ('w psci_state, nat \<times> nat \<times> nat \<times> nat) prog" where
  "populate_level e topology level = (\<lambda>(num_nodes_at_lvl, node_index, parent_node_index, j).
     mbind (mfold (\<lambda>i (num_nodes_at_next_lvl, node_index, parent_node_index, j).
              mbind (c_assert e (parent_node_index \<le> PSCI_NUM_NON_CPU_PWR_DOMAINS e)) (\<lambda>_.
              mbind (array_get topology parent_node_index) (\<lambda>num_children.
              mbind (mfold (\<lambda>j _. psci_init_pwr_domain_node e (j mod 256)
                               (if parent_node_index = 0 then 0xffffffff else parent_node_index - 1)
                               (level mod 256))
                       [node_index..<node_index + num_children] ()) (\<lambda>_.
              mret (num_nodes_at_next_lvl + num_children, node_index + num_children,
                    parent_node_index + 1, node_index + num_children)))))
            [0..<num_nodes_at_lvl] (0, node_index, parent_node_index, j))
       (\<lambda>(num_nodes_at_next_lvl, node_index, parent_node_index, j).
     mret (num_nodes_at_next_lvl, if level = PSCI_CPU_PWR_LVL + 1 then 0 else node_index,
           parent_node_index, j)))"

definition populate_power_domain_tree :: "'w cpu_env \<Rightarrow> nat list \<Rightarrow> ('w psci_state, unit) prog" where
  "populate_power_domain_tree e topology =
     mbind (mfold (populate_level e topology) (rev (levels PSCI_CPU_PWR_LVL (PLAT_MAX_PWR_LVL e)))
              (1, 0, 0, 0)) (\<lambda>(_, _, _, j).
     c_assert e (j = PLATFORM_CORE_COUNT e))"

section \<open>Setup\<close>

text \<open>\<^verbatim>\<open>psci_lib_args_t\<close>, with the fields of its parameter header that are verified.\<close>

record psci_lib_args_t =
  h_type :: nat
  h_version :: nat
  h_size :: nat
  h_attr :: nat
  mailbox_ep :: u64

definition verify_psci_lib_args_v1 :: "psci_lib_args_t \<Rightarrow> bool" where
  "verify_psci_lib_args_v1 p \<longleftrightarrow> h_type p = 6 \<and> h_version p = 1 \<and> h_size p = 16 \<and> h_attr p = 0 \<and> mailbox_ep p \<noteq> 0"

definition PSCI_GENERIC_CAP :: u32 where
  "PSCI_GENERIC_CAP = define_psci_cap 0x84000000 OR define_psci_cap 0xc4000004 OR define_psci_cap 0x8400000A"

text \<open>The capabilities that follow from the hooks the platform provides.\<close>

definition psci_setup_caps :: "'a plat_port_scheme \<Rightarrow> 'w plat_psci_ops_t \<Rightarrow> u32" where
  "psci_setup_caps e ops =
     PSCI_GENERIC_CAP
     OR (if pwr_domain_off ops \<noteq> None then define_psci_cap 0x84000002 else 0)
     OR (if pwr_domain_on ops \<noteq> None \<and> pwr_domain_on_finish ops \<noteq> None
         then define_psci_cap 0xc4000003 else 0)
     OR (if pwr_domain_suspend ops \<noteq> None \<and> pwr_domain_suspend_finish ops \<noteq> None
         then define_psci_cap 0xc4000001
              OR (if get_sys_suspend_power_state ops \<noteq> None then define_psci_cap 0xc400000E else 0)
         else 0)
     OR (if system_off ops \<noteq> None then define_psci_cap 0x84000008 else 0)
     OR (if system_reset ops \<noteq> None then define_psci_cap 0x84000009 else 0)
     OR (if get_node_hw_state ops \<noteq> None then define_psci_cap 0xc400000d else 0)
     OR (if read_mem_protect ops \<noteq> None \<and> write_mem_protect ops \<noteq> None
         then define_psci_cap 0x84000013 else 0)
     OR (if mem_protect_chk ops \<noteq> None then define_psci_cap 0xc4000014 else 0)
     OR (if system_reset2 ops \<noteq> None then define_psci_cap 0xc4000012 else 0)
     OR (if ENABLE_PSCI_STAT e
         then define_psci_cap 0xc4000010 OR define_psci_cap 0xc4000011 else 0)"

text \<open>
  \<open>plat_setup_psci_ops\<close> is the platform's function of that name: it programs the warm boot
  mailbox and returns the hook table.
\<close>

definition psci_setup ::
  "'w cpu_env \<Rightarrow> (u64 \<Rightarrow> ('w, 'w plat_psci_ops_t) prog) \<Rightarrow> psci_lib_args_t \<Rightarrow> ('w psci_state, int) prog" where
  "psci_setup e plat_setup_psci_ops lib_args =
     mbind (c_assert e (verify_psci_lib_args_v1 lib_args)) (\<lambda>_.
     mbind (psci_arch_setup e) (\<lambda>_.
     mbind (populate_power_domain_tree e (plat_power_domain_tree_desc e)) (\<lambda>_.
     mbind (psci_update_pwrlvl_limits e) (\<lambda>_.
     mbind (mget psci_cpu_pd_nodes) (\<lambda>cpus.
     mbind (array_check cpus (plat_my_core_pos e)) (\<lambda>_.
     mbind (mmodify (\<lambda>s. s\<lparr>psci_cpu_pd_nodes := (psci_cpu_pd_nodes s)
              [plat_my_core_pos e := (psci_cpu_pd_nodes s ! plat_my_core_pos e)
                 \<lparr>node_mpidr := mpidr_el1 e AND 0xff00ffffff\<rparr>]\<rparr>)) (\<lambda>_.
     mbind (psci_init_req_local_pwr_states e) (\<lambda>_.
     mbind (psci_set_pwr_domains_to_run e (PLAT_MAX_PWR_LVL e)) (\<lambda>_.
     mbind (lift_world (plat_setup_psci_ops (mailbox_ep lib_args))) (\<lambda>ops.
     mbind (mmodify (\<lambda>s. s\<lparr>psci_plat_pm_ops := ops, psci_caps := psci_setup_caps e ops\<rparr>)) (\<lambda>_.
     mret 0)))))))))))"

definition psci_prepare_next_non_secure_ctx :: "'w cpu_env \<Rightarrow> entry_point_info_t \<Rightarrow> ('w psci_state, unit) prog" where
  "psci_prepare_next_non_secure_ctx e next_image_info =
     mbind (c_assert e (ep_attr next_image_info AND 1 = 1)) (\<lambda>_.
     mbind (cm_init_context_by_index (plat_my_core_pos e) next_image_info) (\<lambda>_.
     emit Ev_prepare_el3_exit))"

end
