(* ===== verification/Psci_Main.thy ===== *)
theory Psci_Main
  imports Psci_Setup
begin

text \<open>
  \<^verbatim>\<open>lib/psci/psci_main.c\<close>: the functions that serve the PSCI calls and the dispatcher
  \<^verbatim>\<open>psci_smc_handler\<close>, with the function identifier checks of \<^verbatim>\<open>include/lib/smccc.h\<close>.
\<close>

section \<open>Function identifiers\<close>

abbreviation SMC_UNK :: u64 where "SMC_UNK \<equiv> NOT 0"

definition get_smc_cc :: "u32 \<Rightarrow> u32" where
  "get_smc_cc fid = drop_bit 30 fid AND 1"

definition is_std_svc_call :: "u32 \<Rightarrow> bool" where
  "is_std_svc_call fid \<longleftrightarrow> drop_bit 24 fid AND 0x3f = 4"

definition is_valid_fast_smc :: "u32 \<Rightarrow> bool" where
  "is_valid_fast_smc fid \<longleftrightarrow> drop_bit 16 fid AND 0xff = 0 \<and> drop_bit 31 fid AND 1 = 1"

definition is_psci_fid :: "u32 \<Rightarrow> bool" where
  "is_psci_fid fid \<longleftrightarrow> fid AND 0xffe0 = 0"

definition is_caller_secure :: "u64 \<Rightarrow> bool" where
  "is_caller_secure flags \<longleftrightarrow> flags AND 1 = 0"

definition PSCI_CAP_64BIT_MASK :: u32 where
  "PSCI_CAP_64BIT_MASK =
     define_psci_cap 0xc4000001 OR define_psci_cap 0xc4000003 OR define_psci_cap 0xc4000004
     OR define_psci_cap 0xc4000005 OR define_psci_cap 0xc4000007 OR define_psci_cap 0xc400000d
     OR define_psci_cap 0xc400000E OR define_psci_cap 0xc4000010 OR define_psci_cap 0xc4000011
     OR define_psci_cap 0xc4000012 OR define_psci_cap 0xc4000014"

section \<open>The calls\<close>

definition psci_cpu_on :: "'w cpu_env \<Rightarrow> u64 \<Rightarrow> u64 \<Rightarrow> u64 \<Rightarrow> ('w psci_state, int) prog" where
  "psci_cpu_on e target_cpu entrypoint context_id =
     (if psci_validate_mpidr e target_cpu \<noteq> PSCI_E_SUCCESS then mret PSCI_E_INVALID_PARAMS
      else
        mbind (psci_validate_entry_point e entrypoint context_id) (\<lambda>r.
        case r of
          Inl rc \<Rightarrow> mret rc
        | Inr ep \<Rightarrow> psci_cpu_on_start e target_cpu ep))"

definition psci_version :: u32 where
  "psci_version = push_bit 16 1 OR 1"

text \<open>The entry point a suspend to a standby state passes on is not initialised and never read.\<close>

definition uninit_ep :: entry_point_info_t where
  "uninit_ep = \<lparr>ep_attr = 0, ep_pc = 0, ep_spsr = 0, ep_args = []\<rparr>"

text \<open>The fast path of \<^verbatim>\<open>psci_cpu_suspend\<close> for a core that only goes to standby.\<close>

definition cpu_standby_path :: "'w cpu_env \<Rightarrow> psci_power_state_t \<Rightarrow> ('w psci_state, int) prog" where
  "cpu_standby_path e state_info =
     mbind (mget psci_plat_pm_ops) (\<lambda>ops.
     if cpu_standby ops = None then mret PSCI_E_INVALID_PARAMS
     else
       mbind (array_get state_info PSCI_CPU_PWR_LVL) (\<lambda>cpu_pd_state.
       mbind (psci_set_cpu_local_state e cpu_pd_state) (\<lambda>_.
       mbind (mwhen (ENABLE_PSCI_STAT e) (plat_psci_stat_accounting_start e)) (\<lambda>_.
       mbind (call_hook (cpu_standby ops) (\<lambda>f. f (regs e) cpu_pd_state)) (\<lambda>_.
       mbind (mmodify (wfi_others e)) (\<lambda>_.
       mbind (psci_set_cpu_local_state e PSCI_LOCAL_STATE_RUN) (\<lambda>_.
       mbind (mwhen (ENABLE_PSCI_STAT e)
                (mbind (plat_psci_stat_accounting_stop e) (\<lambda>_.
                 psci_stats_update_pwr_up e PSCI_CPU_PWR_LVL state_info))) (\<lambda>_.
       mret PSCI_E_SUCCESS))))))))"

definition psci_cpu_suspend :: "'w cpu_env \<Rightarrow> u32 \<Rightarrow> u64 \<Rightarrow> u64 \<Rightarrow> ('w psci_state, int) prog" where
  "psci_cpu_suspend e power_state entrypoint context_id =
     mbind (psci_validate_power_state e power_state
              (replicate (PLAT_MAX_PWR_LVL e + 1) PSCI_LOCAL_STATE_RUN)) (\<lambda>(rc, state_info).
     if rc \<noteq> PSCI_E_SUCCESS then
       mbind (c_assert e (rc = PSCI_E_INVALID_PARAMS)) (\<lambda>_. mret rc)
     else
       let is_power_down_state = psci_get_pstate_type power_state;
           target_pwrlvl = psci_find_target_suspend_lvl e state_info
       in mbind (c_assert e (psci_validate_suspend_req e state_info is_power_down_state = PSCI_E_SUCCESS)) (\<lambda>_.
          if target_pwrlvl = PSCI_INVALID_PWR_LVL e then mstop Panicked
          else if is_cpu_standby_req is_power_down_state target_pwrlvl then cpu_standby_path e state_info
          else if is_power_down_state \<noteq> 0 then
            mbind (psci_validate_entry_point e entrypoint context_id) (\<lambda>r.
            case r of
              Inl rc \<Rightarrow> mret rc
            | Inr ep \<Rightarrow>
                mbind (psci_cpu_suspend_start e ep target_pwrlvl state_info is_power_down_state) (\<lambda>_.
                mret PSCI_E_SUCCESS))
          else
            mbind (psci_cpu_suspend_start e uninit_ep target_pwrlvl state_info is_power_down_state) (\<lambda>_.
            mret PSCI_E_SUCCESS)))"

definition psci_system_suspend :: "'w cpu_env \<Rightarrow> u64 \<Rightarrow> u64 \<Rightarrow> ('w psci_state, int) prog" where
  "psci_system_suspend e entrypoint context_id =
     mbind (psci_is_last_on_cpu e) (\<lambda>last_on.
     if \<not> last_on then mret PSCI_E_DENIED
     else
       mbind (psci_validate_entry_point e entrypoint context_id) (\<lambda>r.
       case r of
         Inl rc \<Rightarrow> mret rc
       | Inr ep \<Rightarrow>
           mbind (psci_query_sys_suspend_pwrstate e (uninit_power_state e)) (\<lambda>state_info.
           mbind (c_assert e (psci_find_target_suspend_lvl e state_info = PLAT_MAX_PWR_LVL e)) (\<lambda>_.
           mbind (c_assert e (psci_validate_suspend_req e state_info PSTATE_TYPE_POWERDOWN = PSCI_E_SUCCESS)) (\<lambda>_.
           mbind (c_assert e (is_local_state_off e (state_info ! PLAT_MAX_PWR_LVL e))) (\<lambda>_.
           mbind (psci_cpu_suspend_start e ep (PLAT_MAX_PWR_LVL e) state_info PSTATE_TYPE_POWERDOWN) (\<lambda>_.
           mret PSCI_E_SUCCESS)))))))"

definition psci_cpu_off :: "'w cpu_env \<Rightarrow> ('w psci_state, int) prog" where
  "psci_cpu_off e =
     mbind (psci_do_cpu_off e (PLAT_MAX_PWR_LVL e)) (\<lambda>rc.
     mbind (c_assert e (rc = PSCI_E_DENIED)) (\<lambda>_.
     mret rc))"

definition psci_affinity_info :: "'w cpu_env \<Rightarrow> u64 \<Rightarrow> u32 \<Rightarrow> ('w psci_state, int) prog" where
  "psci_affinity_info e target_affinity lowest_affinity_level =
     (if lowest_affinity_level > 0 then mret PSCI_E_INVALID_PARAMS
      else
        let target_idx = plat_core_pos_by_mpidr e target_affinity
        in if target_idx = -1 then mret PSCI_E_INVALID_PARAMS
           else if target_idx < 0 then mstop Out_of_bounds
           else mbind (psci_get_aff_info_state_by_idx (nat target_idx)) (\<lambda>a. mret (aff_info_val a)))"

text \<open>
  In the three migration calls the output variable starts uninitialised (here 0); it is read only
  after the hook has written it.
\<close>

definition psci_migrate :: "'w cpu_env \<Rightarrow> u64 \<Rightarrow> ('w psci_state, int) prog" where
  "psci_migrate e target_cpu =
     mbind (psci_spd_migrate_info e 0) (\<lambda>(rc, resident_cpu_mpidr).
     if rc \<noteq> PSCI_TOS_UP_MIG_CAP then
       mret (if rc = PSCI_TOS_NOT_UP_MIG_CAP then PSCI_E_DENIED else PSCI_E_NOT_SUPPORTED)
     else if resident_cpu_mpidr \<noteq> mpidr_el1 e then mret PSCI_E_NOT_PRESENT
     else if psci_validate_mpidr e target_cpu \<noteq> PSCI_E_SUCCESS then mret PSCI_E_INVALID_PARAMS
     else
       mbind (mget (spd_hook svc_migrate)) (\<lambda>h.
       mbind (c_assert e (h \<noteq> None)) (\<lambda>_.
       mbind (call_hook h (\<lambda>f. f (regs e) (mpidr_el1 e) target_cpu)) (\<lambda>rc.
       mbind (c_assert e (rc = PSCI_E_SUCCESS \<or> rc = PSCI_E_INTERN_FAIL)) (\<lambda>_.
       mret rc)))))"

definition psci_migrate_info_type :: "'w cpu_env \<Rightarrow> ('w psci_state, int) prog" where
  "psci_migrate_info_type e = mbind (psci_spd_migrate_info e 0) (\<lambda>(rc, _). mret rc)"

definition psci_migrate_info_up_cpu :: "'w cpu_env \<Rightarrow> ('w psci_state, u64) prog" where
  "psci_migrate_info_up_cpu e =
     mbind (psci_spd_migrate_info e 0) (\<lambda>(rc, resident_cpu_mpidr).
     mret (if rc \<noteq> PSCI_TOS_NOT_UP_MIG_CAP \<and> rc \<noteq> PSCI_TOS_UP_MIG_CAP
           then word_of_int PSCI_E_INVALID_PARAMS else resident_cpu_mpidr))"

definition psci_node_hw_state :: "'w cpu_env \<Rightarrow> u64 \<Rightarrow> u32 \<Rightarrow> ('w psci_state, int) prog" where
  "psci_node_hw_state e target_cpu power_level =
     (if psci_validate_mpidr e target_cpu \<noteq> PSCI_E_SUCCESS then mret PSCI_E_INVALID_PARAMS
      else if unat power_level > PLAT_MAX_PWR_LVL e then mret PSCI_E_INVALID_PARAMS
      else
        mbind (mget psci_plat_pm_ops) (\<lambda>ops.
        mbind (c_assert e (get_node_hw_state ops \<noteq> None)) (\<lambda>_.
        mbind (call_hook (get_node_hw_state ops) (\<lambda>f. f (regs e) target_cpu power_level)) (\<lambda>rc.
        mbind (c_assert e ((rc \<ge> 0 \<and> rc \<le> 2) \<or> rc = PSCI_E_NOT_SUPPORTED \<or> rc = PSCI_E_INVALID_PARAMS)) (\<lambda>_.
        mret rc)))))"

definition psci_features :: "u32 \<Rightarrow> ('w psci_state, int) prog" where
  "psci_features psci_fid =
     mbind (mget psci_caps) (\<lambda>caps.
     let local_caps = (if get_smc_cc psci_fid = 1 then caps AND PSCI_CAP_64BIT_MASK else caps)
     in if psci_fid = 0x80000000 then mret PSCI_E_SUCCESS
        else if \<not> (is_std_svc_call psci_fid \<and> is_valid_fast_smc psci_fid \<and> is_psci_fid psci_fid)
        then mret PSCI_E_NOT_SUPPORTED
        else if local_caps AND define_psci_cap psci_fid = 0 then mret PSCI_E_NOT_SUPPORTED
        else if psci_fid = 0x84000001 \<or> psci_fid = 0xc4000001 then mret 0
        else mret PSCI_E_SUCCESS)"

section \<open>The dispatcher\<close>

text \<open>The conversion \<^verbatim>\<open>(u_register_t)\<close> of an \<^verbatim>\<open>int\<close> result.\<close>

definition ret_int :: "('w psci_state, int) prog \<Rightarrow> ('w psci_state, u64) prog" where
  "ret_int m = mbind m (\<lambda>rc. mret (word_of_int rc))"

definition psci_smc32 :: "'w cpu_env \<Rightarrow> u32 \<Rightarrow> u64 \<Rightarrow> u64 \<Rightarrow> u64 \<Rightarrow> ('w psci_state, u64) prog" where
  "psci_smc32 e smc_fid x1 x2 x3 =
     (let r1 = (ucast x1 :: u32); r2 = (ucast x2 :: u32); r3 = (ucast x3 :: u32)
      in if smc_fid = 0x84000000 then mret (ucast psci_version)
         else if smc_fid = 0x84000002 then ret_int (psci_cpu_off e)
         else if smc_fid = 0x84000001 then ret_int (psci_cpu_suspend e r1 (ucast r2) (ucast r3))
         else if smc_fid = 0x84000003 then ret_int (psci_cpu_on e (ucast r1) (ucast r2) (ucast r3))
         else if smc_fid = 0x84000004 then ret_int (psci_affinity_info e (ucast r1) r2)
         else if smc_fid = 0x84000005 then ret_int (psci_migrate e (ucast r1))
         else if smc_fid = 0x84000006 then ret_int (psci_migrate_info_type e)
         else if smc_fid = 0x84000007 then psci_migrate_info_up_cpu e
         else if smc_fid = 0x8400000d then ret_int (psci_node_hw_state e (ucast r1) r2)
         else if smc_fid = 0x8400000E then ret_int (psci_system_suspend e (ucast r1) (ucast r2))
         else if smc_fid = 0x84000008 then psci_system_off e
         else if smc_fid = 0x84000009 then psci_system_reset e
         else if smc_fid = 0x8400000A then ret_int (psci_features r1)
         else if ENABLE_PSCI_STAT e \<and> smc_fid = 0x84000010 then psci_stat_residency e (ucast r1) r2
         else if ENABLE_PSCI_STAT e \<and> smc_fid = 0x84000011 then psci_stat_count e (ucast r1) r2
         else if smc_fid = 0x84000013 then psci_mem_protect e r1
         else if smc_fid = 0x84000014 then psci_mem_chk_range e (ucast r1) (ucast r2)
         else if smc_fid = 0x84000012 then psci_system_reset2 e r1 (ucast r2)
         else mret SMC_UNK)"

definition psci_smc64 :: "'w cpu_env \<Rightarrow> u32 \<Rightarrow> u64 \<Rightarrow> u64 \<Rightarrow> u64 \<Rightarrow> ('w psci_state, u64) prog" where
  "psci_smc64 e smc_fid x1 x2 x3 =
     (if smc_fid = 0xc4000001 then ret_int (psci_cpu_suspend e (ucast x1) x2 x3)
      else if smc_fid = 0xc4000003 then ret_int (psci_cpu_on e x1 x2 x3)
      else if smc_fid = 0xc4000004 then ret_int (psci_affinity_info e x1 (ucast x2))
      else if smc_fid = 0xc4000005 then ret_int (psci_migrate e x1)
      else if smc_fid = 0xc4000007 then psci_migrate_info_up_cpu e
      else if smc_fid = 0xc400000d then ret_int (psci_node_hw_state e x1 (ucast x2))
      else if smc_fid = 0xc400000E then ret_int (psci_system_suspend e x1 x2)
      else if ENABLE_PSCI_STAT e \<and> smc_fid = 0xc4000010 then psci_stat_residency e x1 (ucast x2)
      else if ENABLE_PSCI_STAT e \<and> smc_fid = 0xc4000011 then psci_stat_count e x1 (ucast x2)
      else if smc_fid = 0xc4000014 then psci_mem_chk_range e x1 x2
      else if smc_fid = 0xc4000012 then psci_system_reset2 e (ucast x1) x2
      else mret SMC_UNK)"

definition psci_smc_handler ::
  "'w cpu_env \<Rightarrow> u32 \<Rightarrow> u64 \<Rightarrow> u64 \<Rightarrow> u64 \<Rightarrow> u64 \<Rightarrow> ('w psci_state, u64) prog" where
  "psci_smc_handler e smc_fid x1 x2 x3 flags =
     (if is_caller_secure flags then mret SMC_UNK
      else
        mbind (mget psci_caps) (\<lambda>caps.
        if caps AND define_psci_cap smc_fid = 0 then mret SMC_UNK
        else if get_smc_cc smc_fid = 0 then psci_smc32 e smc_fid x1 x2 x3
        else psci_smc64 e smc_fid x1 x2 x3))"

end
