(* ===== verification/Psci_Tree.thy ===== *)
theory Psci_Tree
  imports Psci_Common
begin

text \<open>
  The power domain tree as the operations walk it. \<open>anc\<close> is the ancestor of a core at a level,
  \<open>wf_tree\<close> the well-formedness of the tables that \<^verbatim>\<open>psci_setup\<close> builds, and \<open>path_upd\<close> the
  result of an update along a path. Under \<open>wf_tree\<close> every helper of \<^verbatim>\<open>psci_common.c\<close> that walks a
  path runs without an access outside an array; the run equations (collection \<open>prog_simps\<close>) give
  its result in closed form.
\<close>

section \<open>Ancestors\<close>

fun anc :: "cpu_pd_node_t list \<Rightarrow> non_cpu_pd_node_t list \<Rightarrow> nat \<Rightarrow> nat \<Rightarrow> nat" where
  "anc cpus nodes c 0 = 0"
| "anc cpus nodes c (Suc 0) = cpu_parent_node (cpus ! c)"
| "anc cpus nodes c (Suc (Suc l)) = parent_node (nodes ! anc cpus nodes c (Suc l))"

abbreviation ancestor :: "'w psci_state \<Rightarrow> nat \<Rightarrow> nat \<Rightarrow> nat" where
  "ancestor s \<equiv> anc (psci_cpu_pd_nodes s) (psci_non_cpu_pd_nodes s)"

text \<open>The cores of a power domain are the interval that its node records.\<close>

definition in_domain :: "non_cpu_pd_node_t \<Rightarrow> nat \<Rightarrow> bool" where
  "in_domain n c \<longleftrightarrow> cpu_start_idx n \<le> c \<and> c < cpu_start_idx n + ncpus n"

lemma anc_Suc: "0 < l \<Longrightarrow> anc cpus nodes c (Suc l) = parent_node (nodes ! anc cpus nodes c l)"
  by (cases l) simp_all

section \<open>Well-formed tables\<close>

definition wf_path ::
  "'a plat_port_scheme \<Rightarrow> cpu_pd_node_t list \<Rightarrow> non_cpu_pd_node_t list \<Rightarrow> nat \<Rightarrow> nat \<Rightarrow> bool" where
  "wf_path e cpus nodes c l \<longleftrightarrow>
     anc cpus nodes c l < length nodes \<and>
     pd_level (nodes ! anc cpus nodes c l) = l \<and>
     lock_index (nodes ! anc cpus nodes c l) = anc cpus nodes c l \<and>
     in_domain (nodes ! anc cpus nodes c l) c \<and>
     cpu_start_idx (nodes ! anc cpus nodes c l) + ncpus (nodes ! anc cpus nodes c l) \<le> PLATFORM_CORE_COUNT e \<and>
     (\<forall>c' < PLATFORM_CORE_COUNT e.
        in_domain (nodes ! anc cpus nodes c l) c' \<longleftrightarrow> anc cpus nodes c' l = anc cpus nodes c l)"

definition wf_tree :: "'a plat_port_scheme \<Rightarrow> 'w psci_state \<Rightarrow> bool" where
  "wf_tree e s \<longleftrightarrow>
     length (psci_cpu_pd_nodes s) = PLATFORM_CORE_COUNT e \<and>
     length (psci_svc_cpu_data s) = PLATFORM_CORE_COUNT e \<and>
     length (psci_ns_context s) = PLATFORM_CORE_COUNT e \<and>
     length (psci_locks s) = length (psci_non_cpu_pd_nodes s) \<and>
     length (psci_req_local_pwr_states s) = PLAT_MAX_PWR_LVL e \<and>
     (\<forall>l < PLAT_MAX_PWR_LVL e. length (psci_req_local_pwr_states s ! l) = PLATFORM_CORE_COUNT e) \<and>
     (\<forall>c < PLATFORM_CORE_COUNT e. \<forall>l \<in> {1..PLAT_MAX_PWR_LVL e}.
        wf_path e (psci_cpu_pd_nodes s) (psci_non_cpu_pd_nodes s) c l)"

lemma wf_lengths:
  assumes "wf_tree e s"
  shows "length (psci_cpu_pd_nodes s) = PLATFORM_CORE_COUNT e"
    and "length (psci_svc_cpu_data s) = PLATFORM_CORE_COUNT e"
    and "length (psci_ns_context s) = PLATFORM_CORE_COUNT e"
    and "length (psci_locks s) = length (psci_non_cpu_pd_nodes s)"
    and "length (psci_req_local_pwr_states s) = PLAT_MAX_PWR_LVL e"
    and "\<And>l. l < PLAT_MAX_PWR_LVL e \<Longrightarrow> length (psci_req_local_pwr_states s ! l) = PLATFORM_CORE_COUNT e"
  using assms by (simp_all add: wf_tree_def)

lemma wf_pathI:
  assumes "wf_tree e s" "c < PLATFORM_CORE_COUNT e" "1 \<le> l" "l \<le> PLAT_MAX_PWR_LVL e"
  shows "wf_path e (psci_cpu_pd_nodes s) (psci_non_cpu_pd_nodes s) c l"
  using assms by (simp add: wf_tree_def)

lemma wf_anc:
  assumes "wf_tree e s" "c < PLATFORM_CORE_COUNT e" "1 \<le> l" "l \<le> PLAT_MAX_PWR_LVL e"
  shows "ancestor s c l < length (psci_non_cpu_pd_nodes s)"
    and "pd_level (psci_non_cpu_pd_nodes s ! ancestor s c l) = l"
    and "lock_index (psci_non_cpu_pd_nodes s ! ancestor s c l) = ancestor s c l"
    and "in_domain (psci_non_cpu_pd_nodes s ! ancestor s c l) c"
    and "cpu_start_idx (psci_non_cpu_pd_nodes s ! ancestor s c l)
           + ncpus (psci_non_cpu_pd_nodes s ! ancestor s c l) \<le> PLATFORM_CORE_COUNT e"
    and "\<And>c'. c' < PLATFORM_CORE_COUNT e \<Longrightarrow>
           in_domain (psci_non_cpu_pd_nodes s ! ancestor s c l) c' \<longleftrightarrow> ancestor s c' l = ancestor s c l"
  using wf_pathI [OF assms] by (simp_all add: wf_path_def)

lemma anc_level_inj:
  assumes "wf_tree e s" "c < PLATFORM_CORE_COUNT e" "c' < PLATFORM_CORE_COUNT e"
    and "1 \<le> l" "l \<le> PLAT_MAX_PWR_LVL e" "1 \<le> l'" "l' \<le> PLAT_MAX_PWR_LVL e"
    and "ancestor s c l = ancestor s c' l'"
  shows "l = l'"
  using wf_anc(2) [OF assms(1,2,4,5)] wf_anc(2) [OF assms(1,3,6,7)] assms(8) by simp

section \<open>Updates along a path\<close>

primrec path_upd :: "(nat \<Rightarrow> 'a \<Rightarrow> 'a) \<Rightarrow> (nat \<Rightarrow> nat) \<Rightarrow> nat \<Rightarrow> 'a list \<Rightarrow> 'a list" where
  "path_upd g A 0 xs = xs"
| "path_upd g A (Suc n) xs =
     (path_upd g A n xs)[A (Suc n) := g (Suc n) (path_upd g A n xs ! A (Suc n))]"

lemma length_path_upd [simp]: "length (path_upd g A n xs) = length xs"
  by (induction n) simp_all

lemma path_upd_other:
  "(\<And>l. 1 \<le> l \<Longrightarrow> l \<le> n \<Longrightarrow> A l \<noteq> i) \<Longrightarrow> path_upd g A n xs ! i = xs ! i"
  by (induction n) simp_all

lemma path_upd_at:
  assumes "1 \<le> l" "l \<le> n" "A l < length xs" "inj_on A {1..n}"
  shows "path_upd g A n xs ! A l = g l (xs ! A l)"
  using assms
proof (induction n)
  case (Suc n)
  have inj: "inj_on A {1..n}"
    using Suc.prems(4) by (rule inj_on_subset) auto
  show ?case
  proof (cases "l = Suc n")
    case True
    have "path_upd g A n xs ! A l = xs ! A l"
      using Suc.prems True by (intro path_upd_other) (auto dest: inj_onD)
    then show ?thesis using True Suc.prems by simp
  next
    case False
    then have "A (Suc n) \<noteq> A l" using Suc.prems by (auto dest: inj_onD)
    then show ?thesis using False Suc inj by simp
  qed
qed simp

text \<open>An update that keeps a field of the elements keeps it everywhere.\<close>

lemma path_upd_field:
  assumes "\<And>l x. h (g l x) = h x"
  shows "h (path_upd g A n xs ! i) = h (xs ! i)"
proof (induction n)
  case (Suc n)
  then show ?case
    by (cases "A (Suc n) = i"; cases "i < length xs") (simp_all add: assms nth_list_update)
qed simp

lemma path_upd_id:
  assumes "\<And>l. 1 \<le> l \<Longrightarrow> l \<le> n \<Longrightarrow> A l < length xs \<Longrightarrow> g l (xs ! A l) = xs ! A l"
  shows "path_upd g A n xs = xs"
  using assms
proof (induction n)
  case (Suc n)
  then have "path_upd g A n xs = xs" by simp
  moreover have "xs[A (Suc n) := g (Suc n) (xs ! A (Suc n))] = xs"
    using Suc.prems [of "Suc n"]
    by (cases "A (Suc n) < length xs") (simp_all add: list_update_beyond)
  ultimately show ?case by simp
qed simp

lemma anc_cong:
  assumes "\<And>i. parent_node (nodes' ! i) = parent_node (nodes ! i)"
    and "\<And>i. cpu_parent_node (cpus' ! i) = cpu_parent_node (cpus ! i)"
  shows "anc cpus' nodes' c l = anc cpus nodes c l"
proof (induction l)
  case (Suc l)
  then show ?case by (cases l) (simp_all add: assms)
qed simp

section \<open>Loops over the levels\<close>

lemma mfold_levels_run:
  assumes "\<And>l. from \<le> l \<Longrightarrow> l \<le> to \<Longrightarrow> f l (A l) (S l) = Ret (A (Suc l)) (S (Suc l))"
    and "from \<le> Suc to"
  shows "mfold f (levels from to) (A from) (S from) = Ret (A (Suc to)) (S (Suc to))"
proof -
  have "mfold f [from..<from + n] (A from) (S from) = Ret (A (from + n)) (S (from + n))"
    if "from + n \<le> Suc to" for n
    using that
  proof (induction n)
    case (Suc n)
    then show ?case
      using assms(1) [of "from + n"] by (simp add: mfold_append mbind_def prog_simps)
  qed (simp add: prog_simps)
  from this [of "Suc to - from"] show ?thesis using assms(2) by simp
qed

lemma cpu_node_parent_run [prog_simps]:
  "c < length (psci_cpu_pd_nodes s) \<Longrightarrow>
     cpu_node_parent c s = Ret (cpu_parent_node (psci_cpu_pd_nodes s ! c)) s"
  by (simp add: cpu_node_parent_def prog_simps)

lemma non_cpu_parent_node_run [prog_simps]:
  "n < length (psci_non_cpu_pd_nodes s) \<Longrightarrow>
     non_cpu_parent_node n s = Ret (parent_node (psci_non_cpu_pd_nodes s ! n)) s"
  by (simp add: non_cpu_parent_node_def prog_simps)

lemma get_local_state_run [prog_simps]:
  "n < length (psci_non_cpu_pd_nodes s) \<Longrightarrow>
     get_non_cpu_pd_node_local_state n s = Ret (local_state (psci_non_cpu_pd_nodes s ! n)) s"
  by (simp add: get_non_cpu_pd_node_local_state_def prog_simps)

lemma set_local_state_run [prog_simps]:
  "n < length (psci_non_cpu_pd_nodes s) \<Longrightarrow>
     set_non_cpu_pd_node_local_state n st s =
       Ret () (s\<lparr>psci_non_cpu_pd_nodes := (psci_non_cpu_pd_nodes s)
                 [n := (psci_non_cpu_pd_nodes s ! n)\<lparr>local_state := st\<rparr>]\<rparr>)"
  by (simp add: set_non_cpu_pd_node_local_state_def prog_simps)

lemma set_req_run [prog_simps]:
  assumes "0 < l" "l \<le> length (psci_req_local_pwr_states s)"
    "c < length (psci_req_local_pwr_states s ! (l - 1))"
  shows "psci_set_req_local_pwr_state e l c v s =
     Ret () (s\<lparr>psci_req_local_pwr_states := (psci_req_local_pwr_states s)
               [l - 1 := (psci_req_local_pwr_states s ! (l - 1))[c := v]]\<rparr>)"
  using assms by (simp add: psci_set_req_local_pwr_state_def prog_simps)

lemma svc_data_run [prog_simps]:
  assumes "plat_my_core_pos e < length (psci_svc_cpu_data s)"
  shows "psci_get_aff_info_state e s = Ret (aff_info_state (psci_svc_cpu_data s ! plat_my_core_pos e)) s"
    and "psci_get_suspend_pwrlvl e s = Ret (target_pwrlvl (psci_svc_cpu_data s ! plat_my_core_pos e)) s"
    and "psci_get_cpu_local_state e s = Ret (cpu_local_state (psci_svc_cpu_data s ! plat_my_core_pos e)) s"
    and "psci_set_aff_info_state e a s = Ret () (s\<lparr>psci_svc_cpu_data := (psci_svc_cpu_data s)
       [plat_my_core_pos e := (psci_svc_cpu_data s ! plat_my_core_pos e)\<lparr>aff_info_state := a\<rparr>]\<rparr>)"
    and "psci_set_suspend_pwrlvl e l s = Ret () (s\<lparr>psci_svc_cpu_data := (psci_svc_cpu_data s)
       [plat_my_core_pos e := (psci_svc_cpu_data s ! plat_my_core_pos e)\<lparr>target_pwrlvl := l\<rparr>]\<rparr>)"
    and "psci_set_cpu_local_state e st s = Ret () (s\<lparr>psci_svc_cpu_data := (psci_svc_cpu_data s)
       [plat_my_core_pos e := (psci_svc_cpu_data s ! plat_my_core_pos e)\<lparr>cpu_local_state := st\<rparr>]\<rparr>)"
  using assms
  by (simp_all add: psci_get_aff_info_state_def psci_get_aff_info_state_by_idx_def
      psci_get_suspend_pwrlvl_def psci_get_cpu_local_state_def psci_get_cpu_local_state_by_idx_def
      psci_set_aff_info_state_def psci_set_aff_info_state_by_idx_def psci_set_suspend_pwrlvl_def
      psci_set_cpu_local_state_def prog_simps)

lemma aff_by_idx_run [prog_simps]:
  assumes "i < length (psci_svc_cpu_data s)"
  shows "psci_get_aff_info_state_by_idx i s = Ret (aff_info_state (psci_svc_cpu_data s ! i)) s"
    and "psci_set_aff_info_state_by_idx i a s = Ret () (s\<lparr>psci_svc_cpu_data := (psci_svc_cpu_data s)
       [i := (psci_svc_cpu_data s ! i)\<lparr>aff_info_state := a\<rparr>]\<rparr>)"
  using assms
  by (simp_all add: psci_get_aff_info_state_by_idx_def psci_set_aff_info_state_by_idx_def prog_simps)

section \<open>States with the same tree\<close>

text \<open>
  After setup the operations change local states, requests, locks and per-CPU data, never the
  shape of the tree.
\<close>

definition same_shape :: "'w psci_state \<Rightarrow> 'w psci_state \<Rightarrow> bool" where
  "same_shape s s' \<longleftrightarrow>
     length (psci_non_cpu_pd_nodes s') = length (psci_non_cpu_pd_nodes s) \<and>
     (\<forall>i. cpu_start_idx (psci_non_cpu_pd_nodes s' ! i) = cpu_start_idx (psci_non_cpu_pd_nodes s ! i) \<and>
          ncpus (psci_non_cpu_pd_nodes s' ! i) = ncpus (psci_non_cpu_pd_nodes s ! i) \<and>
          parent_node (psci_non_cpu_pd_nodes s' ! i) = parent_node (psci_non_cpu_pd_nodes s ! i) \<and>
          pd_level (psci_non_cpu_pd_nodes s' ! i) = pd_level (psci_non_cpu_pd_nodes s ! i) \<and>
          lock_index (psci_non_cpu_pd_nodes s' ! i) = lock_index (psci_non_cpu_pd_nodes s ! i)) \<and>
     length (psci_cpu_pd_nodes s') = length (psci_cpu_pd_nodes s) \<and>
     (\<forall>i. cpu_parent_node (psci_cpu_pd_nodes s' ! i) = cpu_parent_node (psci_cpu_pd_nodes s ! i)) \<and>
     length (psci_svc_cpu_data s') = length (psci_svc_cpu_data s) \<and>
     length (psci_ns_context s') = length (psci_ns_context s) \<and>
     length (psci_locks s') = length (psci_locks s) \<and>
     length (psci_req_local_pwr_states s') = length (psci_req_local_pwr_states s) \<and>
     (\<forall>i. length (psci_req_local_pwr_states s' ! i) = length (psci_req_local_pwr_states s ! i))"

lemma same_shape_refl [simp]: "same_shape s s"
  by (simp add: same_shape_def)

lemma same_shape_trans: "same_shape s t \<Longrightarrow> same_shape t u \<Longrightarrow> same_shape s u"
  by (simp add: same_shape_def)

lemma same_shape_anc: "same_shape s s' \<Longrightarrow> ancestor s' = ancestor s"
  by (intro ext anc_cong) (simp_all add: same_shape_def)

lemma same_shape_wf:
  assumes "same_shape s s'" "wf_tree e s"
  shows "wf_tree e s'"
  using assms same_shape_anc [OF assms(1)]
  by (simp add: wf_tree_def wf_path_def in_domain_def same_shape_def)

lemma inj_ancestor:
  assumes "wf_tree e s" "c < PLATFORM_CORE_COUNT e" "n \<le> PLAT_MAX_PWR_LVL e"
  shows "inj_on (ancestor s c) {1..n}"
  using assms by (intro inj_onI) (auto intro: anc_level_inj [OF assms(1,2,2)])

section \<open>Locks along a path\<close>

lemma path_upd_const_update:
  "path_upd (\<lambda>_ _. v) A n (xs[i := v]) = (path_upd (\<lambda>_ _. v) A n xs)[i := v]"
proof (induction n)
  case (Suc n)
  then show ?case by (cases "A (Suc n) = i") (simp_all add: list_update_swap)
qed simp

lemma path_upd_const_absorb:
  "(path_upd (\<lambda>_ _. v) A n (xs[i := w]))[i := v] = (path_upd (\<lambda>_ _. v) A n xs)[i := v]"
proof (induction n)
  case (Suc n)
  then show ?case by (cases "A (Suc n) = i") (simp_all add: list_update_swap)
qed simp

lemma path_upd_const_idem:
  "path_upd (\<lambda>_ _. v) A n (path_upd (\<lambda>_ _. w) A n xs) = path_upd (\<lambda>_ _. v) A n xs"
proof (induction n)
  case (Suc n)
  then show ?case by (simp add: path_upd_const_absorb)
qed simp

text \<open>Releasing the locks of a path restores the locks as they were before they were taken.\<close>

lemma lock_unlock_path:
  assumes "\<And>l. 1 \<le> l \<Longrightarrow> l \<le> n \<Longrightarrow> locks ! A l = None"
  shows "path_upd (\<lambda>_ _. None) A n (path_upd (\<lambda>_ _. w) A n locks) = locks"
  using assms by (simp add: path_upd_const_idem path_upd_id)

lemma lock_get_run:
  assumes "i < length (psci_non_cpu_pd_nodes s)" "lock_index (psci_non_cpu_pd_nodes s ! i) = i"
    "i < length (psci_locks s)" "psci_locks s ! i = None"
  shows "psci_lock_get e i s = Ret () (s\<lparr>psci_locks := (psci_locks s)[i := Some (plat_my_core_pos e)]\<rparr>)"
  using assms by (simp add: psci_lock_get_def prog_simps)

lemma lock_release_run:
  assumes "i < length (psci_non_cpu_pd_nodes s)" "lock_index (psci_non_cpu_pd_nodes s ! i) = i"
    "i < length (psci_locks s)"
  shows "psci_lock_release i s = Ret () (s\<lparr>psci_locks := (psci_locks s)[i := None]\<rparr>)"
  using assms by (simp add: psci_lock_release_def prog_simps)

lemma acquire_run:
  assumes wf: "wf_tree e s" and c: "c < PLATFORM_CORE_COUNT e" and n: "n \<le> PLAT_MAX_PWR_LVL e"
    and free: "\<And>l. 1 \<le> l \<Longrightarrow> l \<le> n \<Longrightarrow> psci_locks s ! ancestor s c l = None"
  shows "psci_acquire_pwr_domain_locks e n c s =
     Ret () (s\<lparr>psci_locks :=
       path_upd (\<lambda>_ _. Some (plat_my_core_pos e)) (ancestor s c) n (psci_locks s)\<rparr>)"
proof -
  let ?S = "\<lambda>l. s\<lparr>psci_locks :=
    path_upd (\<lambda>_ _. Some (plat_my_core_pos e)) (ancestor s c) (l - 1) (psci_locks s)\<rparr>"
  let ?f = "\<lambda>level parent_idx. mbind (psci_lock_get e parent_idx) (\<lambda>_. non_cpu_parent_node parent_idx)"
  have step: "?f l (ancestor s c l) (?S l) = Ret (ancestor s c (Suc l)) (?S (Suc l))"
    if l: "1 \<le> l" "l \<le> n" for l
  proof -
    have l': "l \<le> PLAT_MAX_PWR_LVL e" using l n by simp
    note a = wf_anc(1,3) [OF wf c l(1) l']
    have "path_upd (\<lambda>_ _. Some (plat_my_core_pos e)) (ancestor s c) (l - 1) (psci_locks s) ! ancestor s c l
        = psci_locks s ! ancestor s c l"
      using anc_level_inj [OF wf c c] l l' by (intro path_upd_other) force
    then have "psci_lock_get e (ancestor s c l) (?S l) = Ret () (?S (Suc l))"
      using a free [OF l] wf_lengths(4) [OF wf] l by (cases l) (simp_all add: lock_get_run)
    then show ?thesis using a l by (simp add: mbind_def prog_simps anc_Suc)
  qed
  have "mfold ?f (levels 1 n) (ancestor s c 1) (?S 1) = Ret (ancestor s c (Suc n)) (?S (Suc n))"
    by (rule mfold_levels_run) (use step in simp_all)
  then show ?thesis
    using c wf_lengths(1) [OF wf]
    by (simp add: psci_acquire_pwr_domain_locks_def mbind_def prog_simps)
qed

lemma parent_nodes_run:
  assumes wf: "wf_tree e s" and c: "c < PLATFORM_CORE_COUNT e" and n: "n \<le> PLAT_MAX_PWR_LVL e"
  shows "psci_get_parent_pwr_domain_nodes c n s = Ret (map (ancestor s c) [1..<Suc n]) s"
proof -
  let ?A = "\<lambda>l. (map (ancestor s c) [1..<l], ancestor s c l)"
  let ?f = "\<lambda>i (node_index, parent_node). mbind (non_cpu_parent_node parent_node) (\<lambda>p.
              mret (node_index @ [parent_node], p))"
  have step: "?f l (?A l) s = Ret (?A (Suc l)) s" if l: "1 \<le> l" "l \<le> n" for l
    using wf_anc(1) [OF wf c l(1)] l n by (simp add: mbind_def prog_simps anc_Suc)
  have "mfold ?f (levels 1 n) (?A 1) s = Ret (?A (Suc n)) s"
    using mfold_levels_run [of 1 n ?f ?A "\<lambda>_. s"] step by simp
  then show ?thesis
    using c wf_lengths(1) [OF wf]
    by (simp add: psci_get_parent_pwr_domain_nodes_def mbind_def prog_simps del: upt_Suc)
qed

lemma release_run:
  assumes wf: "wf_tree e s" and c: "c < PLATFORM_CORE_COUNT e" and n: "n \<le> PLAT_MAX_PWR_LVL e"
  shows "psci_release_pwr_domain_locks n c s =
     Ret () (s\<lparr>psci_locks := path_upd (\<lambda>_ _. None) (ancestor s c) n (psci_locks s)\<rparr>)"
proof -
  let ?nodes = "map (ancestor s c) [1..<Suc n]"
  let ?f = "\<lambda>level _. mbind (array_get ?nodes (level - 1)) psci_lock_release"
  have "mfold ?f (rev (levels 1 m)) () (s\<lparr>psci_locks := ls\<rparr>) =
      Ret () (s\<lparr>psci_locks := path_upd (\<lambda>_ _. None) (ancestor s c) m ls\<rparr>)"
    if "m \<le> n" "length ls = length (psci_locks s)" for m ls
    using that
  proof (induction m arbitrary: ls)
    case (Suc m)
    note a = wf_anc(1,3) [OF wf c, of "Suc m"]
    have "?f (Suc m) () (s\<lparr>psci_locks := ls\<rparr>) = Ret () (s\<lparr>psci_locks := ls[ancestor s c (Suc m) := None]\<rparr>)"
      using a Suc.prems n wf_lengths(4) [OF wf] by (simp add: lock_release_run del: upt_Suc)
    moreover have "rev (levels 1 (Suc m)) = Suc m # rev (levels 1 m)" by simp
    ultimately show ?case
      using Suc by (simp add: mbind_def mret_def path_upd_const_update del: upt_Suc)
  qed (simp add: prog_simps)
  from this [of n "psci_locks s"] show ?thesis
    by (simp add: psci_release_pwr_domain_locks_def mbind_def parent_nodes_run [OF wf c n] del: upt_Suc)
qed

end
