(* ===== verification/Psci_Coordination.thy ===== *)
theory Psci_Coordination
  imports Psci_Tree
begin

text \<open>
  What \<^verbatim>\<open>psci_do_state_coordination\<close> computes. The reference definition \<open>coord_result\<close> takes, at
  every level up to the end level, the shallowest state any core of the domain has requested, and
  RUN as soon as a lower level stays in RUN; the run equation \<open>coordination_run\<close> shows that the
  two loops of the source compute exactly that, and record the requests and the target states in
  the tables. The other functions that read or write the target states along a path follow.
\<close>

section \<open>Reference definitions\<close>

text \<open>
  The requests of the cores of the domain of core \<open>c\<close> at level \<open>l\<close>, after \<open>c\<close> has asked for
  \<open>si ! l\<close>.
\<close>

definition dom_req :: "'w psci_state \<Rightarrow> nat \<Rightarrow> psci_power_state_t \<Rightarrow> nat \<Rightarrow> plat_local_state_t list" where
  "dom_req s c si l =
     (let n = psci_non_cpu_pd_nodes s ! ancestor s c l
      in take (ncpus n) (drop (cpu_start_idx n) ((psci_req_local_pwr_states s ! (l - 1))[c := si ! l])))"

definition coord_target ::
  "'a plat_port_scheme \<Rightarrow> 'w psci_state \<Rightarrow> nat \<Rightarrow> psci_power_state_t \<Rightarrow> nat \<Rightarrow> plat_local_state_t" where
  "coord_target e s c si l = foldl min (PLAT_MAX_OFF_STATE e) (dom_req s c si l)"

definition coord_level ::
  "'a plat_port_scheme \<Rightarrow> 'w psci_state \<Rightarrow> nat \<Rightarrow> psci_power_state_t \<Rightarrow> nat \<Rightarrow> plat_local_state_t" where
  "coord_level e s c si l =
     (if \<exists>k \<in> set (levels 1 l). coord_target e s c si k = PSCI_LOCAL_STATE_RUN
      then PSCI_LOCAL_STATE_RUN else coord_target e s c si l)"

definition coord_result ::
  "'a plat_port_scheme \<Rightarrow> 'w psci_state \<Rightarrow> nat \<Rightarrow> psci_power_state_t \<Rightarrow> nat \<Rightarrow> psci_power_state_t" where
  "coord_result e s c si n =
     map (\<lambda>l. if 1 \<le> l \<and> l \<le> n then coord_level e s c si l else si ! l) [0..<length si]"

text \<open>The tables after core \<open>c\<close> has requested \<open>si\<close> up to level \<open>n\<close>.\<close>

definition req_path :: "nat \<Rightarrow> psci_power_state_t \<Rightarrow> nat \<Rightarrow> plat_local_state_t list list \<Rightarrow> plat_local_state_t list list" where
  "req_path c si n = path_upd (\<lambda>l row. row[c := si ! l]) (\<lambda>l. l - 1) n"

definition node_path ::
  "psci_power_state_t \<Rightarrow> (nat \<Rightarrow> nat) \<Rightarrow> nat \<Rightarrow> non_cpu_pd_node_t list \<Rightarrow> non_cpu_pd_node_t list" where
  "node_path si A n = path_upd (\<lambda>l nd. nd\<lparr>local_state := si ! l\<rparr>) A n"

section \<open>Facts on the tables\<close>

lemma length_coord_result [simp]: "length (coord_result e s c si n) = length si"
  by (simp add: coord_result_def)

lemma coord_result_nth:
  "l < length si \<Longrightarrow> coord_result e s c si n ! l =
     (if 1 \<le> l \<and> l \<le> n then coord_level e s c si l else si ! l)"
  by (simp add: coord_result_def)

lemma coord_result_0 [simp]: "coord_result e s c si 0 = si"
  by (rule nth_equalityI) (auto simp: coord_result_nth)

lemma coord_result_step:
  assumes "1 \<le> l" "l < length si"
  shows "(coord_result e s c si (l - 1))[l := coord_level e s c si l] = coord_result e s c si l"
  by (rule nth_equalityI) (use assms in \<open>auto simp: coord_result_nth nth_list_update\<close>)

lemma coord_result_frame [simp]:
  "coord_result e (s\<lparr>psci_locks := x\<rparr>) c si n = coord_result e s c si n"
  "coord_result e (s\<lparr>world := w\<rparr>) c si n = coord_result e s c si n"
  by (simp_all add: coord_result_def coord_level_def coord_target_def dom_req_def)

lemma length_req_path [simp]: "length (req_path c si n req) = length req"
  by (simp add: req_path_def)

lemma length_node_path [simp]: "length (node_path si A n nodes) = length nodes"
  by (simp add: node_path_def)

lemma inj_pred: "inj_on (\<lambda>l :: nat. l - 1) {1..n}"
  by (auto simp: inj_on_def)

lemma req_path_row:
  assumes "l < length req"
  shows "req_path c si n req ! l = (if l < n then (req ! l)[c := si ! Suc l] else req ! l)"
proof (cases "l < n")
  case True
  then show ?thesis
    using path_upd_at [of "Suc l" n "\<lambda>l. l - 1" req "\<lambda>l row. row[c := si ! l]"] assms inj_pred
    by (simp add: req_path_def)
next
  case False
  then show ?thesis by (simp add: req_path_def) (subst path_upd_other, auto)
qed

lemma length_req_path_row [simp]: "length (req_path c si n req ! i) = length (req ! i)"
  unfolding req_path_def by (rule path_upd_field [where h = length]) simp

lemma req_path_Suc:
  "req_path c si (Suc n) req = (req_path c si n req)[n := (req_path c si n req ! n)[c := si ! Suc n]]"
  by (simp add: req_path_def)

lemma node_path_fields [simp]:
  "parent_node (node_path si A n nodes ! i) = parent_node (nodes ! i)"
  "cpu_start_idx (node_path si A n nodes ! i) = cpu_start_idx (nodes ! i)"
  "ncpus (node_path si A n nodes ! i) = ncpus (nodes ! i)"
  "pd_level (node_path si A n nodes ! i) = pd_level (nodes ! i)"
  "lock_index (node_path si A n nodes ! i) = lock_index (nodes ! i)"
  unfolding node_path_def by (simp_all add: path_upd_field)

lemma node_path_at:
  assumes "wf_tree e s" "c < PLATFORM_CORE_COUNT e" "n \<le> PLAT_MAX_PWR_LVL e" "1 \<le> l" "l \<le> n"
  shows "local_state (node_path si (ancestor s c) n (psci_non_cpu_pd_nodes s) ! ancestor s c l) = si ! l"
proof -
  have "ancestor s c l < length (psci_non_cpu_pd_nodes s)"
    using wf_anc(1) [OF assms(1,2,4)] assms by simp
  from path_upd_at [OF assms(4,5) this inj_ancestor [OF assms(1-3)]] show ?thesis
    by (simp add: node_path_def)
qed

lemma node_path_other:
  assumes "\<And>l. 1 \<le> l \<Longrightarrow> l \<le> n \<Longrightarrow> A l \<noteq> i"
  shows "node_path si A n nodes ! i = nodes ! i"
  unfolding node_path_def using assms by (rule path_upd_other)

section \<open>The target state of one domain\<close>

lemma target_loop_run:
  assumes "xs \<noteq> []"
  shows "(target_pwr_state_loop xs (length xs) t :: ('s, plat_local_state_t) prog) = mret (foldl min t xs)"
  using assms
proof (induction xs arbitrary: t)
  case (Cons x xs)
  have "(if x < t then x else t) = min t x" by (auto simp: min_def)
  then have "(target_pwr_state_loop (x # xs) (length (x # xs)) t :: ('s, plat_local_state_t) prog) =
      (if xs \<noteq> [] then target_pwr_state_loop xs (length xs) (min t x) else mret (min t x))"
    by (simp add: Let_def)
  then show ?case using Cons.IH [of "min t x"] by (cases "xs = []") (simp_all del: target_pwr_state_loop.simps)
qed simp

lemma foldl_min_le:
  fixes t :: "'a :: linorder"
  shows "foldl min t xs \<le> t" and "x \<in> set xs \<Longrightarrow> foldl min t xs \<le> x"
proof -
  have le: "foldl min t xs \<le> t" for t :: 'a and xs
    by (induction xs arbitrary: t) (simp_all, meson min.boundedE)
  then show "foldl min t xs \<le> t" .
  show "x \<in> set xs \<Longrightarrow> foldl min t xs \<le> x"
  proof (induction xs arbitrary: t)
    case (Cons y xs)
    then show ?case using le [of "min t y" xs] by auto
  qed simp
qed

lemma foldl_min_in:
  fixes t :: "'a :: linorder"
  shows "foldl min t xs = t \<or> foldl min t xs \<in> set xs"
proof (induction xs arbitrary: t)
  case (Cons x xs)
  then show ?case using Cons.IH [of "min t x"] by (auto simp: min_def split: if_splits)
qed simp

lemma length_dom_req:
  assumes "wf_tree e s" "c < PLATFORM_CORE_COUNT e" "1 \<le> l" "l \<le> PLAT_MAX_PWR_LVL e"
  shows "length (dom_req s c si l) = ncpus (psci_non_cpu_pd_nodes s ! ancestor s c l)"
  using wf_anc(5) [OF assms] wf_lengths(6) [OF assms(1), of "l - 1"] assms
  by (simp add: dom_req_def Let_def)

lemma dom_req_nonempty:
  assumes "wf_tree e s" "c < PLATFORM_CORE_COUNT e" "1 \<le> l" "l \<le> PLAT_MAX_PWR_LVL e"
  shows "dom_req s c si l \<noteq> []"
  using length_dom_req [OF assms, of si] wf_anc(4) [OF assms] by (auto simp: in_domain_def)

text \<open>The entry of a core of the domain in the vector of requests.\<close>

lemma dom_req_mem:
  assumes wf: "wf_tree e s" and c: "c < PLATFORM_CORE_COUNT e" and l: "1 \<le> l" "l \<le> PLAT_MAX_PWR_LVL e"
    and c': "c' < PLATFORM_CORE_COUNT e" "ancestor s c' l = ancestor s c l"
  shows "(psci_req_local_pwr_states s ! (l - 1))[c := si ! l] ! c' \<in> set (dom_req s c si l)"
proof -
  let ?n = "psci_non_cpu_pd_nodes s ! ancestor s c l"
  have d: "cpu_start_idx ?n \<le> c'" "c' - cpu_start_idx ?n < ncpus ?n"
    using wf_anc(6) [OF wf c l c'(1)] c'(2) by (auto simp: in_domain_def)
  then have "dom_req s c si l ! (c' - cpu_start_idx ?n) = (psci_req_local_pwr_states s ! (l - 1))[c := si ! l] ! c'"
    using wf_lengths(6) [OF wf, of "l - 1"] l c' by (simp add: dom_req_def Let_def)
  then show ?thesis using d length_dom_req [OF wf c l, of si] by (metis nth_mem)
qed

lemma coord_target_le:
  assumes "wf_tree e s" "c < PLATFORM_CORE_COUNT e" "1 \<le> l" "l \<le> PLAT_MAX_PWR_LVL e"
    and "c' < PLATFORM_CORE_COUNT e" "ancestor s c' l = ancestor s c l"
  shows "coord_target e s c si l \<le> (psci_req_local_pwr_states s ! (l - 1))[c := si ! l] ! c'"
  unfolding coord_target_def using dom_req_mem [OF assms] by (rule foldl_min_le(2))

lemma coord_level_le_target: "1 \<le> l \<Longrightarrow> coord_level e s c si l \<le> coord_target e s c si l"
  by (simp add: coord_level_def)

section \<open>The loops\<close>

lemma get_req_states_run:
  assumes "1 \<le> l" "l \<le> length (psci_req_local_pwr_states s)"
    "i + n \<le> length (psci_req_local_pwr_states s ! (l - 1))"
  shows "psci_get_req_local_pwr_states e l i n s =
     Ret (take n (drop i (psci_req_local_pwr_states s ! (l - 1)))) s"
  using assms by (simp add: psci_get_req_local_pwr_states_def prog_simps)

lemma target_state_run:
  assumes "xs \<noteq> []" "n = length xs"
  shows "plat_get_target_pwr_state e l xs n s = Ret (foldl min (PLAT_MAX_OFF_STATE e) xs) s"
  using assms by (simp add: plat_get_target_pwr_state_def target_loop_run prog_simps)

text \<open>The state after the requests up to level \<open>n\<close> have been recorded.\<close>

abbreviation with_req :: "'w psci_state \<Rightarrow> nat \<Rightarrow> psci_power_state_t \<Rightarrow> nat \<Rightarrow> 'w psci_state" where
  "with_req s c si n \<equiv> s\<lparr>psci_req_local_pwr_states := req_path c si n (psci_req_local_pwr_states s)\<rparr>"

lemma set_req_step:
  assumes wf: "wf_tree e s" and c: "c < PLATFORM_CORE_COUNT e" and l: "1 \<le> l" "l \<le> PLAT_MAX_PWR_LVL e"
  shows "psci_set_req_local_pwr_state e l c (si ! l) (with_req s c si (l - 1)) = Ret () (with_req s c si l)"
  using assms wf_lengths(5) [OF wf] wf_lengths(6) [OF wf, of "l - 1"]
  by (cases l) (simp_all add: prog_simps req_path_Suc)

text \<open>The second loop: the levels above a domain that stays in RUN.\<close>

lemma run_levels_run:
  assumes wf: "wf_tree e s" and c: "c < PLATFORM_CORE_COUNT e" and n: "n \<le> PLAT_MAX_PWR_LVL e"
    and si: "length si = Suc (PLAT_MAX_PWR_LVL e)"
    and m: "1 \<le> m" "m \<le> n" "coord_target e s c si m = PSCI_LOCAL_STATE_RUN"
  shows "mfold (\<lambda>lvl state_info.
              mbind (array_get state_info lvl) (\<lambda>req_state.
              mbind (psci_set_req_local_pwr_state e lvl c req_state) (\<lambda>_.
              mret (state_info[lvl := PSCI_LOCAL_STATE_RUN]))))
           (levels (Suc m) n) (coord_result e s c si m) (with_req s c si m)
         = Ret (coord_result e s c si n) (with_req s c si n)"
    (is "mfold ?f _ _ _ = _")
proof -
  have "?f l (coord_result e s c si (l - 1)) (with_req s c si (l - 1))
      = Ret (coord_result e s c si (Suc l - 1)) (with_req s c si (Suc l - 1))"
    if l: "Suc m \<le> l" "l \<le> n" for l
  proof -
    have "coord_level e s c si l = PSCI_LOCAL_STATE_RUN"
      using m l by (auto simp: coord_level_def)
    then have "(coord_result e s c si (l - 1))[l := PSCI_LOCAL_STATE_RUN] = coord_result e s c si l"
      using coord_result_step [of l si e s c] l n si by simp
    then show ?thesis
      using set_req_step [OF wf c, of l si] l n si
      by (simp add: mbind_def coord_result_nth prog_simps)
  qed
  from mfold_levels_run [of "Suc m" n ?f "\<lambda>l. coord_result e s c si (l - 1)" "\<lambda>l. with_req s c si (l - 1)", OF this]
  show ?thesis using m by simp
qed

lemma coordination_loops_run:
  assumes wf: "wf_tree e s" and c: "c = plat_my_core_pos e" "c < PLATFORM_CORE_COUNT e"
    and n: "n \<le> PLAT_MAX_PWR_LVL e" and si: "length si = Suc (PLAT_MAX_PWR_LVL e)"
    and l: "1 \<le> l" "l \<le> Suc n" and deep: "\<forall>k \<in> {1..<l}. coord_target e s c si k \<noteq> PSCI_LOCAL_STATE_RUN"
  shows "mbind (coordination_loop e (levels l n) (coord_result e s c si (l - 1)) (ancestor s c l))
       (\<lambda>(state_info, rest). mfold (\<lambda>lvl state_info.
              mbind (array_get state_info lvl) (\<lambda>req_state.
              mbind (psci_set_req_local_pwr_state e lvl (plat_my_core_pos e) req_state) (\<lambda>_.
              mret (state_info[lvl := PSCI_LOCAL_STATE_RUN])))) rest state_info)
       (with_req s c si (l - 1))
     = Ret (coord_result e s c si n) (with_req s c si n)"
  using l deep
proof (induction "Suc n - l" arbitrary: l)
  case 0
  then have "levels l n = []" "l - 1 = n" by auto
  then show ?case by (simp add: mbind_def mret_def)
next
  case (Suc d)
  then have ln: "1 \<le> l" "l \<le> n" "l \<le> PLAT_MAX_PWR_LVL e" using n by auto
  note a = wf_anc [OF wf c(2) ln(1,3)] and len = wf_lengths(5,6) [OF wf]
  have lv: "levels l n = l # levels (Suc l) n" using ln by (simp add: upt_conv_Cons)
  have cur: "coord_result e s c si (l - 1) ! l = si ! l" using ln si by (auto simp: coord_result_nth)
  have row: "req_path c si l (psci_req_local_pwr_states s) ! (l - 1)
      = (psci_req_local_pwr_states s ! (l - 1))[c := si ! l]"
    using ln len by (simp add: req_path_row)
  have tgt: "plat_get_target_pwr_state e l (dom_req s c si l)
      (ncpus (psci_non_cpu_pd_nodes s ! ancestor s c l)) t = Ret (coord_target e s c si l) t" for t
    unfolding coord_target_def
    by (rule target_state_run [OF dom_req_nonempty [OF wf c(2) ln(1,3)]])
      (rule length_dom_req [OF wf c(2) ln(1,3), symmetric])
  have get: "psci_get_req_local_pwr_states e l (cpu_start_idx (psci_non_cpu_pd_nodes s ! ancestor s c l))
      (ncpus (psci_non_cpu_pd_nodes s ! ancestor s c l)) (with_req s c si l) = Ret (dom_req s c si l) (with_req s c si l)"
    using a(5) ln len(1) len(2) [of "l - 1"] row
    by (simp add: get_req_states_run dom_req_def Let_def)
  note step = set_req_step [OF wf c(2) ln(1,3), of si] cur get tgt a(1) lv
  show ?case
  proof (cases "coord_target e s c si l = PSCI_LOCAL_STATE_RUN")
    case True
    then have "coord_level e s c si l = PSCI_LOCAL_STATE_RUN" using ln by (auto simp: coord_level_def)
    then have "(coord_result e s c si (l - 1))[l := PSCI_LOCAL_STATE_RUN] = coord_result e s c si l"
      using coord_result_step [of l si e s c] ln si by simp
    then show ?thesis
      using run_levels_run [OF wf c(2) n si ln(1,2) True] step ln si True
      by (simp add: mbind_def prog_simps is_local_state_run_def c(1) [symmetric] del: upt_Suc)
  next
    case False
    have deep: "\<forall>k \<in> {1..<Suc l}. coord_target e s c si k \<noteq> PSCI_LOCAL_STATE_RUN"
      using Suc.prems(3) False by (auto simp: less_Suc_eq)
    then have "coord_level e s c si l = coord_target e s c si l" by (auto simp: coord_level_def)
    then have "(coord_result e s c si (l - 1))[l := coord_target e s c si l] = coord_result e s c si l"
      using coord_result_step [of l si e s c] ln si by simp
    then show ?thesis
      using Suc.hyps(1) [of "Suc l"] Suc.hyps(2) deep step ln si False
      by (simp add: mbind_def prog_simps is_local_state_run_def c(1) [symmetric] anc_Suc del: upt_Suc)
  qed
qed

section \<open>Reading and writing the target states\<close>

text \<open>The per-CPU data of core \<open>c\<close> changed by \<open>f\<close>.\<close>

definition svc_upd :: "nat \<Rightarrow> (psci_cpu_data_t \<Rightarrow> psci_cpu_data_t) \<Rightarrow> psci_cpu_data_t list \<Rightarrow> psci_cpu_data_t list" where
  "svc_upd c f d = d[c := f (d ! c)]"

lemma length_svc_upd [simp]: "length (svc_upd c f d) = length d"
  by (simp add: svc_upd_def)

lemma svc_upd_nth: "c < length d \<Longrightarrow> svc_upd c f d ! i = (if i = c then f (d ! c) else d ! i)"
  by (simp add: svc_upd_def)

lemma svc_upd_upd: "c < length d \<Longrightarrow> svc_upd c f (svc_upd c g d) = svc_upd c (\<lambda>x. f (g x)) d"
  by (simp add: svc_upd_def)

lemma set_target_run:
  assumes wf: "wf_tree e s" and c: "c = plat_my_core_pos e" "c < PLATFORM_CORE_COUNT e"
    and n: "n \<le> PLAT_MAX_PWR_LVL e" and si: "length si = Suc (PLAT_MAX_PWR_LVL e)"
  shows "psci_set_target_local_pwr_states e n si s =
     Ret () (s\<lparr>psci_svc_cpu_data := svc_upd c (\<lambda>d. d\<lparr>cpu_local_state := si ! 0\<rparr>) (psci_svc_cpu_data s),
               psci_non_cpu_pd_nodes := node_path si (ancestor s c) n (psci_non_cpu_pd_nodes s)\<rparr>)"
proof -
  let ?s = "s\<lparr>psci_svc_cpu_data := svc_upd c (\<lambda>d. d\<lparr>cpu_local_state := si ! 0\<rparr>) (psci_svc_cpu_data s)\<rparr>"
  let ?S = "\<lambda>l. ?s\<lparr>psci_non_cpu_pd_nodes := node_path si (ancestor s c) (l - 1) (psci_non_cpu_pd_nodes s)\<rparr>"
  let ?f = "\<lambda>lvl parent_idx.
              mbind (array_get si lvl) (\<lambda>st.
              mbind (set_non_cpu_pd_node_local_state parent_idx st) (\<lambda>_.
              non_cpu_parent_node parent_idx))"
  have step: "?f l (ancestor s c l) (?S l) = Ret (ancestor s c (Suc l)) (?S (Suc l))"
    if l: "1 \<le> l" "l \<le> n" for l
    using wf_anc(1) [OF wf c(2) l(1)] l n si
    by (cases l) (simp_all add: mbind_def prog_simps node_path_def anc_Suc path_upd_field)
  have "mfold ?f (levels 1 n) (ancestor s c 1) (?S 1) = Ret (ancestor s c (Suc n)) (?S (Suc n))"
    by (rule mfold_levels_run) (use step in simp_all)
  moreover have "?S 1 = ?s" by (simp add: node_path_def)
  ultimately show ?thesis
    using c wf_lengths(1,2) [OF wf] si
    by (simp add: psci_set_target_local_pwr_states_def mbind_def prog_simps svc_upd_def del: upt_Suc)
qed

text \<open>
  \<^verbatim>\<open>psci_do_state_coordination\<close> records the requests of the executing core up to the end level,
  computes \<open>coord_result\<close>, and stores it as the target state of the core and of its ancestors.
\<close>

lemma coordination_run:
  assumes wf: "wf_tree e s" and c: "c = plat_my_core_pos e" "c < PLATFORM_CORE_COUNT e"
    and n: "n \<le> PLAT_MAX_PWR_LVL e" and si: "length si = Suc (PLAT_MAX_PWR_LVL e)"
  shows "psci_do_state_coordination e n si s =
     Ret (coord_result e s c si n)
       (s\<lparr>psci_req_local_pwr_states := req_path c si n (psci_req_local_pwr_states s),
          psci_svc_cpu_data := svc_upd c (\<lambda>d. d\<lparr>cpu_local_state := si ! 0\<rparr>) (psci_svc_cpu_data s),
          psci_non_cpu_pd_nodes :=
            node_path (coord_result e s c si n) (ancestor s c) n (psci_non_cpu_pd_nodes s)\<rparr>)"
proof -
  let ?R = "with_req s c si n"
  let ?M = "mbind (coordination_loop e (levels 1 n) si (ancestor s c 1))
       (\<lambda>(state_info, rest). mfold (\<lambda>lvl state_info.
              mbind (array_get state_info lvl) (\<lambda>req_state.
              mbind (psci_set_req_local_pwr_state e lvl (plat_my_core_pos e) req_state) (\<lambda>_.
              mret (state_info[lvl := PSCI_LOCAL_STATE_RUN])))) rest state_info)"
  have shape: "same_shape s ?R" by (simp add: same_shape_def)
  have "coord_result e s c si n ! 0 = si ! 0" using si by (simp add: coord_result_nth)
  then have set: "psci_set_target_local_pwr_states e n (coord_result e s c si n) ?R =
      Ret () (?R\<lparr>psci_svc_cpu_data := svc_upd c (\<lambda>d. d\<lparr>cpu_local_state := si ! 0\<rparr>) (psci_svc_cpu_data s),
        psci_non_cpu_pd_nodes :=
            node_path (coord_result e s c si n) (ancestor s c) n (psci_non_cpu_pd_nodes s)\<rparr>)"
    using set_target_run [OF same_shape_wf [OF shape wf] c n, of "coord_result e s c si n"] si by simp
  have "req_path c si 0 (psci_req_local_pwr_states s) = psci_req_local_pwr_states s"
    by (simp add: req_path_def)
  then have loops: "?M s = Ret (coord_result e s c si n) ?R"
    using coordination_loops_run [OF wf c n si, of 1] by simp
  have "psci_do_state_coordination e n si s =
     mbind ?M (\<lambda>state_info.
     mbind (psci_set_target_local_pwr_states e n state_info) (\<lambda>_. mret state_info)) s"
    using c wf_lengths(1) [OF wf] n
    by (simp add: psci_do_state_coordination_def mbind_assoc split_def mbind_run(1) [OF cpu_node_parent_run]
        del: upt_Suc)
  also have "\<dots> = mbind (psci_set_target_local_pwr_states e n (coord_result e s c si n))
      (\<lambda>_. mret (coord_result e s c si n)) ?R"
    by (rule mbind_run(1)) (rule loops)
  finally show ?thesis using set by (simp add: mbind_def mret_def)
qed

lemma get_target_run:
  assumes wf: "wf_tree e s" and c: "c = plat_my_core_pos e" "c < PLATFORM_CORE_COUNT e"
    and n: "n \<le> PLAT_MAX_PWR_LVL e" and ts: "length ts = Suc (PLAT_MAX_PWR_LVL e)"
  shows "psci_get_target_local_pwr_states e n ts s =
     Ret (map (\<lambda>l. if l = 0 then cpu_local_state (psci_svc_cpu_data s ! c)
                   else if l \<le> n then local_state (psci_non_cpu_pd_nodes s ! ancestor s c l)
                   else PSCI_LOCAL_STATE_RUN) [0..<Suc (PLAT_MAX_PWR_LVL e)]) s"
proof -
  let ?T = "\<lambda>m l. if l = 0 then cpu_local_state (psci_svc_cpu_data s ! c)
                   else if l < m then (if l \<le> n then local_state (psci_non_cpu_pd_nodes s ! ancestor s c l)
                   else PSCI_LOCAL_STATE_RUN) else ts ! l"
  let ?L = "\<lambda>m. map (?T m) [0..<Suc (PLAT_MAX_PWR_LVL e)]"
  let ?f = "\<lambda>lvl (pd_state, parent_idx).
              mbind (get_non_cpu_pd_node_local_state parent_idx) (\<lambda>st.
              mbind (array_check pd_state lvl) (\<lambda>_.
              mbind (non_cpu_parent_node parent_idx) (\<lambda>parent_idx.
              mret (pd_state[lvl := st], parent_idx))))"
  let ?g = "\<lambda>lvl pd_state. mbind (array_check pd_state lvl) (\<lambda>_. mret (pd_state[lvl := PSCI_LOCAL_STATE_RUN]))"
  have upd: "(?L l)[l := v] = ?L (Suc l)" if "1 \<le> l" "l \<le> PLAT_MAX_PWR_LVL e" "v = ?T (Suc l) l" for l v
    using that by (intro nth_equalityI) (auto simp: nth_list_update simp del: upt_Suc)
  have "?f l (?L l, ancestor s c l) s = Ret (?L (Suc l), ancestor s c (Suc l)) s" if l: "1 \<le> l" "l \<le> n" for l
    using wf_anc(1) [OF wf c(2) l(1)] l n upd [of l]
    by (simp add: mbind_def prog_simps anc_Suc del: upt_Suc)
  then have one: "mfold ?f (levels 1 n) (?L 1, ancestor s c 1) s = Ret (?L (Suc n), ancestor s c (Suc n)) s"
    using mfold_levels_run [of 1 n ?f "\<lambda>l. (?L l, ancestor s c l)" "\<lambda>_. s"] by simp
  have "?g l (?L l) s = Ret (?L (Suc l)) s" if l: "Suc n \<le> l" "l \<le> PLAT_MAX_PWR_LVL e" for l
    using l upd [of l] by (simp add: prog_simps del: upt_Suc)
  then have two: "mfold ?g (levels (Suc n) (PLAT_MAX_PWR_LVL e)) (?L (Suc n)) s = Ret (?L (Suc (PLAT_MAX_PWR_LVL e))) s"
    using mfold_levels_run [of "Suc n" "PLAT_MAX_PWR_LVL e" ?g ?L "\<lambda>_. s"] n by simp
  have init: "ts[0 := cpu_local_state (psci_svc_cpu_data s ! c)] = ?L 1"
    using ts by (intro nth_equalityI) (auto simp: nth_list_update simp del: upt_Suc)
  have fin: "?L (Suc (PLAT_MAX_PWR_LVL e)) = map (\<lambda>l. if l = 0 then cpu_local_state (psci_svc_cpu_data s ! c)
                   else if l \<le> n then local_state (psci_non_cpu_pd_nodes s ! ancestor s c l)
                   else PSCI_LOCAL_STATE_RUN) [0..<Suc (PLAT_MAX_PWR_LVL e)]"
    by (rule map_cong) auto
  from one two init show ?thesis
    using c wf_lengths(1,2) [OF wf] ts
    unfolding fin [symmetric]
    by (simp add: psci_get_target_local_pwr_states_def mbind_def prog_simps del: upt_Suc)
qed

text \<open>\<^verbatim>\<open>psci_set_pwr_domains_to_run\<close> sets the core, its ancestors and its requests to RUN.\<close>

abbreviation all_run :: "'a plat_port_scheme \<Rightarrow> psci_power_state_t" where
  "all_run e \<equiv> replicate (Suc (PLAT_MAX_PWR_LVL e)) PSCI_LOCAL_STATE_RUN"

lemma set_run_run:
  assumes wf: "wf_tree e s" and c: "c = plat_my_core_pos e" "c < PLATFORM_CORE_COUNT e"
    and n: "n \<le> PLAT_MAX_PWR_LVL e"
  shows "psci_set_pwr_domains_to_run e n s =
     Ret () (s\<lparr>psci_non_cpu_pd_nodes := node_path (all_run e) (ancestor s c) n (psci_non_cpu_pd_nodes s),
               psci_req_local_pwr_states := req_path c (all_run e) n (psci_req_local_pwr_states s),
               psci_svc_cpu_data := svc_upd c (\<lambda>d. d\<lparr>aff_info_state := AFF_STATE_ON,
                 cpu_local_state := PSCI_LOCAL_STATE_RUN\<rparr>) (psci_svc_cpu_data s)\<rparr>)"
proof -
  let ?S = "\<lambda>l. s\<lparr>psci_non_cpu_pd_nodes := node_path (all_run e) (ancestor s c) (l - 1) (psci_non_cpu_pd_nodes s),
    psci_req_local_pwr_states := req_path c (all_run e) (l - 1) (psci_req_local_pwr_states s)\<rparr>"
  let ?f = "\<lambda>lvl parent_idx.
              mbind (set_non_cpu_pd_node_local_state parent_idx PSCI_LOCAL_STATE_RUN) (\<lambda>_.
              mbind (psci_set_req_local_pwr_state e lvl c PSCI_LOCAL_STATE_RUN) (\<lambda>_.
              non_cpu_parent_node parent_idx))"
  have step: "?f l (ancestor s c l) (?S l) = Ret (ancestor s c (Suc l)) (?S (Suc l))"
    if l: "1 \<le> l" "l \<le> n" for l
    using wf_anc(1) [OF wf c(2) l(1)] wf_lengths(5) [OF wf] wf_lengths(6) [OF wf, of "l - 1"] l n c(2)
    by (cases l) (simp_all add: mbind_def prog_simps node_path_def req_path_Suc anc_Suc path_upd_field
        del: replicate_Suc)
  have "mfold ?f (levels 1 n) (ancestor s c 1) (?S 1) = Ret (ancestor s c (Suc n)) (?S (Suc n))"
    by (rule mfold_levels_run) (use step in simp_all)
  moreover have "?S 1 = s" by (simp add: node_path_def req_path_def)
  ultimately show ?thesis
    using c wf_lengths(1,2) [OF wf]
    by (simp add: psci_set_pwr_domains_to_run_def mbind_def prog_simps svc_upd_def del: upt_Suc replicate_Suc)
qed

section \<open>Domains never sleep deeper than their cores allow\<close>

text \<open>
  The invariant of the tables: the state of a power domain is at most as deep as the state that
  any of its cores has requested for that level.
\<close>

definition dom_ok :: "'a plat_port_scheme \<Rightarrow> 'w psci_state \<Rightarrow> bool" where
  "dom_ok e s \<longleftrightarrow>
     (\<forall>c < PLATFORM_CORE_COUNT e. \<forall>l \<in> {1..PLAT_MAX_PWR_LVL e}.
        local_state (psci_non_cpu_pd_nodes s ! ancestor s c l) \<le> psci_req_local_pwr_states s ! (l - 1) ! c)"

text \<open>Updating the path of \<open>c\<close> keeps the invariant when the new states respect the requests.\<close>

lemma dom_ok_path:
  assumes wf: "wf_tree e s" and ok: "dom_ok e s" and c: "c < PLATFORM_CORE_COUNT e"
    and n: "n \<le> PLAT_MAX_PWR_LVL e"
    and le: "\<And>l c'. 1 \<le> l \<Longrightarrow> l \<le> n \<Longrightarrow> c' < PLATFORM_CORE_COUNT e \<Longrightarrow> ancestor s c' l = ancestor s c l \<Longrightarrow>
               vals ! l \<le> (psci_req_local_pwr_states s ! (l - 1))[c := si ! l] ! c'"
    and s': "psci_cpu_pd_nodes s' = psci_cpu_pd_nodes s"
      "psci_non_cpu_pd_nodes s' = node_path vals (ancestor s c) n (psci_non_cpu_pd_nodes s)"
      "psci_req_local_pwr_states s' = req_path c si n (psci_req_local_pwr_states s)"
  shows "dom_ok e s'"
  unfolding dom_ok_def
proof (intro allI impI ballI)
  fix c' l
  assume c': "c' < PLATFORM_CORE_COUNT e" and "l \<in> {1..PLAT_MAX_PWR_LVL e}"
  then have l: "1 \<le> l" "l \<le> PLAT_MAX_PWR_LVL e" by simp_all
  have anc: "ancestor s' = ancestor s"
    by (intro ext anc_cong) (simp_all add: s')
  have row: "psci_req_local_pwr_states s' ! (l - 1) =
      (if l \<le> n then (psci_req_local_pwr_states s ! (l - 1))[c := si ! l] else psci_req_local_pwr_states s ! (l - 1))"
    using l wf_lengths(5) [OF wf] by (auto simp: s' req_path_row)
  show "local_state (psci_non_cpu_pd_nodes s' ! ancestor s' c' l) \<le> psci_req_local_pwr_states s' ! (l - 1) ! c'"
  proof (cases "l \<le> n \<and> ancestor s c' l = ancestor s c l")
    case True
    then show ?thesis
      unfolding anc using le [OF l(1) _ c'] node_path_at [OF wf c n l(1)] row by (simp add: s'(2))
  next
    case False
    have "node_path vals (ancestor s c) n (psci_non_cpu_pd_nodes s) ! ancestor s c' l
        = psci_non_cpu_pd_nodes s ! ancestor s c' l"
      using False n anc_level_inj [OF wf c c' _ _ l] by (intro node_path_other) force
    moreover have "psci_req_local_pwr_states s' ! (l - 1) ! c' = psci_req_local_pwr_states s ! (l - 1) ! c'"
      using False row by (cases "c = c'") auto
    ultimately show ?thesis
      unfolding anc using ok c' l by (simp add: dom_ok_def s'(2))
  qed
qed

lemma dom_ok_coordination:
  assumes "wf_tree e s" "dom_ok e s" "c < PLATFORM_CORE_COUNT e" "n \<le> PLAT_MAX_PWR_LVL e"
    and "length si = Suc (PLAT_MAX_PWR_LVL e)"
    and "psci_cpu_pd_nodes s' = psci_cpu_pd_nodes s"
      "psci_non_cpu_pd_nodes s' = node_path (coord_result e s c si n) (ancestor s c) n (psci_non_cpu_pd_nodes s)"
      "psci_req_local_pwr_states s' = req_path c si n (psci_req_local_pwr_states s)"
  shows "dom_ok e s'"
proof (rule dom_ok_path [OF assms(1-4) _ assms(6-8)])
  fix l c'
  assume l: "1 \<le> l" "l \<le> n" and c': "c' < PLATFORM_CORE_COUNT e" "ancestor s c' l = ancestor s c l"
  have "coord_level e s c si l \<le> coord_target e s c si l" using l(1) by (rule coord_level_le_target)
  also have "\<dots> \<le> (psci_req_local_pwr_states s ! (l - 1))[c := si ! l] ! c'"
    using coord_target_le [OF assms(1,3) l(1) _ c'] l assms(4) by simp
  finally show "coord_result e s c si n ! l \<le> (psci_req_local_pwr_states s ! (l - 1))[c := si ! l] ! c'"
    using l assms(4,5) by (simp add: coord_result_nth)
qed

lemma dom_ok_set_run:
  assumes "wf_tree e s" "dom_ok e s" "c < PLATFORM_CORE_COUNT e" "n \<le> PLAT_MAX_PWR_LVL e"
    and "psci_cpu_pd_nodes s' = psci_cpu_pd_nodes s"
      "psci_non_cpu_pd_nodes s' = node_path (all_run e) (ancestor s c) n (psci_non_cpu_pd_nodes s)"
      "psci_req_local_pwr_states s' = req_path c (all_run e) n (psci_req_local_pwr_states s)"
  shows "dom_ok e s'"
  by (rule dom_ok_path [OF assms(1-4) _ assms(5-7)]) (use assms(4) in \<open>simp del: replicate_Suc\<close>)

end
