(* ===== verification/Psci_Platform.thy ===== *)
theory Psci_Platform
  imports Psci_Main Psci_Coordination
begin

text \<open>
  The contract between the PSCI library and its environment, and the operations of the library
  under that contract. The locale \<open>psci_platform\<close> fixes the hook table of the platform, the table
  of the secure payload dispatcher and a predicate \<open>wok\<close> on the world they act on, indexed by the
  state the secure payload has on every core; it assumes that every hook of the power operations
  exists where the code needs it, returns, and keeps \<open>wok\<close>. The hooks of the dispatcher move the
  secure payload of the executing core: they may rely on being called in the right state.
  The lemmas of the locale run the power operations on a state with a well-formed tree: which
  result they have, and the state they leave, in closed form.
\<close>

section \<open>Hooks that return\<close>

definition hook_ok :: "('w \<Rightarrow> bool) \<Rightarrow> ('w, 'a) prog \<Rightarrow> ('a \<Rightarrow> bool) \<Rightarrow> bool" where
  "hook_ok wok m P \<longleftrightarrow> (\<forall>w. wok w \<longrightarrow> (\<exists>v w'. m w = Ret v w' \<and> wok w' \<and> P v))"

lemma hook_okD:
  assumes "hook_ok wok m P" "wok (world s)"
  obtains v w where "lift_world m s = Ret v (s\<lparr>world := w\<rparr>)" "wok w" "P v"
proof -
  from assms obtain v w where "m (world s) = Ret v w" "wok w" "P v"
    by (auto simp: hook_ok_def)
  then show thesis by (intro that [of v w]) (simp_all add: lift_world_def)
qed

lemma hook_ok_mono: "hook_ok wok m P \<Longrightarrow> (\<And>v. P v \<Longrightarrow> P' v) \<Longrightarrow> hook_ok wok m P'"
  unfolding hook_ok_def by blast

lemma hook_ok_mret: "P v \<Longrightarrow> hook_ok wok (mret v) P"
  by (simp add: hook_ok_def mret_def)

lemma hook_ok_mbind:
  assumes "hook_ok wok m P" "\<And>v. P v \<Longrightarrow> hook_ok wok (f v) Q"
  shows "hook_ok wok (mbind m f) Q"
  unfolding hook_ok_def
proof (intro allI impI)
  fix w assume "wok w"
  with assms(1) obtain v w1 where "m w = Ret v w1" "wok w1" "P v" by (auto simp: hook_ok_def)
  with assms(2) [of v] show "\<exists>v w'. mbind m f w = Ret v w' \<and> wok w' \<and> Q v"
    by (simp add: hook_ok_def mbind_def)
qed

lemma hook_ok_mmodify: "(\<And>w. wok w \<Longrightarrow> wok (f w)) \<Longrightarrow> hook_ok wok (mmodify f) (\<lambda>_. True)"
  by (simp add: hook_ok_def mmodify_def)

lemma hook_ok_mget: "(\<And>w. wok w \<Longrightarrow> P (f w)) \<Longrightarrow> hook_ok wok (mget f) P"
  by (simp add: hook_ok_def mget_def)

lemma hook_ok_if:
  "(b \<Longrightarrow> hook_ok wok m P) \<Longrightarrow> (\<not> b \<Longrightarrow> hook_ok wok m' P) \<Longrightarrow> hook_ok wok (if b then m else m') P"
  by simp

lemma hook_ok_mwhen: "(b \<Longrightarrow> hook_ok wok m (\<lambda>_. True)) \<Longrightarrow> hook_ok wok (mwhen b m) (\<lambda>_. True)"
  by (simp add: mwhen_def hook_ok_mret)

lemma hook_ok_mfold:
  assumes "P a" "\<And>x a. x \<in> set xs \<Longrightarrow> P a \<Longrightarrow> hook_ok wok (f x a) P"
  shows "hook_ok wok (mfold f xs a) P"
  using assms
proof (induction xs arbitrary: a)
  case (Cons x xs)
  then show ?case by (auto intro!: hook_ok_mbind [where P = P])
qed (simp add: hook_ok_mret)

lemma spd_hook_frame [simp]:
  "spd_hook sel (s\<lparr>psci_locks := a\<rparr>) = spd_hook sel s"
  "spd_hook sel (s\<lparr>world := w\<rparr>) = spd_hook sel s"
  "spd_hook sel (s\<lparr>arch_log := b\<rparr>) = spd_hook sel s"
  "spd_hook sel (s\<lparr>psci_svc_cpu_data := d\<rparr>) = spd_hook sel s"
  "spd_hook sel (s\<lparr>psci_non_cpu_pd_nodes := f\<rparr>) = spd_hook sel s"
  "spd_hook sel (s\<lparr>psci_cpu_pd_nodes := g\<rparr>) = spd_hook sel s"
  "spd_hook sel (s\<lparr>psci_req_local_pwr_states := h\<rparr>) = spd_hook sel s"
  by (simp_all add: spd_hook_def)

section \<open>The contract\<close>

text \<open>The state of the secure payload on a core, as the dispatcher tracks it; \<open>SP_NONE\<close>: no such core.\<close>

datatype sp_state = SP_ON | SP_OFF | SP_SUSPENDED | SP_NONE

type_synonym sp_states = "nat \<Rightarrow> sp_state"

text \<open>The hook \<open>sel\<close> of the dispatcher, NULL when no dispatcher is registered.\<close>

definition spd_sel :: "'w spd_pm_ops_t option \<Rightarrow> ('w spd_pm_ops_t \<Rightarrow> 'f option) \<Rightarrow> 'f option" where
  "spd_sel spd sel = (case spd of None \<Rightarrow> None | Some pm \<Rightarrow> sel pm)"

lemma spd_hook_sel: "spd_hook sel s = spd_sel (psci_spd_pm s) sel"
  by (simp add: spd_hook_def spd_sel_def)

text \<open>
  A hook that moves the secure payload of the executing core from the state \<open>pre\<close> to \<open>post\<close>; when
  it is not set, there is no secure payload to move.
\<close>

definition spd_moves ::
  "(sp_states \<Rightarrow> 'w \<Rightarrow> bool) \<Rightarrow> (cpu_regs \<Rightarrow> u64 \<Rightarrow> ('w, 'a) prog) option \<Rightarrow> sp_state \<Rightarrow> sp_state \<Rightarrow> bool" where
  "spd_moves wok h pre post \<longleftrightarrow>
     (\<forall>\<sigma> r a w. \<sigma> (plat_my_core_pos r) = pre \<longrightarrow> wok \<sigma> w \<longrightarrow>
        (case h of
           None \<Rightarrow> wok (\<sigma>(plat_my_core_pos r := post)) w
         | Some f \<Rightarrow> \<exists>v w'. f r a w = Ret v w' \<and> wok (\<sigma>(plat_my_core_pos r := post)) w'))"

text \<open>The hook for turning a core off may also refuse, with the secure payload left as it is.\<close>

definition spd_may_turn_off ::
  "(sp_states \<Rightarrow> 'w \<Rightarrow> bool) \<Rightarrow> (cpu_regs \<Rightarrow> u64 \<Rightarrow> ('w, int) prog) option \<Rightarrow> bool" where
  "spd_may_turn_off wok h \<longleftrightarrow>
     (\<forall>\<sigma> r a w. \<sigma> (plat_my_core_pos r) = SP_ON \<longrightarrow> wok \<sigma> w \<longrightarrow>
        (case h of
           None \<Rightarrow> wok (\<sigma>(plat_my_core_pos r := SP_OFF)) w
         | Some f \<Rightarrow> \<exists>rc w'. f r a w = Ret rc w' \<and>
             (rc = PSCI_E_SUCCESS \<and> wok (\<sigma>(plat_my_core_pos r := SP_OFF)) w' \<or>
              rc = PSCI_E_DENIED \<and> wok \<sigma> w')))"

locale psci_platform =
  fixes ops :: "'w plat_psci_ops_t"
    and spd :: "'w spd_pm_ops_t option"
    and wok :: "sp_states \<Rightarrow> 'w \<Rightarrow> bool"
  assumes on_hook: "\<exists>f. pwr_domain_on ops = Some f \<and>
      (\<forall>\<sigma> r m. hook_ok (wok \<sigma>) (f r m) (\<lambda>rc. rc = PSCI_E_SUCCESS \<or> rc = PSCI_E_INTERN_FAIL))"
    and on_finish_hook: "\<exists>f. pwr_domain_on_finish ops = Some f \<and> (\<forall>\<sigma> r si. hook_ok (wok \<sigma>) (f r si) (\<lambda>_. True))"
    and off_hook: "\<exists>f. pwr_domain_off ops = Some f \<and> (\<forall>\<sigma> r si. hook_ok (wok \<sigma>) (f r si) (\<lambda>_. True))"
    and suspend_hook: "\<exists>f. pwr_domain_suspend ops = Some f \<and> (\<forall>\<sigma> r si. hook_ok (wok \<sigma>) (f r si) (\<lambda>_. True))"
    and suspend_finish_hook:
      "\<exists>f. pwr_domain_suspend_finish ops = Some f \<and> (\<forall>\<sigma> r si. hook_ok (wok \<sigma>) (f r si) (\<lambda>_. True))"
    and early_hook: "pwr_domain_suspend_pwrdown_early ops = Some f \<Longrightarrow> hook_ok (wok \<sigma>) (f r si) (\<lambda>_. True)"
    and wfi_hook: "pwr_domain_pwr_down_wfi ops = Some f \<Longrightarrow> hook_ok (wok \<sigma>) (f r si) (\<lambda>_. True)"
    and spd_on: "spd_sel spd svc_on = Some g \<Longrightarrow> hook_ok (wok \<sigma>) (g r x) (\<lambda>_. True)"
    and spd_off: "spd_may_turn_off wok (spd_sel spd svc_off)"
    and spd_suspend: "spd_moves wok (spd_sel spd svc_suspend) SP_ON SP_SUSPENDED"
    and spd_on_finish: "spd_moves wok (spd_sel spd svc_on_finish) SP_OFF SP_ON"
    and spd_suspend_finish: "spd_moves wok (spd_sel spd svc_suspend_finish) SP_SUSPENDED SP_ON"
begin

definition plat_ok :: "sp_states \<Rightarrow> 'w psci_state \<Rightarrow> bool" where
  "plat_ok \<sigma> s \<longleftrightarrow> psci_plat_pm_ops s = ops \<and> psci_spd_pm s = spd \<and> wok \<sigma> (world s)"

lemma plat_okD:
  assumes "plat_ok \<sigma> s"
  shows "psci_plat_pm_ops s = ops" "psci_spd_pm s = spd" "wok \<sigma> (world s)"
  using assms by (simp_all add: plat_ok_def)

lemma call_hook_run:
  assumes "\<exists>f. h = Some f \<and> (\<forall>\<sigma> r x. hook_ok (wok \<sigma>) (f r x) P)" "wok \<sigma> (world s)"
  obtains v w where "call_hook h (\<lambda>f. f r x) s = Ret v (s\<lparr>world := w\<rparr>)" "wok \<sigma> w" "P v"
proof -
  from assms(1) obtain f where f: "h = Some f" "hook_ok (wok \<sigma>) (f r x) P" by auto
  from f(2) assms(2) obtain v w where "lift_world (f r x) s = Ret v (s\<lparr>world := w\<rparr>)" "wok \<sigma> w" "P v"
    by (rule hook_okD)
  then show thesis by (intro that [of v w]) (simp_all add: f call_hook_def)
qed

lemma call_if_set_run:
  assumes "\<And>f. h = Some f \<Longrightarrow> hook_ok (wok \<sigma>) (args f) (\<lambda>_. True)" "wok \<sigma> (world s)"
  obtains w where "call_if_set h args s = Ret () (s\<lparr>world := w\<rparr>)" "wok \<sigma> w"
proof (cases h)
  case None
  then show thesis using assms(2) by (intro that [of "world s"]) (simp_all add: call_if_set_def mret_def)
next
  case (Some f)
  from assms(1) [OF Some] assms(2) obtain v w where "lift_world (args f) s = Ret v (s\<lparr>world := w\<rparr>)" "wok \<sigma> w"
    by (rule hook_okD)
  then show thesis by (intro that [of w]) (simp_all add: Some call_if_set_def)
qed

text \<open>A hook of the dispatcher that moves the secure payload of the executing core.\<close>

lemma spd_moves_run:
  assumes "spd_moves wok h pre post" "wok \<sigma> (world s)" "\<sigma> (plat_my_core_pos e) = pre"
  obtains w where "call_if_set h (\<lambda>f. f (regs e) a) s = Ret () (s\<lparr>world := w\<rparr>)"
    "wok (\<sigma>(plat_my_core_pos e := post)) w"
proof -
  have pos: "plat_my_core_pos (regs e) = plat_my_core_pos e" by (simp add: cpu_regs.truncate_def)
  have law: "case h of None \<Rightarrow> wok (\<sigma>(plat_my_core_pos e := post)) (world s)
      | Some f \<Rightarrow> \<exists>v w'. f (regs e) a (world s) = Ret v w' \<and> wok (\<sigma>(plat_my_core_pos e := post)) w'"
    using assms(1) [unfolded spd_moves_def, rule_format, of \<sigma> "regs e" "world s" a] assms(2,3)
    unfolding pos by blast
  show thesis
  proof (cases h)
    case None
    with law show thesis by (intro that [of "world s"]) (simp_all add: call_if_set_def mret_def)
  next
    case (Some f)
    with law obtain v w where "f (regs e) a (world s) = Ret v w" "wok (\<sigma>(plat_my_core_pos e := post)) w" by auto
    then show thesis using Some by (intro that [of w]) (simp_all add: call_if_set_def lift_world_def)
  qed
qed

end

end
