(* ===== verification/Imx8mq_Gpc.thy ===== *)
theory Imx8mq_Gpc
  imports Psci_Platform
begin

text \<open>
  \<^verbatim>\<open>plat/imx/imx8mq/gpc.c\<close>: the general power controller of the i.MX8MQ, driven through memory
  mapped registers, and its SiP service. The world of the platform is the record \<open>imx_world\<close>: the
  register file, the static variables of the file, and the log of what the platform asks of the
  GIC, the DRAM controller and the core's own registers. A loop that polls a register runs the
  function \<open>device\<close> between two reads (the hardware's own change of its registers) and gives up
  with \<open>Device_hangs\<close> after \<open>poll_limit\<close> reads.
\<close>

section \<open>Registers\<close>

datatype imx_event =
    Imx_gic_pcpu_init | Imx_gic_cpuif_enable | Imx_gic_cpuif_disable
  | Imx_scr_el3_or u64 | Imx_scr_el3_andnot u64 | Imx_wfi
  | Imx_dram_enter_retention | Imx_dram_exit_retention
  | Imx_mailbox_init u64 | Imx_udelay nat

record imx_world =
  mmio :: "u64 \<Rightarrow> u32"
  mmio_half :: "u64 \<Rightarrow> 16 word"
  mmio_byte :: "u64 \<Rightarrow> u8"
  device :: "(u64 \<Rightarrow> u32) \<Rightarrow> (u64 \<Rightarrow> u32)"
  poll_limit :: nat
  is_pcie1_power_down :: bool
  gpc_saved_imrs :: "u32 list"
  gpc_wake_irqs :: "u32 list"
  imx_log :: "imx_event list"

abbreviation IMX_ANAMIX_BASE :: u64 where "IMX_ANAMIX_BASE \<equiv> 0x30360000"
abbreviation IMX_OCOTP_BASE :: u64 where "IMX_OCOTP_BASE \<equiv> 0x30350000"
abbreviation IMX_SRC_BASE :: u64 where "IMX_SRC_BASE \<equiv> 0x30390000"
abbreviation IMX_GPC_BASE :: u64 where "IMX_GPC_BASE \<equiv> 0x303a0000"
abbreviation IMX_WDOG_BASE :: u64 where "IMX_WDOG_BASE \<equiv> 0x30280000"
abbreviation IMX_SNVS_BASE :: u64 where "IMX_SNVS_BASE \<equiv> 0x30370000"
abbreviation IMX_NOC_BASE :: u64 where "IMX_NOC_BASE \<equiv> 0x32700000"
abbreviation IMX_ROM_BASE :: u64 where "IMX_ROM_BASE \<equiv> 0"

definition mmio_read_32 :: "u64 \<Rightarrow> ('a imx_world_scheme, u32) prog" where
  "mmio_read_32 addr = mget (\<lambda>w. mmio w addr)"

definition mmio_write_32 :: "u64 \<Rightarrow> u32 \<Rightarrow> ('a imx_world_scheme, unit) prog" where
  "mmio_write_32 addr v = mmodify (\<lambda>w. w\<lparr>mmio := (mmio w)(addr := v)\<rparr>)"

text \<open>\<^verbatim>\<open>val = mmio_read_32(addr); val = f(val); mmio_write_32(addr, val);\<close>\<close>

definition mmio_rmw_32 :: "u64 \<Rightarrow> (u32 \<Rightarrow> u32) \<Rightarrow> ('a imx_world_scheme, unit) prog" where
  "mmio_rmw_32 addr f = mbind (mmio_read_32 addr) (\<lambda>val. mmio_write_32 addr (f val))"

definition imx_emit :: "imx_event \<Rightarrow> ('a imx_world_scheme, unit) prog" where
  "imx_emit ev = mmodify (\<lambda>w. w\<lparr>imx_log := imx_log w @ [ev]\<rparr>)"

text \<open>\<^verbatim>\<open>while (mmio_read_32(addr) & mask) ;\<close>\<close>

primrec poll_clear :: "nat \<Rightarrow> u64 \<Rightarrow> u32 \<Rightarrow> ('a imx_world_scheme, unit) prog" where
  "poll_clear 0 addr msk = mstop Device_hangs"
| "poll_clear (Suc n) addr msk =
     mbind (mmio_read_32 addr) (\<lambda>v.
     if v AND msk = 0 then mret ()
     else mbind (mmodify (\<lambda>w. w\<lparr>mmio := device w (mmio w)\<rparr>)) (\<lambda>_. poll_clear n addr msk))"

definition mmio_poll_clear :: "u64 \<Rightarrow> u32 \<Rightarrow> ('a imx_world_scheme, unit) prog" where
  "mmio_poll_clear addr msk = mbind (mget poll_limit) (\<lambda>n. poll_clear n addr msk)"

text \<open>\<^verbatim>\<open>1 << n\<close> on 32 bits.\<close>

abbreviation BIT32 :: "nat \<Rightarrow> u32" where "BIT32 n \<equiv> push_bit n 1"

section \<open>Power control of the cores\<close>

definition gpc_pu_m_core_offset :: "u64 list" where
  "gpc_pu_m_core_offset =
     [0xc00, 0xc40, 0xc80, 0xcc0, 0xdc0, 0xe00, 0xe40, 0xe80, 0xec0, 0xf00, 0xf40]"

definition imx_gpc_set_m_core_pgc :: "u64 \<Rightarrow> bool \<Rightarrow> ('a imx_world_scheme, unit) prog" where
  "imx_gpc_set_m_core_pgc offset pdn =
     mmio_rmw_32 (IMX_GPC_BASE + offset) (\<lambda>val. let val = val AND NOT 1 in if pdn then val OR 1 else val)"

definition imx_set_cpu_secure_entry :: "nat \<Rightarrow> u64 \<Rightarrow> ('a imx_world_scheme, unit) prog" where
  "imx_set_cpu_secure_entry core_id sec_entrypoint =
     (let temp_base = drop_bit 2 sec_entrypoint
      in mbind (mmio_write_32 (IMX_SRC_BASE + 0x74 + push_bit 3 (of_nat core_id))
                  (ucast (drop_bit 22 temp_base) AND 0xffff)) (\<lambda>_.
         mmio_write_32 (IMX_SRC_BASE + 0x74 + push_bit 3 (of_nat core_id) + 4)
           (ucast temp_base AND 0x003fffff)))"

text \<open>The bits of a core in the A53 advanced register: WFI power down, and IRQ wake-up.\<close>

definition core_wfi_pdn_bit :: "nat \<Rightarrow> u32" where
  "core_wfi_pdn_bit core_id = BIT32 (if core_id < 2 then core_id * 2 else (core_id - 2) * 2 + 16)"

definition core_irq_wup_bit :: "nat \<Rightarrow> u32" where
  "core_irq_wup_bit core_id = (if core_id < 2 then BIT32 (core_id * 2 + 8) else BIT32 (core_id * 2 + 20))"

definition core_pup_bit :: "nat \<Rightarrow> u32" where
  "core_pup_bit core_id = (if core_id < 2 then BIT32 (core_id * 2 + 9) else BIT32 (core_id * 2 + 21))"

abbreviation core_pgc :: "nat \<Rightarrow> u64" where
  "core_pgc core_id \<equiv> IMX_GPC_BASE + 0x800 + 0x40 * of_nat core_id"

definition imx_set_cpu_pwr_off :: "nat \<Rightarrow> ('a imx_world_scheme, unit) prog" where
  "imx_set_cpu_pwr_off core_id =
     mbind (mmio_rmw_32 (IMX_GPC_BASE + 0x4)
              (\<lambda>val. (val OR core_wfi_pdn_bit core_id) OR BIT32 (core_id + 20))) (\<lambda>_.
     mmio_rmw_32 (core_pgc core_id) (\<lambda>val. val OR 1))"

definition imx_set_cpu_pwr_on :: "nat \<Rightarrow> ('a imx_world_scheme, unit) prog" where
  "imx_set_cpu_pwr_on core_id =
     mbind (mmio_rmw_32 (IMX_GPC_BASE + 0x4) (\<lambda>val. val AND NOT (core_wfi_pdn_bit core_id))) (\<lambda>_.
     mbind (mmio_rmw_32 (IMX_SRC_BASE + 0x8) (\<lambda>val. val AND NOT (BIT32 core_id))) (\<lambda>_.
     mbind (mmio_rmw_32 (core_pgc core_id) (\<lambda>val. val OR 1)) (\<lambda>_.
     mbind (mmio_rmw_32 (IMX_GPC_BASE + 0xf0) (\<lambda>val. val OR BIT32 core_id)) (\<lambda>_.
     mbind (mmio_poll_clear (IMX_GPC_BASE + 0xf0) (BIT32 core_id)) (\<lambda>_.
     mbind (mmio_rmw_32 (core_pgc core_id) (\<lambda>val. val AND NOT 1)) (\<lambda>_.
     mmio_rmw_32 (IMX_SRC_BASE + 0x8) (\<lambda>val. val OR BIT32 core_id)))))))"

definition imx_set_cpu_lpm :: "nat \<Rightarrow> bool \<Rightarrow> ('a imx_world_scheme, unit) prog" where
  "imx_set_cpu_lpm core_id pdn =
     (if pdn then
        mbind (mmio_rmw_32 (IMX_GPC_BASE + 0x4)
                 (\<lambda>val. ((val OR core_wfi_pdn_bit core_id) OR BIT32 (core_id + 20)) OR core_irq_wup_bit core_id)) (\<lambda>_.
        mmio_rmw_32 (core_pgc core_id) (\<lambda>val. val OR 1))
      else
        mbind (mmio_rmw_32 (IMX_GPC_BASE + 0x4)
                 (\<lambda>val. (val AND NOT (core_wfi_pdn_bit core_id)) AND NOT (core_irq_wup_bit core_id))) (\<lambda>_.
        mmio_rmw_32 (core_pgc core_id) (\<lambda>val. val AND NOT 1)))"

section \<open>Power control of the cluster and the system\<close>

text \<open>The interrupt mask registers of core \<open>k\<close>, and one step of saving or restoring them.\<close>

definition mask_offset :: "u64 list" where
  "mask_offset = [0x30, 0x40, 0x1c0, 0x1d0]"

definition save_imr :: "nat \<Rightarrow> nat \<Rightarrow> ('a imx_world_scheme, unit) prog" where
  "save_imr i k =
     mbind (mmio_read_32 (IMX_GPC_BASE + mask_offset ! k + of_nat i * 4)) (\<lambda>v.
     mbind (mget gpc_saved_imrs) (\<lambda>imrs.
     mbind (array_check imrs (i + 4 * k)) (\<lambda>_.
     mmodify (\<lambda>w. w\<lparr>gpc_saved_imrs := (gpc_saved_imrs w)[i + 4 * k := v]\<rparr>))))"

definition write_wake_imr :: "nat \<Rightarrow> nat \<Rightarrow> ('a imx_world_scheme, unit) prog" where
  "write_wake_imr i k =
     mbind (mget gpc_wake_irqs) (\<lambda>irqs.
     mbind (array_get irqs i) (\<lambda>v.
     mmio_write_32 (IMX_GPC_BASE + mask_offset ! k + of_nat i * 4) (NOT v)))"

definition restore_imr :: "nat \<Rightarrow> nat \<Rightarrow> ('a imx_world_scheme, unit) prog" where
  "restore_imr i k =
     mbind (mget gpc_saved_imrs) (\<lambda>imrs.
     mbind (array_get imrs (i + 4 * k)) (\<lambda>v.
     mmio_write_32 (IMX_GPC_BASE + mask_offset ! k + of_nat i * 4) v))"

definition imx_set_lpm_wakeup :: "bool \<Rightarrow> ('a imx_world_scheme, unit) prog" where
  "imx_set_lpm_wakeup pdn =
     (if pdn then
        mfold (\<lambda>i _.
          mbind (mfold (\<lambda>k _. save_imr i k) [0..<4] ()) (\<lambda>_.
          mfold (\<lambda>k _. write_wake_imr i k) [0..<4] ())) [0..<4] ()
      else
        mfold (\<lambda>i _. mfold (\<lambda>k _. restore_imr i k) [0..<4] ()) [0..<4] ())"

definition slot_pup_ack :: "nat \<Rightarrow> u32" where
  "slot_pup_ack last_core = (if last_core < 2 then BIT32 (last_core + 16) else BIT32 (last_core + 27))"

definition imx_pup_pdn_slot_config :: "nat \<Rightarrow> bool \<Rightarrow> ('a imx_world_scheme, unit) prog" where
  "imx_pup_pdn_slot_config last_core pdn =
     mbind (mmio_read_32 (IMX_GPC_BASE + 0xb0)) (\<lambda>slot0_cfg.
     mbind (mmio_read_32 (IMX_GPC_BASE + 0xb0 + 0x4)) (\<lambda>slot1_cfg.
     mbind (mmio_read_32 (IMX_GPC_BASE + 0xb0 + 0x8)) (\<lambda>slot2_cfg.
     mbind (mmio_read_32 (IMX_GPC_BASE + 0x24)) (\<lambda>slot_ack.
     let slot0 = (if pdn then slot0_cfg OR BIT32 8 else slot0_cfg AND NOT (BIT32 8));
         slot1 = (if pdn then slot1_cfg OR BIT32 9 else slot1_cfg AND NOT (BIT32 9));
         slot2 = (if pdn then slot2_cfg OR push_bit (last_core * 2) 2
                  else slot2_cfg AND NOT (push_bit (last_core * 2) 2));
         ack = (if pdn then (((slot_ack AND NOT (BIT32 15)) OR BIT32 2) AND NOT (BIT32 31)) OR slot_pup_ack last_core
                else (((slot_ack OR BIT32 15) AND NOT (BIT32 2)) OR BIT32 31) AND NOT (slot_pup_ack last_core))
     in mbind (mmio_write_32 (IMX_GPC_BASE + 0xb0) slot0) (\<lambda>_.
        mbind (mmio_write_32 (IMX_GPC_BASE + 0xb0 + 0x4) slot1) (\<lambda>_.
        mbind (mmio_write_32 (IMX_GPC_BASE + 0xb0 + 0x8) slot2) (\<lambda>_.
        mmio_write_32 (IMX_GPC_BASE + 0x24) ack)))))))"

definition imx_set_cluster_standby :: "bool \<Rightarrow> ('a imx_world_scheme, unit) prog" where
  "imx_set_cluster_standby enter =
     mmio_rmw_32 (IMX_GPC_BASE + 0x4) (\<lambda>val. if enter then val OR BIT32 6 else val AND NOT (BIT32 6))"

definition imx_set_cluster_powerdown :: "nat \<Rightarrow> bool \<Rightarrow> ('a imx_world_scheme, unit) prog" where
  "imx_set_cluster_powerdown last_core pdn =
     (if pdn then
        mbind (mmio_rmw_32 (IMX_GPC_BASE + 0x0) (\<lambda>val. (val OR 0xa) AND NOT (BIT32 14))) (\<lambda>_.
        mbind (mmio_rmw_32 (IMX_GPC_BASE + 0x108) (\<lambda>val. val OR 0xa)) (\<lambda>_.
        mbind (mmio_rmw_32 (IMX_GPC_BASE + 0x4) (\<lambda>val.
                 (((val AND NOT (BIT32 5)) OR (BIT32 31 OR BIT32 4)) AND NOT (core_irq_wup_bit last_core))
                 OR core_pup_bit last_core)) (\<lambda>_.
        mbind (imx_pup_pdn_slot_config last_core True) (\<lambda>_.
        mbind (imx_set_lpm_wakeup True) (\<lambda>_.
        mmio_rmw_32 (IMX_GPC_BASE + 0x900) (\<lambda>val. val OR 1))))))
      else
        mbind (mmio_rmw_32 (IMX_GPC_BASE + 0x900) (\<lambda>val. val AND NOT 1)) (\<lambda>_.
        mbind (imx_pup_pdn_slot_config last_core False) (\<lambda>_.
        mbind (imx_set_lpm_wakeup False) (\<lambda>_.
        mbind (mmio_rmw_32 (IMX_GPC_BASE + 0x0) (\<lambda>val. (val AND NOT 0xa) OR BIT32 14)) (\<lambda>_.
        mbind (mmio_rmw_32 (IMX_GPC_BASE + 0x108) (\<lambda>val. val AND NOT 0xa)) (\<lambda>_.
        mmio_rmw_32 (IMX_GPC_BASE + 0x4) (\<lambda>val.
          ((val OR BIT32 5) AND NOT (BIT32 31 OR BIT32 4)) AND NOT (core_pup_bit last_core))))))))"

text \<open>\<^verbatim>\<open>SLPCR_EN_DSM | SLPCR_VSTBY | SLPCR_SBYOS | SLPCR_BYPASS_PMIC_READY | SLPCR_RBC_EN\<close>.\<close>

definition SLPCR_LPM_BITS :: u32 where
  "SLPCR_LPM_BITS = BIT32 31 OR BIT32 2 OR BIT32 1 OR 1 OR BIT32 30"

definition imx_set_sys_lpm :: "bool \<Rightarrow> ('a imx_world_scheme, unit) prog" where
  "imx_set_sys_lpm retention =
     mbind (mmio_read_32 (IMX_GPC_BASE + 0x14)) (\<lambda>val.
     let val = val AND NOT SLPCR_LPM_BITS
     in if retention then
          mbind (imx_emit Imx_dram_enter_retention) (\<lambda>_.
          mmio_write_32 (IMX_GPC_BASE + 0x14) (val OR SLPCR_LPM_BITS))
        else
          mbind (imx_emit Imx_dram_exit_retention) (\<lambda>_.
          mmio_write_32 (IMX_GPC_BASE + 0x14) val))"

definition imx_set_rbc_count :: "('a imx_world_scheme, unit) prog" where
  "imx_set_rbc_count = mmio_rmw_32 (IMX_GPC_BASE + 0x14) (\<lambda>val. val OR push_bit 24 0x3f)"

definition imx_clear_rbc_count :: "('a imx_world_scheme, unit) prog" where
  "imx_clear_rbc_count = mmio_rmw_32 (IMX_GPC_BASE + 0x14) (\<lambda>val. val AND NOT (push_bit 24 0x3f))"

text \<open>The override bits of the PLLs and the oscillator, in the order the code sets them.\<close>

definition anamix_overrides :: "(u64 \<times> u32) list" where
  "anamix_overrides =
     [(0x0, 0x140000), (0x8, 0x140000), (0x10, 0x140000), (0x18, 0x140000), (0x20, 0x140000),
      (0x28, 0x140000), (0x30, 0x1555540), (0x3c, 0x1555540), (0x48, 0x140), (0x54, 0x140),
      (0x60, 0x140), (0x70, 0xa)]"

definition imx_anamix_pre_suspend :: "('a imx_world_scheme, unit) prog" where
  "imx_anamix_pre_suspend =
     mfold (\<lambda>(off, m) _. mmio_rmw_32 (IMX_ANAMIX_BASE + off) (\<lambda>val. val OR m)) anamix_overrides ()"

definition imx_anamix_post_resume :: "('a imx_world_scheme, unit) prog" where
  "imx_anamix_post_resume =
     mfold (\<lambda>(off, m) _. mmio_rmw_32 (IMX_ANAMIX_BASE + off) (\<lambda>val. val AND NOT m)) anamix_overrides ()"

section \<open>The SiP service of the GPC\<close>

definition gpc_imr_reg :: "u64 \<Rightarrow> u32 \<Rightarrow> u64" where
  "gpc_imr_reg offset hwirq = IMX_GPC_BASE + offset + ucast (hwirq div 32) * 4"

definition imx_gpc_hwirq_mask :: "u32 \<Rightarrow> ('a imx_world_scheme, unit) prog" where
  "imx_gpc_hwirq_mask hwirq =
     mmio_rmw_32 (gpc_imr_reg 0x30 hwirq) (\<lambda>val. val OR BIT32 (unat (hwirq mod 32)))"

definition imx_gpc_hwirq_unmask :: "u32 \<Rightarrow> ('a imx_world_scheme, unit) prog" where
  "imx_gpc_hwirq_unmask hwirq =
     mmio_rmw_32 (gpc_imr_reg 0x30 hwirq) (\<lambda>val. val AND NOT (BIT32 (unat (hwirq mod 32))))"

definition imx_gpc_set_wake :: "u32 \<Rightarrow> u32 \<Rightarrow> ('a imx_world_scheme, unit) prog" where
  "imx_gpc_set_wake hwirq on =
     (let msk = BIT32 (unat (hwirq mod 32)); idx = unat (hwirq div 32)
      in mbind (mget gpc_wake_irqs) (\<lambda>irqs.
         mbind (array_get irqs idx) (\<lambda>v.
         mmodify (\<lambda>w. w\<lparr>gpc_wake_irqs := (gpc_wake_irqs w)[idx := if on \<noteq> 0 then v OR msk else v AND NOT msk]\<rparr>))))"

definition imx_gpc_set_affinity :: "u32 \<Rightarrow> u32 \<Rightarrow> ('a imx_world_scheme, unit) prog" where
  "imx_gpc_set_affinity hwirq cpu_idx =
     mbind (array_get mask_offset (unat cpu_idx)) (\<lambda>offset.
     mbind (mmio_rmw_32 (gpc_imr_reg offset hwirq) (\<lambda>val. val AND NOT (BIT32 (unat (hwirq mod 32))))) (\<lambda>_.
     mfold (\<lambda>i _.
       mwhen (unat cpu_idx \<noteq> i)
         (mmio_rmw_32 (gpc_imr_reg (mask_offset ! i) hwirq) (\<lambda>val. val OR BIT32 (unat (hwirq mod 32)))))
       [0..<4] ()))"

text \<open>The power handshake bit of the GPU, VPU and display domains.\<close>

definition gpc_pu_handshake :: "u32 \<Rightarrow> u32" where
  "gpc_pu_handshake domain_id =
     (if domain_id = 4 then 0x40 else if domain_id = 5 then 0x20 else if domain_id = 7 then 0x10 else 0)"

function imx_gpc_pm_domain_enable :: "u32 \<Rightarrow> bool \<Rightarrow> ('a imx_world_scheme, unit) prog" where
  "imx_gpc_pm_domain_enable domain_id on =
     mbind
       (if domain_id = 1 \<and> \<not> on then mmodify (\<lambda>w. w\<lparr>is_pcie1_power_down := True\<rparr>)
        else if domain_id = 1 \<and> on then
          mbind (imx_gpc_pm_domain_enable 10 True) (\<lambda>_.
          mmodify (\<lambda>w. w\<lparr>is_pcie1_power_down := False\<rparr>))
        else mret ()) (\<lambda>_.
     mbind (mget is_pcie1_power_down) (\<lambda>pcie1_down.
     if domain_id = 10 \<and> \<not> on \<and> \<not> pcie1_down then mret ()
     else
       mbind (mwhen (gpc_pu_handshake domain_id \<noteq> 0)
                (mmio_rmw_32 0x303a01fc (\<lambda>val.
                   if on then val OR gpc_pu_handshake domain_id
                   else val AND NOT (gpc_pu_handshake domain_id)))) (\<lambda>_.
       mbind (array_get gpc_pu_m_core_offset (unat domain_id)) (\<lambda>offset.
       mbind (imx_gpc_set_m_core_pgc offset True) (\<lambda>_.
       let reg = IMX_GPC_BASE + (if on then 0xf8 else 0x104);
           val = BIT32 (if domain_id > 3 then unat (domain_id + 3) else unat domain_id)
       in mbind (mmio_write_32 reg val) (\<lambda>_.
          mbind (mmio_poll_clear reg val) (\<lambda>_.
          imx_gpc_set_m_core_pgc offset False)))))))"
  by pat_completeness auto

termination
  by (relation "measure (\<lambda>(domain_id, on). if domain_id = 1 then 1 else 0)") auto

definition imx_gpc_init :: "('a imx_world_scheme, unit) prog" where
  "imx_gpc_init =
     mbind (mfold (\<lambda>i _.
              mbind (mmio_write_32 (IMX_GPC_BASE + 0x30 + of_nat i * 4) (NOT 0)) (\<lambda>_.
              mbind (mmio_write_32 (IMX_GPC_BASE + 0x40 + of_nat i * 4) (NOT 0)) (\<lambda>_.
              mbind (mmio_write_32 (IMX_GPC_BASE + 0x1c0 + of_nat i * 4) (NOT 0)) (\<lambda>_.
              mbind (mmio_write_32 (IMX_GPC_BASE + 0x1d0 + of_nat i * 4) (NOT 0)) (\<lambda>_.
              mmio_write_32 (IMX_GPC_BASE + 0x50 + of_nat i * 4) (NOT 0))))))
            [0..<4] ()) (\<lambda>_.
     mbind (mmio_write_32 (IMX_GPC_BASE + 0x30) (NOT 1)) (\<lambda>_.
     mbind (mmio_write_32 (IMX_GPC_BASE + 0x40) (NOT 1)) (\<lambda>_.
     mbind (mmio_write_32 (IMX_GPC_BASE + 0x1c0) (NOT 1)) (\<lambda>_.
     mbind (mmio_write_32 (IMX_GPC_BASE + 0x1d0) (NOT 1)) (\<lambda>_.
     mbind (mmio_rmw_32 (IMX_GPC_BASE + 0x0) (\<lambda>val. (val OR 0x40000000) AND NOT (BIT32 6))) (\<lambda>_.
     mbind (mmio_rmw_32 (IMX_GPC_BASE + 0x8) (\<lambda>val. val OR BIT32 31)) (\<lambda>_.
     mbind (mmio_write_32 (IMX_GPC_BASE + 0xec) 0xfffd) (\<lambda>_.
     mbind (mmio_write_32 (IMX_GPC_BASE + 0x910) (push_bit 10 0x59 OR 0x5B OR push_bit 20 0x2)) (\<lambda>_.
     mbind (mmio_write_32 (IMX_GPC_BASE + 0x24) (BIT32 31 OR BIT32 15)) (\<lambda>_.
     mbind (mmio_rmw_32 (IMX_GPC_BASE + 0x14) (\<lambda>val. val AND NOT (BIT32 31))) (\<lambda>_.
     mbind (mmio_rmw_32 0x30390020 (\<lambda>val. val AND NOT 1)) (\<lambda>_.
     mbind (mmio_rmw_32 0x30390024 (\<lambda>val. val AND NOT 1)) (\<lambda>_.
     imx_emit (Imx_udelay 100))))))))))))))"

definition imx_gpc_handler :: "u32 \<Rightarrow> u64 \<Rightarrow> u64 \<Rightarrow> u64 \<Rightarrow> ('a imx_world_scheme, int) prog" where
  "imx_gpc_handler smc_fid x1 x2 x3 =
     (if x1 = 0x02 then mbind (imx_gpc_set_wake (ucast x2) (ucast x3)) (\<lambda>_. mret 0)
      else if x1 = 0x00 then mbind (imx_gpc_hwirq_mask (ucast x2)) (\<lambda>_. mret 0)
      else if x1 = 0x01 then mbind (imx_gpc_hwirq_unmask (ucast x2)) (\<lambda>_. mret 0)
      else if x1 = 0x03 then mbind (imx_gpc_pm_domain_enable (ucast x2) ((ucast x3 :: u32) \<noteq> 0)) (\<lambda>_. mret 0)
      else if x1 = 0x04 then mbind (imx_gpc_set_affinity (ucast x2) (ucast x3)) (\<lambda>_. mret 0)
      else mret (-1))"

declare imx_gpc_pm_domain_enable.simps [simp del]

section \<open>The contract of the platform's world\<close>

text \<open>
  The request registers of the GPC clear themselves: whatever the registers hold, one of the first
  \<open>n\<close> reads of a request register finds it clear.
\<close>

definition gpc_request_regs :: "u64 set" where
  "gpc_request_regs = {IMX_GPC_BASE + 0xf0, IMX_GPC_BASE + 0xf8, IMX_GPC_BASE + 0x104}"

definition self_clearing :: "((u64 \<Rightarrow> u32) \<Rightarrow> (u64 \<Rightarrow> u32)) \<Rightarrow> nat \<Rightarrow> bool" where
  "self_clearing d n \<longleftrightarrow> (\<forall>m. \<forall>a \<in> gpc_request_regs. \<exists>k < n. (d ^^ k) m a = 0)"

definition imx_ok :: "'a imx_world_scheme \<Rightarrow> bool" where
  "imx_ok w \<longleftrightarrow>
     length (gpc_saved_imrs w) = 16 \<and> length (gpc_wake_irqs w) = 4 \<and>
     self_clearing (device w) (poll_limit w)"

text \<open>
  The same with the fields that extend the record: no operation of the platform touches them.
\<close>

definition imx_okx :: "'a \<Rightarrow> 'a imx_world_scheme \<Rightarrow> bool" where
  "imx_okx x w \<longleftrightarrow> imx_ok w \<and> imx_world.more w = x"

lemma poll_clear_run:
  assumes "\<exists>k < n. (device w ^^ k) (mmio w) a = 0"
  shows "\<exists>m. poll_clear n a msk w = Ret () (w\<lparr>mmio := m\<rparr>)"
  using assms
proof (induction n arbitrary: w)
  case (Suc n)
  show ?case
  proof (cases "mmio w a AND msk = 0")
    case True
    then have "poll_clear (Suc n) a msk w = Ret () (w\<lparr>mmio := mmio w\<rparr>)"
      by (simp add: mmio_read_32_def prog_simps)
    then show ?thesis by blast
  next
    case False
    let ?w = "w\<lparr>mmio := device w (mmio w)\<rparr>"
    from Suc.prems obtain k where "k < Suc n" "(device w ^^ k) (mmio w) a = 0" by blast
    moreover then have "k \<noteq> 0" using False by (metis and_zero_eq funpow_0 and.left_neutral and.commute bit.conj_zero_left)
    ultimately have "\<exists>k < n. (device ?w ^^ k) (mmio ?w) a = 0"
      by (cases k) (auto simp: funpow_swap1)
    from Suc.IH [OF this] obtain m where "poll_clear n a msk ?w = Ret () (?w\<lparr>mmio := m\<rparr>)" by blast
    then have "poll_clear (Suc n) a msk w = Ret () (w\<lparr>mmio := m\<rparr>)"
      using False by (simp add: mmio_read_32_def)
    then show ?thesis by blast
  qed
qed simp

text \<open>Polling a request register ends.\<close>

lemma hook_ok_poll: "a \<in> gpc_request_regs \<Longrightarrow> hook_ok (imx_okx x) (mmio_poll_clear a msk) (\<lambda>_. True)"
  unfolding hook_ok_def
proof (intro allI impI)
  fix w :: "'a imx_world_scheme" assume "a \<in> gpc_request_regs" "imx_okx x w"
  then obtain m where "poll_clear (poll_limit w) a msk w = Ret () (w\<lparr>mmio := m\<rparr>)"
    using poll_clear_run [of "poll_limit w" w a msk] by (auto simp: imx_okx_def imx_ok_def self_clearing_def)
  then show "\<exists>v w'. mmio_poll_clear a msk w = Ret v w' \<and> imx_okx x w' \<and> True"
    using \<open>imx_okx x w\<close> by (simp add: mmio_poll_clear_def imx_okx_def imx_ok_def)
qed

lemma hook_ok_mmio:
  "hook_ok (imx_okx x) (mmio_read_32 a) (\<lambda>_. True)" "hook_ok (imx_okx x) (mmio_write_32 a v) (\<lambda>_. True)"
  "hook_ok (imx_okx x) (mmio_rmw_32 a f) (\<lambda>_. True)" "hook_ok (imx_okx x) (imx_emit ev) (\<lambda>_. True)"
  by (simp_all add: hook_ok_def mmio_read_32_def mmio_write_32_def mmio_rmw_32_def imx_emit_def
      prog_simps imx_okx_def imx_ok_def mbind_def)

lemma hook_ok_then:
  "hook_ok wok m (\<lambda>_. True) \<Longrightarrow> (\<And>v. hook_ok wok (f v) P) \<Longrightarrow> hook_ok wok (mbind m f) P"
  by (rule hook_ok_mbind)

lemma hook_ok_loop: "(\<And>x a. x \<in> set xs \<Longrightarrow> hook_ok wok (f x a) (\<lambda>_. True)) \<Longrightarrow> hook_ok wok (mfold f xs a) (\<lambda>_. True)"
  by (rule hook_ok_mfold) auto

lemma hook_ok_imrs:
  assumes "i < 4" "k < 4"
  shows "hook_ok (imx_okx x) (save_imr i k) (\<lambda>_. True)" "hook_ok (imx_okx x) (write_wake_imr i k) (\<lambda>_. True)"
    "hook_ok (imx_okx x) (restore_imr i k) (\<lambda>_. True)"
  using assms
  by (auto simp: hook_ok_def save_imr_def write_wake_imr_def restore_imr_def mmio_read_32_def
      mmio_write_32_def imx_okx_def imx_ok_def mbind_def prog_simps)

lemma hook_ok_lpm_wakeup: "hook_ok (imx_okx x) (imx_set_lpm_wakeup b) (\<lambda>_. True)"
  unfolding imx_set_lpm_wakeup_def
  by (intro hook_ok_if hook_ok_loop hook_ok_then hook_ok_imrs) auto

lemma hook_ok_slot: "hook_ok (imx_okx x) (imx_pup_pdn_slot_config c b) (\<lambda>_. True)"
  unfolding imx_pup_pdn_slot_config_def Let_def by (intro hook_ok_then hook_ok_mmio)

lemma hook_ok_gpc:
  "hook_ok (imx_okx x) (imx_set_cpu_secure_entry c a) (\<lambda>_. True)"
  "hook_ok (imx_okx x) (imx_set_cpu_pwr_off c) (\<lambda>_. True)"
  "hook_ok (imx_okx x) (imx_set_cpu_pwr_on c) (\<lambda>_. True)"
  "hook_ok (imx_okx x) (imx_set_cpu_lpm c b) (\<lambda>_. True)"
  "hook_ok (imx_okx x) (imx_set_cluster_standby b) (\<lambda>_. True)"
  "hook_ok (imx_okx x) (imx_set_cluster_powerdown c b) (\<lambda>_. True)"
  "hook_ok (imx_okx x) (imx_set_sys_lpm b) (\<lambda>_. True)"
  "hook_ok (imx_okx x) imx_set_rbc_count (\<lambda>_. True)" "hook_ok (imx_okx x) imx_clear_rbc_count (\<lambda>_. True)"
  "hook_ok (imx_okx x) imx_anamix_pre_suspend (\<lambda>_. True)" "hook_ok (imx_okx x) imx_anamix_post_resume (\<lambda>_. True)"
  unfolding imx_set_cpu_secure_entry_def imx_set_cpu_pwr_off_def imx_set_cpu_pwr_on_def imx_set_cpu_lpm_def
    imx_set_cluster_standby_def imx_set_cluster_powerdown_def imx_set_sys_lpm_def imx_set_rbc_count_def
    imx_clear_rbc_count_def imx_anamix_pre_suspend_def imx_anamix_post_resume_def Let_def split_def
  by (intro hook_ok_if hook_ok_then hook_ok_mmio hook_ok_poll hook_ok_slot hook_ok_lpm_wakeup hook_ok_loop;
      simp add: gpc_request_regs_def)+

end
