(* ===== verification/Psci_Behaviour.thy ===== *)
theory Psci_Behaviour
  imports Psci_Platform
begin

text \<open>
  The power operations run under the platform contract: for a state whose tree is well formed and
  whose locks are free, each operation returns (or powers the core down) and its effect on the
  tables is given in closed form. The lemmas are proved in the locale \<open>psci_platform\<close>.
\<close>

section \<open>Executing cores and free locks\<close>

definition env_ok :: "'w cpu_env \<Rightarrow> bool" where
  "env_ok e \<longleftrightarrow>
     plat_my_core_pos e < PLATFORM_CORE_COUNT e \<and> \<not> ENABLE_PSCI_STAT e \<and>
     length (uninit_power_state e) = Suc (PLAT_MAX_PWR_LVL e) \<and>
     PLAT_MAX_RET_STATE e < PLAT_MAX_OFF_STATE e"

definition unlocked :: "'w psci_state \<Rightarrow> bool" where
  "unlocked s \<longleftrightarrow>
     (\<forall>i < length (psci_locks s). psci_locks s ! i = None) \<and>
     (\<forall>c < length (psci_cpu_pd_nodes s). cpu_lock (psci_cpu_pd_nodes s ! c) = None)"

lemma acquire_unlocked:
  assumes wf: "wf_tree e s" and u: "unlocked s" and c: "c < PLATFORM_CORE_COUNT e" and n: "n \<le> PLAT_MAX_PWR_LVL e"
  shows "psci_acquire_pwr_domain_locks e n c s =
     Ret () (s\<lparr>psci_locks :=
       path_upd (\<lambda>_ _. Some (plat_my_core_pos e)) (ancestor s c) n (psci_locks s)\<rparr>)"
  using wf_anc(1) [OF wf c] wf_lengths(4) [OF wf] u n
  by (intro acquire_run [OF wf c n]) (simp add: unlocked_def)

lemma release_restores:
  assumes wf: "wf_tree e s" and u: "unlocked s" and c: "c < PLATFORM_CORE_COUNT e" and n: "n \<le> PLAT_MAX_PWR_LVL e"
    and t: "same_shape s t" "psci_locks t = path_upd (\<lambda>_ _. w) (ancestor s c) n (psci_locks s)"
  shows "psci_release_pwr_domain_locks n c t = Ret () (t\<lparr>psci_locks := psci_locks s\<rparr>)"
proof -
  have "path_upd (\<lambda>_ _. None) (ancestor s c) n (path_upd (\<lambda>_ _. w) (ancestor s c) n (psci_locks s)) = psci_locks s"
    using wf_anc(1) [OF wf c] wf_lengths(4) [OF wf] u n
    by (intro lock_unlock_path) (simp add: unlocked_def)
  then show ?thesis
    using release_run [OF same_shape_wf [OF t(1) wf] c n] same_shape_anc [OF t(1)] t(2) by simp
qed

lemma emit_run [prog_simps]: "emit ev s = Ret () (s\<lparr>arch_log := arch_log s @ [ev]\<rparr>)"
  by (simp add: emit_def prog_simps)

lemma pwrdown_sequence_run:
  obtains ev where "psci_do_pwrdown_sequence e l s = Ret () (s\<lparr>arch_log := arch_log s @ [ev]\<rparr>)"
  by (cases "HW_ASSISTED_COHERENCY e") (simp_all add: psci_do_pwrdown_sequence_def prog_simps)

text \<open>
  The effect of an operation on the tables: the new nodes, requests and per-CPU data; the rest of
  the shared data is as before, up to the MPIDR a core records of itself, contexts, world and log.
\<close>

definition pd_effect ::
  "'w psci_state \<Rightarrow> 'w psci_state \<Rightarrow> non_cpu_pd_node_t list \<Rightarrow> plat_local_state_t list list \<Rightarrow>
    psci_cpu_data_t list \<Rightarrow> bool" where
  "pd_effect s t nodes req svc \<longleftrightarrow>
     psci_non_cpu_pd_nodes t = nodes \<and> psci_req_local_pwr_states t = req \<and> psci_svc_cpu_data t = svc \<and>
     psci_locks t = psci_locks s \<and>
     length (psci_cpu_pd_nodes t) = length (psci_cpu_pd_nodes s) \<and>
     (\<forall>i. cpu_parent_node (psci_cpu_pd_nodes t ! i) = cpu_parent_node (psci_cpu_pd_nodes s ! i)) \<and>
     (\<forall>i. cpu_lock (psci_cpu_pd_nodes t ! i) = cpu_lock (psci_cpu_pd_nodes s ! i)) \<and>
     length (psci_ns_context t) = length (psci_ns_context s) \<and>
     psci_plat_pm_ops t = psci_plat_pm_ops s \<and> psci_spd_pm t = psci_spd_pm s \<and> psci_caps t = psci_caps s"

abbreviation no_effect :: "'w psci_state \<Rightarrow> 'w psci_state \<Rightarrow> bool" where
  "no_effect s t \<equiv> pd_effect s t (psci_non_cpu_pd_nodes s) (psci_req_local_pwr_states s) (psci_svc_cpu_data s)"

lemma find_rev_levels:
  assumes "i \<le> n" "P i"
  obtains j where "find P (rev (levels 0 n)) = Some j" "i \<le> j" "j \<le> n" "P j"
    "\<And>k. j < k \<Longrightarrow> k \<le> n \<Longrightarrow> \<not> P k"
  using assms
proof (induction n arbitrary: thesis)
  case (Suc n)
  show ?case
  proof (cases "P (Suc n)")
    case True
    then show thesis using Suc.prems by (intro Suc.prems(1) [of "Suc n"]) simp_all
  next
    case False
    then have "i \<le> n" using Suc.prems by (metis le_Suc_eq)
    from Suc.IH [OF _ this Suc.prems(3)] obtain j where "find P (rev (levels 0 n)) = Some j" "i \<le> j" "j \<le> n" "P j"
      "\<And>k. j < k \<Longrightarrow> k \<le> n \<Longrightarrow> \<not> P k" by blast
    then show thesis using False by (intro Suc.prems(1) [of j]) (auto simp: le_Suc_eq)
  qed
qed simp

lemma max_off_lvl_valid:
  assumes "is_local_state_off e (si ! 0)"
  shows "psci_find_max_off_lvl e si \<noteq> PSCI_INVALID_PWR_LVL e"
  using find_rev_levels [of 0 "PLAT_MAX_PWR_LVL e" "\<lambda>i. is_local_state_off e (si ! i)"] assms
  unfolding psci_find_max_off_lvl_def by (metis Suc_eq_plus1 Suc_n_not_le_n le0 option.simps(5))

lemma spin_lock_run:
  assumes "i < length (psci_cpu_pd_nodes s)" "cpu_lock (psci_cpu_pd_nodes s ! i) = None"
  shows "psci_spin_lock_cpu e i s = Ret () (s\<lparr>psci_cpu_pd_nodes := (psci_cpu_pd_nodes s)
    [i := (psci_cpu_pd_nodes s ! i)\<lparr>cpu_lock := Some (plat_my_core_pos e)\<rparr>]\<rparr>)"
  using assms by (simp add: psci_spin_lock_cpu_def prog_simps)

lemma spin_unlock_restores:
  assumes "i < length (psci_cpu_pd_nodes s)" "cpu_lock (psci_cpu_pd_nodes s ! i) = None"
    and "psci_cpu_pd_nodes t = (psci_cpu_pd_nodes s)[i := (psci_cpu_pd_nodes s ! i)\<lparr>cpu_lock := x\<rparr>]"
  shows "psci_spin_unlock_cpu i t = Ret () (t\<lparr>psci_cpu_pd_nodes := psci_cpu_pd_nodes s\<rparr>)"
proof -
  have "(psci_cpu_pd_nodes s ! i)\<lparr>cpu_lock := None\<rparr> = psci_cpu_pd_nodes s ! i"
    using assms(2) by (intro cpu_pd_node_t.equality) simp_all
  then have "(psci_cpu_pd_nodes s)[i := (psci_cpu_pd_nodes s ! i)\<lparr>cpu_lock := None\<rparr>] = psci_cpu_pd_nodes s"
    by (simp only: list_update_id)
  then show ?thesis using assms(1,3) by (simp add: psci_spin_unlock_cpu_def prog_simps)
qed

context psci_platform
begin

lemma final_wfi_run:
  assumes "psci_plat_pm_ops s = ops" "wok \<sigma> (world s)"
  obtains w log where "final_wfi e si s = Stop Powered_down (s\<lparr>world := w, arch_log := log\<rparr>)" "wok \<sigma> w"
proof (cases "pwr_domain_pwr_down_wfi ops")
  case None
  show thesis
    by (rule that [where w = "world s" and log = "arch_log s @ [Ev_wfi]"])
      (simp_all add: final_wfi_def assms None mbind_def prog_simps)
next
  case (Some f)
  from wfi_hook [OF Some] assms(2) obtain v w
    where "lift_world (f (regs e) si) s = Ret v (s\<lparr>world := w\<rparr>)" "wok \<sigma> w" by (rule hook_okD)
  then show thesis
    by (intro that [where w = w and log = "arch_log s @ [Ev_plat_wfi]"])
      (simp_all add: final_wfi_def assms Some mbind_def prog_simps)
qed

lemma svc_off_run:
  assumes "wok \<sigma> (world s)" "\<sigma> (plat_my_core_pos e) = SP_ON"
  obtains (off) w where
    "(case spd_sel spd svc_off of None \<Rightarrow> mret PSCI_E_SUCCESS | Some f \<Rightarrow> lift_world (f (regs e) a)) s
       = Ret PSCI_E_SUCCESS (s\<lparr>world := w\<rparr>)" "wok (\<sigma>(plat_my_core_pos e := SP_OFF)) w"
  | (denied) w where
    "(case spd_sel spd svc_off of None \<Rightarrow> mret PSCI_E_SUCCESS | Some f \<Rightarrow> lift_world (f (regs e) a)) s
       = Ret PSCI_E_DENIED (s\<lparr>world := w\<rparr>)" "wok \<sigma> w"
proof -
  have pos: "plat_my_core_pos (regs e) = plat_my_core_pos e" by (simp add: cpu_regs.truncate_def)
  note law = spd_off [unfolded spd_may_turn_off_def, rule_format, of \<sigma> "regs e" "world s" a, unfolded pos, OF assms(2,1)]
  show thesis
  proof (cases "spd_sel spd svc_off")
    case None
    with law show thesis by (intro off [of "world s"]) (simp_all add: mret_def)
  next
    case (Some f)
    with law obtain rc w where fw: "f (regs e) a (world s) = Ret rc w"
      "rc = PSCI_E_SUCCESS \<and> wok (\<sigma>(plat_my_core_pos e := SP_OFF)) w \<or> rc = PSCI_E_DENIED \<and> wok \<sigma> w" by auto
    from fw(2) show thesis
    proof
      assume "rc = PSCI_E_SUCCESS \<and> wok (\<sigma>(plat_my_core_pos e := SP_OFF)) w"
      then show thesis using Some fw(1) by (intro off [of w]) (simp_all add: lift_world_def)
    next
      assume "rc = PSCI_E_DENIED \<and> wok \<sigma> w"
      then show thesis using Some fw(1) by (intro denied [of w]) (simp_all add: lift_world_def)
    qed
  qed
qed

text \<open>
  CPU\_OFF: either the secure payload refuses and nothing but the world has changed, or the core
  powers down with its requests set to OFF.
\<close>

abbreviation off_state :: "'w cpu_env \<Rightarrow> 'w psci_state \<Rightarrow> nat \<Rightarrow> nat \<Rightarrow> 'w \<Rightarrow> arch_event list \<Rightarrow> 'w psci_state" where
  "off_state e s c n w lg \<equiv>
     s\<lparr>psci_req_local_pwr_states := req_path c (psci_set_power_off_state e) n (psci_req_local_pwr_states s),
       psci_non_cpu_pd_nodes := node_path (coord_result e s c (psci_set_power_off_state e) n)
         (ancestor s c) n (psci_non_cpu_pd_nodes s),
       psci_svc_cpu_data := svc_upd c (\<lambda>d. d\<lparr>cpu_local_state := PLAT_MAX_OFF_STATE e,
         aff_info_state := AFF_STATE_OFF\<rparr>) (psci_svc_cpu_data s),
       world := w, arch_log := lg\<rparr>"

lemma cpu_off_granted:
  assumes wf: "wf_tree e s" and u: "unlocked s" and pk: "psci_plat_pm_ops s = ops" "psci_spd_pm s = spd" and e: "env_ok e"
    and c: "c = plat_my_core_pos e" and n: "n \<le> PLAT_MAX_PWR_LVL e"
    and acq: "psci_acquire_pwr_domain_locks e n c s = Ret () (s\<lparr>psci_locks := locks\<rparr>)"
    and locks: "locks = path_upd (\<lambda>_ _. Some c) (ancestor s c) n (psci_locks s)"
    and svc: "(case spd_sel spd svc_off of None \<Rightarrow> mret PSCI_E_SUCCESS | Some f \<Rightarrow> lift_world (f (regs e) 0))
      (s\<lparr>psci_locks := locks\<rparr>) = Ret PSCI_E_SUCCESS (s\<lparr>psci_locks := locks, world := w1\<rparr>)" "wok \<tau> w1"
  obtains w lg where "psci_do_cpu_off e n s = Stop Powered_down (off_state e s c n w lg)" "wok \<tau> w"
proof -
  let ?si = "psci_set_power_off_state e"
  let ?s1 = "s\<lparr>psci_locks := locks, world := w1\<rparr>"
  let ?R = "coord_result e s c ?si n"
  let ?s2 = "?s1\<lparr>psci_req_local_pwr_states := req_path c ?si n (psci_req_local_pwr_states s),
        psci_svc_cpu_data := svc_upd c (\<lambda>d. d\<lparr>cpu_local_state := ?si ! 0\<rparr>) (psci_svc_cpu_data s),
        psci_non_cpu_pd_nodes := node_path ?R (ancestor s c) n (psci_non_cpu_pd_nodes s)\<rparr>"
  have cN: "c < PLATFORM_CORE_COUNT e" and stat: "\<not> ENABLE_PSCI_STAT e" using e c by (simp_all add: env_ok_def)
  have hooks: "pwr_domain_off ops \<noteq> None" using off_hook by auto
  have "same_shape s ?s1" by (simp add: same_shape_def locks)
  then have "wf_tree e ?s1" using wf by (rule same_shape_wf)
  then have coord: "psci_do_state_coordination e n ?si ?s1 = Ret ?R ?s2"
    using coordination_run [of e ?s1 c n ?si] c cN n by (simp add: psci_set_power_off_state_def)
  obtain ev where pdn: "psci_do_pwrdown_sequence e (psci_find_max_off_lvl e ?R) ?s2
      = Ret () (?s2\<lparr>arch_log := arch_log s @ [ev]\<rparr>)"
    using pwrdown_sequence_run [of e "psci_find_max_off_lvl e ?R" ?s2] by auto
  have "wok \<tau> (world (?s2\<lparr>arch_log := arch_log s @ [ev]\<rparr>))" using svc(2) by simp
  from call_hook_run [OF off_hook this] obtain v w2
    where hook: "call_hook (pwr_domain_off ops) (\<lambda>f. f (regs e) ?R) (?s2\<lparr>arch_log := arch_log s @ [ev]\<rparr>)
      = Ret v (?s2\<lparr>arch_log := arch_log s @ [ev], world := w2\<rparr>)" and w2: "wok \<tau> w2" .
  let ?s3 = "?s2\<lparr>arch_log := arch_log s @ [ev], world := w2\<rparr>"
  have rel: "psci_release_pwr_domain_locks n c ?s3 = Ret () (?s3\<lparr>psci_locks := psci_locks s\<rparr>)"
    by (rule release_restores [OF wf u cN n]) (simp_all add: same_shape_def locks)
  let ?svc = "svc_upd c (\<lambda>d. d\<lparr>cpu_local_state := PLAT_MAX_OFF_STATE e, aff_info_state := AFF_STATE_OFF\<rparr>)
    (psci_svc_cpu_data s)"
  have aff: "psci_set_aff_info_state e AFF_STATE_OFF (?s3\<lparr>psci_locks := psci_locks s\<rparr>)
      = Ret () (?s3\<lparr>psci_locks := psci_locks s, psci_svc_cpu_data := ?svc\<rparr>)"
    using cN c wf_lengths(2) [OF wf] by (simp add: prog_simps svc_upd_def psci_set_power_off_state_def)
  have "psci_plat_pm_ops (?s3\<lparr>psci_locks := psci_locks s, psci_svc_cpu_data := ?svc\<rparr>) = ops"
    "wok \<tau> (world (?s3\<lparr>psci_locks := psci_locks s, psci_svc_cpu_data := ?svc\<rparr>))" using pk w2 by simp_all
  from final_wfi_run [OF this] obtain w lg where wfi: "(final_wfi e ?R :: ('w psci_state, int) prog) (?s3\<lparr>psci_locks := psci_locks s, psci_svc_cpu_data := ?svc\<rparr>)
      = Stop Powered_down (?s3\<lparr>psci_locks := psci_locks s, psci_svc_cpu_data := ?svc, world := w, arch_log := lg\<rparr>)" "wok \<tau> w" .
  have "psci_do_cpu_off e n s = Stop Powered_down (off_state e s c n w lg)"
    unfolding psci_do_cpu_off_def
    using acq svc(1) coord pdn hook rel aff wfi(1) hooks pk stat
    by (simp add: mbind_def prog_simps c [symmetric] spd_hook_sel)
  then show thesis using wfi(2) by (rule that)
qed

lemma cpu_off_run:
  assumes wf: "wf_tree e s" and u: "unlocked s" and p: "plat_ok \<sigma> s" and e: "env_ok e"
    and c: "c = plat_my_core_pos e" "\<sigma> c = SP_ON" and n: "n \<le> PLAT_MAX_PWR_LVL e"
  obtains (denied) w where "psci_do_cpu_off e n s = Ret PSCI_E_DENIED (s\<lparr>world := w\<rparr>)" "wok \<sigma> w"
  | (off) w lg where "psci_do_cpu_off e n s = Stop Powered_down (off_state e s c n w lg)" "wok (\<sigma>(c := SP_OFF)) w"
proof -
  let ?locks = "path_upd (\<lambda>_ _. Some c) (ancestor s c) n (psci_locks s)"
  note pk = plat_okD [OF p]
  have cN: "c < PLATFORM_CORE_COUNT e" using e c by (simp add: env_ok_def)
  have hooks: "pwr_domain_off ops \<noteq> None" using off_hook by auto
  have acq: "psci_acquire_pwr_domain_locks e n c s = Ret () (s\<lparr>psci_locks := ?locks\<rparr>)"
    using acquire_unlocked [OF wf u cN n] c by simp
  have w0: "wok \<sigma> (world (s\<lparr>psci_locks := ?locks\<rparr>))" and on: "\<sigma> (plat_my_core_pos e) = SP_ON" using pk c by simp_all
  show thesis
  proof (rule svc_off_run [OF w0 on, of 0])
    fix w1
    assume "(case spd_sel spd svc_off of None \<Rightarrow> mret PSCI_E_SUCCESS | Some f \<Rightarrow> lift_world (f (regs e) 0))
      (s\<lparr>psci_locks := ?locks\<rparr>) = Ret PSCI_E_SUCCESS (s\<lparr>psci_locks := ?locks, world := w1\<rparr>)"
      "wok (\<sigma>(plat_my_core_pos e := SP_OFF)) w1"
    then show thesis by (rule cpu_off_granted [OF wf u pk(1,2) e c(1) n acq refl]) (use off c(1) in auto)
  next
    fix w1
    let ?s1 = "s\<lparr>psci_locks := ?locks, world := w1\<rparr>"
    assume svc: "(case spd_sel spd svc_off of None \<Rightarrow> mret PSCI_E_SUCCESS | Some f \<Rightarrow> lift_world (f (regs e) 0))
      (s\<lparr>psci_locks := ?locks\<rparr>) = Ret PSCI_E_DENIED ?s1" "wok \<sigma> w1"
    have "psci_release_pwr_domain_locks n c ?s1 = Ret () (?s1\<lparr>psci_locks := psci_locks s\<rparr>)"
      by (rule release_restores [OF wf u cN n]) (simp_all add: same_shape_def)
    then have "psci_do_cpu_off e n s = Ret PSCI_E_DENIED (s\<lparr>world := w1\<rparr>)"
      using svc acq hooks pk
      by (simp add: psci_do_cpu_off_def mbind_def prog_simps c(1) [symmetric] spd_hook_sel)
    then show thesis using svc(2) by (rule denied)
  qed
qed

text \<open>The part of a suspend that only a power down state needs.\<close>

lemma pwrdown_start_run:
  assumes p: "psci_plat_pm_ops s = ops" "psci_spd_pm s = spd" "wok \<sigma> (world s)"
    and c: "c = plat_my_core_pos e" "c < length (psci_svc_cpu_data s)" "c < length (psci_ns_context s)" "\<sigma> c = SP_ON"
  obtains w log where "psci_suspend_to_pwrdown_start e n ep si s =
    Ret () (s\<lparr>psci_svc_cpu_data := svc_upd c (\<lambda>d. d\<lparr>target_pwrlvl := n\<rparr>) (psci_svc_cpu_data s),
      psci_ns_context := (psci_ns_context s)[c := Some ep], world := w, arch_log := log\<rparr>)" "wok (\<sigma>(c := SP_SUSPENDED)) w"
proof -
  let ?m = "psci_find_max_off_lvl e si"
  let ?s1 = "s\<lparr>arch_log := arch_log s @ [Ev_suspend_pwrdown_start],
    psci_svc_cpu_data := svc_upd c (\<lambda>d. d\<lparr>target_pwrlvl := n\<rparr>) (psci_svc_cpu_data s)\<rparr>"
  have "wok \<sigma> (world ?s1)" using p by simp
  from spd_moves_run [OF spd_suspend this c(4) [unfolded c(1)]] obtain w1
    where svc: "call_if_set (spd_sel spd svc_suspend) (\<lambda>f. f (regs e) (of_nat ?m)) ?s1 = Ret () (?s1\<lparr>world := w1\<rparr>)"
      "wok (\<sigma>(c := SP_SUSPENDED)) w1" unfolding c(1) .
  obtain w2 where early: "mwhen (\<not> HW_ASSISTED_COHERENCY e)
      (call_if_set (pwr_domain_suspend_pwrdown_early ops) (\<lambda>f. f (regs e) si)) (?s1\<lparr>world := w1\<rparr>)
      = Ret () (?s1\<lparr>world := w2\<rparr>)" "wok (\<sigma>(c := SP_SUSPENDED)) w2"
  proof (cases "HW_ASSISTED_COHERENCY e")
    case True
    then show thesis using svc(2) by (intro that [of w1]) (simp_all add: mret_def)
  next
    case False
    have "wok (\<sigma>(c := SP_SUSPENDED)) (world (?s1\<lparr>world := w1\<rparr>))" using svc(2) by simp
    from early_hook this obtain w2 where "call_if_set (pwr_domain_suspend_pwrdown_early ops) (\<lambda>f. f (regs e) si)
        (?s1\<lparr>world := w1\<rparr>) = Ret () (?s1\<lparr>world := w1, world := w2\<rparr>)" "wok (\<sigma>(c := SP_SUSPENDED)) w2" by (rule call_if_set_run)
    then show thesis using False by (intro that [of w2]) simp_all
  qed
  let ?s2 = "?s1\<lparr>world := w2, psci_ns_context := (psci_ns_context s)[c := Some ep]\<rparr>"
  obtain ev where pdn: "psci_do_pwrdown_sequence e ?m ?s2 = Ret () (?s2\<lparr>arch_log := arch_log ?s2 @ [ev]\<rparr>)"
    by (rule pwrdown_sequence_run)
  show thesis
  proof (rule that [OF _ early(2)])
    show "psci_suspend_to_pwrdown_start e n ep si s =
      Ret () (s\<lparr>psci_svc_cpu_data := svc_upd c (\<lambda>d. d\<lparr>target_pwrlvl := n\<rparr>) (psci_svc_cpu_data s),
        psci_ns_context := (psci_ns_context s)[c := Some ep], world := w2, arch_log := arch_log ?s2 @ [ev]\<rparr>)"
      unfolding psci_suspend_to_pwrdown_start_def Let_def
      using svc(1) early(1) pdn p c
      by (simp add: mbind_def prog_simps cm_init_context_by_index_def svc_upd_def spd_hook_sel)
  qed
qed

text \<open>
  The first part of CPU\_SUSPEND: a pending interrupt makes it give up with the state as it was;
  otherwise the coordinated states are recorded and returned.
\<close>

lemma suspend_abandoned:
  assumes wf: "wf_tree e s" and u: "unlocked s" and p: "plat_ok \<sigma> s" and e: "env_ok e"
    and n: "n \<le> PLAT_MAX_PWR_LVL e" and isr: "isr_el1 e \<noteq> 0"
  shows "suspend_start_locked e ep n si pd s = Ret None s"
proof -
  let ?c = "plat_my_core_pos e"
  let ?s1 = "s\<lparr>psci_locks := path_upd (\<lambda>_ _. Some ?c) (ancestor s ?c) n (psci_locks s)\<rparr>"
  have c: "?c < PLATFORM_CORE_COUNT e" using e by (simp add: env_ok_def)
  have "psci_acquire_pwr_domain_locks e n ?c s = Ret () ?s1" by (rule acquire_unlocked [OF wf u c n])
  moreover have "psci_release_pwr_domain_locks n ?c ?s1 = Ret () (?s1\<lparr>psci_locks := psci_locks s\<rparr>)"
    by (rule release_restores [OF wf u c n]) (simp_all add: same_shape_def)
  moreover have "pwr_domain_suspend ops \<noteq> None" "pwr_domain_suspend_finish ops \<noteq> None"
    using suspend_hook suspend_finish_hook by auto
  ultimately show ?thesis
    using isr plat_okD(1) [OF p] by (simp add: suspend_start_locked_def mbind_def prog_simps)
qed

lemma suspend_locked_run:
  assumes wf: "wf_tree e s" and u: "unlocked s" and p: "plat_ok \<sigma> s" and e: "env_ok e"
    and c: "c = plat_my_core_pos e" and n: "n \<le> PLAT_MAX_PWR_LVL e" and isr: "isr_el1 e = 0"
    and si: "length si = Suc (PLAT_MAX_PWR_LVL e)" and on: "\<sigma> c = SP_ON"
  obtains t where "suspend_start_locked e ep n si pd s = Ret (Some (coord_result e s c si n)) t"
    and "pd_effect s t (node_path (coord_result e s c si n) (ancestor s c) n (psci_non_cpu_pd_nodes s))
           (req_path c si n (psci_req_local_pwr_states s))
           (svc_upd c (\<lambda>d. if pd = 0 then d\<lparr>cpu_local_state := si ! 0\<rparr>
                           else d\<lparr>cpu_local_state := si ! 0, target_pwrlvl := n\<rparr>) (psci_svc_cpu_data s))"
    and "wok (if pd = 0 then \<sigma> else \<sigma>(c := SP_SUSPENDED)) (world t)"
proof -
  let ?\<tau> = "if pd = 0 then \<sigma> else \<sigma>(c := SP_SUSPENDED)"
  let ?locks = "path_upd (\<lambda>_ _. Some c) (ancestor s c) n (psci_locks s)"
  let ?R = "coord_result e s c si n"
  let ?s1 = "s\<lparr>psci_locks := ?locks\<rparr>"
  let ?s2 = "?s1\<lparr>psci_req_local_pwr_states := req_path c si n (psci_req_local_pwr_states s),
          psci_svc_cpu_data := svc_upd c (\<lambda>d. d\<lparr>cpu_local_state := si ! 0\<rparr>) (psci_svc_cpu_data s),
          psci_non_cpu_pd_nodes := node_path ?R (ancestor s c) n (psci_non_cpu_pd_nodes s)\<rparr>"
  note pk = plat_okD [OF p]
  have cN: "c < PLATFORM_CORE_COUNT e" and stat: "\<not> ENABLE_PSCI_STAT e" using e c by (simp_all add: env_ok_def)
  have hooks: "pwr_domain_suspend ops \<noteq> None" "pwr_domain_suspend_finish ops \<noteq> None"
    using suspend_hook suspend_finish_hook by auto
  have acq: "psci_acquire_pwr_domain_locks e n c s = Ret () ?s1"
    using acquire_unlocked [OF wf u cN n] c by simp
  have "same_shape s ?s1" by (simp add: same_shape_def)
  then have "wf_tree e ?s1" using wf by (rule same_shape_wf)
  then have coord: "psci_do_state_coordination e n si ?s1 = Ret ?R ?s2"
    using coordination_run [of e ?s1 c n si] c cN n si by simp
  obtain wa lg ctx where pdn: "mwhen (pd \<noteq> 0) (psci_suspend_to_pwrdown_start e n ep ?R) ?s2
      = Ret () (?s2\<lparr>psci_svc_cpu_data := svc_upd c (\<lambda>d. if pd = 0 then d\<lparr>cpu_local_state := si ! 0\<rparr>
                           else d\<lparr>cpu_local_state := si ! 0, target_pwrlvl := n\<rparr>) (psci_svc_cpu_data s),
          psci_ns_context := ctx, world := wa, arch_log := lg\<rparr>)"
      "wok ?\<tau> wa" "length ctx = length (psci_ns_context s)"
  proof (cases "pd = 0")
    case True
    then show thesis
      using pk by (intro that [where ctx = "psci_ns_context s" and wa = "world s" and lg = "arch_log s"]) (simp_all add: mret_def)
  next
    case False
    have "psci_plat_pm_ops ?s2 = ops" "psci_spd_pm ?s2 = spd" "wok \<sigma> (world ?s2)"
      "c < length (psci_svc_cpu_data ?s2)" "c < length (psci_ns_context ?s2)"
      using pk wf_lengths(2,3) [OF wf] cN by simp_all
    from pwrdown_start_run [OF this(1-3) c this(4,5) on] obtain w log where
      "psci_suspend_to_pwrdown_start e n ep ?R ?s2 =
        Ret () (?s2\<lparr>psci_svc_cpu_data := svc_upd c (\<lambda>d. d\<lparr>target_pwrlvl := n\<rparr>) (psci_svc_cpu_data ?s2),
          psci_ns_context := (psci_ns_context ?s2)[c := Some ep], world := w, arch_log := log\<rparr>)" "wok (\<sigma>(c := SP_SUSPENDED)) w" .
    then show thesis
      using False cN wf_lengths(2) [OF wf]
      by (intro that [where ctx = "(psci_ns_context s)[c := Some ep]" and wa = w and lg = log])
        (simp_all add: svc_upd_upd)
  qed
  let ?s3 = "?s2\<lparr>psci_svc_cpu_data := svc_upd c (\<lambda>d. if pd = 0 then d\<lparr>cpu_local_state := si ! 0\<rparr>
                           else d\<lparr>cpu_local_state := si ! 0, target_pwrlvl := n\<rparr>) (psci_svc_cpu_data s),
          psci_ns_context := ctx, world := wa, arch_log := lg\<rparr>"
  have "wok ?\<tau> (world ?s3)" using pdn(2) by simp
  from call_hook_run [OF suspend_hook this] obtain v w2 where
    hook: "call_hook (pwr_domain_suspend ops) (\<lambda>f. f (regs e) ?R) ?s3 = Ret v (?s3\<lparr>world := w2\<rparr>)" "wok ?\<tau> w2" .
  have rel: "psci_release_pwr_domain_locks n c (?s3\<lparr>world := w2\<rparr>) = Ret () (?s3\<lparr>world := w2, psci_locks := psci_locks s\<rparr>)"
    by (rule release_restores [OF wf u cN n]) (simp_all add: same_shape_def pdn(3))
  have "suspend_start_locked e ep n si pd s = Ret (Some ?R) (?s3\<lparr>world := w2, psci_locks := psci_locks s\<rparr>)"
    unfolding suspend_start_locked_def
    using acq coord pdn(1) hook(1) rel hooks pk stat isr by (simp add: mbind_def prog_simps c [symmetric])
  then show thesis by (rule that) (simp_all add: pd_effect_def pdn(3) hook(2))
qed

text \<open>
  The end of every wake-up: with the locks of the path held, the core and its ancestors go to RUN
  and the locks are released. \<open>s\<close> is the state before the locks were taken, \<open>t\<close> the current one.
\<close>

lemma wake_tail_run:
  assumes wf: "wf_tree e s" and u: "unlocked s" and c: "c = plat_my_core_pos e" "c < PLATFORM_CORE_COUNT e"
    and n: "n \<le> PLAT_MAX_PWR_LVL e"
    and t: "pd_effect (s\<lparr>psci_locks := path_upd (\<lambda>_ _. Some c) (ancestor s c) n (psci_locks s)\<rparr>) t
              (psci_non_cpu_pd_nodes s) (psci_req_local_pwr_states s) svc"
    and svc: "length svc = length (psci_svc_cpu_data s)"
  obtains t' where "mbind (psci_set_pwr_domains_to_run e n) (\<lambda>_. psci_release_pwr_domain_locks n c) t = Ret () t'"
    and "pd_effect s t' (node_path (all_run e) (ancestor s c) n (psci_non_cpu_pd_nodes s))
           (req_path c (all_run e) n (psci_req_local_pwr_states s))
           (svc_upd c (\<lambda>d. d\<lparr>aff_info_state := AFF_STATE_ON, cpu_local_state := PSCI_LOCAL_STATE_RUN\<rparr>) svc)"
    and "world t' = world t"
proof -
  have shape: "same_shape s t" using t svc by (simp add: same_shape_def pd_effect_def)
  note anc = same_shape_anc [OF shape]
  let ?t1 = "t\<lparr>psci_non_cpu_pd_nodes := node_path (all_run e) (ancestor s c) n (psci_non_cpu_pd_nodes s),
               psci_req_local_pwr_states := req_path c (all_run e) n (psci_req_local_pwr_states s),
               psci_svc_cpu_data := svc_upd c (\<lambda>d. d\<lparr>aff_info_state := AFF_STATE_ON,
                 cpu_local_state := PSCI_LOCAL_STATE_RUN\<rparr>) svc\<rparr>"
  have "psci_set_pwr_domains_to_run e n t = Ret () ?t1"
    using set_run_run [OF same_shape_wf [OF shape wf] c n] t anc by (simp add: pd_effect_def)
  moreover have "psci_release_pwr_domain_locks n c ?t1 = Ret () (?t1\<lparr>psci_locks := psci_locks s\<rparr>)"
    by (rule release_restores [OF wf u c(2) n])
      (use t svc in \<open>simp_all add: same_shape_def pd_effect_def\<close>)
  ultimately have "mbind (psci_set_pwr_domains_to_run e n) (\<lambda>_. psci_release_pwr_domain_locks n c) t
      = Ret () (?t1\<lparr>psci_locks := psci_locks s\<rparr>)" by (simp add: mbind_def)
  then show thesis by (rule that) (use t in \<open>simp_all add: pd_effect_def\<close>)
qed

lemma standby_finisher_run:
  assumes wf: "wf_tree e s" and u: "unlocked s" and p: "plat_ok \<sigma> s" and e: "env_ok e"
    and c: "c = plat_my_core_pos e" and n: "n \<le> PLAT_MAX_PWR_LVL e"
  obtains t where "psci_suspend_to_standby_finisher e c n s = Ret () t"
    and "pd_effect s t (node_path (all_run e) (ancestor s c) n (psci_non_cpu_pd_nodes s))
           (req_path c (all_run e) n (psci_req_local_pwr_states s))
           (svc_upd c (\<lambda>d. d\<lparr>aff_info_state := AFF_STATE_ON, cpu_local_state := PSCI_LOCAL_STATE_RUN\<rparr>) (psci_svc_cpu_data s))"
    and "wok \<sigma> (world t)"
proof -
  let ?s1 = "s\<lparr>psci_locks := path_upd (\<lambda>_ _. Some c) (ancestor s c) n (psci_locks s)\<rparr>"
  note pk = plat_okD [OF p]
  have cN: "c < PLATFORM_CORE_COUNT e" and stat: "\<not> ENABLE_PSCI_STAT e"
    and ui: "length (uninit_power_state e) = Suc (PLAT_MAX_PWR_LVL e)" using e c by (simp_all add: env_ok_def)
  have acq: "psci_acquire_pwr_domain_locks e n c s = Ret () ?s1"
    using acquire_unlocked [OF wf u cN n] c by simp
  have "same_shape s ?s1" by (simp add: same_shape_def)
  then have "wf_tree e ?s1" using wf by (rule same_shape_wf)
  from get_target_run [OF this c cN n ui] obtain si
    where get: "psci_get_target_local_pwr_states e n (uninit_power_state e) ?s1 = Ret si ?s1" by blast
  have "wok \<sigma> (world ?s1)" using pk by simp
  from call_hook_run [OF suspend_finish_hook this] obtain v w where
    hook: "call_hook (pwr_domain_suspend_finish ops) (\<lambda>f. f (regs e) si) ?s1 = Ret v (?s1\<lparr>world := w\<rparr>)" "wok \<sigma> w" .
  have "pd_effect ?s1 (?s1\<lparr>world := w\<rparr>) (psci_non_cpu_pd_nodes s) (psci_req_local_pwr_states s) (psci_svc_cpu_data s)"
    by (simp add: pd_effect_def)
  from wake_tail_run [OF wf u c cN n this refl] obtain t where
    tail: "mbind (psci_set_pwr_domains_to_run e n) (\<lambda>_. psci_release_pwr_domain_locks n c) (?s1\<lparr>world := w\<rparr>) = Ret () t"
      "pd_effect s t (node_path (all_run e) (ancestor s c) n (psci_non_cpu_pd_nodes s))
           (req_path c (all_run e) n (psci_req_local_pwr_states s))
           (svc_upd c (\<lambda>d. d\<lparr>aff_info_state := AFF_STATE_ON, cpu_local_state := PSCI_LOCAL_STATE_RUN\<rparr>) (psci_svc_cpu_data s))"
      "world t = w" by auto
  have "psci_suspend_to_standby_finisher e c n s = Ret () t"
    unfolding psci_suspend_to_standby_finisher_def
    using acq get hook(1) tail(1) pk stat by (simp add: mbind_def prog_simps)
  then show thesis by (rule that) (use tail hook in simp_all)
qed

text \<open>The two finishers of a warm boot, with the locks held.\<close>

lemma cpu_on_finish_run:
  assumes p: "psci_plat_pm_ops s = ops" "psci_spd_pm s = spd" "wok \<sigma> (world s)"
    and c: "c = plat_my_core_pos e" "c < length (psci_svc_cpu_data s)" "c < length (psci_cpu_pd_nodes s)"
    and lk: "cpu_lock (psci_cpu_pd_nodes s ! c) = None"
    and aff: "aff_info_state (psci_svc_cpu_data s ! c) = AFF_STATE_ON_PENDING"
    and off: "\<sigma> c = SP_OFF"
  obtains t where "psci_cpu_on_finish e c si s = Ret () t" "no_effect s t" "wok (\<sigma>(c := SP_ON)) (world t)"
proof -
  from call_hook_run [OF on_finish_hook p(3)] obtain v w1 where
    hook: "call_hook (pwr_domain_on_finish ops) (\<lambda>f. f (regs e) si) s = Ret v (s\<lparr>world := w1\<rparr>)" "wok \<sigma> w1" .
  let ?log1 = "(if HW_ASSISTED_COHERENCY e \<or> WARMBOOT_ENABLE_DCACHE_EARLY e then arch_log s
      else arch_log s @ [Ev_pwrup_cache_maintenance])
      @ [Ev_write_cntfrq_el0 (plat_syscnt_freq2 e), Ev_init_cpu_ops, Ev_print_errata_status]"
  let ?s2 = "s\<lparr>world := w1, arch_log := ?log1,
    psci_cpu_pd_nodes := (psci_cpu_pd_nodes s)[c := (psci_cpu_pd_nodes s ! c)\<lparr>cpu_lock := None\<rparr>]\<rparr>"
  have "wok \<sigma> (world ?s2)" using hook(2) by simp
  from spd_moves_run [OF spd_on_finish this off [unfolded c(1)]] obtain w2 where
    svc: "call_if_set (spd_sel spd svc_on_finish) (\<lambda>f. f (regs e) 0) ?s2 = Ret () (?s2\<lparr>world := w2\<rparr>)"
      "wok (\<sigma>(c := SP_ON)) w2" unfolding c(1) .
  let ?t = "?s2\<lparr>world := w2, psci_cpu_pd_nodes := (psci_cpu_pd_nodes s)
      [c := (psci_cpu_pd_nodes s ! c)\<lparr>cpu_lock := None, node_mpidr := mpidr_el1 e AND 0xff00ffffff\<rparr>],
      arch_log := ?log1 @ [Ev_cpu_on_finish, Ev_prepare_el3_exit]\<rparr>"
  have "psci_cpu_on_finish e c si s = Ret () ?t"
    unfolding psci_cpu_on_finish_def psci_arch_setup_def psci_spin_lock_cpu_def psci_spin_unlock_cpu_def mwhen_def
    using hook(1) svc(1) p c lk aff
    by (cases "HW_ASSISTED_COHERENCY e \<or> WARMBOOT_ENABLE_DCACHE_EARLY e")
      (simp_all add: mbind_def prog_simps spd_hook_sel)
  then show thesis by (rule that) (use c lk svc(2) in \<open>auto simp: pd_effect_def nth_list_update\<close>)
qed

lemma cpu_suspend_finish_run:
  assumes p: "psci_plat_pm_ops s = ops" "psci_spd_pm s = spd" "wok \<sigma> (world s)"
    and c: "c = plat_my_core_pos e" "c < length (psci_svc_cpu_data s)"
    and si: "si \<noteq> []" "is_local_state_off e (si ! 0)"
    and aff: "aff_info_state (psci_svc_cpu_data s ! c) = AFF_STATE_ON"
    and susp: "\<sigma> c = SP_SUSPENDED"
  obtains t where "psci_cpu_suspend_finish e c si s = Ret () t"
    "pd_effect s t (psci_non_cpu_pd_nodes s) (psci_req_local_pwr_states s)
       (svc_upd c (\<lambda>d. d\<lparr>target_pwrlvl := PSCI_INVALID_PWR_LVL e\<rparr>) (psci_svc_cpu_data s))" "wok (\<sigma>(c := SP_ON)) (world t)"
proof -
  from call_hook_run [OF suspend_finish_hook p(3)] obtain v w1 where
    hook: "call_hook (pwr_domain_suspend_finish ops) (\<lambda>f. f (regs e) si) s = Ret v (s\<lparr>world := w1\<rparr>)" "wok \<sigma> w1" .
  let ?log1 = "(if HW_ASSISTED_COHERENCY e \<or> WARMBOOT_ENABLE_DCACHE_EARLY e then arch_log s
      else arch_log s @ [Ev_pwrup_cache_maintenance]) @ [Ev_write_cntfrq_el0 (plat_syscnt_freq2 e)]"
  let ?s2 = "s\<lparr>world := w1, arch_log := ?log1\<rparr>"
  have "wok \<sigma> (world ?s2)" using hook(2) by simp
  from spd_moves_run [OF spd_suspend_finish this susp [unfolded c(1)]] obtain w2 where
    svc: "call_if_set (spd_sel spd svc_suspend_finish) (\<lambda>f. f (regs e) (of_nat (psci_find_max_off_lvl e si))) ?s2
      = Ret () (?s2\<lparr>world := w2\<rparr>)" "wok (\<sigma>(c := SP_ON)) w2" unfolding c(1) .
  let ?t = "?s2\<lparr>world := w2, psci_svc_cpu_data :=
      svc_upd c (\<lambda>d. d\<lparr>target_pwrlvl := PSCI_INVALID_PWR_LVL e\<rparr>) (psci_svc_cpu_data s),
      arch_log := ?log1 @ [Ev_suspend_pwrdown_finish, Ev_prepare_el3_exit]\<rparr>"
  have mid: "(case h of None \<Rightarrow> mret ()
      | Some f \<Rightarrow> mbind (c_assert e (psci_find_max_off_lvl e si \<noteq> PSCI_INVALID_PWR_LVL e)) (\<lambda>_.
          lift_world (f (regs e) (of_nat (psci_find_max_off_lvl e si)))))
      = call_if_set h (\<lambda>f. f (regs e) (of_nat (psci_find_max_off_lvl e si)))" for h
    using max_off_lvl_valid [OF si(2)] by (cases h) (simp_all add: call_if_set_def)
  have "psci_cpu_suspend_finish e c si s = Ret () ?t"
    unfolding psci_cpu_suspend_finish_def mwhen_def Let_def mid
    using hook(1) svc(1) p c si aff
    by (cases "HW_ASSISTED_COHERENCY e \<or> WARMBOOT_ENABLE_DCACHE_EARLY e")
      (simp_all add: mbind_def prog_simps svc_upd_def spd_hook_sel)
  then show thesis by (rule that) (use svc(2) in \<open>simp_all add: pd_effect_def\<close>)
qed

text \<open>
  The warm boot entry point, for a core that was turned on and for one that was suspended. \<open>svc\<close>
  is the per-CPU data that the finisher leaves.
\<close>

lemma warmboot_run:
  assumes wf: "wf_tree e s" and u: "unlocked s" and p: "plat_ok \<sigma> s" and e: "env_ok e"
    and c: "c = plat_my_core_pos e" and n: "n \<le> PLAT_MAX_PWR_LVL e"
    and lvl: "target_pwrlvl (psci_svc_cpu_data s ! c) = n \<or>
      target_pwrlvl (psci_svc_cpu_data s ! c) = PSCI_INVALID_PWR_LVL e \<and> n = PLAT_MAX_PWR_LVL e"
    and st: "aff_info_state (psci_svc_cpu_data s ! c) = AFF_STATE_ON_PENDING \<and> \<sigma> c = SP_OFF \<and>
      svc = psci_svc_cpu_data s \<or>
      aff_info_state (psci_svc_cpu_data s ! c) = AFF_STATE_ON \<and> \<sigma> c = SP_SUSPENDED \<and>
      is_local_state_off e (cpu_local_state (psci_svc_cpu_data s ! c)) \<and>
      svc = svc_upd c (\<lambda>d. d\<lparr>target_pwrlvl := PSCI_INVALID_PWR_LVL e\<rparr>) (psci_svc_cpu_data s)"
  obtains t where "psci_warmboot_entrypoint e s = Ret () t"
    and "pd_effect s t (node_path (all_run e) (ancestor s c) n (psci_non_cpu_pd_nodes s))
           (req_path c (all_run e) n (psci_req_local_pwr_states s))
           (svc_upd c (\<lambda>d. d\<lparr>aff_info_state := AFF_STATE_ON, cpu_local_state := PSCI_LOCAL_STATE_RUN\<rparr>) svc)"
    and "wok (\<sigma>(c := SP_ON)) (world t)"
proof -
  let ?s1 = "s\<lparr>psci_locks := path_upd (\<lambda>_ _. Some c) (ancestor s c) n (psci_locks s)\<rparr>"
  note pk = plat_okD [OF p] and len = wf_lengths(1,2) [OF wf]
  have cN: "c < PLATFORM_CORE_COUNT e" and stat: "\<not> ENABLE_PSCI_STAT e" using e c by (simp_all add: env_ok_def)
  have acq: "psci_acquire_pwr_domain_locks e n c s = Ret () ?s1"
    using acquire_unlocked [OF wf u cN n] c by simp
  have "same_shape s ?s1" by (simp add: same_shape_def)
  then have "wf_tree e ?s1" using wf by (rule same_shape_wf)
  from get_target_run [OF this c cN n, of "replicate (PLAT_MAX_PWR_LVL e + 1) PSCI_LOCAL_STATE_RUN"] obtain si
    where get: "psci_get_target_local_pwr_states e n (replicate (PLAT_MAX_PWR_LVL e + 1) PSCI_LOCAL_STATE_RUN) ?s1 = Ret si ?s1"
      and si: "si \<noteq> []" "si ! 0 = cpu_local_state (psci_svc_cpu_data s ! c)"
    by (auto simp del: upt_Suc replicate_Suc simp: nth_append)
  have lk: "cpu_lock (psci_cpu_pd_nodes s ! c) = None" using u cN len by (simp add: unlocked_def)
  have s1: "psci_plat_pm_ops ?s1 = ops" "psci_spd_pm ?s1 = spd" "wok \<sigma> (world ?s1)" using pk by simp_all
  let ?fin = "if aff_info_state (psci_svc_cpu_data s ! c) = AFF_STATE_ON_PENDING then psci_cpu_on_finish e c si
              else psci_cpu_suspend_finish e c si"
  obtain t where fin: "?fin ?s1 = Ret () t"
    "pd_effect ?s1 t (psci_non_cpu_pd_nodes s) (psci_req_local_pwr_states s) svc" "wok (\<sigma>(c := SP_ON)) (world t)"
  proof (cases "aff_info_state (psci_svc_cpu_data s ! c) = AFF_STATE_ON_PENDING")
    case True
    have "c < length (psci_svc_cpu_data ?s1)" "c < length (psci_cpu_pd_nodes ?s1)"
      "cpu_lock (psci_cpu_pd_nodes ?s1 ! c) = None"
      "aff_info_state (psci_svc_cpu_data ?s1 ! c) = AFF_STATE_ON_PENDING" "\<sigma> c = SP_OFF"
      using True lk cN len st by auto
    from cpu_on_finish_run [OF s1 c this] obtain t
      where "psci_cpu_on_finish e c si ?s1 = Ret () t" "no_effect ?s1 t" "wok (\<sigma>(c := SP_ON)) (world t)" .
    then show thesis using True st by (intro that [of t]) simp_all
  next
    case False
    have "c < length (psci_svc_cpu_data ?s1)" "si \<noteq> []" "is_local_state_off e (si ! 0)"
      "aff_info_state (psci_svc_cpu_data ?s1 ! c) = AFF_STATE_ON" "\<sigma> c = SP_SUSPENDED"
      using False st cN len si by auto
    from cpu_suspend_finish_run [OF s1 c this] obtain t
      where "psci_cpu_suspend_finish e c si ?s1 = Ret () t"
        "pd_effect ?s1 t (psci_non_cpu_pd_nodes ?s1) (psci_req_local_pwr_states ?s1)
          (svc_upd c (\<lambda>d. d\<lparr>target_pwrlvl := PSCI_INVALID_PWR_LVL e\<rparr>) (psci_svc_cpu_data ?s1))" "wok (\<sigma>(c := SP_ON)) (world t)" .
    then show thesis using False st by (intro that [of t]) simp_all
  qed
  have "length svc = length (psci_svc_cpu_data s)" using st by auto
  from wake_tail_run [OF wf u c cN n fin(2) this] obtain t' where
    tail: "mbind (psci_set_pwr_domains_to_run e n) (\<lambda>_. psci_release_pwr_domain_locks n c) t = Ret () t'"
      "pd_effect s t' (node_path (all_run e) (ancestor s c) n (psci_non_cpu_pd_nodes s))
           (req_path c (all_run e) n (psci_req_local_pwr_states s))
           (svc_upd c (\<lambda>d. d\<lparr>aff_info_state := AFF_STATE_ON, cpu_local_state := PSCI_LOCAL_STATE_RUN\<rparr>) svc)"
      "world t' = world t" .
  have on: "get_power_on_target_pwrlvl e s = Ret n s"
    using lvl n cN c len by (auto simp: get_power_on_target_pwrlvl_def mbind_def prog_simps)
  have "psci_warmboot_entrypoint e s = Ret () t'"
    unfolding psci_warmboot_entrypoint_def
    using acq get fin(1) tail(1) on st stat cN c len by (auto simp: mbind_def prog_simps simp del: replicate_Suc)
  then show thesis by (rule that) (use tail fin in simp_all)
qed

text \<open>
  CPU\_ON on a core that is ON or ON\_PENDING changes nothing; on a core that is OFF it leaves the
  core ON\_PENDING with the entry point in its context, or OFF when the platform reports a failure.
\<close>

lemma cpu_on_start_busy:
  assumes u: "unlocked s" and p: "plat_ok \<sigma> s"
    and i: "plat_core_pos_by_mpidr e mpidr = int i" "i < length (psci_cpu_pd_nodes s)" "i < length (psci_svc_cpu_data s)"
    and aff: "aff_info_state (psci_svc_cpu_data s ! i) \<noteq> AFF_STATE_OFF"
  shows "psci_cpu_on_start e mpidr ep s =
     Ret (if aff_info_state (psci_svc_cpu_data s ! i) = AFF_STATE_ON then PSCI_E_ALREADY_ON else PSCI_E_ON_PENDING) s"
proof -
  let ?s1 = "s\<lparr>psci_cpu_pd_nodes := (psci_cpu_pd_nodes s)
    [i := (psci_cpu_pd_nodes s ! i)\<lparr>cpu_lock := Some (plat_my_core_pos e)\<rparr>]\<rparr>"
  have lk: "cpu_lock (psci_cpu_pd_nodes s ! i) = None" using u i by (simp add: unlocked_def)
  have unlock: "psci_spin_unlock_cpu i ?s1 = Ret () s"
    using spin_unlock_restores [OF i(2) lk, of ?s1] by simp
  have hooks: "pwr_domain_on ops \<noteq> None" "pwr_domain_on_finish ops \<noteq> None" using on_hook on_finish_hook by auto
  show ?thesis
    unfolding psci_cpu_on_start_def Let_def
    using unlock hooks plat_okD [OF p] i aff spin_lock_run [OF i(2) lk, of e]
    by (cases "aff_info_state (psci_svc_cpu_data s ! i)")
      (simp_all add: mbind_def prog_simps cpu_on_validate_state_def)
qed

lemma cpu_on_start_run:
  assumes u: "unlocked s" and p: "plat_ok \<sigma> s"
    and i: "plat_core_pos_by_mpidr e mpidr = int i" "i < length (psci_cpu_pd_nodes s)" "i < length (psci_svc_cpu_data s)"
      "i < length (psci_ns_context s)"
    and aff: "aff_info_state (psci_svc_cpu_data s ! i) = AFF_STATE_OFF"
  obtains (on) w where "psci_cpu_on_start e mpidr ep s = Ret PSCI_E_SUCCESS
      (s\<lparr>psci_svc_cpu_data := svc_upd i (\<lambda>d. d\<lparr>aff_info_state := AFF_STATE_ON_PENDING\<rparr>) (psci_svc_cpu_data s),
         psci_ns_context := (psci_ns_context s)[i := Some ep], world := w\<rparr>)" "wok \<sigma> w"
  | (fail) w t where "psci_cpu_on_start e mpidr ep s = Ret PSCI_E_INTERN_FAIL (s\<lparr>world := w\<rparr>)" "wok \<sigma> w"
      "call_hook (pwr_domain_on ops) (\<lambda>f. f (regs e) mpidr) t = Ret PSCI_E_INTERN_FAIL (t\<lparr>world := w\<rparr>)"
proof -
  let ?cpus = "(psci_cpu_pd_nodes s)[i := (psci_cpu_pd_nodes s ! i)\<lparr>cpu_lock := Some (plat_my_core_pos e)\<rparr>]"
  let ?s1 = "s\<lparr>psci_cpu_pd_nodes := ?cpus\<rparr>"
  let ?svc = "svc_upd i (\<lambda>d. d\<lparr>aff_info_state := AFF_STATE_ON_PENDING\<rparr>) (psci_svc_cpu_data s)"
  note pk = plat_okD [OF p]
  have lk: "cpu_lock (psci_cpu_pd_nodes s ! i) = None" using u i by (simp add: unlocked_def)
  note lock = spin_lock_run [OF i(2) lk, of e]
  have hooks: "pwr_domain_on ops \<noteq> None" "pwr_domain_on_finish ops \<noteq> None" using on_hook on_finish_hook by auto
  have "wok \<sigma> (world ?s1)" using pk by simp
  from spd_on this obtain w1 where
    svc: "call_if_set (spd_sel spd svc_on) (\<lambda>f. f (regs e) mpidr) ?s1 = Ret () (?s1\<lparr>world := w1\<rparr>)" "wok \<sigma> w1"
    by (rule call_if_set_run)
  let ?s2 = "?s1\<lparr>world := w1, psci_svc_cpu_data := ?svc\<rparr>"
  have "wok \<sigma> (world ?s2)" using svc(2) by simp
  from call_hook_run [OF on_hook this] obtain rc w2 where
    hook: "call_hook (pwr_domain_on ops) (\<lambda>f. f (regs e) mpidr) ?s2 = Ret rc (?s2\<lparr>world := w2\<rparr>)" "wok \<sigma> w2"
      "rc = PSCI_E_SUCCESS \<or> rc = PSCI_E_INTERN_FAIL" .
  have off: "?svc[i := (?svc ! i)\<lparr>aff_info_state := AFF_STATE_OFF\<rparr>] = psci_svc_cpu_data s"
    using i aff by (auto simp: svc_upd_def list_eq_iff_nth_eq nth_list_update intro!: psci_cpu_data_t.equality)
  let ?s3 = "if rc = PSCI_E_SUCCESS then ?s2\<lparr>world := w2, psci_ns_context := (psci_ns_context s)[i := Some ep]\<rparr>
    else s\<lparr>psci_cpu_pd_nodes := ?cpus, world := w2\<rparr>"
  have req: "cpu_on_request e mpidr i ep ?s1 = Ret rc ?s3"
    unfolding cpu_on_request_def
    using svc(1) hook(1,3) i pk off
    by (auto simp: mbind_def prog_simps cm_init_context_by_index_def svc_upd_def spd_hook_sel)
  have unlock: "psci_spin_unlock_cpu i ?s3 = Ret () (?s3\<lparr>psci_cpu_pd_nodes := psci_cpu_pd_nodes s\<rparr>)"
    by (rule spin_unlock_restores [OF i(2) lk]) simp
  have run: "psci_cpu_on_start e mpidr ep s = Ret rc (?s3\<lparr>psci_cpu_pd_nodes := psci_cpu_pd_nodes s\<rparr>)"
    unfolding psci_cpu_on_start_def Let_def
    using lock req unlock hooks pk i aff by (simp add: mbind_def prog_simps cpu_on_validate_state_def)
  show thesis
  proof (cases "rc = PSCI_E_SUCCESS")
    case True
    then show thesis using run hook(2) by (intro on [of w2]) simp_all
  next
    case False
    then have "rc = PSCI_E_INTERN_FAIL" using hook(3) by simp
    then show thesis using run hook by (intro fail [of w2 ?s2]) simp_all
  qed
qed

end

end
