(* ===== verification/Psci_Invariant.thy ===== *)
theory Psci_Invariant
  imports Psci_Behaviour
begin

text \<open>
  The invariant of the library between operations, and its preservation by every power operation.
  A core is running, waiting in a standby state, or without power; \<open>cpu_ok\<close> says what the tables
  hold for a core in each of these phases, \<open>psci_inv\<close> adds the well-formed tree, the free locks
  and \<open>dom_ok\<close>. The two consequences that matter: the domains above a running core are in RUN, and
  a core that wakes up finds the data its warm boot needs.
\<close>

section \<open>Phases and the invariant\<close>

datatype cpu_phase = Running | Standby nat | Down

definition cpu_ok :: "'a plat_port_scheme \<Rightarrow> 'w psci_state \<Rightarrow> nat \<Rightarrow> cpu_phase \<Rightarrow> bool" where
  "cpu_ok e s c ph =
     (let d = psci_svc_cpu_data s ! c; req = psci_req_local_pwr_states s
      in case ph of
           Running \<Rightarrow>
             aff_info_state d = AFF_STATE_ON \<and> target_pwrlvl d = PSCI_INVALID_PWR_LVL e \<and>
             cpu_local_state d = PSCI_LOCAL_STATE_RUN \<and>
             (\<forall>l < PLAT_MAX_PWR_LVL e. req ! l ! c = PSCI_LOCAL_STATE_RUN)
         | Standby n \<Rightarrow>
             aff_info_state d = AFF_STATE_ON \<and> target_pwrlvl d = PSCI_INVALID_PWR_LVL e \<and>
             n \<le> PLAT_MAX_PWR_LVL e \<and>
             (\<forall>l < PLAT_MAX_PWR_LVL e. n \<le> l \<longrightarrow> req ! l ! c = PSCI_LOCAL_STATE_RUN)
         | Down \<Rightarrow>
             (if aff_info_state d = AFF_STATE_ON then
                target_pwrlvl d \<le> PLAT_MAX_PWR_LVL e \<and> is_local_state_off e (cpu_local_state d) \<and>
                (\<forall>l < PLAT_MAX_PWR_LVL e. target_pwrlvl d \<le> l \<longrightarrow> req ! l ! c = PSCI_LOCAL_STATE_RUN)
              else target_pwrlvl d = PSCI_INVALID_PWR_LVL e))"

definition psci_inv :: "'a plat_port_scheme \<Rightarrow> 'w psci_state \<Rightarrow> (nat \<Rightarrow> cpu_phase) \<Rightarrow> bool" where
  "psci_inv e s ph \<longleftrightarrow>
     wf_tree e s \<and> dom_ok e s \<and> unlocked s \<and> (\<forall>c < PLATFORM_CORE_COUNT e. cpu_ok e s c (ph c))"

lemma psci_invD:
  assumes "psci_inv e s ph"
  shows "wf_tree e s" "dom_ok e s" "unlocked s"
    and "\<And>c. c < PLATFORM_CORE_COUNT e \<Longrightarrow> cpu_ok e s c (ph c)"
  using assms by (simp_all add: psci_inv_def)

text \<open>The domains above a running core are in RUN.\<close>

lemma inv_running_domains_run:
  assumes "psci_inv e s ph" "c < PLATFORM_CORE_COUNT e" "ph c = Running" "1 \<le> l" "l \<le> PLAT_MAX_PWR_LVL e"
  shows "local_state (psci_non_cpu_pd_nodes s ! ancestor s c l) = PSCI_LOCAL_STATE_RUN"
proof -
  have "psci_req_local_pwr_states s ! (l - 1) ! c = PSCI_LOCAL_STATE_RUN"
    using psci_invD(4) [OF assms(1,2)] assms(3-5) by (simp add: cpu_ok_def Let_def)
  moreover have "local_state (psci_non_cpu_pd_nodes s ! ancestor s c l) \<le> psci_req_local_pwr_states s ! (l - 1) ! c"
    using psci_invD(2) [OF assms(1)] assms(2,4,5) by (simp add: dom_ok_def)
  ultimately show ?thesis by simp
qed

section \<open>Preservation\<close>

text \<open>The requests of the other cores, and those above the end level, are untouched.\<close>

lemma req_path_nth:
  assumes "l < length req" "c < length (req ! l)"
  shows "req_path c si n req ! l ! c' = (if c' = c \<and> l < n then si ! Suc l else req ! l ! c')"
  using assms by (auto simp: req_path_row nth_list_update)

lemma psci_inv_effect:
  assumes inv: "psci_inv e s ph" and c: "c < PLATFORM_CORE_COUNT e"
    and n: "n \<le> PLAT_MAX_PWR_LVL e"
    and t: "pd_effect s t (node_path vals (ancestor s c) n (psci_non_cpu_pd_nodes s))
              (req_path c si n (psci_req_local_pwr_states s)) (svc_upd c f (psci_svc_cpu_data s))"
    and dom: "dom_ok e t" and me: "cpu_ok e t c phc"
  shows "psci_inv e t (ph(c := phc))"
proof -
  note i = psci_invD [OF inv]
  have "same_shape s t" using t by (simp add: same_shape_def pd_effect_def)
  then have wf: "wf_tree e t" using i(1) by (rule same_shape_wf)
  have u: "unlocked t" using i(3) t by (simp add: unlocked_def pd_effect_def)
  have "cpu_ok e t c' (ph c')" if "c' < PLATFORM_CORE_COUNT e" "c' \<noteq> c" for c'
  proof -
    have "psci_svc_cpu_data t ! c' = psci_svc_cpu_data s ! c'"
      using t that c wf_lengths(2) [OF i(1)] by (simp add: pd_effect_def svc_upd_nth)
    moreover have "psci_req_local_pwr_states t ! l ! c' = psci_req_local_pwr_states s ! l ! c'"
      if "l < PLAT_MAX_PWR_LVL e" for l
      using t that \<open>c' \<noteq> c\<close> c wf_lengths(5,6) [OF i(1)] by (simp add: pd_effect_def req_path_nth)
    ultimately show ?thesis using i(4) [OF that(1)] by (cases "ph c'") (simp_all add: cpu_ok_def Let_def)
  qed
  then show ?thesis using wf u dom me by (simp add: psci_inv_def)
qed

text \<open>The anc of a state with the same nodes: used to apply the lemmas on \<open>dom_ok\<close>.\<close>

lemma dom_ok_cong:
  assumes "dom_ok e s" "psci_non_cpu_pd_nodes t = psci_non_cpu_pd_nodes s"
    "psci_req_local_pwr_states t = psci_req_local_pwr_states s"
    "\<And>i. cpu_parent_node (psci_cpu_pd_nodes t ! i) = cpu_parent_node (psci_cpu_pd_nodes s ! i)"
  shows "dom_ok e t"
proof -
  have "ancestor t = ancestor s" using assms by (intro ext anc_cong) simp_all
  then show ?thesis using assms by (simp add: dom_ok_def)
qed

lemma psci_inv_sleep:
  assumes inv: "psci_inv e s ph" and c: "c < PLATFORM_CORE_COUNT e" and n: "n \<le> PLAT_MAX_PWR_LVL e"
    and si: "length si = Suc (PLAT_MAX_PWR_LVL e)"
    and t: "pd_effect s t (node_path (coord_result e s c si n) (ancestor s c) n (psci_non_cpu_pd_nodes s))
              (req_path c si n (psci_req_local_pwr_states s)) (svc_upd c f (psci_svc_cpu_data s))"
    and me: "cpu_ok e t c phc"
  shows "psci_inv e t (ph(c := phc))"
proof (rule psci_inv_effect [OF inv c n t _ me])
  note i = psci_invD [OF inv]
  let ?s' = "s\<lparr>psci_non_cpu_pd_nodes := node_path (coord_result e s c si n) (ancestor s c) n (psci_non_cpu_pd_nodes s),
    psci_req_local_pwr_states := req_path c si n (psci_req_local_pwr_states s)\<rparr>"
  have "dom_ok e ?s'" by (rule dom_ok_coordination [OF i(1,2) c n si]) simp_all
  then show "dom_ok e t" by (rule dom_ok_cong) (use t in \<open>simp_all add: pd_effect_def\<close>)
qed

lemma psci_inv_wake:
  assumes inv: "psci_inv e s ph" and c: "c < PLATFORM_CORE_COUNT e" and n: "n \<le> PLAT_MAX_PWR_LVL e"
    and t: "pd_effect s t (node_path (all_run e) (ancestor s c) n (psci_non_cpu_pd_nodes s))
              (req_path c (all_run e) n (psci_req_local_pwr_states s)) (svc_upd c f (psci_svc_cpu_data s))"
    and f: "aff_info_state (f (psci_svc_cpu_data s ! c)) = AFF_STATE_ON"
      "cpu_local_state (f (psci_svc_cpu_data s ! c)) = PSCI_LOCAL_STATE_RUN"
      "target_pwrlvl (f (psci_svc_cpu_data s ! c)) = PSCI_INVALID_PWR_LVL e"
    and above: "\<And>l. n \<le> l \<Longrightarrow> l < PLAT_MAX_PWR_LVL e \<Longrightarrow> psci_req_local_pwr_states s ! l ! c = PSCI_LOCAL_STATE_RUN"
  shows "psci_inv e t (ph(c := Running))"
proof (rule psci_inv_effect [OF inv c n t])
  note i = psci_invD [OF inv]
  let ?s' = "s\<lparr>psci_non_cpu_pd_nodes := node_path (all_run e) (ancestor s c) n (psci_non_cpu_pd_nodes s),
    psci_req_local_pwr_states := req_path c (all_run e) n (psci_req_local_pwr_states s)\<rparr>"
  have "dom_ok e ?s'" by (rule dom_ok_set_run [OF i(1,2) c n]) simp_all
  then show "dom_ok e t" by (rule dom_ok_cong) (use t in \<open>simp_all add: pd_effect_def\<close>)
  have "psci_svc_cpu_data t ! c = f (psci_svc_cpu_data s ! c)"
    using t c wf_lengths(2) [OF i(1)] by (simp add: pd_effect_def svc_upd_nth)
  moreover have "psci_req_local_pwr_states t ! l ! c = PSCI_LOCAL_STATE_RUN" if "l < PLAT_MAX_PWR_LVL e" for l
    using t that c wf_lengths(5,6) [OF i(1)] above [of l]
    by (simp add: pd_effect_def req_path_nth del: replicate_Suc)
  ultimately show "cpu_ok e t c Running" using f by (simp add: cpu_ok_def Let_def)
qed

text \<open>Operations that change at most the per-CPU data of one core, or nothing.\<close>

lemma psci_inv_svc:
  assumes inv: "psci_inv e s ph" and c: "c < PLATFORM_CORE_COUNT e"
    and t: "pd_effect s t (psci_non_cpu_pd_nodes s) (psci_req_local_pwr_states s) (svc_upd c f (psci_svc_cpu_data s))"
    and me: "cpu_ok e t c phc"
  shows "psci_inv e t (ph(c := phc))"
proof -
  have z: "node_path [] A 0 nodes = nodes" "req_path c [] 0 req = req" for A nodes req
    by (simp_all add: node_path_def req_path_def)
  have "dom_ok e t" using psci_invD(2) [OF inv] by (rule dom_ok_cong) (use t in \<open>simp_all add: pd_effect_def\<close>)
  then show ?thesis
    using psci_inv_effect [OF inv c, of 0 t "[]" "[]" f] t me by (simp add: z)
qed

lemma psci_inv_no_effect:
  assumes inv: "psci_inv e s ph" and t: "no_effect s t"
  shows "psci_inv e t ph"
proof -
  note i = psci_invD [OF inv]
  have shape: "same_shape s t" using t by (simp add: same_shape_def pd_effect_def)
  have "dom_ok e t" using i(2) by (rule dom_ok_cong) (use t in \<open>simp_all add: pd_effect_def\<close>)
  moreover have "cpu_ok e t c p = cpu_ok e s c p" for c p using t by (simp add: cpu_ok_def pd_effect_def)
  ultimately show ?thesis
    using same_shape_wf [OF shape i(1)] i(3,4) t by (simp add: psci_inv_def unlocked_def pd_effect_def)
qed

section \<open>The secure payload follows the cores\<close>

text \<open>
  The state the secure payload is in on a core: suspended or off when the core has no power, and
  on otherwise.
\<close>

definition sp_phase :: "cpu_phase \<Rightarrow> aff_info_state_t \<Rightarrow> sp_state" where
  "sp_phase ph a = (case ph of Down \<Rightarrow> if a = AFF_STATE_ON then SP_SUSPENDED else SP_OFF | _ \<Rightarrow> SP_ON)"

definition sp_of :: "'w psci_state \<Rightarrow> (nat \<Rightarrow> cpu_phase) \<Rightarrow> sp_states" where
  "sp_of s ph c =
     (if c < length (psci_svc_cpu_data s) then sp_phase (ph c) (aff_info_state (psci_svc_cpu_data s ! c))
      else SP_NONE)"

lemma sp_phase_simps [simp]:
  "sp_phase Running a = SP_ON" "sp_phase (Standby n) a = SP_ON" "sp_phase Down AFF_STATE_ON = SP_SUSPENDED"
  "sp_phase Down AFF_STATE_OFF = SP_OFF" "sp_phase Down AFF_STATE_ON_PENDING = SP_OFF"
  by (simp_all add: sp_phase_def)

lemma sp_of_upd:
  assumes "c < length (psci_svc_cpu_data s)" "psci_svc_cpu_data t = svc_upd c f (psci_svc_cpu_data s)"
  shows "sp_of t (ph(c := p)) = (sp_of s ph)(c := sp_phase p (aff_info_state (f (psci_svc_cpu_data s ! c))))"
  using assms by (auto simp: sp_of_def fun_eq_iff svc_upd_nth)

lemma sp_of_core:
  "psci_inv e s ph \<Longrightarrow> c < PLATFORM_CORE_COUNT e \<Longrightarrow>
     sp_of s ph c = sp_phase (ph c) (aff_info_state (psci_svc_cpu_data s ! c))"
  using wf_lengths(2) [OF psci_invD(1), of e s ph] by (simp add: sp_of_def)

lemma sp_of_same: "psci_svc_cpu_data t = psci_svc_cpu_data s \<Longrightarrow> sp_of t ph = sp_of s ph"
  by (simp add: sp_of_def fun_eq_iff)

end
