(* ===== verification/Psci_System.thy ===== *)
theory Psci_System
  imports Psci_Invariant
begin

text \<open>
  The PSCI library as a system of cores: in the locale \<open>psci_platform\<close>, every power operation keeps
  the invariant and neither fails an assertion nor leaves an array.
\<close>

section \<open>Operations keep the invariant\<close>

lemma wp_return: "m s = Ret v t \<Longrightarrow> Q v t \<Longrightarrow> wp m Q E s"
  by (simp add: wp_def)

lemma wp_stop: "m s = Stop r t \<Longrightarrow> E r t \<Longrightarrow> wp m Q E s"
  by (simp add: wp_def)

context psci_platform
begin

definition ok :: "'w cpu_env \<Rightarrow> 'w psci_state \<Rightarrow> (nat \<Rightarrow> cpu_phase) \<Rightarrow> bool" where
  "ok e s ph \<longleftrightarrow> psci_inv e s ph \<and> plat_ok (sp_of s ph) s"

lemma okD: "ok e s ph \<Longrightarrow> psci_inv e s ph" "ok e s ph \<Longrightarrow> plat_ok (sp_of s ph) s"
  by (simp_all add: ok_def)

lemma plat_ok_effect: "plat_ok \<sigma> s \<Longrightarrow> pd_effect s t nodes req svc \<Longrightarrow> wok \<tau> (world t) \<Longrightarrow> plat_ok \<tau> t"
  by (simp add: plat_ok_def pd_effect_def)

text \<open>The invariant and the platform after an operation of core \<open>c\<close>.\<close>

lemma ok_effect:
  assumes ok: "ok e s ph" and inv: "psci_inv e t (ph(c := p))" and c: "c < PLATFORM_CORE_COUNT e"
    and eff: "pd_effect s t nodes req (svc_upd c f (psci_svc_cpu_data s))"
    and w: "wok ((sp_of s ph)(c := sp_phase p (aff_info_state (f (psci_svc_cpu_data s ! c))))) (world t)"
  shows "ok e t (ph(c := p))"
proof -
  have "c < length (psci_svc_cpu_data s)" using c wf_lengths(2) [OF psci_invD(1) [OF okD(1) [OF ok]]] by simp
  then have "sp_of t (ph(c := p)) = (sp_of s ph)(c := sp_phase p (aff_info_state (f (psci_svc_cpu_data s ! c))))"
    using eff by (intro sp_of_upd) (simp_all add: pd_effect_def)
  then show ?thesis using inv plat_ok_effect [OF okD(2) [OF ok] eff w] by (simp add: ok_def)
qed

lemma ok_no_effect:
  assumes "ok e s ph" "no_effect s t" "wok (sp_of s ph) (world t)"
  shows "ok e t ph"
proof -
  have "sp_of t ph = sp_of s ph" using assms(2) by (intro sp_of_same) (simp add: pd_effect_def)
  then show ?thesis
    using psci_inv_no_effect [OF okD(1) [OF assms(1)] assms(2)] plat_ok_effect [OF okD(2) [OF assms(1)] assms(2,3)]
    by (simp add: ok_def)
qed

lemma ok_world: "ok e s ph \<Longrightarrow> wok (sp_of s ph) w \<Longrightarrow> ok e (s\<lparr>world := w\<rparr>) ph"
  by (erule ok_no_effect) (simp_all add: pd_effect_def)

lemma ok_log: "ok e s ph \<Longrightarrow> ok e (s\<lparr>arch_log := lg\<rparr>) ph"
  using ok_no_effect [of e s ph "s\<lparr>arch_log := lg\<rparr>"] plat_okD(3) [OF okD(2)] by (simp add: pd_effect_def)

lemma off_state_off: "env_ok e \<Longrightarrow> is_local_state_off e (PLAT_MAX_OFF_STATE e)"
  by (simp add: env_ok_def is_local_state_off_def)

lemma wp_cpu_off:
  assumes ok: "ok e s ph" and e: "env_ok e" and ph: "ph (plat_my_core_pos e) = Running"
  shows "wp (psci_do_cpu_off e (PLAT_MAX_PWR_LVL e)) (\<lambda>rc t. rc = PSCI_E_DENIED \<and> ok e t ph)
    (\<lambda>r t. r = Powered_down \<and> ok e t (ph(plat_my_core_pos e := Down))) s"
proof -
  let ?c = "plat_my_core_pos e" and ?n = "PLAT_MAX_PWR_LVL e" and ?si = "psci_set_power_off_state e"
  note i = psci_invD [OF okD(1) [OF ok]]
  have c: "?c < PLATFORM_CORE_COUNT e" using e by (simp add: env_ok_def)
  have on: "sp_of s ph ?c = SP_ON" using ph sp_of_core [OF okD(1) [OF ok] c] by simp
  show ?thesis
  proof (rule cpu_off_run [OF i(1,3) okD(2) [OF ok] e refl on order_refl])
    fix w assume "psci_do_cpu_off e ?n s = Ret PSCI_E_DENIED (s\<lparr>world := w\<rparr>)" "wok (sp_of s ph) w"
    then show ?thesis using ok by (auto intro: wp_return ok_world)
  next
    fix w lg
    let ?t = "off_state e s ?c ?n w lg"
    assume run: "psci_do_cpu_off e ?n s = Stop Powered_down ?t" and w: "wok ((sp_of s ph)(?c := SP_OFF)) w"
    have eff: "pd_effect s ?t (node_path (coord_result e s ?c ?si ?n) (ancestor s ?c) ?n (psci_non_cpu_pd_nodes s))
      (req_path ?c ?si ?n (psci_req_local_pwr_states s)) (svc_upd ?c (\<lambda>d. d\<lparr>cpu_local_state := PLAT_MAX_OFF_STATE e,
           aff_info_state := AFF_STATE_OFF\<rparr>) (psci_svc_cpu_data s))" by (simp add: pd_effect_def)
    have "cpu_ok e ?t ?c Down"
      using i(4) [OF c] ph wf_lengths(2) [OF i(1)] c by (simp add: cpu_ok_def svc_upd_nth Let_def)
    then have "psci_inv e ?t (ph(?c := Down))"
      by (intro psci_inv_sleep [OF okD(1) [OF ok] c order_refl _ eff]) (simp_all add: psci_set_power_off_state_def)
    then have "ok e ?t (ph(?c := Down))" by (rule ok_effect [OF ok _ c eff]) (simp add: w)
    then show ?thesis using run by (simp add: wp_def)
  qed
qed

lemma wp_suspend_locked:
  assumes ok: "ok e s ph" and e: "env_ok e" and c: "c = plat_my_core_pos e" "ph c = Running"
    and n: "n \<le> PLAT_MAX_PWR_LVL e" and si: "length si = Suc (PLAT_MAX_PWR_LVL e)"
    and off: "pd \<noteq> 0 \<Longrightarrow> is_local_state_off e (si ! 0)"
  shows "wp (suspend_start_locked e ep n si pd)
    (\<lambda>r t. case r of None \<Rightarrow> t = s | Some _ \<Rightarrow> ok e t (ph(c := if pd = 0 then Standby n else Down))) (\<lambda>_ _. False) s"
proof -
  note i = psci_invD [OF okD(1) [OF ok]]
  have cN: "c < PLATFORM_CORE_COUNT e" using e c by (simp add: env_ok_def)
  show ?thesis
  proof (cases "isr_el1 e = 0")
    case False
    then show ?thesis
      using suspend_abandoned [OF i(1,3) okD(2) [OF ok] e n] by (simp add: wp_def)
  next
    case True
    have on: "sp_of s ph c = SP_ON" using c(2) sp_of_core [OF okD(1) [OF ok] cN] by simp
    from suspend_locked_run [OF i(1,3) okD(2) [OF ok] e c(1) n True si on] obtain t where
      run: "suspend_start_locked e ep n si pd s = Ret (Some (coord_result e s c si n)) t"
      and eff: "pd_effect s t (node_path (coord_result e s c si n) (ancestor s c) n (psci_non_cpu_pd_nodes s))
           (req_path c si n (psci_req_local_pwr_states s))
           (svc_upd c (\<lambda>d. if pd = 0 then d\<lparr>cpu_local_state := si ! 0\<rparr>
                           else d\<lparr>cpu_local_state := si ! 0, target_pwrlvl := n\<rparr>) (psci_svc_cpu_data s))"
      and w: "wok (if pd = 0 then sp_of s ph else (sp_of s ph)(c := SP_SUSPENDED)) (world t)" .
    have "cpu_ok e t c (if pd = 0 then Standby n else Down)"
      using i(4) [OF cN] c(2) wf_lengths(2,5,6) [OF i(1)] cN n off eff
      by (simp add: cpu_ok_def svc_upd_nth pd_effect_def req_path_nth Let_def)
    then have "psci_inv e t (ph(c := if pd = 0 then Standby n else Down))"
      by (rule psci_inv_sleep [OF okD(1) [OF ok] cN n si eff])
    moreover have "aff_info_state (psci_svc_cpu_data s ! c) = AFF_STATE_ON"
      using i(4) [OF cN] c(2) by (simp add: cpu_ok_def Let_def)
    ultimately have "ok e t (ph(c := if pd = 0 then Standby n else Down))"
      using w on by (intro ok_effect [OF ok _ cN eff]) (auto simp: fun_upd_idem)
    then show ?thesis using run by (simp add: wp_def)
  qed
qed

lemma wp_standby_finisher:
  assumes ok: "ok e s ph" and e: "env_ok e" and c: "c = plat_my_core_pos e" "ph c = Standby n"
  shows "wp (psci_suspend_to_standby_finisher e c n) (\<lambda>_ t. ok e t (ph(c := Running))) (\<lambda>_ _. False) s"
proof -
  note i = psci_invD [OF okD(1) [OF ok]]
  have cN: "c < PLATFORM_CORE_COUNT e" using e c by (simp add: env_ok_def)
  note me = i(4) [OF cN, unfolded c(2) cpu_ok_def Let_def cpu_phase.case]
  then have n: "n \<le> PLAT_MAX_PWR_LVL e" by simp
  from standby_finisher_run [OF i(1,3) okD(2) [OF ok] e c(1) n] obtain t where
    run: "psci_suspend_to_standby_finisher e c n s = Ret () t"
    and eff: "pd_effect s t (node_path (all_run e) (ancestor s c) n (psci_non_cpu_pd_nodes s))
           (req_path c (all_run e) n (psci_req_local_pwr_states s))
           (svc_upd c (\<lambda>d. d\<lparr>aff_info_state := AFF_STATE_ON, cpu_local_state := PSCI_LOCAL_STATE_RUN\<rparr>) (psci_svc_cpu_data s))"
    and w: "wok (sp_of s ph) (world t)" .
  have "psci_inv e t (ph(c := Running))"
    by (rule psci_inv_wake [OF okD(1) [OF ok] cN n eff]) (use me in auto)
  then have "ok e t (ph(c := Running))"
    using w c(2) sp_of_core [OF okD(1) [OF ok] cN] by (intro ok_effect [OF ok _ cN eff]) (auto simp: fun_upd_idem)
  then show ?thesis using run by (simp add: wp_def)
qed

text \<open>A core without power that is not OFF comes back through the warm boot entry point.\<close>

lemma wp_warmboot:
  assumes ok: "ok e s ph" and e: "env_ok e" and c: "c = plat_my_core_pos e" "ph c = Down"
    and aff: "aff_info_state (psci_svc_cpu_data s ! c) \<noteq> AFF_STATE_OFF"
  shows "wp (psci_warmboot_entrypoint e) (\<lambda>_ t. ok e t (ph(c := Running))) (\<lambda>_ _. False) s"
proof -
  note i = psci_invD [OF okD(1) [OF ok]]
  have cN: "c < PLATFORM_CORE_COUNT e" using e c by (simp add: env_ok_def)
  note me = i(4) [OF cN, unfolded c(2) cpu_ok_def Let_def cpu_phase.case]
  define n where "n = (if aff_info_state (psci_svc_cpu_data s ! c) = AFF_STATE_ON
    then target_pwrlvl (psci_svc_cpu_data s ! c) else PLAT_MAX_PWR_LVL e)"
  define g where "g = (\<lambda>d :: psci_cpu_data_t. if aff_info_state (psci_svc_cpu_data s ! c) = AFF_STATE_ON
    then d\<lparr>target_pwrlvl := PSCI_INVALID_PWR_LVL e\<rparr> else d)"
  have n: "n \<le> PLAT_MAX_PWR_LVL e" using me by (simp add: n_def split: if_splits)
  have lvl: "target_pwrlvl (psci_svc_cpu_data s ! c) = n \<or>
      target_pwrlvl (psci_svc_cpu_data s ! c) = PSCI_INVALID_PWR_LVL e \<and> n = PLAT_MAX_PWR_LVL e"
    using me by (simp add: n_def split: if_splits)
  have st: "aff_info_state (psci_svc_cpu_data s ! c) = AFF_STATE_ON_PENDING \<and> sp_of s ph c = SP_OFF \<and> svc_upd c g (psci_svc_cpu_data s) = psci_svc_cpu_data s \<or>
      aff_info_state (psci_svc_cpu_data s ! c) = AFF_STATE_ON \<and> sp_of s ph c = SP_SUSPENDED \<and>
      is_local_state_off e (cpu_local_state (psci_svc_cpu_data s ! c)) \<and>
      svc_upd c g (psci_svc_cpu_data s) = svc_upd c (\<lambda>d. d\<lparr>target_pwrlvl := PSCI_INVALID_PWR_LVL e\<rparr>) (psci_svc_cpu_data s)"
    using me aff sp_of_core [OF okD(1) [OF ok] cN]
    by (cases "aff_info_state (psci_svc_cpu_data s ! c)") (simp_all add: g_def svc_upd_def c(2))
  have len: "c < length (psci_svc_cpu_data s)" using cN wf_lengths(2) [OF i(1)] by simp
  from warmboot_run [OF i(1,3) okD(2) [OF ok] e c(1) n lvl st] obtain t where
    run: "psci_warmboot_entrypoint e s = Ret () t"
    and eff: "pd_effect s t (node_path (all_run e) (ancestor s c) n (psci_non_cpu_pd_nodes s))
           (req_path c (all_run e) n (psci_req_local_pwr_states s))
           (svc_upd c (\<lambda>d. (g d)\<lparr>aff_info_state := AFF_STATE_ON, cpu_local_state := PSCI_LOCAL_STATE_RUN\<rparr>) (psci_svc_cpu_data s))"
    and w: "wok ((sp_of s ph)(c := SP_ON)) (world t)" by (auto simp: svc_upd_upd [OF len])
  have "psci_inv e t (ph(c := Running))"
    by (rule psci_inv_wake [OF okD(1) [OF ok] cN n eff]) (use me in \<open>auto simp: g_def n_def split: if_splits\<close>)
  then have "ok e t (ph(c := Running))" by (rule ok_effect [OF ok _ cN eff]) (simp add: w)
  then show ?thesis using run by (simp add: wp_def)
qed

text \<open>Turning a core on never disturbs the invariant, whatever core index the platform computes.\<close>

lemma wp_cpu_on_start:
  assumes ok: "ok e s ph"
  shows "wp (psci_cpu_on_start e mpidr ep) (\<lambda>_ t. ok e t ph) (\<lambda>r _. r \<noteq> Powered_down) s"
proof -
  note i = psci_invD [OF okD(1) [OF ok]] and pk = plat_okD [OF okD(2) [OF ok]]
  note len = wf_lengths(1-3) [OF i(1)]
  have hooks: "pwr_domain_on ops \<noteq> None" "pwr_domain_on_finish ops \<noteq> None" using on_hook on_finish_hook by auto
  consider "plat_core_pos_by_mpidr e mpidr < 0" | k where "plat_core_pos_by_mpidr e mpidr = int k" "\<not> k < PLATFORM_CORE_COUNT e"
    | k where "plat_core_pos_by_mpidr e mpidr = int k" "k < PLATFORM_CORE_COUNT e"
    by (metis int_nat_eq not_le nat_int not_less)
  then show ?thesis
  proof cases
    case 1
    then show ?thesis by (simp add: psci_cpu_on_start_def Let_def wp_simps)
  next
    case 2
    then have "psci_cpu_on_start e mpidr ep s = Stop Out_of_bounds s"
      using len hooks pk by (simp add: psci_cpu_on_start_def Let_def psci_spin_lock_cpu_def mbind_def prog_simps)
    then show ?thesis by (simp add: wp_def)
  next
    case 3
    show ?thesis
    proof (cases "aff_info_state (psci_svc_cpu_data s ! k) = AFF_STATE_OFF")
      case False
      then show ?thesis
        using cpu_on_start_busy [OF i(3) okD(2) [OF ok] 3(1)] 3 len ok by (simp add: wp_def)
    next
      case True
      have down: "ph k = Down" and me: "cpu_ok e s k (ph k)"
        using i(4) [OF 3(2)] True by (cases "ph k"; simp add: cpu_ok_def Let_def)+
      have k: "k < length (psci_cpu_pd_nodes s)" "k < length (psci_svc_cpu_data s)" "k < length (psci_ns_context s)"
        using 3 len by simp_all
      show ?thesis
      proof (rule cpu_on_start_run [OF i(3) okD(2) [OF ok] 3(1) k True])
        fix w
        let ?t = "s\<lparr>psci_svc_cpu_data := svc_upd k (\<lambda>d. d\<lparr>aff_info_state := AFF_STATE_ON_PENDING\<rparr>) (psci_svc_cpu_data s),
         psci_ns_context := (psci_ns_context s)[k := Some ep], world := w\<rparr>"
        assume run: "psci_cpu_on_start e mpidr ep s = Ret PSCI_E_SUCCESS ?t" and w: "wok (sp_of s ph) w"
        have eff: "pd_effect s ?t (psci_non_cpu_pd_nodes s) (psci_req_local_pwr_states s)
          (svc_upd k (\<lambda>d. d\<lparr>aff_info_state := AFF_STATE_ON_PENDING\<rparr>) (psci_svc_cpu_data s))" by (simp add: pd_effect_def)
        have "cpu_ok e ?t k Down"
          using me True k by (simp add: down cpu_ok_def Let_def svc_upd_nth)
        from psci_inv_svc [OF okD(1) [OF ok] 3(2) eff this] have "ok e ?t (ph(k := Down))"
          by (rule ok_effect [OF ok _ 3(2) eff]) (use w down True sp_of_core [OF okD(1) [OF ok] 3(2)] in \<open>simp add: fun_upd_idem\<close>)
        then show ?thesis using run down by (simp add: wp_def fun_upd_idem)
      next
        fix w assume "psci_cpu_on_start e mpidr ep s = Ret PSCI_E_INTERN_FAIL (s\<lparr>world := w\<rparr>)" "wok (sp_of s ph) w"
        then show ?thesis using ok ok_world by (simp add: wp_def)
      qed
    qed
  qed
qed

section \<open>Calls that only reach the world\<close>

definition keeps :: "'w cpu_env \<Rightarrow> ('w psci_state, 'b) prog \<Rightarrow> bool" where
  "keeps e m \<longleftrightarrow> (\<forall>s ph. ok e s ph \<longrightarrow> wp m (\<lambda>_ t. ok e t ph) (\<lambda>r _. r \<noteq> Powered_down) s)"

lemma keepsD: "keeps e m \<Longrightarrow> ok e s ph \<Longrightarrow> wp m (\<lambda>_ t. ok e t ph) (\<lambda>r _. r \<noteq> Powered_down) s"
  by (simp add: keeps_def)

lemma keeps_mret: "keeps e (mret v)"
  by (simp add: keeps_def wp_simps)

lemma keeps_mstop: "r \<noteq> Powered_down \<Longrightarrow> keeps e (mstop r)"
  by (simp add: keeps_def wp_simps)

lemma keeps_mbind:
  assumes "keeps e m" "\<And>v. keeps e (k v)"
  shows "keeps e (mbind m k)"
  unfolding keeps_def
proof (intro allI impI)
  fix s ph assume "ok e s ph"
  with assms(1) have "wp m (\<lambda>_ t. ok e t ph) (\<lambda>r _. r \<noteq> Powered_down) s" by (rule keepsD)
  then show "wp (mbind m k) (\<lambda>_ t. ok e t ph) (\<lambda>r _. r \<noteq> Powered_down) s"
    unfolding wp_mbind by (rule wp_mono) (use assms(2) keepsD in blast)+
qed

lemma keeps_mget: "keeps e (mget f)"
  by (simp add: keeps_def wp_simps)

lemma keeps_c_assert: "keeps e (c_assert e b)"
  by (simp add: keeps_def wp_simps)

lemma keeps_emit: "keeps e (emit ev)"
  by (simp add: keeps_def wp_simps ok_log)

lemma keeps_array_get: "keeps e (array_get xs i)"
  by (simp add: keeps_def wp_simps)

lemma keeps_if: "(b \<Longrightarrow> keeps e m) \<Longrightarrow> (\<not> b \<Longrightarrow> keeps e m') \<Longrightarrow> keeps e (if b then m else m')"
  by simp

lemma keeps_ops: "keeps e (k ops) \<Longrightarrow> keeps e (mbind (mget psci_plat_pm_ops) k)"
  using plat_okD(1) [OF okD(2)] by (auto simp: keeps_def wp_simps)

lemma keeps_spd: "keeps e (k (spd_sel spd sel)) \<Longrightarrow> keeps e (mbind (mget (spd_hook sel)) k)"
  using plat_okD(2) [OF okD(2)] by (auto simp: keeps_def wp_simps spd_hook_sel)

lemmas keeps_intros = keeps_mret keeps_mstop keeps_ops keeps_spd keeps_mbind keeps_mget keeps_c_assert
  keeps_emit keeps_array_get keeps_if

end

end
