(* ===== verification/Psci_Frontend.thy ===== *)
theory Psci_Frontend
  imports Psci_System
begin

text \<open>
  The contract for the hooks behind the remaining PSCI calls, and the invariant lifted to
  \<^verbatim>\<open>psci_smc_handler\<close>. A core that waits in standby in the middle of a call lets the other cores
  run: their effect is the function \<open>wfi_others\<close>, which relies on keeping the invariant and the
  phase of the waiting core (\<open>rely\<close>).
\<close>

section \<open>The port of a core\<close>

text \<open>All cores run on one port: what only depends on the port is the same for each of them.\<close>

definition on_port :: "plat_port \<Rightarrow> 'a plat_port_scheme \<Rightarrow> bool" where
  "on_port p e \<longleftrightarrow> plat_port.truncate e = p"

lemma on_port_fields:
  assumes "on_port p e"
  shows "PLATFORM_CORE_COUNT p = PLATFORM_CORE_COUNT e" "PLAT_MAX_PWR_LVL p = PLAT_MAX_PWR_LVL e"
    "PLAT_MAX_RET_STATE p = PLAT_MAX_RET_STATE e" "PLAT_MAX_OFF_STATE p = PLAT_MAX_OFF_STATE e"
  using assms by (auto simp: on_port_def plat_port.truncate_def)

lemma on_port_regs: "on_port p (regs e) \<longleftrightarrow> on_port p e"
  by (simp add: on_port_def plat_port.truncate_def cpu_regs.truncate_def)

lemma on_port_eqs:
  assumes "on_port p e"
  shows "is_local_state_off p st = is_local_state_off e st"
    "psci_find_target_suspend_lvl p si = psci_find_target_suspend_lvl e si"
  by (simp_all only: is_local_state_off_def psci_find_target_suspend_lvl_def on_port_fields [OF assms])

lemma psci_inv_port:
  assumes "on_port p e"
  shows "psci_inv p s ph = psci_inv e s ph"
proof -
  note f = on_port_fields [OF assms]
  have "wf_tree p s = wf_tree e s" by (simp add: wf_tree_def wf_path_def f)
  moreover have "dom_ok p s = dom_ok e s" by (simp add: dom_ok_def f)
  moreover have "cpu_ok p s c q = cpu_ok e s c q" for c q
    by (cases q) (simp_all add: cpu_ok_def Let_def f is_local_state_off_def)
  ultimately show ?thesis by (simp add: psci_inv_def f)
qed

lemma target_suspend_lvl_le:
  "psci_find_target_suspend_lvl e si \<noteq> PSCI_INVALID_PWR_LVL e \<Longrightarrow>
     psci_find_target_suspend_lvl e si \<le> PLAT_MAX_PWR_LVL e"
  unfolding psci_find_target_suspend_lvl_def
  by (auto split: option.splits simp: find_Some_iff simp del: upt_Suc) (metis le_simps(2) length_rev length_upt minus_nat.diff_0 nth_mem set_rev atLeastLessThan_iff set_upt)

section \<open>The contract of the other hooks\<close>

text \<open>A hook that may stop the system but never powers the core down behind the library's back.\<close>

definition hook_keeps :: "('w \<Rightarrow> bool) \<Rightarrow> ('w, 'a) prog \<Rightarrow> bool" where
  "hook_keeps wok m \<longleftrightarrow> (\<forall>w. wok w \<longrightarrow> wp m (\<lambda>_. wok) (\<lambda>r _. r \<noteq> Powered_down) w)"

lemma hook_ok_keeps: "hook_ok wok m P \<Longrightarrow> hook_keeps wok m"
  by (auto simp: hook_ok_def hook_keeps_def wp_def split: outcome.splits)

text \<open>
  The states \<^verbatim>\<open>validate_power_state\<close> may accept: as many as there are levels, and a core that is off
  when the call is a power down request that reaches some level.
\<close>

definition accepted_req :: "plat_port \<Rightarrow> u32 \<Rightarrow> int \<Rightarrow> psci_power_state_t \<Rightarrow> bool" where
  "accepted_req p power_state rc si \<longleftrightarrow>
     length si = Suc (PLAT_MAX_PWR_LVL p) \<and>
     (rc = PSCI_E_SUCCESS \<and> psci_get_pstate_type power_state \<noteq> 0 \<and>
      psci_find_target_suspend_lvl p si \<noteq> PSCI_INVALID_PWR_LVL p \<longrightarrow> is_local_state_off p (si ! 0))"

locale psci_frontend = psci_platform ops spd wok
  for ops :: "'w plat_psci_ops_t" and spd :: "'w spd_pm_ops_t option" and wok :: "sp_states \<Rightarrow> 'w \<Rightarrow> bool" +
  fixes p :: plat_port
  assumes entry_hook: "validate_ns_entrypoint ops = Some h1 \<Longrightarrow> hook_ok (wok \<sigma>) (h1 r x) (\<lambda>_. True)"
    and validate_hook: "validate_power_state ops = Some h2 \<Longrightarrow> on_port p r \<Longrightarrow>
      hook_ok (wok \<sigma>) (h2 r ps (all_run p)) (\<lambda>(rc, si). accepted_req p ps rc si)"
    and sys_suspend_hook: "get_sys_suspend_power_state ops = Some h3 \<Longrightarrow> on_port p r \<Longrightarrow>
      length si = Suc (PLAT_MAX_PWR_LVL p) \<Longrightarrow>
      hook_ok (wok \<sigma>) (h3 r si) (\<lambda>si'. length si' = Suc (PLAT_MAX_PWR_LVL p) \<and> is_local_state_off p (si' ! 0))"
    and standby_hook: "cpu_standby ops = Some h4 \<Longrightarrow> hook_ok (wok \<sigma>) (h4 r st) (\<lambda>_. True)"
    and system_off_keeps: "system_off ops = Some h5 \<Longrightarrow> hook_keeps (wok \<sigma>) (h5 r)"
    and system_reset_keeps: "system_reset ops = Some h5 \<Longrightarrow> hook_keeps (wok \<sigma>) (h5 r)"
    and reset2_keeps: "system_reset2 ops = Some h6 \<Longrightarrow> hook_keeps (wok \<sigma>) (h6 r a b x)"
    and hw_state_keeps: "get_node_hw_state ops = Some h7 \<Longrightarrow> hook_keeps (wok \<sigma>) (h7 r x lvl)"
    and chk_keeps: "mem_protect_chk ops = Some h8 \<Longrightarrow> hook_keeps (wok \<sigma>) (h8 r x y)"
    and read_mem_keeps: "read_mem_protect ops = Some h9 \<Longrightarrow> hook_keeps (wok \<sigma>) (h9 r)"
    and write_mem_keeps: "write_mem_protect ops = Some h10 \<Longrightarrow> hook_keeps (wok \<sigma>) (h10 r a)"
    and migrate_keeps: "spd_sel spd svc_migrate = Some h11 \<Longrightarrow> hook_keeps (wok \<sigma>) (h11 r x y)"
    and migrate_info_keeps: "spd_sel spd svc_migrate_info = Some h12 \<Longrightarrow> hook_keeps (wok \<sigma>) (h12 r)"
    and svc_off_keeps: "spd_sel spd svc_system_off = Some h13 \<Longrightarrow> hook_keeps (wok \<sigma>) (h13 r)"
    and svc_reset_keeps: "spd_sel spd svc_system_reset = Some h13 \<Longrightarrow> hook_keeps (wok \<sigma>) (h13 r)"
begin

lemma keeps_lift_world:
  assumes "\<And>\<sigma>. hook_keeps (wok \<sigma>) m"
  shows "keeps e (lift_world m)"
  unfolding keeps_def
proof (intro allI impI)
  fix s ph assume ok: "ok e s ph"
  then have "wp m (\<lambda>_. wok (sp_of s ph)) (\<lambda>r _. r \<noteq> Powered_down) (world s)"
    using assms plat_okD(3) [OF okD(2)] by (auto simp: hook_keeps_def)
  then show "wp (lift_world m) (\<lambda>_ t. ok e t ph) (\<lambda>r _. r \<noteq> Powered_down) s"
    unfolding wp_lift_world by (rule wp_mono) (use ok ok_world in auto)
qed

lemma keeps_call_hook: "(\<And>f \<sigma>. h = Some f \<Longrightarrow> hook_keeps (wok \<sigma>) (args f)) \<Longrightarrow> keeps e (call_hook h args)"
  by (cases h) (auto simp: call_hook_def intro: keeps_mstop keeps_lift_world)

lemma keeps_call_if_set: "(\<And>f \<sigma>. h = Some f \<Longrightarrow> hook_keeps (wok \<sigma>) (args f)) \<Longrightarrow> keeps e (call_if_set h args)"
  by (cases h) (auto simp: call_if_set_def intro: keeps_mret keeps_lift_world)

lemma keeps_option: "keeps e m \<Longrightarrow> (\<And>x. h = Some x \<Longrightarrow> keeps e (f x)) \<Longrightarrow> keeps e (case h of None \<Rightarrow> m | Some x \<Rightarrow> f x)"
  by (cases h) simp_all

lemma keeps_prod: "(\<And>a b. keeps e (f a b)) \<Longrightarrow> keeps e (case x of (a, b) \<Rightarrow> f a b)"
  by (cases x) simp

lemma keeps_aff_by_idx: "keeps e (psci_get_aff_info_state_by_idx i)"
  unfolding psci_get_aff_info_state_by_idx_def by (intro keeps_intros)

lemma keeps_last_on_cpu: "keeps e (psci_is_last_on_cpu e)"
proof -
  have "keeps e (last_on_cpu_loop e xs)" for xs
    by (induction xs) (auto simp: psci_get_aff_info_state_def intro!: keeps_intros keeps_aff_by_idx)
  then show ?thesis by (simp add: psci_is_last_on_cpu_def)
qed

lemma keeps_entry_point: "keeps e (psci_validate_entry_point e x y)"
proof -
  have "hook_keeps (wok \<sigma>) (f r a)" if "validate_ns_entrypoint ops = Some f" for f r a \<sigma>
    using entry_hook [OF that] by (rule hook_ok_keeps)
  then show ?thesis
    unfolding psci_validate_entry_point_def by (intro keeps_intros keeps_option keeps_lift_world) auto
qed

lemma keeps_cpu_on: "keeps e (psci_cpu_on e mpidr x y)"
proof -
  have "keeps e (psci_cpu_on_start e mpidr ep)" for ep using wp_cpu_on_start by (simp add: keeps_def)
  then show ?thesis
    unfolding psci_cpu_on_def by (auto intro!: keeps_intros keeps_entry_point split: sum.split)
qed

lemma keeps_migrate_info: "keeps e (psci_spd_migrate_info e m)"
  unfolding psci_spd_migrate_info_def
  by (intro keeps_intros keeps_option keeps_lift_world keeps_prod)
    (auto split: option.splits intro: migrate_info_keeps)

lemma keeps_migrate: "keeps e (psci_migrate e mpidr)"
  unfolding psci_migrate_def
  by (intro keeps_intros keeps_migrate_info keeps_prod keeps_call_hook)
    (auto split: option.splits intro: migrate_keeps)

lemma keeps_node_hw_state: "keeps e (psci_node_hw_state e mpidr l)"
  unfolding psci_node_hw_state_def
  by (intro keeps_intros keeps_call_hook) (auto intro: hw_state_keeps)

lemma keeps_features: "keeps e (psci_features fid)"
  unfolding psci_features_def Let_def by (intro keeps_intros)

lemma keeps_affinity_info: "keeps e (psci_affinity_info e a l)"
  unfolding psci_affinity_info_def Let_def by (intro keeps_intros keeps_aff_by_idx) auto

lemma keeps_system_off: "keeps e (psci_system_off e)"
  unfolding psci_system_off_def
  by (intro keeps_intros keeps_call_hook keeps_call_if_set)
    (auto split: option.splits intro: system_off_keeps svc_off_keeps)

lemma keeps_system_reset: "keeps e (psci_system_reset e)"
  unfolding psci_system_reset_def
  by (intro keeps_intros keeps_call_hook keeps_call_if_set)
    (auto split: option.splits intro: system_reset_keeps svc_reset_keeps)

lemma keeps_system_reset2: "keeps e (psci_system_reset2 e a x)"
  unfolding psci_system_reset2_def Let_def
  by (intro keeps_intros keeps_option keeps_call_hook keeps_call_if_set keeps_lift_world)
    (auto split: option.splits intro: reset2_keeps svc_reset_keeps write_mem_keeps)

lemma keeps_mem_protect: "keeps e (psci_mem_protect e a)"
  unfolding psci_mem_protect_def
  by (intro keeps_intros keeps_call_hook keeps_prod) (auto intro: read_mem_keeps write_mem_keeps)

lemma keeps_mem_chk_range: "keeps e (psci_mem_chk_range e x y)"
  unfolding psci_mem_chk_range_def
  by (intro keeps_intros keeps_call_hook) (auto intro: chk_keeps)

lemma keeps_ret_int: "keeps e m \<Longrightarrow> keeps e (ret_int m)"
  unfolding ret_int_def by (intro keeps_intros)

section \<open>Calls that suspend or turn off the calling core\<close>

text \<open>
  \<open>rely R e\<close>: while the executing core waits in standby, the others keep the invariant and the
  phase of this core; \<open>R\<close> relates the phases before and after. \<open>resumed R e ph t\<close>: the call returned,
  with the phases as they were or as the others left them, and the core running.
\<close>

definition rely :: "((nat \<Rightarrow> cpu_phase) \<Rightarrow> (nat \<Rightarrow> cpu_phase) \<Rightarrow> bool) \<Rightarrow> 'w cpu_env \<Rightarrow> bool" where
  "rely R e \<longleftrightarrow>
     (\<forall>t ph n. ok e t ph \<longrightarrow> ph (plat_my_core_pos e) = Standby n \<longrightarrow>
        (\<exists>ph'. R ph ph' \<and> ph' (plat_my_core_pos e) = Standby n \<and> ok e (wfi_others e t) ph'))"

definition resumed ::
  "((nat \<Rightarrow> cpu_phase) \<Rightarrow> (nat \<Rightarrow> cpu_phase) \<Rightarrow> bool) \<Rightarrow> 'w cpu_env \<Rightarrow> (nat \<Rightarrow> cpu_phase) \<Rightarrow> 'w psci_state \<Rightarrow> bool" where
  "resumed R e ph t \<longleftrightarrow>
     ok e t ph \<or> (\<exists>n ph'. R (ph(plat_my_core_pos e := Standby n)) ph' \<and> ok e t (ph'(plat_my_core_pos e := Running)))"

lemma wp_suspend_start:
  assumes ok: "ok e s ph" and e: "env_ok e" and r: "rely R e" and c: "ph (plat_my_core_pos e) = Running"
    and n: "n \<le> PLAT_MAX_PWR_LVL e" and si: "length si = Suc (PLAT_MAX_PWR_LVL e)"
    and off: "pd \<noteq> 0 \<Longrightarrow> is_local_state_off e (si ! 0)"
  shows "wp (psci_cpu_suspend_start e ep n si pd) (\<lambda>_ t. resumed R e ph t)
    (\<lambda>r t. r = Powered_down \<and> ok e t (ph(plat_my_core_pos e := Down))) s"
  unfolding psci_cpu_suspend_start_def wp_mbind
proof (rule wp_mono [OF wp_suspend_locked [OF ok e refl c n si off]])
  fix r' :: "psci_power_state_t option" and t
  let ?c = "plat_my_core_pos e"
  assume q: "case r' of None \<Rightarrow> t = s | Some _ \<Rightarrow> ok e t (ph(?c := if pd = 0 then Standby n else Down))"
  show "wp (case r' of None \<Rightarrow> mret () | Some state_info \<Rightarrow>
         if pd \<noteq> 0 then final_wfi e state_info
         else mbind (emit Ev_wfi) (\<lambda>_. mbind (mmodify (wfi_others e)) (\<lambda>_.
           psci_suspend_to_standby_finisher e ?c n))) (\<lambda>_ t. resumed R e ph t)
        (\<lambda>r t. r = Powered_down \<and> ok e t (ph(?c := Down))) t"
  proof (cases r')
    case None
    then show ?thesis using q ok by (simp add: wp_simps resumed_def)
  next
    case (Some si')
    show ?thesis
    proof (cases "pd = 0")
      case False
      then have t: "ok e t (ph(?c := Down))" using q Some by simp
      obtain w log where "(final_wfi e si' :: ('w psci_state, unit) prog) t = Stop Powered_down (t\<lparr>world := w, arch_log := log\<rparr>)" "wok (sp_of t (ph(?c := Down))) w"
        using final_wfi_run [OF plat_okD(1,3) [OF okD(2) [OF t]], of e si'] by metis
      then show ?thesis using Some False ok_log [OF ok_world [OF t]] by (simp add: wp_def)
    next
      case True
      then have t: "ok e (t\<lparr>arch_log := arch_log t @ [Ev_wfi]\<rparr>) (ph(?c := Standby n))"
        using q Some ok_log by simp
      with r obtain ph' where ph': "R (ph(?c := Standby n)) ph'" "ph' ?c = Standby n"
        "ok e (wfi_others e (t\<lparr>arch_log := arch_log t @ [Ev_wfi]\<rparr>)) ph'"
        unfolding rely_def by (metis fun_upd_same)
      from wp_standby_finisher [OF ph'(3) e refl ph'(2)] ph'(1) show ?thesis
        unfolding Some option.case using True
        by (simp add: wp_mbind wp_emit wp_mmodify) (erule wp_mono, auto simp: resumed_def)
    qed
  qed
qed simp_all

text \<open>Changing the local state of the executing core between RUN and a standby state.\<close>

lemma ok_set_local:
  assumes ok: "ok e s ph" and e: "env_ok e" and c: "c = plat_my_core_pos e"
    and me: "ph c = Running \<and> phc = Standby 0 \<or> ph c = Standby 0 \<and> phc = Running \<and> st = PSCI_LOCAL_STATE_RUN"
  shows "wp (psci_set_cpu_local_state e st) (\<lambda>_ t. ok e t (ph(c := phc))) (\<lambda>_ _. False) s"
proof -
  note i = psci_invD [OF okD(1) [OF ok]]
  have cN: "c < PLATFORM_CORE_COUNT e" using e c by (simp add: env_ok_def)
  let ?t = "s\<lparr>psci_svc_cpu_data := svc_upd c (\<lambda>d. d\<lparr>cpu_local_state := st\<rparr>) (psci_svc_cpu_data s)\<rparr>"
  have run: "psci_set_cpu_local_state e st s = Ret () ?t"
    using cN c wf_lengths(2) [OF i(1)] by (simp add: prog_simps svc_upd_def)
  have eff: "pd_effect s ?t (psci_non_cpu_pd_nodes s) (psci_req_local_pwr_states s)
      (svc_upd c (\<lambda>d. d\<lparr>cpu_local_state := st\<rparr>) (psci_svc_cpu_data s))" by (simp add: pd_effect_def)
  have "cpu_ok e ?t c phc"
    using i(4) [OF cN] me cN wf_lengths(2) [OF i(1)] by (auto simp: cpu_ok_def Let_def svc_upd_nth)
  then have "psci_inv e ?t (ph(c := phc))" by (rule psci_inv_svc [OF okD(1) [OF ok] cN eff])
  moreover have "(sp_of s ph)(c := SP_ON) = sp_of s ph"
    using me sp_of_core [OF okD(1) [OF ok] cN] by (auto simp: fun_eq_iff)
  ultimately have "ok e ?t (ph(c := phc))"
    using me plat_okD(3) [OF okD(2) [OF ok]] by (intro ok_effect [OF ok _ cN eff]) auto
  then show ?thesis using run by (simp add: wp_def)
qed

lemma wp_cpu_standby_path:
  assumes ok: "ok e s ph" and e: "env_ok e" and r: "rely R e" and c: "ph (plat_my_core_pos e) = Running"
    and si: "si \<noteq> []"
  shows "wp (cpu_standby_path e si) (\<lambda>_ t. resumed R e ph t) (\<lambda>_ _. False) s"
proof (cases "cpu_standby ops")
  case None
  then show ?thesis
    using ok plat_okD(1) [OF okD(2) [OF ok]] by (simp add: cpu_standby_path_def wp_simps resumed_def)
next
  case (Some f)
  let ?c = "plat_my_core_pos e"
  have stat: "\<not> ENABLE_PSCI_STAT e" using e by (simp add: env_ok_def)
  from ok_set_local [OF ok e refl, of "Standby 0" "si ! 0"] c obtain t1
    where t1: "psci_set_cpu_local_state e (si ! 0) s = Ret () t1" "ok e t1 (ph(?c := Standby 0))"
    by (auto simp: wp_def split: outcome.splits)
  from standby_hook [OF Some] plat_okD(3) [OF okD(2) [OF t1(2)]] obtain v w
    where hk: "lift_world (f (regs e) (si ! 0)) t1 = Ret v (t1\<lparr>world := w\<rparr>)" "wok (sp_of t1 (ph(?c := Standby 0))) w" by (rule hook_okD)
  from r ok_world [OF t1(2) hk(2)] obtain ph' where ph': "R (ph(?c := Standby 0)) ph'" "ph' ?c = Standby 0"
    "ok e (wfi_others e (t1\<lparr>world := w\<rparr>)) ph'" unfolding rely_def by (metis fun_upd_same)
  from ok_set_local [OF ph'(3) e refl, of Running PSCI_LOCAL_STATE_RUN] ph'(2) obtain t2
    where t2: "psci_set_cpu_local_state e PSCI_LOCAL_STATE_RUN (wfi_others e (t1\<lparr>world := w\<rparr>)) = Ret () t2"
      "ok e t2 (ph'(?c := Running))" by (auto simp: wp_def split: outcome.splits)
  have "cpu_standby_path e si s = Ret PSCI_E_SUCCESS t2"
    using Some stat t1(1) hk(1) t2(1) plat_okD(1) [OF okD(2) [OF ok]] si
    by (simp add: cpu_standby_path_def mbind_def call_hook_def prog_simps)
  then show ?thesis using t2(2) ph'(1) by (auto simp: wp_def resumed_def)
qed

lemma wp_validate_power_state:
  assumes ok: "ok e s ph" and port: "on_port p e"
    and q: "\<And>rc si t. ok e t ph \<Longrightarrow> accepted_req p ps rc si \<or> rc = PSCI_E_INVALID_PARAMS \<Longrightarrow> Q (rc, si) t"
    and s: "\<And>r t. r \<noteq> Powered_down \<Longrightarrow> E r t"
  shows "wp (psci_validate_power_state e ps (all_run e)) Q E s"
proof (cases "psci_check_power_state ps = 0")
  case False
  then show ?thesis using q [OF ok, of PSCI_E_INVALID_PARAMS] by (simp add: psci_validate_power_state_def wp_simps)
next
  case True
  note pk = plat_okD [OF okD(2) [OF ok]]
  show ?thesis
  proof (cases "validate_power_state ops")
    case None
    then show ?thesis
      using True pk s by (simp add: psci_validate_power_state_def wp_simps)
  next
    case (Some f)
    have "all_run p = all_run e" using on_port_fields [OF port] by simp
    with validate_hook [OF Some, of "regs e"] port
    have "hook_ok (wok (sp_of s ph)) (f (regs e) ps (all_run e)) (\<lambda>(rc, si). accepted_req p ps rc si)"
      by (simp only: on_port_regs)
    from this pk(3) obtain v w where
      "lift_world (f (regs e) ps (all_run e)) s = Ret v (s\<lparr>world := w\<rparr>)" "wok (sp_of s ph) w" "case v of (rc, si) \<Rightarrow> accepted_req p ps rc si"
      by (rule hook_okD)
    then show ?thesis
      using True Some pk q [OF ok_world [OF ok]]
      by (cases v) (simp add: psci_validate_power_state_def wp_def mbind_def call_hook_def prog_simps del: replicate_Suc)
  qed
qed

text \<open>What a call leaves: \<open>resumed\<close> when it returns, the core without power when it does not.\<close>

abbreviation called :: "((nat \<Rightarrow> cpu_phase) \<Rightarrow> (nat \<Rightarrow> cpu_phase) \<Rightarrow> bool) \<Rightarrow> 'w cpu_env \<Rightarrow> (nat \<Rightarrow> cpu_phase) \<Rightarrow>
    ('w psci_state, 'b) prog \<Rightarrow> 'w psci_state \<Rightarrow> bool" where
  "called R e ph m s \<equiv> wp m (\<lambda>_ t. resumed R e ph t)
     (\<lambda>r t. r = Powered_down \<longrightarrow> ok e t (ph(plat_my_core_pos e := Down))) s"

lemma called_keeps: "keeps e m \<Longrightarrow> ok e s ph \<Longrightarrow> called R e ph m s"
  by (drule (1) keepsD, erule wp_mono) (auto simp: resumed_def)

lemma called_bind_ret: "called R e ph m s \<Longrightarrow> called R e ph (mbind m (\<lambda>v. mret (g v))) s"
  unfolding wp_mbind wp_mret .

lemma called_suspend_start:
  assumes "ok e s ph" "env_ok e" "rely R e" "ph (plat_my_core_pos e) = Running"
    "n \<le> PLAT_MAX_PWR_LVL e" "length si = Suc (PLAT_MAX_PWR_LVL e)" "pd \<noteq> 0 \<Longrightarrow> is_local_state_off e (si ! 0)"
  shows "called R e ph (psci_cpu_suspend_start e ep n si pd) s"
  using wp_suspend_start [OF assms] by (rule wp_mono) simp_all

lemma called_entry_point:
  assumes ok: "ok e s ph" and k: "\<And>ep t. ok e t ph \<Longrightarrow> called R e ph (k ep) t"
  shows "called R e ph (mbind (psci_validate_entry_point e x y) (\<lambda>r. case r of Inl rc \<Rightarrow> mret (g rc) | Inr ep \<Rightarrow> k ep)) s"
  unfolding wp_mbind
proof (rule wp_mono [OF keepsD [OF keeps_entry_point ok]])
  fix v t assume "ok e t ph"
  then show "called R e ph (case v of Inl rc \<Rightarrow> mret (g rc) | Inr ep \<Rightarrow> k ep) t"
    using k by (cases v) (simp_all add: wp_mret resumed_def)
qed simp

lemma called_cpu_suspend:
  assumes ok: "ok e s ph" and e: "env_ok e" and r: "rely R e" and port: "on_port p e"
    and c: "ph (plat_my_core_pos e) = Running"
  shows "called R e ph (psci_cpu_suspend e ps x y) s"
  unfolding psci_cpu_suspend_def wp_mbind add.commute [of _ 1] plus_1_eq_Suc
proof (rule wp_validate_power_state [OF ok port])
  fix rc si t
  assume t: "ok e t ph" and acc: "accepted_req p ps rc si \<or> rc = PSCI_E_INVALID_PARAMS"
  let ?pd = "psci_get_pstate_type ps" and ?lvl = "psci_find_target_suspend_lvl e si"
  show "called R e ph (case (rc, si) of (rc, state_info) \<Rightarrow>
     if rc \<noteq> PSCI_E_SUCCESS then mbind (c_assert e (rc = PSCI_E_INVALID_PARAMS)) (\<lambda>_. mret rc)
     else
       let is_power_down_state = psci_get_pstate_type ps;
           target_pwrlvl = psci_find_target_suspend_lvl e state_info
       in mbind (c_assert e (psci_validate_suspend_req e state_info is_power_down_state = PSCI_E_SUCCESS)) (\<lambda>_.
          if target_pwrlvl = Suc (PLAT_MAX_PWR_LVL e) then mstop Panicked
          else if is_cpu_standby_req is_power_down_state target_pwrlvl then cpu_standby_path e state_info
          else if is_power_down_state \<noteq> 0 then
            mbind (psci_validate_entry_point e x y) (\<lambda>r.
            case r of
              Inl rc \<Rightarrow> mret rc
            | Inr ep \<Rightarrow>
                mbind (psci_cpu_suspend_start e ep target_pwrlvl state_info is_power_down_state) (\<lambda>_.
                mret PSCI_E_SUCCESS))
          else
            mbind (psci_cpu_suspend_start e uninit_ep target_pwrlvl state_info is_power_down_state) (\<lambda>_.
            mret PSCI_E_SUCCESS))) t"
  proof (cases "rc = PSCI_E_SUCCESS")
    case False
    then show ?thesis using t by (simp add: wp_simps resumed_def)
  next
    case True
    then have len: "length si = Suc (PLAT_MAX_PWR_LVL e)"
      and off: "?pd \<noteq> 0 \<Longrightarrow> ?lvl \<noteq> PSCI_INVALID_PWR_LVL e \<Longrightarrow> is_local_state_off e (si ! 0)"
      using acc on_port_fields [OF port] on_port_eqs [OF port] by (simp_all add: accepted_req_def)
    have start: "called R e ph (mbind (psci_cpu_suspend_start e ep ?lvl si ?pd) (\<lambda>_. mret PSCI_E_SUCCESS)) u"
      if "ok e u ph" "?lvl \<noteq> PSCI_INVALID_PWR_LVL e" for ep u
      by (rule called_bind_ret, rule called_suspend_start [OF that(1) e r c])
        (use target_suspend_lvl_le [OF that(2)] that(2) off len in simp_all)
    have "called R e ph (cpu_standby_path e si) t"
      by (rule wp_mono [OF wp_cpu_standby_path [OF t e r c]]) (use len in auto)
    then show ?thesis
      using True t start called_entry_point [where g = id, OF t start]
      by (auto simp: Let_def wp_mbind [of "c_assert e b" for b] wp_c_assert wp_mstop)
  qed
qed simp

lemma called_system_suspend:
  assumes ok: "ok e s ph" and e: "env_ok e" and r: "rely R e" and port: "on_port p e"
    and c: "ph (plat_my_core_pos e) = Running"
  shows "called R e ph (psci_system_suspend e x y) s"
proof -
  have go: "called R e ph
      (mbind (psci_query_sys_suspend_pwrstate e (uninit_power_state e)) (\<lambda>state_info.
       mbind (c_assert e (psci_find_target_suspend_lvl e state_info = PLAT_MAX_PWR_LVL e)) (\<lambda>_.
       mbind (c_assert e (psci_validate_suspend_req e state_info PSTATE_TYPE_POWERDOWN = PSCI_E_SUCCESS)) (\<lambda>_.
       mbind (c_assert e (is_local_state_off e (state_info ! PLAT_MAX_PWR_LVL e))) (\<lambda>_.
       mbind (psci_cpu_suspend_start e ep (PLAT_MAX_PWR_LVL e) state_info PSTATE_TYPE_POWERDOWN) (\<lambda>_.
       mret PSCI_E_SUCCESS)))))) t" (is "called R e ph ?m t") if t: "ok e t ph" for ep t
  proof (cases "get_sys_suspend_power_state ops")
    case None
    then show ?thesis
      using plat_okD(1) [OF okD(2) [OF t]] by (simp add: psci_query_sys_suspend_pwrstate_def wp_simps)
  next
    case (Some f)
    have len: "length (uninit_power_state e) = Suc (PLAT_MAX_PWR_LVL p)"
      using e on_port_fields [OF port] by (simp add: env_ok_def)
    have "on_port p (regs e)" using port by (simp only: on_port_regs)
    from sys_suspend_hook [OF Some this len] plat_okD(3) [OF okD(2) [OF t]] obtain si w where
      hk: "lift_world (f (regs e) (uninit_power_state e)) t = Ret si (t\<lparr>world := w\<rparr>)" "wok (sp_of t ph) w"
        "length si = Suc (PLAT_MAX_PWR_LVL p) \<and> is_local_state_off p (si ! 0)" by (rule hook_okD)
    have "called R e ph (mbind (psci_cpu_suspend_start e ep (PLAT_MAX_PWR_LVL e) si PSTATE_TYPE_POWERDOWN)
        (\<lambda>_. mret PSCI_E_SUCCESS)) (t\<lparr>world := w\<rparr>)"
      by (rule called_bind_ret, rule called_suspend_start [OF ok_world [OF t hk(2)] e r c])
        (use hk(3) on_port_fields [OF port] on_port_eqs [OF port] in simp_all)
    moreover have "psci_query_sys_suspend_pwrstate e (uninit_power_state e) t = Ret si (t\<lparr>world := w\<rparr>)"
      using Some hk(1) plat_okD(1) [OF okD(2) [OF t]]
      by (simp add: psci_query_sys_suspend_pwrstate_def mbind_def call_hook_def prog_simps)
    ultimately show ?thesis
      by (simp add: wp_mbind [of "psci_query_sys_suspend_pwrstate e (uninit_power_state e)"]
          wp_run [of "psci_query_sys_suspend_pwrstate e (uninit_power_state e)"]
          wp_mbind [of "c_assert e b" for b] wp_c_assert)
  qed
  show ?thesis
    unfolding psci_system_suspend_def wp_mbind [of "psci_is_last_on_cpu e"]
  proof (rule wp_mono [OF keepsD [OF keeps_last_on_cpu ok]])
    fix last_on t assume t: "ok e t ph"
    show "called R e ph (if \<not> last_on then mret PSCI_E_DENIED
     else mbind (psci_validate_entry_point e x y) (\<lambda>r. case r of Inl rc \<Rightarrow> mret rc | Inr ep \<Rightarrow>
           mbind (psci_query_sys_suspend_pwrstate e (uninit_power_state e)) (\<lambda>state_info.
           mbind (c_assert e (psci_find_target_suspend_lvl e state_info = PLAT_MAX_PWR_LVL e)) (\<lambda>_.
           mbind (c_assert e (psci_validate_suspend_req e state_info PSTATE_TYPE_POWERDOWN = PSCI_E_SUCCESS)) (\<lambda>_.
           mbind (c_assert e (is_local_state_off e (state_info ! PLAT_MAX_PWR_LVL e))) (\<lambda>_.
           mbind (psci_cpu_suspend_start e ep (PLAT_MAX_PWR_LVL e) state_info PSTATE_TYPE_POWERDOWN) (\<lambda>_.
           mret PSCI_E_SUCCESS))))))) t"
      using called_entry_point [where g = id, OF t go] t by (simp add: wp_mret resumed_def)
  qed simp
qed

lemma called_cpu_off:
  assumes ok: "ok e s ph" and e: "env_ok e" and c: "ph (plat_my_core_pos e) = Running"
  shows "called R e ph (psci_cpu_off e) s"
  unfolding psci_cpu_off_def wp_mbind
  by (rule wp_mono [OF wp_cpu_off [OF ok e c]]) (use c in \<open>auto simp: wp_simps resumed_def\<close>)

section \<open>The dispatcher\<close>

theorem smc_handler_keeps_inv:
  assumes ok: "ok e s ph" and e: "env_ok e" and r: "rely R e" and port: "on_port p e"
    and c: "ph (plat_my_core_pos e) = Running"
  shows "called R e ph (psci_smc_handler e fid x1 x2 x3 flags) s"
proof -
  have ret: "called R e ph m s \<Longrightarrow> called R e ph (ret_int m) s" for m
    unfolding ret_int_def by (rule called_bind_ret)
  have stat: "\<not> ENABLE_PSCI_STAT e" using e by (simp add: env_ok_def)
  have info: "keeps e (psci_migrate_info_up_cpu e)" "keeps e (psci_migrate_info_type e)"
    unfolding psci_migrate_info_up_cpu_def psci_migrate_info_type_def
    by (intro keeps_mbind keeps_migrate_info keeps_prod keeps_mret)+
  note simple = keeps_mret keeps_cpu_on keeps_affinity_info keeps_migrate info keeps_node_hw_state keeps_features
    keeps_system_off keeps_system_reset keeps_system_reset2 keeps_mem_protect keeps_mem_chk_range
  have branch: "called R e ph (if b then m else m') s"
    if "b \<Longrightarrow> called R e ph m s" "\<not> b \<Longrightarrow> called R e ph m' s" for b and m m' :: "('w psci_state, u64) prog"
    using that by simp
  note calls = branch ret called_cpu_off [OF ok e c] called_cpu_suspend [OF ok e r port c]
    called_system_suspend [OF ok e r port c] simple [THEN called_keeps, OF ok]
  have "called R e ph (psci_smc32 e fid x1 x2 x3) s"
    unfolding psci_smc32_def Let_def by (intro calls) (simp_all add: stat)
  moreover have "called R e ph (psci_smc64 e fid x1 x2 x3) s"
    unfolding psci_smc64_def by (intro calls) (simp_all add: stat)
  ultimately show ?thesis
    using ok by (simp add: psci_smc_handler_def wp_mbind wp_mget wp_mret resumed_def)
qed

end

end
