(* ===== verification/Psci_Steps.thy ===== *)
theory Psci_Steps
  imports Psci_Frontend
begin

text \<open>
  The cores as a transition system. A state pairs the data of the library with the phase of every
  core. A running core makes a PSCI call that returns or powers it down; a core may also enter a
  standby state in one step and leave it in a later one, so that the steps of the other cores come
  in between; a core without power whose affinity state is not OFF wakes up through the warm boot
  entry point. Every reachable state satisfies the invariant.
\<close>

definition on_core :: "plat_port \<Rightarrow> 'w cpu_env \<Rightarrow> nat \<Rightarrow> bool" where
  "on_core p e c \<longleftrightarrow> on_port p e \<and> env_ok e \<and> plat_my_core_pos e = c"

type_synonym 'w system = "'w psci_state \<times> (nat \<Rightarrow> cpu_phase)"

inductive psci_step :: "plat_port \<Rightarrow> 'w system \<Rightarrow> 'w system \<Rightarrow> bool" for p :: plat_port where
  smc_return:
    "on_core p e c \<Longrightarrow> wfi_others e = id \<Longrightarrow> ph c = Running \<Longrightarrow>
     psci_smc_handler e fid x1 x2 x3 flags s = Ret v s' \<Longrightarrow> psci_step p (s, ph) (s', ph)"
| smc_powerdown:
    "on_core p e c \<Longrightarrow> wfi_others e = id \<Longrightarrow> ph c = Running \<Longrightarrow>
     psci_smc_handler e fid x1 x2 x3 flags s = Stop Powered_down s' \<Longrightarrow> psci_step p (s, ph) (s', ph(c := Down))"
| standby_enter:
    "on_core p e c \<Longrightarrow> ph c = Running \<Longrightarrow>
     psci_validate_power_state e ps (all_run e) s = Ret (PSCI_E_SUCCESS, si) s0 \<Longrightarrow>
     psci_get_pstate_type ps = 0 \<Longrightarrow> psci_find_target_suspend_lvl e si = n \<Longrightarrow>
     n \<noteq> PSCI_INVALID_PWR_LVL e \<Longrightarrow> n \<noteq> 0 \<Longrightarrow>
     suspend_start_locked e uninit_ep n si 0 s0 = Ret (Some si') s' \<Longrightarrow> psci_step p (s, ph) (s', ph(c := Standby n))"
| standby_exit:
    "on_core p e c \<Longrightarrow> ph c = Standby n \<Longrightarrow> n \<noteq> 0 \<Longrightarrow>
     psci_suspend_to_standby_finisher e c n s = Ret () s' \<Longrightarrow> psci_step p (s, ph) (s', ph(c := Running))"
| cpu_standby_enter:
    "on_core p e c \<Longrightarrow> ph c = Running \<Longrightarrow> psci_set_cpu_local_state e st s = Ret () s0 \<Longrightarrow>
     call_hook (cpu_standby (psci_plat_pm_ops s)) (\<lambda>f. f (regs e) st) s0 = Ret () s' \<Longrightarrow>
     psci_step p (s, ph) (s', ph(c := Standby 0))"
| cpu_standby_exit:
    "on_core p e c \<Longrightarrow> ph c = Standby 0 \<Longrightarrow>
     psci_set_cpu_local_state e PSCI_LOCAL_STATE_RUN s = Ret () s' \<Longrightarrow> psci_step p (s, ph) (s', ph(c := Running))"
| warm_boot:
    "on_core p e c \<Longrightarrow> ph c = Down \<Longrightarrow> aff_info_state (psci_svc_cpu_data s ! c) \<noteq> AFF_STATE_OFF \<Longrightarrow>
     psci_warmboot_entrypoint e s = Ret () s' \<Longrightarrow> psci_step p (s, ph) (s', ph(c := Running))"

inductive_cases psci_stepE: "psci_step p (s, ph) (s', ph')"

inductive psci_reachable :: "plat_port \<Rightarrow> 'w system \<Rightarrow> 'w system \<Rightarrow> bool" for p :: plat_port and x0 :: "'w system" where
  reach_init: "psci_reachable p x0 x0"
| reach_step: "psci_reachable p x0 x \<Longrightarrow> psci_step p x y \<Longrightarrow> psci_reachable p x0 y"

lemma on_coreD:
  assumes "on_core p e c"
  shows "on_port p e" "env_ok e" "plat_my_core_pos e = c" "c < PLATFORM_CORE_COUNT e"
  using assms by (auto simp: on_core_def env_ok_def)

lemma wpD_ret: "wp m Q E s \<Longrightarrow> m s = Ret v t \<Longrightarrow> Q v t"
  by (simp add: wp_def)

lemma wpD_stop: "wp m Q E s \<Longrightarrow> m s = Stop r t \<Longrightarrow> E r t"
  by (simp add: wp_def)

context psci_frontend
begin

definition sys_ok :: "'w system \<Rightarrow> bool" where
  "sys_ok x \<longleftrightarrow> psci_inv p (fst x) (snd x) \<and> plat_ok (sp_of (fst x) (snd x)) (fst x)"

lemma sys_ok_iff: "on_port p e \<Longrightarrow> sys_ok (s, ph) \<longleftrightarrow> ok e s ph"
  by (simp add: sys_ok_def ok_def psci_inv_port)

lemma rely_id: "wfi_others e = id \<Longrightarrow> rely (=) e"
  by (simp add: rely_def)

lemma resumed_id: "ph (plat_my_core_pos e) = Running \<Longrightarrow> resumed (=) e ph t \<Longrightarrow> ok e t ph"
  by (auto simp: resumed_def fun_upd_idem)

lemma psci_step_ok:
  assumes "psci_step p x y" "sys_ok x"
  shows "sys_ok y"
  using assms
proof (induction rule: psci_step.induct)
  case (smc_return e c ph fid x1 x2 x3 flags s v s')
  note o = on_coreD [OF smc_return(1)] and ok = smc_return(5) [unfolded sys_ok_iff [OF on_coreD(1) [OF smc_return(1)]]]
  have ph: "ph (plat_my_core_pos e) = Running" using smc_return o by simp
  from wpD_ret [OF smc_handler_keeps_inv [OF ok o(2) rely_id [OF smc_return(2)] o(1) ph] smc_return(4)]
  show ?case using resumed_id [of ph e] ph sys_ok_iff [OF o(1)] by simp
next
  case (smc_powerdown e c ph fid x1 x2 x3 flags s s')
  note o = on_coreD [OF smc_powerdown(1)] and ok = smc_powerdown(5) [unfolded sys_ok_iff [OF on_coreD(1) [OF smc_powerdown(1)]]]
  have ph: "ph (plat_my_core_pos e) = Running" using smc_powerdown o by simp
  from wpD_stop [OF smc_handler_keeps_inv [OF ok o(2) rely_id [OF smc_powerdown(2)] o(1) ph] smc_powerdown(4)]
  show ?case using sys_ok_iff [OF o(1)] o(3) by simp
next
  case (standby_enter e c ph ps s si s0 n si' s')
  note o = on_coreD [OF standby_enter(1)] and ok = standby_enter(9) [unfolded sys_ok_iff [OF on_coreD(1) [OF standby_enter(1)]]]
  have "wp (psci_validate_power_state e ps (all_run e))
      (\<lambda>v t. ok e t ph \<and> (fst v = PSCI_E_SUCCESS \<longrightarrow> accepted_req p ps (fst v) (snd v))) (\<lambda>_ _. True) s"
    by (rule wp_validate_power_state [OF ok o(1)]) auto
  from wpD_ret [OF this standby_enter(3)] have s0: "ok e s0 ph" "length si = Suc (PLAT_MAX_PWR_LVL e)"
    using on_port_fields [OF o(1)] by (simp_all add: accepted_req_def)
  have n: "n \<le> PLAT_MAX_PWR_LVL e" using target_suspend_lvl_le standby_enter(5,6) by blast
  from wpD_ret [OF wp_suspend_locked [OF s0(1) o(2) o(3) [symmetric] standby_enter(2) n s0(2)] standby_enter(8)]
  show ?case using sys_ok_iff [OF o(1)] by simp
next
  case (standby_exit e c ph n s s')
  note o = on_coreD [OF standby_exit(1)] and ok = standby_exit(5) [unfolded sys_ok_iff [OF on_coreD(1) [OF standby_exit(1)]]]
  from wpD_ret [OF wp_standby_finisher [OF ok o(2) o(3) [symmetric] standby_exit(2)] standby_exit(4)]
  show ?case using sys_ok_iff [OF o(1)] by simp
next
  case (cpu_standby_enter e c ph st s s0 s')
  note o = on_coreD [OF cpu_standby_enter(1)] and ok = cpu_standby_enter(5) [unfolded sys_ok_iff [OF on_coreD(1) [OF cpu_standby_enter(1)]]]
  from wpD_ret [OF ok_set_local [OF ok o(2) o(3) [symmetric], of "Standby 0" st] cpu_standby_enter(3)] cpu_standby_enter(2)
  have s0: "ok e s0 (ph(c := Standby 0))" by simp
  have "psci_plat_pm_ops s = ops" using plat_okD(1) [OF okD(2) [OF ok]] .
  moreover obtain f where f: "cpu_standby ops = Some f"
    using cpu_standby_enter(4) calculation by (cases "cpu_standby ops") (simp_all add: call_hook_def mstop_def)
  moreover from standby_hook [OF f] plat_okD(3) [OF okD(2) [OF s0]] obtain v w
    where "lift_world (f (regs e) st) s0 = Ret v (s0\<lparr>world := w\<rparr>)" "wok (sp_of s0 (ph(c := Standby 0))) w" by (rule hook_okD)
  ultimately have "ok e s' (ph(c := Standby 0))"
    using cpu_standby_enter(4) ok_world [OF s0] by (auto simp: call_hook_def)
  then show ?case using sys_ok_iff [OF o(1)] by simp
next
  case (cpu_standby_exit e c ph s s')
  note o = on_coreD [OF cpu_standby_exit(1)] and ok = cpu_standby_exit(4) [unfolded sys_ok_iff [OF on_coreD(1) [OF cpu_standby_exit(1)]]]
  from wpD_ret [OF ok_set_local [OF ok o(2) o(3) [symmetric], of Running PSCI_LOCAL_STATE_RUN] cpu_standby_exit(3)] cpu_standby_exit(2)
  show ?case using sys_ok_iff [OF o(1)] by simp
next
  case (warm_boot e c ph s s')
  note o = on_coreD [OF warm_boot(1)] and ok = warm_boot(5) [unfolded sys_ok_iff [OF on_coreD(1) [OF warm_boot(1)]]]
  from wpD_ret [OF wp_warmboot [OF ok o(2) o(3) [symmetric] warm_boot(2,3)] warm_boot(4)]
  show ?case using sys_ok_iff [OF o(1)] by simp
qed

theorem psci_reachable_ok:
  assumes "psci_reachable p x0 x" "sys_ok x0"
  shows "sys_ok x"
  using assms by (induction rule: psci_reachable.induct) (auto intro: psci_step_ok)

end

end
