(* ===== verification/Imx8mq_Psci.thy ===== *)
theory Imx8mq_Psci
  imports Imx8mq_Gpc Psci_Steps
begin

text \<open>
  The i.MX8MQ port of the PSCI library: \<^verbatim>\<open>plat/imx/imx8mq/imx8mq_psci.c\<close> (the hook table),
  \<^verbatim>\<open>plat/imx/common/imx8_topology.c\<close> (the topology) and the constants of
  \<^verbatim>\<open>plat/imx/imx8mq/include/platform_def.h\<close>. The GIC, the DRAM controller, SCR\_EL3 and the warm
  boot mailbox are reached through events in the log of the platform's world.
\<close>

section \<open>Topology\<close>

definition imx_power_domain_tree_desc :: "nat list" where
  "imx_power_domain_tree_desc = [1, 1, 4, 4]"

definition imx_plat_core_pos_by_mpidr :: "u64 \<Rightarrow> int" where
  "imx_plat_core_pos_by_mpidr mpidr =
     (let mpidr = mpidr AND 0xff00ffffff
      in if mpidr AND NOT (0xff00 OR 0xff) \<noteq> 0 then -1
         else
           let cluster_id = drop_bit 8 mpidr AND 0xff; cpu_id = mpidr AND 0xff
           in if cluster_id > 1 \<or> cpu_id > 4 then -1
              else uint (cpu_id + cluster_id * 4))"

text \<open>The port, for a build with or without assertions and the counter frequency found at boot.\<close>

definition imx8mq_port :: "bool \<Rightarrow> u64 \<Rightarrow> plat_port" where
  "imx8mq_port assertions freq =
     \<lparr>PLATFORM_CORE_COUNT = 4, PLAT_MAX_PWR_LVL = 2, PSCI_NUM_PWR_DOMAINS = 8,
      PLAT_MAX_RET_STATE = 1, PLAT_MAX_OFF_STATE = 4, PLAT_MAX_PWR_LVL_STATES = 2,
      ENABLE_ASSERTIONS = assertions, ENABLE_PSCI_STAT = False, HW_ASSISTED_COHERENCY = False,
      WARMBOOT_ENABLE_DCACHE_EARLY = False, plat_power_domain_tree_desc = imx_power_domain_tree_desc,
      plat_core_pos_by_mpidr = imx_plat_core_pos_by_mpidr, plat_syscnt_freq2 = freq\<rparr>"

abbreviation PLAT_STOP_OFF_STATE :: plat_local_state_t where "PLAT_STOP_OFF_STATE \<equiv> 3"
abbreviation BL31_BASE :: u64 where "BL31_BASE \<equiv> 0x910000"

section \<open>Hooks\<close>

definition mpidr_core_id :: "u64 \<Rightarrow> nat" where
  "mpidr_core_id mpidr = unat (mpidr AND 0xff)"

definition imx_pwr_domain_on :: "cpu_regs \<Rightarrow> u64 \<Rightarrow> ('a imx_world_scheme, int) prog" where
  "imx_pwr_domain_on r mpidr =
     (let core_id = mpidr_core_id mpidr
      in mbind (imx_set_cpu_secure_entry core_id BL31_BASE) (\<lambda>_.
         mbind (imx_set_cpu_pwr_on core_id) (\<lambda>_.
         mret PSCI_E_SUCCESS)))"

definition imx_pwr_domain_on_finish :: "cpu_regs \<Rightarrow> psci_power_state_t \<Rightarrow> ('a imx_world_scheme, unit) prog" where
  "imx_pwr_domain_on_finish r target_state =
     mbind (imx_emit Imx_gic_pcpu_init) (\<lambda>_. imx_emit Imx_gic_cpuif_enable)"

definition imx_pwr_domain_off :: "cpu_regs \<Rightarrow> psci_power_state_t \<Rightarrow> ('a imx_world_scheme, unit) prog" where
  "imx_pwr_domain_off r target_state =
     mbind (imx_emit Imx_gic_cpuif_disable) (\<lambda>_. imx_set_cpu_pwr_off (mpidr_core_id (mpidr_el1 r)))"

definition imx_validate_ns_entrypoint :: "cpu_regs \<Rightarrow> u64 \<Rightarrow> ('a imx_world_scheme, int) prog" where
  "imx_validate_ns_entrypoint r ns_entrypoint =
     mret (if ns_entrypoint < 0x40000000 then PSCI_E_INVALID_PARAMS else PSCI_E_SUCCESS)"

text \<open>The effect of \<^verbatim>\<open>imx_validate_power_state\<close> on the state array, and its result.\<close>

definition imx_power_state_req :: "'a plat_port_scheme \<Rightarrow> u32 \<Rightarrow> psci_power_state_t \<Rightarrow> int \<times> psci_power_state_t" where
  "imx_power_state_req r power_state req_state =
     (let pwr_lvl = psci_get_pstate_pwrlvl power_state;
          pwr_type = psci_get_pstate_type power_state;
          state_id = psci_get_pstate_id power_state
      in if unat pwr_lvl > PLAT_MAX_PWR_LVL r then (PSCI_E_INVALID_PARAMS, req_state)
         else
           let req_state = (if pwr_type = PSTATE_TYPE_STANDBY
                            then req_state[0 := PLAT_MAX_RET_STATE r, 1 := PLAT_MAX_RET_STATE r] else req_state);
               req_state = (if pwr_type = PSTATE_TYPE_POWERDOWN \<and> state_id = 0x33
                            then req_state[0 := PLAT_MAX_OFF_STATE r, 1 := PLAT_MAX_RET_STATE r] else req_state)
           in (PSCI_E_SUCCESS, req_state))"

definition imx_validate_power_state ::
  "cpu_regs \<Rightarrow> u32 \<Rightarrow> psci_power_state_t \<Rightarrow> ('a imx_world_scheme, int \<times> psci_power_state_t) prog" where
  "imx_validate_power_state r power_state req_state = mret (imx_power_state_req r power_state req_state)"

definition imx_cpu_standby :: "cpu_regs \<Rightarrow> plat_local_state_t \<Rightarrow> ('a imx_world_scheme, unit) prog" where
  "imx_cpu_standby r cpu_state =
     mbind (imx_emit (Imx_scr_el3_or 4)) (\<lambda>_.
     mbind (imx_emit Imx_wfi) (\<lambda>_.
     imx_emit (Imx_scr_el3_andnot 4)))"

definition imx_domain_suspend :: "cpu_regs \<Rightarrow> psci_power_state_t \<Rightarrow> ('a imx_world_scheme, unit) prog" where
  "imx_domain_suspend r target_state =
     (let core_id = mpidr_core_id (mpidr_el1 r)
      in mbind (if is_local_state_off r (target_state ! 0) then
                  mbind (imx_emit Imx_gic_cpuif_disable) (\<lambda>_.
                  mbind (imx_set_cpu_secure_entry core_id BL31_BASE) (\<lambda>_.
                  imx_set_cpu_lpm core_id True))
                else imx_emit (Imx_scr_el3_or 4)) (\<lambda>_.
         mbind (if is_local_state_off r (target_state ! 1) then imx_set_cluster_powerdown core_id True
                else imx_set_cluster_standby True) (\<lambda>_.
         mwhen (is_local_state_retn r (target_state ! PLAT_MAX_PWR_LVL r))
           (mbind (imx_set_sys_lpm True) (\<lambda>_. imx_anamix_pre_suspend)))))"

definition imx_domain_suspend_finish :: "cpu_regs \<Rightarrow> psci_power_state_t \<Rightarrow> ('a imx_world_scheme, unit) prog" where
  "imx_domain_suspend_finish r target_state =
     (let core_id = mpidr_core_id (mpidr_el1 r)
      in mbind (mwhen (is_local_state_retn r (target_state ! PLAT_MAX_PWR_LVL r))
                  (mbind (imx_set_sys_lpm False) (\<lambda>_.
                   mbind imx_anamix_post_resume (\<lambda>_. imx_clear_rbc_count)))) (\<lambda>_.
         mbind (if is_local_state_off r (target_state ! 1) then imx_set_cluster_powerdown core_id False
                else imx_set_cluster_standby False) (\<lambda>_.
         if is_local_state_off r (target_state ! 0) then
           mbind (imx_set_cpu_lpm core_id False) (\<lambda>_. imx_emit Imx_gic_cpuif_enable)
         else imx_emit (Imx_scr_el3_andnot 4))))"

definition imx_get_sys_suspend_power_state ::
  "cpu_regs \<Rightarrow> psci_power_state_t \<Rightarrow> ('a imx_world_scheme, psci_power_state_t) prog" where
  "imx_get_sys_suspend_power_state r req_state =
     mret ((fold (\<lambda>i st. st[i := PLAT_STOP_OFF_STATE]) [0..<PLAT_MAX_PWR_LVL r] req_state)
             [PLAT_MAX_PWR_LVL r := PLAT_MAX_RET_STATE r])"

definition mmio_write_16 :: "u64 \<Rightarrow> 16 word \<Rightarrow> ('a imx_world_scheme, unit) prog" where
  "mmio_write_16 addr v = mmodify (\<lambda>w. w\<lparr>mmio_half := (mmio_half w)(addr := v)\<rparr>)"

definition imx_system_reset :: "cpu_regs \<Rightarrow> ('a imx_world_scheme, unit) prog" where
  "imx_system_reset r =
     mbind (mget (\<lambda>w. mmio_half w IMX_WDOG_BASE)) (\<lambda>val.
     mbind (mmio_write_16 IMX_WDOG_BASE (((val AND 0x00FF) OR push_bit 2 7) OR 1)) (\<lambda>_.
     mbind (mmio_write_16 (IMX_WDOG_BASE + 0x2) 0x5555) (\<lambda>_.
     mmio_write_16 (IMX_WDOG_BASE + 0x2) 0xaaaa)))"

definition imx_system_off :: "cpu_regs \<Rightarrow> ('a imx_world_scheme, unit) prog" where
  "imx_system_off r = mmio_write_32 (IMX_SNVS_BASE + 0x38) 0x61"

definition imx_pwr_domain_pwr_down_wfi :: "cpu_regs \<Rightarrow> psci_power_state_t \<Rightarrow> ('a imx_world_scheme, unit) prog" where
  "imx_pwr_domain_pwr_down_wfi r target_state =
     mbind (mwhen (is_local_state_off r (target_state ! 1)) imx_set_rbc_count) (\<lambda>_. imx_emit Imx_wfi)"

definition imx_plat_psci_ops :: "'a imx_world_scheme plat_psci_ops_t" where
  "imx_plat_psci_ops =
     \<lparr>cpu_standby = Some imx_cpu_standby, pwr_domain_on = Some imx_pwr_domain_on,
      pwr_domain_off = Some imx_pwr_domain_off, pwr_domain_suspend_pwrdown_early = None,
      pwr_domain_suspend = Some imx_domain_suspend, pwr_domain_on_finish = Some imx_pwr_domain_on_finish,
      pwr_domain_suspend_finish = Some imx_domain_suspend_finish,
      pwr_domain_pwr_down_wfi = Some imx_pwr_domain_pwr_down_wfi,
      system_off = Some imx_system_off, system_reset = Some imx_system_reset,
      validate_power_state = Some imx_validate_power_state,
      validate_ns_entrypoint = Some imx_validate_ns_entrypoint,
      get_sys_suspend_power_state = Some imx_get_sys_suspend_power_state,
      get_pwr_lvl_state_idx = None, translate_power_state_by_mpidr = None, get_node_hw_state = None,
      mem_protect_chk = None, read_mem_protect = None, write_mem_protect = None, system_reset2 = None\<rparr>"

definition imx_plat_setup_psci_ops :: "u64 \<Rightarrow> ('a imx_world_scheme, 'a imx_world_scheme plat_psci_ops_t) prog" where
  "imx_plat_setup_psci_ops sec_entrypoint =
     mbind (imx_emit (Imx_mailbox_init sec_entrypoint)) (\<lambda>_. mret imx_plat_psci_ops)"

section \<open>The hooks satisfy the platform contract\<close>

lemmas imx_hook_defs = imx_pwr_domain_on_def imx_pwr_domain_on_finish_def imx_pwr_domain_off_def
  imx_validate_ns_entrypoint_def imx_cpu_standby_def imx_domain_suspend_def imx_domain_suspend_finish_def
  imx_pwr_domain_pwr_down_wfi_def

lemma imx_power_hooks_ok:
  "hook_ok (imx_okx w) (imx_pwr_domain_on r m) (\<lambda>rc. rc = PSCI_E_SUCCESS \<or> rc = PSCI_E_INTERN_FAIL)"
  "hook_ok (imx_okx w) (imx_pwr_domain_on_finish r si) (\<lambda>_. True)"
  "hook_ok (imx_okx w) (imx_pwr_domain_off r si) (\<lambda>_. True)"
  "hook_ok (imx_okx w) (imx_domain_suspend r si) (\<lambda>_. True)"
  "hook_ok (imx_okx w) (imx_domain_suspend_finish r si) (\<lambda>_. True)"
  "hook_ok (imx_okx w) (imx_pwr_domain_pwr_down_wfi r si) (\<lambda>_. True)"
  "hook_ok (imx_okx w) (imx_cpu_standby r st) (\<lambda>_. True)"
  "hook_ok (imx_okx w) (imx_validate_ns_entrypoint r x) (\<lambda>_. True)"
  unfolding imx_hook_defs Let_def
  by (intro hook_ok_then hook_ok_if hook_ok_mwhen hook_ok_gpc hook_ok_mmio hook_ok_mret; simp)+

lemma imx_system_hooks_ok:
  "hook_ok (imx_okx w) (imx_system_off r) (\<lambda>_. True)" "hook_ok (imx_okx w) (imx_system_reset r) (\<lambda>_. True)"
  by (simp_all add: hook_ok_def imx_system_off_def imx_system_reset_def mmio_write_32_def mmio_write_16_def
      prog_simps imx_okx_def imx_ok_def)

lemma imx8mq_port_simps [simp]:
  "PLATFORM_CORE_COUNT (imx8mq_port b fq) = 4" "PLAT_MAX_PWR_LVL (imx8mq_port b fq) = 2"
  "PSCI_NUM_PWR_DOMAINS (imx8mq_port b fq) = 8" "PLAT_MAX_RET_STATE (imx8mq_port b fq) = 1"
  "PLAT_MAX_OFF_STATE (imx8mq_port b fq) = 4" "ENABLE_ASSERTIONS (imx8mq_port b fq) = b"
  "plat_core_pos_by_mpidr (imx8mq_port b fq) = imx_plat_core_pos_by_mpidr"
  by (simp_all add: imx8mq_port_def)

lemma imx_levels: "[0..<3] = [0, 1, 2]"
  by (simp add: upt_rec)

lemma imx_accepted_req:
  assumes "on_port (imx8mq_port b fq) r"
  shows "case imx_power_state_req r ps (all_run (imx8mq_port b fq)) of (rc, si) \<Rightarrow> accepted_req (imx8mq_port b fq) ps rc si"
proof -
  have r: "PLAT_MAX_PWR_LVL r = 2" "PLAT_MAX_RET_STATE r = 1" "PLAT_MAX_OFF_STATE r = 4"
    using on_port_fields [OF assms] by simp_all
  have run: "replicate 3 PSCI_LOCAL_STATE_RUN = [0, 0, 0]" by (simp add: eval_nat_numeral)
  have "psci_find_target_suspend_lvl (imx8mq_port b fq) [0, 0, 0] = PSCI_INVALID_PWR_LVL (imx8mq_port b fq)"
    by (simp add: psci_find_target_suspend_lvl_def imx_levels is_local_state_run_def del: upt_Suc)
  then show ?thesis
    by (auto simp: imx_power_state_req_def accepted_req_def Let_def r run is_local_state_off_def)
qed

lemma imx_sys_suspend_req:
  assumes "on_port (imx8mq_port b fq) r" "length si = 3"
  shows "hook_ok (imx_okx w) (imx_get_sys_suspend_power_state r si) (\<lambda>si'. si' = [3, 3, 1])"
proof -
  have r: "PLAT_MAX_PWR_LVL r = 2" "PLAT_MAX_RET_STATE r = 1" using on_port_fields [OF assms(1)] by simp_all
  obtain x y z where "si = [x, y, z]" using assms(2) by (auto simp: eval_nat_numeral length_Suc_conv)
  then show ?thesis
    by (simp add: hook_ok_def imx_get_sys_suspend_power_state_def mret_def r upt_rec)
qed

end
