(* ===== verification/Imx8mq_Sip.thy ===== *)
theory Imx8mq_Sip
  imports Imx8mq_Gpc
begin

text \<open>
  The SiP service of the i.MX8MQ: \<^verbatim>\<open>plat/imx/imx8mq/src.c\<close> (Cortex-M4 reset, chip revision, NOC
  priorities), \<^verbatim>\<open>plat/imx/common/imx8m/hab.c\<close> (calls into the boot ROM's HAB library),
  \<^verbatim>\<open>plat/imx/common/misc.c\<close> (the commit hash of the build) and the dispatcher of
  \<^verbatim>\<open>plat/imx/common/imx8_sip_svc.c\<close>. The ROM is not part of the sources: it is the argument
  \<open>rom\<close>, a function from the address of the routine and its arguments to a program. The DDR
  frequency handler is the argument \<open>dvfs\<close>, and the version string of the build the argument
  \<open>version_string\<close>.
\<close>

section \<open>Values returned in a register\<close>

text \<open>An \<^verbatim>\<open>int\<close> result, and its sign extension by \<^verbatim>\<open>SMC_RET1\<close>.\<close>

abbreviation SMC_UNK_int :: int where "SMC_UNK_int \<equiv> -1"

definition u32_to_int :: "u32 \<Rightarrow> int" where
  "u32_to_int v = sint v"

definition SMC_RET1 :: "('w, int) prog \<Rightarrow> ('w, u64) prog" where
  "SMC_RET1 m = mbind m (\<lambda>v. mret (word_of_int v))"

section \<open>The Cortex-M4, the chip revision and the NOC\<close>

abbreviation M4RCR :: u64 where "M4RCR \<equiv> 0xC"

definition imx_src_handler :: "u32 \<Rightarrow> u64 \<Rightarrow> u64 \<Rightarrow> u64 \<Rightarrow> ('a imx_world_scheme, int) prog" where
  "imx_src_handler smc_fid x1 x2 x3 =
     (if x1 = 0x00 then
        mbind (mmio_rmw_32 (IMX_SRC_BASE + M4RCR) (\<lambda>val. (val AND NOT 1) OR BIT32 3)) (\<lambda>_. mret 0)
      else if x1 = 0x01 then
        mbind (mmio_read_32 (IMX_SRC_BASE + M4RCR)) (\<lambda>val. mret (if val AND 1 = 0 then 1 else 0))
      else mret SMC_UNK_int)"

definition mmio_read_8 :: "u64 \<Rightarrow> ('a imx_world_scheme, u8) prog" where
  "mmio_read_8 addr = mget (\<lambda>w. mmio_byte w addr)"

definition imx_soc_handler :: "u32 \<Rightarrow> u64 \<Rightarrow> u64 \<Rightarrow> u64 \<Rightarrow> ('a imx_world_scheme, int) prog" where
  "imx_soc_handler smc_fid x1 x2 x3 =
     mbind (mmio_read_32 (IMX_ANAMIX_BASE + 0x6c)) (\<lambda>val.
     mbind (mmio_read_8 (IMX_ROM_BASE + 0x800)) (\<lambda>a0.
     if a0 \<noteq> 0x10 then
       mbind (mmio_read_8 (IMX_ROM_BASE + 0x83C)) (\<lambda>b0.
       let rom_version = (ucast b0 :: u32)
       in if rom_version = 0x20 then mret (u32_to_int ((val AND NOT 0xff) OR rom_version))
          else
            mbind (mmio_read_32 (IMX_OCOTP_BASE + 0x40)) (\<lambda>magic.
            if magic = 0xff0055aa then mret (u32_to_int ((val AND NOT 0xff) OR 0x21))
            else mret (u32_to_int val)))
     else mret (u32_to_int val)))"

text \<open>The registers \<^verbatim>\<open>imx_noc_handler\<close> writes for the display, and the one of every priority.\<close>

definition noc_lcdif_config :: "(u64 \<times> u32) list" where
  "noc_lcdif_config =
     [(0x108, 0x34), (0x10c, 0x1), (0x110, 0x500), (0x114, 0x30),
      (0x188, 0x34), (0x18c, 0x1), (0x190, 0x500), (0x194, 0x30)]"

definition noc_priority_reg :: "u64 \<Rightarrow> u64 option" where
  "noc_priority_reg x2 =
     (if x2 = 0x10 then Some 0x008 else if x2 = 0x11 then Some 0x088 else if x2 = 0x12 then Some 0x108
      else if x2 = 0x13 then Some 0x188 else if x2 = 0x14 then Some 0x288 else None)"

definition imx_noc_handler :: "u32 \<Rightarrow> u64 \<Rightarrow> u64 \<Rightarrow> u64 \<Rightarrow> ('a imx_world_scheme, int) prog" where
  "imx_noc_handler smc_fid x1 x2 x3 =
     (if x1 = 0 then
        mbind (mfold (\<lambda>(off, v) _. mmio_write_32 (IMX_NOC_BASE + off) v) noc_lcdif_config ()) (\<lambda>_. mret 0)
      else if x1 = 1 then
        (case noc_priority_reg x2 of
           None \<Rightarrow> mret SMC_UNK_int
         | Some off \<Rightarrow> mbind (mmio_write_32 (IMX_NOC_BASE + off) (ucast x3)) (\<lambda>_. mret 0))
      else mret SMC_UNK_int)"

section \<open>The HAB library of the boot ROM\<close>

text \<open>The address of a routine is the 32-bit word of the vector table, and \<open>rom\<close> calls it.\<close>

type_synonym 'w rom_call = "u64 \<Rightarrow> u64 list \<Rightarrow> ('w, u64) prog"

abbreviation HAB_RVT_BASE :: u64 where "HAB_RVT_BASE \<equiv> 0x880"
abbreviation HAB_FAILURE :: u64 where "HAB_FAILURE \<equiv> 0x33"
abbreviation HAB_CID_ATF :: u64 where "HAB_CID_ATF \<equiv> 2"

definition hab_rvt_call ::
  "'a imx_world_scheme rom_call \<Rightarrow> u64 \<Rightarrow> u64 list \<Rightarrow> ('a imx_world_scheme, int) prog" where
  "hab_rvt_call rom off args =
     mbind (mmio_read_32 (HAB_RVT_BASE + off)) (\<lambda>p.
     mbind (rom (ucast p) args) (\<lambda>v. mret (u32_to_int (ucast v))))"

definition imx_hab_handler ::
  "'a imx_world_scheme rom_call \<Rightarrow> u32 \<Rightarrow> u64 \<Rightarrow> u64 \<Rightarrow> u64 \<Rightarrow> u64 \<Rightarrow> ('a imx_world_scheme, int) prog" where
  "imx_hab_handler rom smc_fid x1 x2 x3 x4 =
     (if x1 = 0x00 then hab_rvt_call rom 0x20 [HAB_CID_ATF, x2, x3, x4, 0]
      else if x1 = 0x01 then hab_rvt_call rom 0x08 []
      else if x1 = 0x02 then hab_rvt_call rom 0x10 []
      else if x1 = 0x03 then hab_rvt_call rom 0x40 [HAB_FAILURE, x2 AND 0xffffffff, x3, x4]
      else if x1 = 0x04 then hab_rvt_call rom 0x48 [x2, x3]
      else if x1 = 0x05 then mbind (hab_rvt_call rom 0x50 []) (\<lambda>_. mret 0)
      else if x1 = 0x06 then hab_rvt_call rom 0x18 [x2 AND 0xffffffff, x3, x4]
      else mret SMC_UNK_int)"

section \<open>The commit hash of the build\<close>

text \<open>What follows the first \<^verbatim>\<open>-g\<close> in the version string.\<close>

function commit_suffix :: "string \<Rightarrow> string option" where
  "commit_suffix parse =
     (case dropWhile (\<lambda>c. c \<noteq> CHR ''-'') parse of
        [] \<Rightarrow> None
      | _ # rest \<Rightarrow> if rest \<noteq> [] \<and> hd rest = CHR ''g'' then Some (tl rest) else commit_suffix rest)"
  by pat_completeness auto

termination
proof (relation "measure length")
  fix parse y rest assume "dropWhile (\<lambda>c. c \<noteq> CHR ''-'') parse = y # rest"
  then have "length (y # rest) \<le> length parse" by (metis length_dropWhile_le)
  then show "(rest, parse) \<in> measure length" by simp
qed simp

declare commit_suffix.simps [simp del]

text \<open>
  \<^verbatim>\<open>memcpy(&hash, parse + 1, 7)\<close> reads seven bytes of the array, whose last one is the NUL byte.
\<close>

definition imx_get_commit_hash :: "string \<Rightarrow> ('w, u64) prog" where
  "imx_get_commit_hash version_string =
     (case commit_suffix version_string of
        None \<Rightarrow> mret 0
      | Some s \<Rightarrow>
          if 7 \<le> length s + 1 then mret (horner_sum of_char 256 (take 7 (s @ [CHR 0x00])))
          else mstop Out_of_bounds)"

definition imx_buildinfo_handler :: "string \<Rightarrow> u32 \<Rightarrow> u64 \<Rightarrow> u64 \<Rightarrow> u64 \<Rightarrow> u64 \<Rightarrow> ('w, u64) prog" where
  "imx_buildinfo_handler version_string smc_fid x1 x2 x3 x4 =
     (if x1 = 0x00 then imx_get_commit_hash version_string else mret (NOT 0))"

section \<open>The dispatcher\<close>

type_synonym 'w dvfs_handler = "u32 \<Rightarrow> u64 \<Rightarrow> u64 \<Rightarrow> u64 \<Rightarrow> ('w, int) prog"

definition imx_svc_smc_handler ::
  "'a imx_world_scheme rom_call \<Rightarrow> 'a imx_world_scheme dvfs_handler \<Rightarrow> string \<Rightarrow>
     u32 \<Rightarrow> u64 \<Rightarrow> u64 \<Rightarrow> u64 \<Rightarrow> u64 \<Rightarrow> ('a imx_world_scheme, u64) prog" where
  "imx_svc_smc_handler rom dvfs version_string smc_fid x1 x2 x3 x4 =
     (if smc_fid = 0xc2000004 then SMC_RET1 (dvfs smc_fid x1 x2 x3)
      else if smc_fid = 0xC2000000 then SMC_RET1 (imx_gpc_handler smc_fid x1 x2 x3)
      else if smc_fid = 0xc2000005 then SMC_RET1 (imx_src_handler smc_fid x1 x2 x3)
      else if smc_fid = 0xc2000006 then SMC_RET1 (imx_soc_handler smc_fid x1 x2 x3)
      else if smc_fid = 0xc2000007 then SMC_RET1 (imx_hab_handler rom smc_fid x1 x2 x3 x4)
      else if smc_fid = 0xc2000008 then SMC_RET1 (imx_noc_handler smc_fid x1 x2 x3)
      else if smc_fid = 0xC2000003 then imx_buildinfo_handler version_string smc_fid x1 x2 x3 x4
      else mret (NOT 0))"

end
