(* ===== verification/Imx8mq_Bl31.thy ===== *)
theory Imx8mq_Bl31
  imports Imx8mq_Psci Imx8mq_Sip
begin

text \<open>
  The PSCI library on the i.MX8MQ. The hooks of the port satisfy the contract of the library for
  every secure payload dispatcher that keeps its own part of the world in order: the locale
  \<open>imx_dispatcher\<close> states what a dispatcher has to promise, and the sublocale relation shows that the
  port with such a dispatcher is a platform the library can run on. A build without a dispatcher
  (\<^verbatim>\<open>SPD=none\<close>) is the first interpretation; the OP-TEE dispatcher is interpreted in its own theory.
\<close>

text \<open>
  The world of the port extended with the state of a dispatcher, and the promises of the dispatcher.
\<close>

definition imx_with :: "(sp_states \<Rightarrow> 'a imx_world_scheme \<Rightarrow> bool) \<Rightarrow> sp_states \<Rightarrow> 'a imx_world_scheme \<Rightarrow> bool" where
  "imx_with ext \<sigma> w \<longleftrightarrow> imx_ok w \<and> ext \<sigma> w"

locale imx_dispatcher =
  fixes spd :: "'a imx_world_scheme spd_pm_ops_t option"
    and ext :: "sp_states \<Rightarrow> 'a imx_world_scheme \<Rightarrow> bool"
    and assertions :: bool and freq :: u64
  assumes own_state: "imx_world.more w = imx_world.more w' \<Longrightarrow> ext \<sigma> w \<Longrightarrow> ext \<sigma> w'"
    and svc_on_ok: "spd_sel spd svc_on = Some g \<Longrightarrow> hook_ok (imx_with ext \<sigma>) (g r x) (\<lambda>_. True)"
    and svc_off_ok: "spd_may_turn_off (imx_with ext) (spd_sel spd svc_off)"
    and svc_suspend_ok: "spd_moves (imx_with ext) (spd_sel spd svc_suspend) SP_ON SP_SUSPENDED"
    and svc_on_finish_ok: "spd_moves (imx_with ext) (spd_sel spd svc_on_finish) SP_OFF SP_ON"
    and svc_suspend_finish_ok: "spd_moves (imx_with ext) (spd_sel spd svc_suspend_finish) SP_SUSPENDED SP_ON"
    and svc_migrate_ok: "spd_sel spd svc_migrate = Some h \<Longrightarrow> hook_keeps (imx_with ext \<sigma>) (h r x y)"
    and svc_migrate_info_ok: "spd_sel spd svc_migrate_info = Some h1 \<Longrightarrow> hook_keeps (imx_with ext \<sigma>) (h1 r)"
    and svc_system_off_ok: "spd_sel spd svc_system_off = Some h2 \<Longrightarrow> hook_keeps (imx_with ext \<sigma>) (h2 r)"
    and svc_system_reset_ok: "spd_sel spd svc_system_reset = Some h2 \<Longrightarrow> hook_keeps (imx_with ext \<sigma>) (h2 r)"
begin

lemma imx_with_hook:
  assumes "\<And>x. hook_ok (imx_okx x) m P"
  shows "hook_ok (imx_with ext \<sigma>) m P"
  unfolding hook_ok_def imx_with_def
proof (intro allI impI)
  fix w assume w: "imx_ok w \<and> ext \<sigma> w"
  with assms [of "imx_world.more w"] obtain v w' where "m w = Ret v w'" "imx_ok w'" "P v"
    and "imx_world.more w' = imx_world.more w"
    unfolding hook_ok_def imx_okx_def by blast
  then show "\<exists>v w'. m w = Ret v w' \<and> (imx_ok w' \<and> ext \<sigma> w') \<and> P v"
    using own_state [of w w' \<sigma>] w by auto
qed

lemmas imx_with_hooks = imx_power_hooks_ok [THEN imx_with_hook] imx_system_hooks_ok [THEN imx_with_hook, THEN hook_ok_keeps]

lemma imx_with_validate:
  assumes "on_port (imx8mq_port b fq) r"
  shows "hook_ok (imx_with ext \<sigma>) (imx_validate_power_state r ps (all_run (imx8mq_port b fq)))
    (\<lambda>(rc, si). accepted_req (imx8mq_port b fq) ps rc si)"
  using imx_accepted_req [OF assms] by (simp add: imx_validate_power_state_def hook_ok_mret)

lemma imx_with_sys_suspend:
  assumes "on_port (imx8mq_port b fq) r" "length si = Suc (PLAT_MAX_PWR_LVL (imx8mq_port b fq))"
  shows "hook_ok (imx_with ext \<sigma>) (imx_get_sys_suspend_power_state r si)
    (\<lambda>si'. length si' = Suc (PLAT_MAX_PWR_LVL (imx8mq_port b fq)) \<and> is_local_state_off (imx8mq_port b fq) (si' ! 0))"
proof (rule hook_ok_mono)
  show "hook_ok (imx_with ext \<sigma>) (imx_get_sys_suspend_power_state r si) (\<lambda>si'. si' = [3, 3, 1])"
    by (rule imx_with_hook) (use imx_sys_suspend_req [OF assms(1)] assms(2) in simp)
qed (simp add: is_local_state_off_def)

end

sublocale imx_dispatcher \<subseteq> psci_frontend imx_plat_psci_ops spd "imx_with ext" "imx8mq_port assertions freq"
proof unfold_locales
qed (auto simp: imx_plat_psci_ops_def intro: imx_with_hooks imx_with_validate [simplified] imx_with_sys_suspend [simplified] svc_on_ok svc_off_ok
    svc_suspend_ok svc_on_finish_ok svc_suspend_finish_ok svc_migrate_ok svc_migrate_info_ok svc_system_off_ok
    svc_system_reset_ok)

interpretation imx_nospd: imx_dispatcher None "\<lambda>_ _. True" b fq for b fq
  by unfold_locales (auto simp: spd_sel_def spd_moves_def spd_may_turn_off_def imx_with_def)

end
