(* ===== verification/Imx8mq_Boot.thy ===== *)
theory Imx8mq_Boot
  imports Imx8mq_Bl31
begin

text \<open>
  The cold boot of the PSCI library on the i.MX8MQ. \<^verbatim>\<open>psci_setup\<close> of \<^verbatim>\<open>lib/psci/psci_setup.c\<close> runs on
  memory that is all zero, builds the tree of \<^verbatim>\<open>imx_power_domain_tree_desc\<close> and leaves the boot core
  on and every other core off. The lemmas run the loops of the set-up on this topology; the last
  ones show that the state it leaves satisfies the invariant of the library.
\<close>

section \<open>Zeroed memory\<close>

text \<open>
  The variables of the library before \<^verbatim>\<open>psci_setup\<close>; the pointer to the hook table is not set yet,
  and \<open>ops\<close> stands for what it points to.
\<close>

definition zeroed_psci_state :: "'a plat_port_scheme \<Rightarrow> 'w plat_psci_ops_t \<Rightarrow> 'w \<Rightarrow> 'w psci_state" where
  "zeroed_psci_state e ops w =
     \<lparr>psci_non_cpu_pd_nodes = replicate (PSCI_NUM_NON_CPU_PWR_DOMAINS e)
        \<lparr>cpu_start_idx = 0, ncpus = 0, parent_node = 0, local_state = 0, pd_level = 0, lock_index = 0\<rparr>,
      psci_cpu_pd_nodes = replicate (PLATFORM_CORE_COUNT e) \<lparr>node_mpidr = 0, cpu_parent_node = 0, cpu_lock = None\<rparr>,
      psci_req_local_pwr_states = replicate (PLAT_MAX_PWR_LVL e) (replicate (PLATFORM_CORE_COUNT e) 0),
      psci_svc_cpu_data = replicate (PLATFORM_CORE_COUNT e)
        \<lparr>aff_info_state = AFF_STATE_ON, target_pwrlvl = 0, cpu_local_state = 0\<rparr>,
      psci_locks = replicate (PSCI_NUM_NON_CPU_PWR_DOMAINS e) None, psci_caps = 0,
      psci_plat_pm_ops = ops, psci_spd_pm = None, psci_ns_context = replicate (PLATFORM_CORE_COUNT e) None,
      last_cpu_in_non_cpu_pd = replicate (PSCI_NUM_NON_CPU_PWR_DOMAINS e) (-1),
      psci_cpu_stat = [], psci_non_cpu_stat = [], stat_enter_ts = [], stat_exit_ts = [],
      arch_log = [], world = w\<rparr>"

section \<open>Building the tree\<close>

lemma imx_fields:
  assumes "on_port (imx8mq_port b fq) e"
  shows "PLATFORM_CORE_COUNT e = 4" "PLAT_MAX_PWR_LVL e = 2" "PSCI_NUM_PWR_DOMAINS e = 8" "PLAT_MAX_RET_STATE e = 1"
    "PLAT_MAX_OFF_STATE e = 4" "ENABLE_PSCI_STAT e = False" "ENABLE_ASSERTIONS e = b"
    "plat_power_domain_tree_desc e = [1, 1, 4, 4]" "plat_core_pos_by_mpidr e = imx_plat_core_pos_by_mpidr"
    "HW_ASSISTED_COHERENCY e = False" "WARMBOOT_ENABLE_DCACHE_EARLY e = False"
  using assms by (auto simp: on_port_def plat_port.truncate_def imx8mq_port_def imx_power_domain_tree_desc_def)

lemma lists4: "replicate 4 x = [x, x, x, x]" "replicate 2 x = [x, x]" "[0..<4] = [0, 1, 2, 3]"
  by (simp_all add: upt_rec numeral_eq_Suc)

lemma init_node_run:
  "lvl \<noteq> 0 \<Longrightarrow> i < length (psci_non_cpu_pd_nodes s) \<Longrightarrow> psci_init_pwr_domain_node e i par lvl s =
     Ret () (s\<lparr>psci_non_cpu_pd_nodes := (psci_non_cpu_pd_nodes s)[i := (psci_non_cpu_pd_nodes s ! i)
       \<lparr>pd_level := lvl, lock_index := i, parent_node := par, local_state := PLAT_MAX_OFF_STATE e\<rparr>]\<rparr>)"
  by (simp add: psci_init_pwr_domain_node_def prog_simps Let_def psci_lock_init_def)

lemma init_cpu_run:
  "i < length (psci_cpu_pd_nodes s) \<Longrightarrow> i < length (psci_svc_cpu_data s) \<Longrightarrow> i < length (psci_ns_context s) \<Longrightarrow>
   psci_init_pwr_domain_node e i par 0 s =
     Ret () (s\<lparr>psci_cpu_pd_nodes := (psci_cpu_pd_nodes s)[i := (psci_cpu_pd_nodes s ! i)
         \<lparr>cpu_parent_node := par, node_mpidr := PSCI_INVALID_MPIDR\<rparr>],
       psci_svc_cpu_data := (psci_svc_cpu_data s)[i := (psci_svc_cpu_data s ! i)
         \<lparr>aff_info_state := AFF_STATE_OFF, target_pwrlvl := PSCI_INVALID_PWR_LVL e, cpu_local_state := PLAT_MAX_OFF_STATE e\<rparr>]\<rparr>)"
  by (simp add: psci_init_pwr_domain_node_def prog_simps)

abbreviation imx_node :: "nat \<Rightarrow> nat \<Rightarrow> plat_local_state_t \<Rightarrow> nat \<Rightarrow> nat \<Rightarrow> nat \<Rightarrow> non_cpu_pd_node_t" where
  "imx_node l p st c n i \<equiv>
    \<lparr>cpu_start_idx = c, ncpus = n, parent_node = p, local_state = st, pd_level = l, lock_index = i\<rparr>"

lemma init_cpus_run:
  assumes "n \<le> 256" "n \<le> length (psci_cpu_pd_nodes s)" "n \<le> length (psci_svc_cpu_data s)" "n \<le> length (psci_ns_context s)"
  shows "mfold (\<lambda>j _. psci_init_pwr_domain_node e (j mod 256) par 0) [0..<n] () s =
    Ret () (s\<lparr>psci_cpu_pd_nodes := map (\<lambda>c. c\<lparr>cpu_parent_node := par, node_mpidr := PSCI_INVALID_MPIDR\<rparr>)
         (take n (psci_cpu_pd_nodes s)) @ drop n (psci_cpu_pd_nodes s),
       psci_svc_cpu_data := map (\<lambda>d. d\<lparr>aff_info_state := AFF_STATE_OFF, target_pwrlvl := PSCI_INVALID_PWR_LVL e,
         cpu_local_state := PLAT_MAX_OFF_STATE e\<rparr>) (take n (psci_svc_cpu_data s)) @ drop n (psci_svc_cpu_data s)\<rparr>)"
  using assms
proof (induction n)
  case (Suc n)
  then show ?case
    by (simp add: mfold_append mbind_def init_cpu_run mret_def list_update_append nth_append take_Suc_conv_app_nth
        Cons_nth_drop_Suc [symmetric])
qed (simp add: mret_def)

lemma populate_one:
  assumes "pni < length topo" "pni \<le> PSCI_NUM_NON_CPU_PWR_DOMAINS e"
  shows "populate_level e topo level (1, ni, pni, j) = mbind (mfold (\<lambda>j _. psci_init_pwr_domain_node e (j mod 256)
             (if pni = 0 then 0xffffffff else pni - 1) (level mod 256)) [ni..<ni + topo ! pni] ())
        (\<lambda>_. mret (topo ! pni, if level = 1 then 0 else ni + topo ! pni, pni + 1, ni + topo ! pni))"
  using assms by (simp add: populate_level_def c_assert_def mbind_assoc)

lemma populate_tree_run:
  assumes port: "on_port (imx8mq_port b fq) e"
    and s: "psci_non_cpu_pd_nodes s = replicate 4 (imx_node 0 0 0 0 0 0)"
      "psci_cpu_pd_nodes s = replicate 4 \<lparr>node_mpidr = 0, cpu_parent_node = 0, cpu_lock = None\<rparr>"
      "psci_svc_cpu_data s = replicate 4 \<lparr>aff_info_state = AFF_STATE_ON, target_pwrlvl = 0, cpu_local_state = 0\<rparr>"
      "length (psci_ns_context s) = 4"
  shows "populate_power_domain_tree e [1, 1, 4, 4] s = Ret () (s
    \<lparr>psci_non_cpu_pd_nodes := [imx_node 2 0xffffffff 4 0 0 0, imx_node 1 0 4 0 0 1, imx_node 0 0 0 0 0 0, imx_node 0 0 0 0 0 0],
     psci_cpu_pd_nodes := replicate 4 \<lparr>node_mpidr = PSCI_INVALID_MPIDR, cpu_parent_node = 1, cpu_lock = None\<rparr>,
     psci_svc_cpu_data := replicate 4 \<lparr>aff_info_state = AFF_STATE_OFF, target_pwrlvl = 3, cpu_local_state = 4\<rparr>\<rparr>)"
proof -
  note f = imx_fields [OF port]
  let ?n = "\<lambda>x. [imx_node 2 0xffffffff 4 0 0 0, x, imx_node 0 0 0 0 0 0, imx_node 0 0 0 0 0 0]"
  have top: "populate_level e [1, 1, 4, 4] 2 (1, 0, 0, 0) s =
      Ret (1, 1, 1, 1) (s\<lparr>psci_non_cpu_pd_nodes := ?n (imx_node 0 0 0 0 0 0)\<rparr>)"
    by (subst populate_one) (simp_all add: f s lists4 mbind_def init_node_run mret_def)
  have mid: "populate_level e [1, 1, 4, 4] 1 (1, 1, 1, 1) (s\<lparr>psci_non_cpu_pd_nodes := ?n (imx_node 0 0 0 0 0 0)\<rparr>) =
      Ret (1, 0, 2, 2) (s\<lparr>psci_non_cpu_pd_nodes := ?n (imx_node 1 0 4 0 0 1)\<rparr>)"
    by (subst populate_one) (simp_all add: f mbind_def init_node_run mret_def)
  have low: "populate_level e [1, 1, 4, 4] 0 (1, 0, 2, 2) (s\<lparr>psci_non_cpu_pd_nodes := ?n (imx_node 1 0 4 0 0 1)\<rparr>) =
      Ret (4, 4, 3, 4) (s\<lparr>psci_non_cpu_pd_nodes := ?n (imx_node 1 0 4 0 0 1),
        psci_cpu_pd_nodes := replicate 4 \<lparr>node_mpidr = PSCI_INVALID_MPIDR, cpu_parent_node = 1, cpu_lock = None\<rparr>,
        psci_svc_cpu_data := replicate 4 \<lparr>aff_info_state = AFF_STATE_OFF, target_pwrlvl = 3, cpu_local_state = 4\<rparr>\<rparr>)"
    by (subst populate_one) (simp_all add: f s mbind_def init_cpus_run mret_def)
  have levels: "rev [0..<Suc (PLAT_MAX_PWR_LVL e)] = [2, 1, 0]" by (simp add: f upt_rec)
  show ?thesis
    unfolding populate_power_domain_tree_def levels
    by (simp add: mbind_def top mid low f c_assert_def mret_def del: One_nat_def)
qed

lemma update_limits_run:
  assumes "on_port (imx8mq_port b fq) e"
    and "psci_non_cpu_pd_nodes s = [imx_node 2 p 4 0 0 0, imx_node 1 0 4 0 0 1, x, y]"
    "psci_cpu_pd_nodes s = replicate 4 \<lparr>node_mpidr = m, cpu_parent_node = 1, cpu_lock = None\<rparr>"
  shows "psci_update_pwrlvl_limits e s = Ret () (s\<lparr>psci_non_cpu_pd_nodes := [imx_node 2 p 4 0 4 0, imx_node 1 0 4 0 4 1, x, y]\<rparr>)"
proof -
  note f = imx_fields [OF assms(1)]
  have one: "update_limits_of_cpu e c [a, d] (s\<lparr>psci_non_cpu_pd_nodes := [imx_node 2 p 4 k n 0, imx_node 1 0 4 k' n' 1, x, y]\<rparr>) =
     Ret [1, 0] (s\<lparr>psci_non_cpu_pd_nodes := [imx_node 2 p 4 (if d = 0 then k else c) (Suc n) 0, imx_node 1 0 4 (if a = 1 then k' else c) (Suc n') 1, x, y]\<rparr>)"
    if "c < 4" for c a d k n k' n'
    using that assms(3) by (cases "a = 1"; simp add: update_limits_of_cpu_def f upt_rec psci_get_parent_pwr_domain_nodes_def cpu_node_parent_def non_cpu_parent_node_def mbind_def prog_simps mwhen_def)
  have lists: "[0..<4] = [0, 1, 2, 3]" "replicate 2 (0::nat) = [0, 0]" by (simp_all add: upt_rec numeral_2_eq_2)
  have s: "s = s\<lparr>psci_non_cpu_pd_nodes := [imx_node 2 p 4 0 0 0, imx_node 1 0 4 0 0 1, x, y]\<rparr>" using assms(2) by simp
  have "psci_update_pwrlvl_limits e (s\<lparr>psci_non_cpu_pd_nodes := [imx_node 2 p 4 0 0 0, imx_node 1 0 4 0 0 1, x, y]\<rparr>) =
      Ret () (s\<lparr>psci_non_cpu_pd_nodes := [imx_node 2 p 4 0 4 0, imx_node 1 0 4 0 4 1, x, y]\<rparr>)"
    unfolding psci_update_pwrlvl_limits_def f lists
    by (simp add: mbind_def one mret_def del: One_nat_def)
  then show ?thesis using s by metis
qed

lemma domains_to_run_run:
  assumes port: "on_port (imx8mq_port b fq) e" and c: "plat_my_core_pos e = 0"
    and s: "psci_non_cpu_pd_nodes s = [imx_node 2 p 4 0 4 0, imx_node 1 0 4 0 4 1, x, y]"
      "psci_cpu_pd_nodes s = cpu # cpus" "cpu_parent_node cpu = 1" "psci_svc_cpu_data s = d # ds"
      "psci_req_local_pwr_states s = [r # rs, r' # rs']" "length (r # rs) = 4" "length (r' # rs') = 4"
  shows "psci_set_pwr_domains_to_run e 2 s = Ret () (s
    \<lparr>psci_non_cpu_pd_nodes := [imx_node 2 p 0 0 4 0, imx_node 1 0 0 0 4 1, x, y],
     psci_req_local_pwr_states := [0 # rs, 0 # rs'],
     psci_svc_cpu_data := d\<lparr>aff_info_state := AFF_STATE_ON, cpu_local_state := 0\<rparr> # ds\<rparr>)"
proof -
  have "[1..<Suc 2] = [1, 2]" by (simp add: upt_rec)
  then show ?thesis
    using s imx_fields [OF port]
    by (simp add: psci_set_pwr_domains_to_run_def c cpu_node_parent_def non_cpu_parent_node_def
      set_non_cpu_pd_node_local_state_def psci_set_req_local_pwr_state_def psci_set_aff_info_state_def psci_set_aff_info_state_by_idx_def
      psci_set_cpu_local_state_def mbind_def prog_simps c_assert_def del: upt_Suc)
qed

section \<open>The state after the set-up\<close>

text \<open>The state after a cold boot on core 0: the tree, and only core 0 on.\<close>

definition imx_booted :: "'w cpu_env \<Rightarrow> 'w plat_psci_ops_t \<Rightarrow> 'w \<Rightarrow> 'w psci_state \<Rightarrow> bool" where
  "imx_booted e ops w t \<longleftrightarrow>
     psci_non_cpu_pd_nodes t = [imx_node 2 0xffffffff 0 0 4 0, imx_node 1 0 0 0 4 1, imx_node 0 0 0 0 0 0, imx_node 0 0 0 0 0 0] \<and>
     psci_cpu_pd_nodes t = (replicate 4 \<lparr>node_mpidr = PSCI_INVALID_MPIDR, cpu_parent_node = 1, cpu_lock = None\<rparr>)
        [0 := \<lparr>node_mpidr = mpidr_el1 e AND 0xff00ffffff, cpu_parent_node = 1, cpu_lock = None\<rparr>] \<and>
     psci_svc_cpu_data t = (replicate 4 \<lparr>aff_info_state = AFF_STATE_OFF, target_pwrlvl = 3, cpu_local_state = 4\<rparr>)
        [0 := \<lparr>aff_info_state = AFF_STATE_ON, target_pwrlvl = 3, cpu_local_state = 0\<rparr>] \<and>
     psci_req_local_pwr_states t = replicate 2 ((replicate 4 4)[0 := 0]) \<and>
     psci_locks t = replicate 4 None \<and> psci_ns_context t = replicate 4 None \<and>
     psci_plat_pm_ops t = ops \<and> psci_spd_pm t = None \<and> psci_caps t = psci_setup_caps e ops \<and> world t = w"

lemma psci_setup_run:
  assumes port: "on_port (imx8mq_port b fq) e" and c: "plat_my_core_pos e = 0"
    and args: "verify_psci_lib_args_v1 args" and st: "setup_ops (mailbox_ep args) w = Ret ops w'"
  shows "\<exists>t. psci_setup e setup_ops args (zeroed_psci_state e ops0 w) = Ret 0 t \<and> imx_booted e ops w' t"
proof -
  note f = imx_fields [OF port]
  let ?z = "zeroed_psci_state e ops0 w"
  let ?n = "\<lambda>st k. [imx_node 2 0xffffffff st 0 k 0, imx_node 1 0 st 0 k 1, imx_node 0 0 0 0 0 0, imx_node 0 0 0 0 0 0]"
  let ?cpus = "replicate 4 \<lparr>node_mpidr = PSCI_INVALID_MPIDR, cpu_parent_node = 1, cpu_lock = None\<rparr>"
  let ?svc = "replicate 4 \<lparr>aff_info_state = AFF_STATE_OFF, target_pwrlvl = 3, cpu_local_state = 4\<rparr>"
  define t0 where "t0 = ?z\<lparr>arch_log := [Ev_write_cntfrq_el0 (plat_syscnt_freq2 e), Ev_init_cpu_ops, Ev_print_errata_status]\<rparr>"
  define t1 where "t1 = t0\<lparr>psci_non_cpu_pd_nodes := ?n 4 0, psci_cpu_pd_nodes := ?cpus, psci_svc_cpu_data := ?svc\<rparr>"
  define t2 where "t2 = t1\<lparr>psci_non_cpu_pd_nodes := ?n 4 4\<rparr>"
  have z: "arch_log ?z = []" "world ?z = w" by (simp_all add: zeroed_psci_state_def)
  have arch: "psci_arch_setup e ?z = Ret () t0"
    by (simp add: psci_arch_setup_def mbind_def emit_run z t0_def)
  have tree: "populate_power_domain_tree e [1, 1, 4, 4] t0 = Ret () t1"
    unfolding t1_def by (rule populate_tree_run [OF port]) (simp_all add: zeroed_psci_state_def f t0_def)
  have lim: "psci_update_pwrlvl_limits e t1 = Ret () t2"
    unfolding t2_def by (rule update_limits_run [OF port]) (simp_all add: t1_def)
  have t2: "psci_non_cpu_pd_nodes t2 = ?n 4 4" "psci_cpu_pd_nodes t2 = ?cpus" "psci_svc_cpu_data t2 = ?svc"
    "psci_locks t2 = replicate 4 None" "psci_ns_context t2 = replicate 4 None" "psci_spd_pm t2 = None" "world t2 = w"
    by (simp_all add: t2_def t1_def t0_def zeroed_psci_state_def f)
  have "psci_setup e setup_ops args ?z =
    mbind (psci_set_pwr_domains_to_run e 2) (\<lambda>_.
     mbind (lift_world (setup_ops (mailbox_ep args))) (\<lambda>ops.
     mbind (mmodify (\<lambda>s. s\<lparr>psci_plat_pm_ops := ops, psci_caps := psci_setup_caps e ops\<rparr>)) (\<lambda>_.
     mret 0))) (t2\<lparr>psci_cpu_pd_nodes := (psci_cpu_pd_nodes t2)
              [0 := (psci_cpu_pd_nodes t2 ! 0)\<lparr>node_mpidr := mpidr_el1 e AND 0xff00ffffff\<rparr>],
           psci_req_local_pwr_states := replicate 2 (replicate 4 4)\<rparr>)"
    using args
    by (simp add: psci_setup_def f(1-8) mbind_def [of "psci_arch_setup e"] arch mbind_def [of "populate_power_domain_tree e [1, 1, 4, 4]"]
       tree mbind_def [of "psci_update_pwrlvl_limits e"] lim c psci_init_req_local_pwr_states_def t2(2) del: One_nat_def)
  then show ?thesis
    by (simp add: mbind_def domains_to_run_run [OF port c] t2 lists4 lift_world_def st prog_simps imx_booted_def)
qed

lemma booted_ancestor:
  assumes "imx_booted e ops w t" "c < 4"
  shows "ancestor t c (Suc 0) = 1" "ancestor t c 2 = 0"
  using assms by (simp_all add: imx_booted_def nth_list_update numeral_2_eq_2)

lemma booted_inv:
  assumes t: "imx_booted e ops w t" and port: "on_port (imx8mq_port b fq) e"
  shows "psci_inv e t (\<lambda>c. if c = 0 then Running else Down)"
proof -
  note f = imx_fields [OF port] and a = booted_ancestor [OF t]
  have lvl: "l = Suc 0 \<or> l = 2" if "l \<in> {1..2}" for l :: nat using that by auto
  have lvl0: "l < 2 \<longleftrightarrow> l = 0 \<or> l = 1" for l :: nat by auto
  have n: "psci_non_cpu_pd_nodes t =
      [imx_node 2 0xffffffff 0 0 4 0, imx_node 1 0 0 0 4 1, imx_node 0 0 0 0 0 0, imx_node 0 0 0 0 0 0]"
    and p: "\<And>c. c < 4 \<Longrightarrow> cpu_parent_node (psci_cpu_pd_nodes t ! c) = Suc 0"
    using t by (simp_all add: imx_booted_def nth_list_update)
  have path: "wf_path e (psci_cpu_pd_nodes t) (psci_non_cpu_pd_nodes t) c l" if "c < 4" "l \<in> {1..2}" for c l
    using lvl [OF that(2)] that(1) p a(2) by (auto simp: wf_path_def f in_domain_def n)
  then have "wf_tree e t"
    using t by (auto simp: wf_tree_def f imx_booted_def lvl0)
  moreover have "dom_ok e t"
    unfolding dom_ok_def f
  proof (intro allI impI ballI)
    fix c l :: nat assume "c < 4" "l \<in> {1..2}"
    then have "local_state (psci_non_cpu_pd_nodes t ! ancestor t c l) = 0"
      using lvl [of l] p [of c] a(2) [of c] by (auto simp: n)
    then show "local_state (psci_non_cpu_pd_nodes t ! ancestor t c l) \<le> psci_req_local_pwr_states t ! (l - 1) ! c" by simp
  qed
  moreover have "unlocked t"
    using t by (simp add: unlocked_def imx_booted_def nth_list_update)
  moreover have "cpu_ok e t c (if c = 0 then Running else Down)" if "c < 4" for c
    using t that by (auto simp: cpu_ok_def f imx_booted_def lvl0 nth_list_update)
  ultimately show ?thesis by (simp add: psci_inv_def f)
qed

section \<open>The cold boot\<close>

lemma imx_setup_ops_run: 
  "imx_plat_setup_psci_ops a w = Ret imx_plat_psci_ops (w\<lparr>imx_log := imx_log w @ [Imx_mailbox_init a]\<rparr>)"
  by (simp add: imx_plat_setup_psci_ops_def imx_emit_def prog_simps)

lemma imx_ok_log: "imx_ok (w\<lparr>imx_log := l\<rparr>) = imx_ok w"
  by (simp add: imx_ok_def)

definition boot_phases :: "nat \<Rightarrow> cpu_phase" where
  "boot_phases c = (if c = 0 then Running else Down)"

lemma cold_boot_run:
  assumes port: "on_port (imx8mq_port b fq) e" and c: "plat_my_core_pos e = 0" and args: "verify_psci_lib_args_v1 args"
  obtains t where "psci_setup e imx_plat_setup_psci_ops args (zeroed_psci_state e ops0 w) = Ret 0 t"
    "imx_booted e imx_plat_psci_ops (w\<lparr>imx_log := imx_log w @ [Imx_mailbox_init (mailbox_ep args)]\<rparr>) t"
  using psci_setup_run [where setup_ops = imx_plat_setup_psci_ops, OF assms imx_setup_ops_run] by blast

lemma cold_boot_sys_ok:
  assumes port: "on_port (imx8mq_port b fq) e" and c: "plat_my_core_pos e = 0"
    and args: "verify_psci_lib_args_v1 args" and w: "imx_ok w"
    and run: "psci_setup e imx_plat_setup_psci_ops args (zeroed_psci_state e ops0 w) = Ret v t"
  shows "imx_nospd.sys_ok b fq (t, boot_phases)"
proof -
  obtain t' where t': "psci_setup e imx_plat_setup_psci_ops args (zeroed_psci_state e ops0 w) = Ret 0 t'"
    "imx_booted e imx_plat_psci_ops (w\<lparr>imx_log := imx_log w @ [Imx_mailbox_init (mailbox_ep args)]\<rparr>) t'"
    by (rule cold_boot_run [OF port c args])
  then have t: "t' = t" using run by simp
  have "psci_inv e t boot_phases"
    using booted_inv [OF t'(2) port] unfolding t boot_phases_def [abs_def] .
  moreover have "psci_plat_pm_ops t = imx_plat_psci_ops" "psci_spd_pm t = None" "imx_ok (world t)"
    using t'(2) w unfolding t by (simp_all add: imx_booted_def imx_ok_log)
  ultimately show ?thesis
    by (simp add: imx_nospd.sys_ok_def imx_nospd.plat_ok_def psci_inv_port [OF port] imx_with_def)
qed

text \<open>The states the cores reach after a cold boot, in a build without a secure payload dispatcher.\<close>

definition imx_cold_boot :: "bool \<Rightarrow> u64 \<Rightarrow> imx_world system \<Rightarrow> bool" where
  "imx_cold_boot b fq x \<longleftrightarrow>
     (\<exists>e args ops0 w v t. on_port (imx8mq_port b fq) e \<and> plat_my_core_pos e = 0 \<and> verify_psci_lib_args_v1 args \<and> imx_ok w \<and>
        psci_setup e imx_plat_setup_psci_ops args (zeroed_psci_state e ops0 w) = Ret v t \<and> x = (t, boot_phases))"

definition imx_reachable :: "bool \<Rightarrow> u64 \<Rightarrow> imx_world system \<Rightarrow> bool" where
  "imx_reachable b fq x \<longleftrightarrow> (\<exists>x0. imx_cold_boot b fq x0 \<and> psci_reachable (imx8mq_port b fq) x0 x)"

lemma imx_reachable_ok:
  assumes "imx_reachable b fq x"
  shows "imx_nospd.sys_ok b fq x"
  using assms unfolding imx_reachable_def imx_cold_boot_def
  by (metis cold_boot_sys_ok imx_nospd.psci_reachable_ok)

lemma imx_reachableD:
  assumes "imx_reachable b fq (s, ph)"
  shows "psci_inv (imx8mq_port b fq) s ph" "psci_plat_pm_ops s = imx_plat_psci_ops" "psci_spd_pm s = None" "imx_ok (world s)"
    "imx_nospd.plat_ok (sp_of s ph) s"
  using imx_reachable_ok [OF assms] by (simp_all add: imx_nospd.sys_ok_def imx_nospd.plat_ok_def imx_with_def)

lemma imx_reachable_ok_on:
  assumes "imx_reachable b fq (s, ph)" "on_core (imx8mq_port b fq) e c"
  shows "imx_nospd.ok e s ph" "wf_tree e s" "unlocked s"
proof -
  show "imx_nospd.ok e s ph"
    using imx_reachable_ok [OF assms(1)] imx_nospd.sys_ok_iff [OF on_coreD(1) [OF assms(2)]] by simp
  then show "wf_tree e s" "unlocked s" using psci_invD(1,3) [OF imx_nospd.okD(1)] by blast+
qed

section \<open>A sample system\<close>

text \<open>A device whose registers clear at once, and its cores, for the concrete instances.\<close>

definition sample_world :: imx_world where
  "sample_world = \<lparr>mmio = (\<lambda>_. 0), mmio_half = (\<lambda>_. 0), mmio_byte = (\<lambda>_. 0), device = (\<lambda>_ _. 0), poll_limit = 2,
     is_pcie1_power_down = False, gpc_saved_imrs = replicate 16 0, gpc_wake_irqs = replicate 4 0, imx_log = []\<rparr>"

definition sample_env :: "nat \<Rightarrow> 'w cpu_env" where
  "sample_env c = \<lparr>PLATFORM_CORE_COUNT = 4, PLAT_MAX_PWR_LVL = 2, PSCI_NUM_PWR_DOMAINS = 8,
      PLAT_MAX_RET_STATE = 1, PLAT_MAX_OFF_STATE = 4, PLAT_MAX_PWR_LVL_STATES = 2,
      ENABLE_ASSERTIONS = True, ENABLE_PSCI_STAT = False, HW_ASSISTED_COHERENCY = False,
      WARMBOOT_ENABLE_DCACHE_EARLY = False, plat_power_domain_tree_desc = imx_power_domain_tree_desc,
      plat_core_pos_by_mpidr = imx_plat_core_pos_by_mpidr, plat_syscnt_freq2 = 8333333,
      plat_my_core_pos = c, mpidr_el1 = 0x80000000 OR of_nat c, isr_el1 = 0, scr_el3 = 0x501, sctlr_el1 = 0, sctlr_el2 = 0,
      cntfrq_el0 = 8333333, enter_ts = 0, exit_ts = 0, uninit_power_state = [0, 0, 0], wfi_others = id\<rparr>"

definition sample_args :: psci_lib_args_t where
  "sample_args = \<lparr>h_type = 6, h_version = 1, h_size = 16, h_attr = 0, mailbox_ep = 0x910000\<rparr>"

lemma sample_env_port: "on_core (imx8mq_port True 8333333) (sample_env c) c \<longleftrightarrow> c < 4"
  by (simp add: on_core_def on_port_def env_ok_def sample_env_def imx8mq_port_def plat_port.truncate_def)

lemma sample_world_ok: "imx_ok sample_world"
  by (auto simp: sample_world_def imx_ok_def self_clearing_def intro!: exI [of _ "1"])

definition sample_core :: "nat \<Rightarrow> imx_world cpu_env" where
  "sample_core = sample_env"

lemma sample_boot:
  "on_port (imx8mq_port True 8333333) (sample_core 0)" "plat_my_core_pos (sample_core 0) = 0" "verify_psci_lib_args_v1 sample_args"
  using on_coreD(1,3) [OF sample_env_port [THEN iffD2, of 0]]
  by (simp_all add: sample_core_def verify_psci_lib_args_v1_def sample_args_def)

text \<open>The state after a cold boot of the sample system.\<close>

definition sample_booted :: "imx_world psci_state" where
  "sample_booted =
     (let s0 = zeroed_psci_state (sample_core 0) imx_plat_psci_ops sample_world
      in case psci_setup (sample_core 0) imx_plat_setup_psci_ops sample_args s0 of Ret _ t \<Rightarrow> t | Stop _ t \<Rightarrow> t)"

lemma sample_core_simps [simp]:
  "PLATFORM_CORE_COUNT (sample_core c) = 4" "PLAT_MAX_PWR_LVL (sample_core c) = 2" "PSCI_NUM_PWR_DOMAINS (sample_core c) = 8"
  "plat_my_core_pos (sample_core c) = c" "plat_core_pos_by_mpidr (sample_core c) = imx_plat_core_pos_by_mpidr"
  "PLAT_MAX_OFF_STATE (sample_core c) = 4" "PLAT_MAX_RET_STATE (sample_core c) = 1" "isr_el1 (sample_core c) = 0"
  "scr_el3 (sample_core c) = 0x501" "sctlr_el2 (sample_core c) = 0" "ENABLE_ASSERTIONS (sample_core c) = True"
  "wfi_others (sample_core c) = id"
  by (simp_all add: sample_core_def sample_env_def)

lemma sample_core_on: "c < 4 \<Longrightarrow> on_core (imx8mq_port True 8333333) (sample_core c) c"
  by (simp add: sample_core_def sample_env_port)

lemma sample_setup:
  "psci_setup (sample_core 0) imx_plat_setup_psci_ops sample_args
     (zeroed_psci_state (sample_core 0) imx_plat_psci_ops sample_world) = Ret 0 sample_booted \<and>
   imx_booted (sample_core 0) imx_plat_psci_ops (sample_world\<lparr>imx_log := [Imx_mailbox_init 0x910000]\<rparr>) sample_booted"
proof -
  obtain t where t: "psci_setup (sample_core 0) imx_plat_setup_psci_ops sample_args
      (zeroed_psci_state (sample_core 0) imx_plat_psci_ops sample_world) = Ret 0 t"
    "imx_booted (sample_core 0) imx_plat_psci_ops
       (sample_world\<lparr>imx_log := imx_log sample_world @ [Imx_mailbox_init (mailbox_ep sample_args)]\<rparr>) t"
    by (rule cold_boot_run [OF sample_boot])
  then have "sample_booted = t" by (simp add: sample_booted_def)
  with t show ?thesis by (simp add: sample_args_def sample_world_def)
qed

lemmas sample_booted_ok = sample_setup [THEN conjunct2]

lemma sample_inv: "psci_inv (sample_core 0) sample_booted boot_phases"
  using booted_inv [OF sample_booted_ok sample_boot(1)] unfolding boot_phases_def [abs_def] .

lemmas sample_tree = psci_invD [OF sample_inv]

lemma sample_reachable: "imx_reachable True 8333333 (sample_booted, boot_phases)"
  unfolding imx_reachable_def imx_cold_boot_def
  using sample_boot sample_world_ok sample_setup [THEN conjunct1] reach_init by blast

end
