(* ===== verification/Interrupt_Mgmt.thy ===== *)
theory Interrupt_Mgmt
  imports Prelude
begin

text \<open>
  \<^verbatim>\<open>bl31/interrupt_mgmt.c\<close>, the helpers of \<^verbatim>\<open>include/bl31/interrupt_mgmt.h\<close>,
  \<^verbatim>\<open>plat_interrupt_type_to_line\<close> of \<^verbatim>\<open>plat/common/plat_gicv3.c\<close> and \<^verbatim>\<open>cm_write_scr_el3_bit\<close> of
  \<^verbatim>\<open>lib/el3_runtime/aarch64/context_mgmt.c\<close>: the table of interrupt handlers and the routing of
  every interrupt type, cached in the table and written to the IRQ and FIQ bits of SCR\_EL3 in the
  saved context of each security state. A state is the table and, for the executing core, the
  SCR\_EL3 of the context of each security state (\<open>None\<close> before the context exists). The theory shows
  that a registration routes the interrupt as its flags ask and that no operation leaves the
  cached and the saved routing apart. \<open>dbg\<close> is the build option \<^verbatim>\<open>ENABLE_ASSERTIONS\<close>.
\<close>

section \<open>State\<close>

abbreviation INTR_TYPE_S_EL1 :: u32 where "INTR_TYPE_S_EL1 \<equiv> 0"
abbreviation INTR_TYPE_EL3 :: u32 where "INTR_TYPE_EL3 \<equiv> 1"
abbreviation INTR_TYPE_NS :: u32 where "INTR_TYPE_NS \<equiv> 2"
abbreviation SECURE :: u32 where "SECURE \<equiv> 0"
abbreviation NON_SECURE :: u32 where "NON_SECURE \<equiv> 1"
abbreviation EINVAL :: int where "EINVAL \<equiv> 22"
abbreviation EALREADY :: int where "EALREADY \<equiv> 37"
abbreviation INTR_DEFAULT_RM :: u32 where "INTR_DEFAULT_RM \<equiv> 0"

record 'h intr_type_desc_t =
  intr_handler :: "'h option"
  intr_flags :: u32
  intr_scr_el3 :: "u32 list"

record 'h intr_state =
  intr_type_descs :: "'h intr_type_desc_t list"
  context_scr_el3 :: "u32 \<Rightarrow> u32 option"

section \<open>Operations\<close>

definition validate_sel1_interrupt_rm :: "u32 \<Rightarrow> int" where
  "validate_sel1_interrupt_rm x = (if x = 2 \<or> x = 3 then 0 else - EINVAL)"

definition validate_ns_interrupt_rm :: "u32 \<Rightarrow> int" where
  "validate_ns_interrupt_rm x = (if x = 0 \<or> x = 1 then 0 else - EINVAL)"

definition validate_el3_interrupt_rm :: "u32 \<Rightarrow> int" where
  "validate_el3_interrupt_rm x = (if x = 2 \<or> x = 3 then 0 else - EINVAL)"

definition validate_interrupt_type :: "u32 \<Rightarrow> int" where
  "validate_interrupt_type type =
     (if type = INTR_TYPE_S_EL1 \<or> type = INTR_TYPE_NS \<or> type = INTR_TYPE_EL3 then 0 else - EINVAL)"

definition validate_routing_model :: "u32 \<Rightarrow> u32 \<Rightarrow> int" where
  "validate_routing_model type flags =
     (let rm_flags = drop_bit 0 flags AND 3
      in if type = INTR_TYPE_S_EL1 then validate_sel1_interrupt_rm rm_flags
         else if type = INTR_TYPE_NS then validate_ns_interrupt_rm rm_flags
         else if type = INTR_TYPE_EL3 then validate_el3_interrupt_rm rm_flags
         else - EINVAL)"

definition get_interrupt_rm_flag :: "u32 \<Rightarrow> u32 \<Rightarrow> u32" where
  "get_interrupt_rm_flag flag ss = drop_bit (unat ss) (drop_bit 0 flag) AND 1"

definition set_interrupt_rm_flag :: "u32 \<Rightarrow> u32 \<Rightarrow> u32" where
  "set_interrupt_rm_flag flag ss = flag OR push_bit (unat ss) 1"

definition plat_interrupt_type_to_line :: "bool \<Rightarrow> u32 \<Rightarrow> u32 \<Rightarrow> ('s, nat) prog" where
  "plat_interrupt_type_to_line dbg type security_state =
     mbind (dbg_assert dbg (type = INTR_TYPE_S_EL1 \<or> type = INTR_TYPE_EL3 \<or> type = INTR_TYPE_NS)) (\<lambda>_.
     mbind (dbg_assert dbg (security_state \<le> NON_SECURE)) (\<lambda>_.
     if type = INTR_TYPE_S_EL1 then mret (if security_state = SECURE then 1 else 2)
     else if type = INTR_TYPE_NS then mret (if security_state = SECURE then 2 else 1)
     else if type = INTR_TYPE_EL3 then mret 2
     else mstop Panicked))"

definition cm_write_scr_el3_bit :: "bool \<Rightarrow> u32 \<Rightarrow> nat \<Rightarrow> u32 \<Rightarrow> ('h intr_state, unit) prog" where
  "cm_write_scr_el3_bit dbg security_state bit_pos value =
     mbind (mget (\<lambda>s. context_scr_el3 s security_state)) (\<lambda>ctx.
     mbind (dbg_assert dbg (ctx \<noteq> None)) (\<lambda>_.
     mbind (dbg_assert dbg (push_bit bit_pos (1 :: u32) AND 0x2f8f \<noteq> 0)) (\<lambda>_.
     mbind (dbg_assert dbg (value \<le> 1)) (\<lambda>_.
     case ctx of
       None \<Rightarrow> mstop Null_pointer
     | Some scr_el3 \<Rightarrow>
         mmodify (\<lambda>s. s\<lparr>context_scr_el3 := (context_scr_el3 s)
           (security_state \<mapsto> (scr_el3 AND NOT (push_bit bit_pos 1)) OR push_bit bit_pos value)\<rparr>)))))"

definition get_scr_el3_from_routing_model :: "bool \<Rightarrow> u32 \<Rightarrow> ('h intr_state, u32) prog" where
  "get_scr_el3_from_routing_model dbg security_state =
     mbind (dbg_assert dbg (security_state \<le> NON_SECURE)) (\<lambda>_.
     mbind (mget intr_type_descs) (\<lambda>descs.
     mbind (array_get descs 2) (\<lambda>ns. mbind (array_get (intr_scr_el3 ns) (unat security_state)) (\<lambda>a.
     mbind (array_get descs 0) (\<lambda>sel1. mbind (array_get (intr_scr_el3 sel1) (unat security_state)) (\<lambda>b.
     mbind (array_get descs 1) (\<lambda>el3. mbind (array_get (intr_scr_el3 el3) (unat security_state)) (\<lambda>c.
     mret ((a OR b) OR c)))))))))"

definition set_scr_el3_from_rm :: "bool \<Rightarrow> u32 \<Rightarrow> u32 \<Rightarrow> u32 \<Rightarrow> ('h intr_state, unit) prog" where
  "set_scr_el3_from_rm dbg type interrupt_type_flags security_state =
     (let flag = get_interrupt_rm_flag interrupt_type_flags security_state
      in mbind (plat_interrupt_type_to_line dbg type security_state) (\<lambda>bit_pos.
         mbind (mget intr_type_descs) (\<lambda>descs.
         mbind (array_get descs (unat type)) (\<lambda>d.
         mbind (array_check (intr_scr_el3 d) (unat security_state)) (\<lambda>_.
         mbind (mmodify (\<lambda>s. s\<lparr>intr_type_descs := (intr_type_descs s)[unat type :=
                  d\<lparr>intr_scr_el3 := (intr_scr_el3 d)[unat security_state := push_bit bit_pos flag]\<rparr>]\<rparr>)) (\<lambda>_.
         mbind (mget (\<lambda>s. context_scr_el3 s security_state)) (\<lambda>ctx.
         mwhen (ctx \<noteq> None) (cm_write_scr_el3_bit dbg security_state bit_pos flag))))))))"

definition set_routing_model :: "bool \<Rightarrow> u32 \<Rightarrow> u32 \<Rightarrow> ('h intr_state, int) prog" where
  "set_routing_model dbg type flags =
     (if validate_interrupt_type type \<noteq> 0 then mret (validate_interrupt_type type)
      else if validate_routing_model type flags \<noteq> 0 then mret (validate_routing_model type flags)
      else
        mbind (mget intr_type_descs) (\<lambda>descs.
        mbind (array_get descs (unat type)) (\<lambda>d.
        mbind (mmodify (\<lambda>s. s\<lparr>intr_type_descs := (intr_type_descs s)[unat type := d\<lparr>intr_flags := flags\<rparr>]\<rparr>)) (\<lambda>_.
        mbind (set_scr_el3_from_rm dbg type flags SECURE) (\<lambda>_.
        mbind (set_scr_el3_from_rm dbg type flags NON_SECURE) (\<lambda>_.
        mret 0))))))"

definition disable_intr_rm_local :: "bool \<Rightarrow> u32 \<Rightarrow> u32 \<Rightarrow> ('h intr_state, int) prog" where
  "disable_intr_rm_local dbg type security_state =
     mbind (mget intr_type_descs) (\<lambda>descs.
     mbind (array_get descs (unat type)) (\<lambda>d.
     mbind (dbg_assert dbg (intr_handler d \<noteq> None)) (\<lambda>_.
     let flag = get_interrupt_rm_flag INTR_DEFAULT_RM security_state
     in mbind (plat_interrupt_type_to_line dbg type security_state) (\<lambda>bit_pos.
        mbind (cm_write_scr_el3_bit dbg security_state bit_pos flag) (\<lambda>_.
        mret 0)))))"

definition enable_intr_rm_local :: "bool \<Rightarrow> u32 \<Rightarrow> u32 \<Rightarrow> ('h intr_state, int) prog" where
  "enable_intr_rm_local dbg type security_state =
     mbind (mget intr_type_descs) (\<lambda>descs.
     mbind (array_get descs (unat type)) (\<lambda>d.
     mbind (dbg_assert dbg (intr_handler d \<noteq> None)) (\<lambda>_.
     let flag = get_interrupt_rm_flag (intr_flags d) security_state
     in mbind (plat_interrupt_type_to_line dbg type security_state) (\<lambda>bit_pos.
        mbind (cm_write_scr_el3_bit dbg security_state bit_pos flag) (\<lambda>_.
        mret 0)))))"

definition register_interrupt_type_handler :: "bool \<Rightarrow> u32 \<Rightarrow> 'h option \<Rightarrow> u32 \<Rightarrow> ('h intr_state, int) prog" where
  "register_interrupt_type_handler dbg type handler flags =
     (if handler = None then mret (- EINVAL)
      else if flags AND 0xFFFFFFFC \<noteq> 0 then mret (- EINVAL)
      else
        mbind (mget intr_type_descs) (\<lambda>descs.
        mbind (array_get descs (unat type)) (\<lambda>d.
        if intr_handler d \<noteq> None then mret (- EALREADY)
        else
          mbind (set_routing_model dbg type flags) (\<lambda>rc.
          if rc \<noteq> 0 then mret rc
          else
            mbind (mmodify (\<lambda>s. s\<lparr>intr_type_descs := (intr_type_descs s)[unat type :=
                     (intr_type_descs s ! unat type)\<lparr>intr_handler := handler\<rparr>]\<rparr>)) (\<lambda>_.
            mret 0)))))"

definition get_interrupt_type_handler :: "u32 \<Rightarrow> ('h intr_state, 'h option) prog" where
  "get_interrupt_type_handler type =
     (if validate_interrupt_type type \<noteq> 0 then mret None
      else
        mbind (mget intr_type_descs) (\<lambda>descs.
        mbind (array_get descs (unat type)) (\<lambda>d. mret (intr_handler d))))"

section \<open>Routing\<close>

text \<open>
  The invariant of the table: three entries with two SCR values each, every cached SCR value is the
  one the flags of the entry ask for, and the flags of an entry with a handler are a valid model.
\<close>

definition rm_line :: "u32 \<Rightarrow> u32 \<Rightarrow> nat" where
  "rm_line type ss = (if type = INTR_TYPE_S_EL1 \<and> ss = SECURE \<or> type = INTR_TYPE_NS \<and> ss \<noteq> SECURE then 1 else 2)"

definition desc_ok :: "u32 \<Rightarrow> 'h intr_type_desc_t \<Rightarrow> bool" where
  "desc_ok type d \<longleftrightarrow>
     intr_scr_el3 d = [push_bit (rm_line type SECURE) (get_interrupt_rm_flag (intr_flags d) SECURE),
                       push_bit (rm_line type NON_SECURE) (get_interrupt_rm_flag (intr_flags d) NON_SECURE)] \<and>
     (intr_handler d \<noteq> None \<longrightarrow> intr_flags d AND 0xFFFFFFFC = 0 \<and> validate_routing_model type (intr_flags d) = 0)"

definition intr_inv :: "'h intr_state \<Rightarrow> bool" where
  "intr_inv s \<longleftrightarrow>
     length (intr_type_descs s) = 3 \<and>
     (\<forall>t \<in> {INTR_TYPE_S_EL1, INTR_TYPE_EL3, INTR_TYPE_NS}. desc_ok t (intr_type_descs s ! unat t))"

lemmas intr_defs = dbg_assert_def set_routing_model_def set_scr_el3_from_rm_def
  plat_interrupt_type_to_line_def cm_write_scr_el3_bit_def Let_def

lemma rm_flag_le1: "get_interrupt_rm_flag f ss \<le> 1"
  unfolding get_interrupt_rm_flag_def by (metis and.commute word_and_le1)

lemma intr_type_cases:
  assumes "validate_interrupt_type t = 0"
  obtains "t = INTR_TYPE_S_EL1" | "t = INTR_TYPE_EL3" | "t = INTR_TYPE_NS"
  using assms by (auto simp: validate_interrupt_type_def split: if_splits)

lemma line_valid: "push_bit (rm_line type ss) (1 :: u32) AND 0x2f8f \<noteq> 0"
  by (simp add: rm_line_def push_bit_eq_mult)

lemma to_line_run:
  "validate_interrupt_type type = 0 \<Longrightarrow> ss \<le> NON_SECURE \<Longrightarrow>
     plat_interrupt_type_to_line dbg type ss = mret (rm_line type ss)"
  by (auto simp: plat_interrupt_type_to_line_def validate_interrupt_type_def dbg_assert_def rm_line_def
      split: if_splits)

text \<open>The SCR value of a context after its bit \<open>n\<close> has been written.\<close>

definition scr_bit :: "nat \<Rightarrow> u32 \<Rightarrow> u32 option \<Rightarrow> u32 option" where
  "scr_bit n v = map_option (\<lambda>scr. (scr AND NOT (push_bit n 1)) OR push_bit n v)"

lemma set_scr_run:
  assumes "validate_interrupt_type type = 0" "ss \<le> NON_SECURE" "length (intr_type_descs s) = 3"
    "length (intr_scr_el3 (intr_type_descs s ! unat type)) = 2"
  shows "set_scr_el3_from_rm dbg type fl ss s =
    Ret () (s\<lparr>intr_type_descs := (intr_type_descs s)[unat type :=
        (intr_type_descs s ! unat type)\<lparr>intr_scr_el3 := (intr_scr_el3 (intr_type_descs s ! unat type))
          [unat ss := push_bit (rm_line type ss) (get_interrupt_rm_flag fl ss)]\<rparr>],
      context_scr_el3 := (context_scr_el3 s)(ss :=
        scr_bit (rm_line type ss) (get_interrupt_rm_flag fl ss) (context_scr_el3 s ss))\<rparr>)"
proof -
  have t: "unat type < 3" using assms(1) by (rule intr_type_cases) simp_all
  have ss: "unat ss < 2" using assms(2) by (simp add: word_le_nat_alt)
  show ?thesis
    using assms t ss rm_flag_le1 [of fl ss] line_valid [of type ss]
    by (cases "context_scr_el3 s ss")
      (simp_all add: set_scr_el3_from_rm_def to_line_run Let_def cm_write_scr_el3_bit_def dbg_assert_def
        prog_simps scr_bit_def fun_upd_idem)
qed

text \<open>The table entry and the contexts after a routing model has been set.\<close>

definition routed_desc :: "u32 \<Rightarrow> u32 \<Rightarrow> 'h intr_type_desc_t \<Rightarrow> 'h intr_type_desc_t" where
  "routed_desc type fl d = d\<lparr>intr_flags := fl,
     intr_scr_el3 := [push_bit (rm_line type SECURE) (get_interrupt_rm_flag fl SECURE),
                      push_bit (rm_line type NON_SECURE) (get_interrupt_rm_flag fl NON_SECURE)]\<rparr>"

definition routed_contexts :: "u32 \<Rightarrow> u32 \<Rightarrow> (u32 \<Rightarrow> u32 option) \<Rightarrow> (u32 \<Rightarrow> u32 option)" where
  "routed_contexts type fl ctx = ctx
     (SECURE := scr_bit (rm_line type SECURE) (get_interrupt_rm_flag fl SECURE) (ctx SECURE),
      NON_SECURE := scr_bit (rm_line type NON_SECURE) (get_interrupt_rm_flag fl NON_SECURE) (ctx NON_SECURE))"

lemma intr_invD:
  assumes "intr_inv s" "validate_interrupt_type t = 0"
  shows "length (intr_type_descs s) = 3" "unat t < 3" "desc_ok t (intr_type_descs s ! unat t)"
    "length (intr_scr_el3 (intr_type_descs s ! unat t)) = 2"
  using assms(1) by (rule_tac [!] intr_type_cases [OF assms(2)]) (auto simp: intr_inv_def desc_ok_def)

lemma intr_inv_lengths:
  assumes "intr_inv s"
  shows "length (intr_type_descs s) = 3" "\<And>i. i < 3 \<Longrightarrow> length (intr_scr_el3 (intr_type_descs s ! i)) = 2"
proof -
  have "i = 0 \<or> i = 1 \<or> i = 2" if "i < 3" for i :: nat using that by auto
  then show "length (intr_type_descs s) = 3" "\<And>i. i < 3 \<Longrightarrow> length (intr_scr_el3 (intr_type_descs s ! i)) = 2"
    using assms by (fastforce simp: intr_inv_def desc_ok_def)+
qed

lemma set_routing_model_run:
  assumes inv: "intr_inv s" and t: "validate_interrupt_type type = 0" and rm: "validate_routing_model type fl = 0"
  shows "set_routing_model dbg type fl s = Ret 0 (s\<lparr>
    intr_type_descs := (intr_type_descs s)[unat type := routed_desc type fl (intr_type_descs s ! unat type)],
    context_scr_el3 := routed_contexts type fl (context_scr_el3 s)\<rparr>)"
proof -
  note i = intr_invD [OF inv t]
  obtain a b where ab: "intr_scr_el3 (intr_type_descs s ! unat type) = [a, b]"
    using i(3) by (auto simp: desc_ok_def)
  show ?thesis
    using t rm i ab
    by (simp add: set_routing_model_def set_scr_run mbind_def prog_simps routed_desc_def routed_contexts_def)
qed

lemma desc_ok_routed:
  "fl AND 0xFFFFFFFC = 0 \<Longrightarrow> validate_routing_model type fl = 0 \<Longrightarrow>
     desc_ok type ((routed_desc type fl d)\<lparr>intr_handler := h\<rparr>)"
  by (simp add: desc_ok_def routed_desc_def)

lemma intr_inv_upd:
  assumes "intr_inv s" "validate_interrupt_type type = 0" "desc_ok type d"
  shows "intr_inv (s\<lparr>intr_type_descs := (intr_type_descs s)[unat type := d], context_scr_el3 := c\<rparr>)"
  using assms(1,3) by (rule_tac intr_type_cases [OF assms(2)]) (auto simp: intr_inv_def nth_list_update)

text \<open>
  Registering a handler: either an error code and nothing changes, or the handler is in the table,
  its routing is cached and saved, and every other entry is as before.
\<close>

lemma register_run:
  assumes inv: "intr_inv s" and t: "validate_interrupt_type type = 0"
  shows "register_interrupt_type_handler dbg type h fl s =
    (if h = None \<or> fl AND 0xFFFFFFFC \<noteq> 0 then Ret (- EINVAL) s
     else if intr_handler (intr_type_descs s ! unat type) \<noteq> None then Ret (- EALREADY) s
     else if validate_routing_model type fl \<noteq> 0 then Ret (- EINVAL) s
     else Ret 0 (s\<lparr>intr_type_descs := (intr_type_descs s)[unat type :=
              (routed_desc type fl (intr_type_descs s ! unat type))\<lparr>intr_handler := h\<rparr>],
            context_scr_el3 := routed_contexts type fl (context_scr_el3 s)\<rparr>))"
proof (cases "validate_routing_model type fl = 0")
  case True
  then show ?thesis
    using set_routing_model_run [OF inv t True, of dbg] intr_invD [OF inv t]
    by (simp add: register_interrupt_type_handler_def mbind_def prog_simps)
next
  case False
  then have "validate_routing_model type fl = - EINVAL"
    by (auto simp: validate_routing_model_def validate_sel1_interrupt_rm_def validate_ns_interrupt_rm_def
        validate_el3_interrupt_rm_def Let_def split: if_splits)
  then show ?thesis
    using False t intr_invD [OF inv t]
    by (simp add: register_interrupt_type_handler_def set_routing_model_def prog_simps)
qed

lemma register_keeps_inv:
  assumes "intr_inv s" "validate_interrupt_type type = 0"
    "register_interrupt_type_handler dbg type h fl s = Ret rc t"
  shows "intr_inv t"
  using assms intr_inv_upd [OF assms(1,2) desc_ok_routed]
  by (auto simp: register_run split: if_splits)

section \<open>Results\<close>

definition sample_intr :: "unit intr_state" where
  "sample_intr = \<lparr>intr_type_descs = [\<lparr>intr_handler = None, intr_flags = 0, intr_scr_el3 = [0, 0]\<rparr>,
     \<lparr>intr_handler = None, intr_flags = 0, intr_scr_el3 = [0, 0]\<rparr>, \<lparr>intr_handler = None, intr_flags = 0, intr_scr_el3 = [0, 0]\<rparr>],
     context_scr_el3 = (\<lambda>_. Some 0x400)\<rparr>"

lemma sample_intr_inv: "intr_inv sample_intr"
  by (simp add: intr_inv_def sample_intr_def desc_ok_def get_interrupt_rm_flag_def)

lemma rm_flag_bit: "get_interrupt_rm_flag fl ss = of_bool (bit fl (unat ss))"
  by (simp add: get_interrupt_rm_flag_def and_one_eq mod_2_eq_odd bit_iff_odd_drop_bit)

lemma bit_at: "bit (push_bit k 1 :: u32) n \<longleftrightarrow> n = k \<and> k < 32"
  by (auto simp: bit_push_bit_iff bit_1_iff simp del: push_bit_of_1)

lemma scr_with_bit:
  assumes "k < 32" "n < 32"
  shows "bit ((scr AND NOT (push_bit k 1)) OR push_bit k (get_interrupt_rm_flag fl ss)) n \<longleftrightarrow>
     (if n = k then bit fl (unat ss) else bit scr n)"
  using assms by (cases "bit fl (unat ss)") (auto simp: rm_flag_bit bit_or_iff bit_and_iff bit_not_iff bit_at simp del: push_bit_of_1)

lemma register_out_of_bounds:
  assumes "intr_inv s" "validate_interrupt_type type \<noteq> 0" "h \<noteq> None" "fl AND 0xFFFFFFFC = 0"
  shows "register_interrupt_type_handler dbg type h fl s = Stop Out_of_bounds s"
proof -
  have "unat type \<noteq> k" if "type \<noteq> of_nat k" for k using that by auto
  from this [of 0] this [of 1] this [of 2] have "unat type \<noteq> 0 \<and> unat type \<noteq> 1 \<and> unat type \<noteq> 2"
    using assms(2) by (auto simp: validate_interrupt_type_def split: if_splits)
  then have "3 \<le> unat type" by linarith
  then show ?thesis
    using assms(3,4) intr_inv_lengths(1) [OF assms(1)]
    by (simp add: register_interrupt_type_handler_def mbind_def prog_simps)
qed

text \<open>
  C24. Registering an interrupt handler, on every branch. Without a handler, or with flags outside the
  routing model, the answer is EINVAL; a type that is none of the three is not refused, it leaves the
  array of the types, which is read before the type is validated; for a type that has a handler
  already the answer is EALREADY, and for a routing model the type does not allow EINVAL. In all these
  cases nothing changes. Otherwise the answer is 0, the handler is recorded, the other types keep
  theirs, the routing is cached in the table and written to the saved SCR of both security states,
  bit by bit as the flags ask, and the invariant of the table holds again.
\<close>

theorem register_interrupt_handler_spec:
  assumes inv: "intr_inv s"
  shows "if h = None \<or> fl AND 0xFFFFFFFC \<noteq> 0 then register_interrupt_type_handler dbg type h fl s = Ret (- EINVAL) s
     else if type \<notin> {INTR_TYPE_S_EL1, INTR_TYPE_EL3, INTR_TYPE_NS} then register_interrupt_type_handler dbg type h fl s = Stop Out_of_bounds s
     else if intr_handler (intr_type_descs s ! unat type) \<noteq> None then register_interrupt_type_handler dbg type h fl s = Ret (- EALREADY) s
     else if validate_routing_model type fl \<noteq> 0 then register_interrupt_type_handler dbg type h fl s = Ret (- EINVAL) s
     else \<exists>s'. register_interrupt_type_handler dbg type h fl s = Ret 0 s' \<and> intr_inv s' \<and>
       get_interrupt_type_handler type s' = Ret h s' \<and>
       (\<forall>t \<in> {INTR_TYPE_S_EL1, INTR_TYPE_EL3, INTR_TYPE_NS}. t \<noteq> type \<longrightarrow>
          intr_type_descs s' ! unat t = intr_type_descs s ! unat t) \<and>
       (\<forall>ss \<in> {SECURE, NON_SECURE}. \<forall>scr. context_scr_el3 s ss = Some scr \<longrightarrow>
          (\<exists>scr'. context_scr_el3 s' ss = Some scr' \<and>
             (\<forall>n < 32. bit scr' n \<longleftrightarrow> (if n = rm_line type ss then bit fl (unat ss) else bit scr n))))"
proof (cases "h = None \<or> fl AND 0xFFFFFFFC \<noteq> 0")
  case True
  then show ?thesis by (auto simp: register_interrupt_type_handler_def mret_def)
next
  case args: False
  show ?thesis
  proof (cases "type \<in> {INTR_TYPE_S_EL1, INTR_TYPE_EL3, INTR_TYPE_NS}")
    case False
    then have "validate_interrupt_type type \<noteq> 0" by (simp add: validate_interrupt_type_def)
    from register_out_of_bounds [OF inv this] show ?thesis using False args by auto
  next
    case True
    then have t: "validate_interrupt_type type = 0" by (auto simp: validate_interrupt_type_def)
    show ?thesis
    proof (cases "intr_handler (intr_type_descs s ! unat type) \<noteq> None \<or> validate_routing_model type fl \<noteq> 0")
      case refused: True
      have c: "(type \<notin> {INTR_TYPE_S_EL1, INTR_TYPE_EL3, INTR_TYPE_NS}) = False"
        "(h = None \<or> fl AND 0xFFFFFFFC \<noteq> 0) = False" using args True by blast+
      show ?thesis
        unfolding c if_False register_run [OF inv t]
        using refused by (cases "intr_handler (intr_type_descs s ! unat type) = None") simp_all
    next
      case False
      let ?s = "s\<lparr>intr_type_descs := (intr_type_descs s)[unat type :=
                  (routed_desc type fl (intr_type_descs s ! unat type))\<lparr>intr_handler := h\<rparr>],
                context_scr_el3 := routed_contexts type fl (context_scr_el3 s)\<rparr>"
      have run: "register_interrupt_type_handler dbg type h fl s = Ret 0 ?s"
        using False args by (simp add: register_run [OF inv t])
      have inv': "intr_inv ?s" by (rule register_keeps_inv [OF inv t run])
      have get: "get_interrupt_type_handler type ?s = Ret h ?s"
        using t intr_invD(1,2) [OF inv t] by (simp add: get_interrupt_type_handler_def mbind_def prog_simps)
      have others: "\<forall>t \<in> {INTR_TYPE_S_EL1, INTR_TYPE_EL3, INTR_TYPE_NS}. t \<noteq> type \<longrightarrow>
          intr_type_descs ?s ! unat t = intr_type_descs s ! unat t"
        using True by (auto simp: nth_list_update)
      have scr: "\<forall>ss \<in> {SECURE, NON_SECURE}. \<forall>scr. context_scr_el3 s ss = Some scr \<longrightarrow>
          (\<exists>scr'. context_scr_el3 ?s ss = Some scr' \<and>
             (\<forall>n < 32. bit scr' n \<longleftrightarrow> (if n = rm_line type ss then bit fl (unat ss) else bit scr n)))"
      proof (intro ballI allI impI)
        fix ss scr assume ss: "ss \<in> {SECURE, NON_SECURE}" "context_scr_el3 s ss = Some scr"
        have k: "rm_line type ss < 32" by (simp add: rm_line_def)
        have "context_scr_el3 ?s ss = Some ((scr AND NOT (push_bit (rm_line type ss) 1)) OR
            push_bit (rm_line type ss) (get_interrupt_rm_flag fl ss))"
          using ss by (auto simp: routed_contexts_def scr_bit_def)
        then show "\<exists>scr'. context_scr_el3 ?s ss = Some scr' \<and>
             (\<forall>n < 32. bit scr' n \<longleftrightarrow> (if n = rm_line type ss then bit fl (unat ss) else bit scr n))"
          using scr_with_bit [OF k] by blast
      qed
      have "\<exists>s'. register_interrupt_type_handler dbg type h fl s = Ret 0 s' \<and> intr_inv s' \<and>
         get_interrupt_type_handler type s' = Ret h s' \<and>
         (\<forall>t \<in> {INTR_TYPE_S_EL1, INTR_TYPE_EL3, INTR_TYPE_NS}. t \<noteq> type \<longrightarrow>
            intr_type_descs s' ! unat t = intr_type_descs s ! unat t) \<and>
         (\<forall>ss \<in> {SECURE, NON_SECURE}. \<forall>scr. context_scr_el3 s ss = Some scr \<longrightarrow>
            (\<exists>scr'. context_scr_el3 s' ss = Some scr' \<and>
               (\<forall>n < 32. bit scr' n \<longleftrightarrow> (if n = rm_line type ss then bit fl (unat ss) else bit scr n))))"
        by (intro exI [of _ ?s] conjI) (fact run inv' get others scr)+
      moreover have "(type \<notin> {INTR_TYPE_S_EL1, INTR_TYPE_EL3, INTR_TYPE_NS}) = False"
        "(h = None \<or> fl AND 0xFFFFFFFC \<noteq> 0) = False" "(intr_handler (intr_type_descs s ! unat type) \<noteq> None) = False"
        "(validate_routing_model type fl \<noteq> 0) = False" using False args True by blast+
      ultimately show ?thesis by (simp only: if_False)
    qed
  qed
qed

theorem register_interrupt_handler_spec_witness:
  "\<exists>s'. register_interrupt_type_handler True INTR_TYPE_S_EL1 (Some ()) 2 sample_intr = Ret 0 s' \<and>
     get_interrupt_type_handler INTR_TYPE_S_EL1 s' = Ret (Some ()) s' \<and>
     (\<exists>scr. context_scr_el3 s' NON_SECURE = Some scr \<and> bit scr 2 \<and> bit scr 10) \<and>
     register_interrupt_type_handler True INTR_TYPE_S_EL1 (Some ()) 1 sample_intr = Ret (- EINVAL) sample_intr \<and>
     register_interrupt_type_handler True 3 (Some ()) 0 sample_intr = Stop Out_of_bounds sample_intr"
proof -
  have rm: "validate_routing_model INTR_TYPE_S_EL1 2 = 0" "validate_routing_model INTR_TYPE_S_EL1 1 \<noteq> 0"
    "(1 :: u32) AND 0xFFFFFFFC = 0"
    by (simp_all add: validate_routing_model_def validate_sel1_interrupt_rm_def)
  have none: "intr_handler (intr_type_descs sample_intr ! unat INTR_TYPE_S_EL1) = None" by (simp add: sample_intr_def)
  have "\<exists>s'. register_interrupt_type_handler True INTR_TYPE_S_EL1 (Some ()) 2 sample_intr = Ret 0 s' \<and>
     get_interrupt_type_handler INTR_TYPE_S_EL1 s' = Ret (Some ()) s' \<and>
     (\<forall>ss \<in> {SECURE, NON_SECURE}. \<forall>scr. context_scr_el3 sample_intr ss = Some scr \<longrightarrow>
        (\<exists>scr'. context_scr_el3 s' ss = Some scr' \<and>
           (\<forall>n < 32. bit scr' n \<longleftrightarrow> (if n = rm_line INTR_TYPE_S_EL1 ss then bit (2 :: u32) (unat ss) else bit scr n))))"
    using register_interrupt_handler_spec [OF sample_intr_inv, of "Some ()" 2 True INTR_TYPE_S_EL1] rm(1) none by auto
  then obtain s' scr where s': "register_interrupt_type_handler True INTR_TYPE_S_EL1 (Some ()) 2 sample_intr = Ret 0 s'"
    "get_interrupt_type_handler INTR_TYPE_S_EL1 s' = Ret (Some ()) s'" "context_scr_el3 s' NON_SECURE = Some scr"
    "\<forall>n < 32. bit scr n \<longleftrightarrow> (if n = rm_line INTR_TYPE_S_EL1 NON_SECURE then bit (2 :: u32) 1 else bit (0x400 :: u32) n)"
    by (auto simp: sample_intr_def)
  have "bit (2 :: u32) 1" "bit (0x400 :: u32) 10" by code_simp+
  then have "bit scr 2" "bit scr 10" using s'(4) [rule_format, of 2] s'(4) [rule_format, of 10] by (simp_all add: rm_line_def)
  moreover have "register_interrupt_type_handler True INTR_TYPE_S_EL1 (Some ()) 1 sample_intr = Ret (- EINVAL) sample_intr"
    using register_interrupt_handler_spec [OF sample_intr_inv, of "Some ()" 1 True INTR_TYPE_S_EL1] rm(2,3) none by simp
  moreover have "register_interrupt_type_handler True 3 (Some ()) 0 sample_intr = Stop Out_of_bounds sample_intr"
    using register_interrupt_handler_spec [OF sample_intr_inv, of "Some ()" 0 True 3] by simp
  ultimately show ?thesis using s' by blast
qed

end
