(* ===== verification/Context_Mgmt.thy ===== *)
theory Context_Mgmt
  imports Psci_Types Interrupt_Mgmt
begin

text \<open>
  The part of \<^verbatim>\<open>lib/el3_runtime/aarch64/context_mgmt.c\<close> that prepares the first entry into a security
  state: the saved context of a core (general purpose registers x0 to x7, the EL3 registers used by
  the exception return, and the EL1 registers the code initialises), and \<^verbatim>\<open>cm_setup_context\<close>. The
  build does not define \<^verbatim>\<open>HANDLE_EA_EL3_FIRST\<close> or \<^verbatim>\<open>FAULT_INJECTION_SUPPORT\<close>. The lemmas read the
  fields of SCR\_EL3 off the entry point and the routing model.
\<close>

record cpu_context_t =
  gpregs :: "u64 list"
  ctx_scr_el3 :: u32
  ctx_elr_el3 :: u64
  ctx_spsr_el3 :: u32
  ctx_sctlr_el1 :: u64
  ctx_actlr_el1 :: u64
  ctx_pmcr_el0 :: u64

definition GET_RW :: "u32 \<Rightarrow> u32" where
  "GET_RW mode = drop_bit 4 mode AND 1"

definition GET_EL :: "u32 \<Rightarrow> u32" where
  "GET_EL mode = drop_bit 2 mode AND 3"

definition GET_M32 :: "u32 \<Rightarrow> u32" where
  "GET_M32 mode = drop_bit 0 mode AND 0xf"

abbreviation SCR_NS_BIT :: u32 where "SCR_NS_BIT \<equiv> 1"
abbreviation SCR_IRQ_BIT :: u32 where "SCR_IRQ_BIT \<equiv> push_bit 1 1"
abbreviation SCR_FIQ_BIT :: u32 where "SCR_FIQ_BIT \<equiv> push_bit 2 1"
abbreviation SCR_EA_BIT :: u32 where "SCR_EA_BIT \<equiv> push_bit 3 1"
abbreviation SCR_HCE_BIT :: u32 where "SCR_HCE_BIT \<equiv> push_bit 8 1"
abbreviation SCR_RW_BIT :: u32 where "SCR_RW_BIT \<equiv> push_bit 10 1"
abbreviation SCR_ST_BIT :: u32 where "SCR_ST_BIT \<equiv> push_bit 11 1"

text \<open>The SCR\_EL3 of the next exception level; \<open>routing\<close> is \<^verbatim>\<open>get_scr_el3_from_routing_model\<close>.\<close>

definition ep_enters_el2 :: "entry_point_info_t \<Rightarrow> bool" where
  "ep_enters_el2 ep \<longleftrightarrow>
     GET_RW (ep_spsr ep) = 0 \<and> GET_EL (ep_spsr ep) = 2 \<or>
     GET_RW (ep_spsr ep) \<noteq> 0 \<and> GET_M32 (ep_spsr ep) = 0xa"

definition cm_setup_scr :: "u32 \<Rightarrow> u32 \<Rightarrow> entry_point_info_t \<Rightarrow> u32" where
  "cm_setup_scr read_scr routing ep =
     (let scr = read_scr AND
            NOT (SCR_NS_BIT OR SCR_RW_BIT OR SCR_FIQ_BIT OR SCR_IRQ_BIT OR SCR_ST_BIT OR SCR_HCE_BIT);
          scr = (if ep_attr ep AND 1 \<noteq> 0 then scr OR SCR_NS_BIT else scr);
          scr = (if GET_RW (ep_spsr ep) = 0 then scr OR SCR_RW_BIT else scr);
          scr = (if ep_attr ep AND 4 \<noteq> 0 then scr OR SCR_ST_BIT else scr);
          scr = scr AND NOT SCR_EA_BIT;
          scr = scr OR routing
      in if ep_enters_el2 ep then scr OR SCR_HCE_BIT else scr)"

definition cm_setup_sctlr_el1 :: "entry_point_info_t \<Rightarrow> u64" where
  "cm_setup_sctlr_el1 ep =
     (if ep_attr ep AND 2 \<noteq> 0 then push_bit 25 1 else 0) OR
     (if GET_RW (ep_spsr ep) = 0
      then push_bit 29 1 OR push_bit 28 1 OR push_bit 23 1 OR push_bit 22 1 OR push_bit 20 1 OR push_bit 11 1
      else push_bit 23 1 OR push_bit 22 1 OR push_bit 11 1 OR push_bit 4 1 OR push_bit 3 1
           OR push_bit 5 1 OR push_bit 16 1 OR push_bit 18 1)"

definition cm_setup_context :: "u32 \<Rightarrow> u64 \<Rightarrow> u32 \<Rightarrow> entry_point_info_t \<Rightarrow> cpu_context_t" where
  "cm_setup_context read_scr read_actlr_el1 routing ep =
     \<lparr>gpregs = ep_args ep, ctx_scr_el3 = cm_setup_scr read_scr routing ep,
      ctx_elr_el3 = ep_pc ep, ctx_spsr_el3 = ep_spsr ep, ctx_sctlr_el1 = cm_setup_sctlr_el1 ep,
      ctx_actlr_el1 = read_actlr_el1,
      ctx_pmcr_el0 = (if ep_attr ep AND 1 = 0
        then ((0 OR push_bit 6 1) OR push_bit 5 1) AND NOT (push_bit 4 1 OR push_bit 3 1) else 0)\<rparr>"

text \<open>
  The routing model only sets the IRQ and FIQ bits, so the other fields of SCR\_EL3 are those the
  entry point asks for.
\<close>

lemma scr_fields:
  assumes "\<And>n. bit routing n \<Longrightarrow> n = 1 \<or> n = 2"
  shows "bit (cm_setup_scr rs routing ep) 0 \<longleftrightarrow> ep_attr ep AND 1 \<noteq> 0"
    "bit (cm_setup_scr rs routing ep) 1 \<longleftrightarrow> bit routing 1"
    "bit (cm_setup_scr rs routing ep) 2 \<longleftrightarrow> bit routing 2"
    "\<not> bit (cm_setup_scr rs routing ep) 3"
    "bit (cm_setup_scr rs routing ep) 8 \<longleftrightarrow> ep_enters_el2 ep"
    "bit (cm_setup_scr rs routing ep) 10 \<longleftrightarrow> GET_RW (ep_spsr ep) = 0"
    "bit (cm_setup_scr rs routing ep) 11 \<longleftrightarrow> ep_attr ep AND 4 \<noteq> 0"
  using assms [of 0] assms [of 3] assms [of 8] assms [of 10] assms [of 11]
  by (auto simp: cm_setup_scr_def Let_def bit_simps)

lemma routing_model_run:
  assumes inv: "intr_inv s" and ss: "ss = SECURE \<or> ss = NON_SECURE"
  obtains r where "get_scr_el3_from_routing_model dbg ss s = Ret r s"
    "\<forall>n. bit r n \<longleftrightarrow> (\<exists>t \<in> {INTR_TYPE_S_EL1, INTR_TYPE_EL3, INTR_TYPE_NS}.
        n = rm_line t ss \<and> bit (intr_flags (intr_type_descs s ! unat t)) (unat ss))"
proof -
  have flag: "bit (push_bit (rm_line t ss) (get_interrupt_rm_flag fl ss)) n \<longleftrightarrow> n = rm_line t ss \<and> bit fl (unat ss)" for t fl n
  proof -
    have "rm_line t ss < 32" by (simp add: rm_line_def)
    then show ?thesis by (cases "bit fl (unat ss)") (simp_all add: rm_flag_bit bit_at del: push_bit_of_1)
  qed
  have d: "desc_ok t (intr_type_descs s ! unat t)" if "t \<in> {INTR_TYPE_S_EL1, INTR_TYPE_EL3, INTR_TYPE_NS}" for t
    using inv that by (auto simp: intr_inv_def)
  have c: "intr_scr_el3 (intr_type_descs s ! unat t) ! unat ss =
      push_bit (rm_line t ss) (get_interrupt_rm_flag (intr_flags (intr_type_descs s ! unat t)) ss)"
    "length (intr_scr_el3 (intr_type_descs s ! unat t)) = 2"
    if "t \<in> {INTR_TYPE_S_EL1, INTR_TYPE_EL3, INTR_TYPE_NS}" for t
    using d [OF that] ss by (auto simp: desc_ok_def)
  note c0 = c [of INTR_TYPE_S_EL1, simplified] and c1 = c [of INTR_TYPE_EL3, simplified] and c2 = c [of INTR_TYPE_NS, simplified]
  show thesis
  proof (rule that)
    let ?r = "\<lambda>t. push_bit (rm_line t ss) (get_interrupt_rm_flag (intr_flags (intr_type_descs s ! unat t)) ss)"
    show "get_scr_el3_from_routing_model dbg ss s = Ret ((?r INTR_TYPE_NS OR ?r INTR_TYPE_S_EL1) OR ?r INTR_TYPE_EL3) s"
      using intr_inv_lengths(1) [OF inv] ss c0 c1 c2
      by (auto simp: get_scr_el3_from_routing_model_def dbg_assert_def mbind_def prog_simps)
    show "\<forall>n. bit ((?r INTR_TYPE_NS OR ?r INTR_TYPE_S_EL1) OR ?r INTR_TYPE_EL3) n \<longleftrightarrow>
      (\<exists>t \<in> {INTR_TYPE_S_EL1, INTR_TYPE_EL3, INTR_TYPE_NS}.
        n = rm_line t ss \<and> bit (intr_flags (intr_type_descs s ! unat t)) (unat ss))"
      unfolding bit_or_iff flag by auto
  qed
qed

text \<open>
  C25. The context of a first entry: SCR\_EL3 selects the security state, the register width, secure
  timer access and hypervisor calls the entry point asks for, never routes external aborts to EL3,
  and routes IRQ and FIQ to EL3 exactly when a registered interrupt type asks for it in that
  security state; the entry point itself is where the exception return goes.
\<close>

theorem first_context_follows_entry_point:
  assumes inv: "intr_inv s"
  shows "\<exists>r. get_scr_el3_from_routing_model dbg (ep_attr ep AND 1) s = Ret r s \<and>
    (let ctx = cm_setup_context scr0 actlr r ep; scr = ctx_scr_el3 ctx
     in (bit scr 0 \<longleftrightarrow> ep_attr ep AND 1 = NON_SECURE) \<and> \<not> bit scr 3 \<and>
        (bit scr 8 \<longleftrightarrow> ep_enters_el2 ep) \<and> (bit scr 10 \<longleftrightarrow> GET_RW (ep_spsr ep) = 0) \<and> (bit scr 11 \<longleftrightarrow> ep_attr ep AND 4 \<noteq> 0) \<and>
        (\<forall>l \<in> {1, 2}. bit scr l \<longleftrightarrow> (\<exists>t \<in> {INTR_TYPE_S_EL1, INTR_TYPE_EL3, INTR_TYPE_NS}.
           l = rm_line t (ep_attr ep AND 1) \<and> bit (intr_flags (intr_type_descs s ! unat t)) (unat (ep_attr ep AND 1)))) \<and>
        ctx_elr_el3 ctx = ep_pc ep \<and> ctx_spsr_el3 ctx = ep_spsr ep \<and> gpregs ctx = ep_args ep)"
proof -
  have ss: "ep_attr ep AND 1 = SECURE \<or> ep_attr ep AND 1 = NON_SECURE" by (simp add: and_one_eq mod_2_eq_odd)
  obtain r where r: "get_scr_el3_from_routing_model dbg (ep_attr ep AND 1) s = Ret r s"
    "\<forall>n. bit r n \<longleftrightarrow> (\<exists>t \<in> {INTR_TYPE_S_EL1, INTR_TYPE_EL3, INTR_TYPE_NS}.
        n = rm_line t (ep_attr ep AND 1) \<and> bit (intr_flags (intr_type_descs s ! unat t)) (unat (ep_attr ep AND 1)))"
    by (rule routing_model_run [OF inv ss])
  have "n = 1 \<or> n = 2" if "bit r n" for n using that by (auto simp: r(2) [rule_format] rm_line_def split: if_splits)
  note f = scr_fields [of r, OF this, of scr0 ep]
  have "bit (cm_setup_scr scr0 r ep) l \<longleftrightarrow> bit r l" if "l \<in> {1, 2}" for l using f(2,3) that by auto
  then show ?thesis
    using r(1) f(1,4-7) ss by (auto simp: cm_setup_context_def Let_def r(2) [rule_format])
qed

theorem first_context_follows_entry_point_witness:
  "\<exists>r. get_scr_el3_from_routing_model True NON_SECURE sample_intr = Ret r sample_intr \<and>
     bit (ctx_scr_el3 (cm_setup_context 0x5b1 0 r \<lparr>ep_attr = 1, ep_pc = 0x40200000, ep_spsr = 0x3c9, ep_args = [7, 0, 0, 0, 0, 0, 0, 0]\<rparr>)) 0 \<and>
     bit (ctx_scr_el3 (cm_setup_context 0x5b1 0 r \<lparr>ep_attr = 1, ep_pc = 0x40200000, ep_spsr = 0x3c9, ep_args = [7, 0, 0, 0, 0, 0, 0, 0]\<rparr>)) 8"
proof -
  let ?ep = "\<lparr>ep_attr = 1, ep_pc = 0x40200000, ep_spsr = 0x3c9, ep_args = [7, 0, 0, 0, 0, 0, 0, 0]\<rparr>"
  have "ep_enters_el2 ?ep" by code_simp
  then show ?thesis
    using first_context_follows_entry_point [OF sample_intr_inv, of True ?ep "0x5b1" 0] by (auto simp: Let_def)
qed

end
