(* ===== verification/Runtime_Svc.thy ===== *)
theory Runtime_Svc
  imports Prelude
begin

text \<open>
  \<^verbatim>\<open>common/runtime_svc.c\<close> and the macros of \<^verbatim>\<open>include/common/runtime_svc.h\<close> for version 1 of the SMC
  calling convention: the table that maps the owning entity and the type of a call to the service
  that handles it. \<open>'s\<close> is the state the services work on; a handler is given the function
  identifier, x1 to x4, the registers x4 to x7 of the saved context (the \<^verbatim>\<open>handle\<close>) and the flags,
  and says where control goes next. The theory shows that the table is
  filled without leaving it, and that a call reaches the last registered service whose range
  covers it and no other.
\<close>

section \<open>Descriptors\<close>

text \<open>
  Where control goes when the handler of an SMC is done: back to the caller with its result
  registers, into OP-TEE, back to the normal world with the result registers OP-TEE has set, or
  back to the C code that entered OP-TEE synchronously.
\<close>

datatype smc_exit = To_caller "u64 list" | To_optee | To_normal_world "u64 list" | To_sync_caller u64

type_synonym 's rt_svc_handle_t = "u32 \<Rightarrow> u64 \<Rightarrow> u64 \<Rightarrow> u64 \<Rightarrow> u64 \<Rightarrow> u64 list \<Rightarrow> u64 \<Rightarrow> ('s, smc_exit) prog"

record 's rt_svc_desc_t =
  start_oen :: u8
  end_oen :: u8
  call_type :: u8
  svc_init :: "('s, int) prog option"
  svc_handle :: "'s rt_svc_handle_t option"

record 's rt_state =
  rt_svc_descs_indices :: "u8 list"
  rt_services :: 's

abbreviation MAX_RT_SVCS :: nat where "MAX_RT_SVCS \<equiv> 128"

definition get_unique_oen :: "u32 \<Rightarrow> u32 \<Rightarrow> u32" where
  "get_unique_oen oen ct = (oen AND 0x3f) OR push_bit 6 (ct AND 1)"

definition GET_SMC_OEN :: "u32 \<Rightarrow> u32" where
  "GET_SMC_OEN fid = drop_bit 24 fid AND 0x3f"

definition GET_SMC_TYPE :: "u32 \<Rightarrow> u32" where
  "GET_SMC_TYPE fid = drop_bit 31 fid AND 1"

definition get_unique_oen_from_smc_fid :: "u32 \<Rightarrow> u32" where
  "get_unique_oen_from_smc_fid fid = get_unique_oen (GET_SMC_OEN fid) (GET_SMC_TYPE fid)"

section \<open>Operations\<close>

definition rt_lift :: "('s, 'a) prog \<Rightarrow> ('s rt_state, 'a) prog" where
  "rt_lift m s = (case m (rt_services s) of
      Ret v t \<Rightarrow> Ret v (s\<lparr>rt_services := t\<rparr>)
    | Stop r t \<Rightarrow> Stop r (s\<lparr>rt_services := t\<rparr>))"

definition validate_rt_svc_desc :: "'s rt_svc_desc_t \<Rightarrow> int" where
  "validate_rt_svc_desc desc =
     (if start_oen desc > end_oen desc then -22
      else if end_oen desc \<ge> 64 then -22
      else if call_type desc \<noteq> 1 \<and> call_type desc \<noteq> 0 then -22
      else if svc_init desc = None \<and> svc_handle desc = None then -22
      else 0)"

definition desc_start :: "'s rt_svc_desc_t \<Rightarrow> nat" where
  "desc_start d = unat (get_unique_oen (ucast (start_oen d)) (ucast (call_type d)))"

definition desc_end :: "'s rt_svc_desc_t \<Rightarrow> nat" where
  "desc_end d = unat (get_unique_oen (ucast (end_oen d)) (ucast (call_type d)))"

definition rt_set_index :: "u8 \<Rightarrow> nat \<Rightarrow> ('s rt_state, unit) prog" where
  "rt_set_index v i =
     mbind (mget rt_svc_descs_indices) (\<lambda>ix.
     mbind (array_check ix i) (\<lambda>_.
     mmodify (\<lambda>s. s\<lparr>rt_svc_descs_indices := (rt_svc_descs_indices s)[i := v]\<rparr>)))"

text \<open>One turn of the loop of \<^verbatim>\<open>runtime_svc_init\<close>.\<close>

definition rt_svc_register :: "bool \<Rightarrow> 's rt_svc_desc_t \<Rightarrow> nat \<Rightarrow> ('s rt_state, unit) prog" where
  "rt_svc_register dbg service index =
     (if validate_rt_svc_desc service \<noteq> 0 then mstop Panicked
      else
        mbind (case svc_init service of None \<Rightarrow> mret 0 | Some f \<Rightarrow> rt_lift f) (\<lambda>rc.
        if rc \<noteq> 0 then mret ()
        else
          mbind (dbg_assert dbg (desc_start service \<le> desc_end service)) (\<lambda>_.
          mbind (dbg_assert dbg (desc_end service < MAX_RT_SVCS)) (\<lambda>_.
          mfold (\<lambda>i _. rt_set_index (of_nat index) i) [desc_start service..<Suc (desc_end service)] ()))))"

definition runtime_svc_init :: "bool \<Rightarrow> 's rt_svc_desc_t list \<Rightarrow> ('s rt_state, unit) prog" where
  "runtime_svc_init dbg rt_svc_descs =
     mbind (dbg_assert dbg (length rt_svc_descs < MAX_RT_SVCS)) (\<lambda>_.
     if length rt_svc_descs = 0 then mret ()
     else
       mbind (mmodify (\<lambda>s. s\<lparr>rt_svc_descs_indices := replicate MAX_RT_SVCS (NOT 0)\<rparr>)) (\<lambda>_.
       mfold (\<lambda>index _. rt_svc_register dbg (rt_svc_descs ! index) index) [0..<length rt_svc_descs] ()))"

definition handle_runtime_svc ::
  "bool \<Rightarrow> 's rt_svc_desc_t list \<Rightarrow> u32 \<Rightarrow> u64 \<Rightarrow> u64 \<Rightarrow> u64 \<Rightarrow> u64 \<Rightarrow> u64 list \<Rightarrow> u64 \<Rightarrow> ('s rt_state, smc_exit) prog" where
  "handle_runtime_svc dbg rt_svc_descs smc_fid x1 x2 x3 x4 handle flags =
     (let idx = unat (get_unique_oen_from_smc_fid smc_fid)
      in mbind (dbg_assert dbg (idx < MAX_RT_SVCS)) (\<lambda>_.
         mbind (mget rt_svc_descs_indices) (\<lambda>ix.
         mbind (array_get ix idx) (\<lambda>index.
         if unat index \<ge> length rt_svc_descs then mret (To_caller [NOT 0])
         else
           case svc_handle (rt_svc_descs ! unat index) of
             None \<Rightarrow> mstop Null_pointer
           | Some f \<Rightarrow> rt_lift (f smc_fid x1 x2 x3 x4 handle flags)))))"

section \<open>The index of a call\<close>

lemma unique_oen_table:
  "\<forall>n \<in> set [0..<64]. unat (get_unique_oen (of_nat n) 0) = n \<and> unat (get_unique_oen (of_nat n) 1) = n + 64"
  by code_simp

lemma unique_oen_value:
  assumes "oen < 64" "ct = 0 \<or> ct = 1"
  shows "unat (get_unique_oen oen ct) = unat oen + 64 * unat ct"
proof -
  have "unat oen \<in> set [0..<64]" using assms(1) by (simp add: word_less_nat_alt)
  from bspec [OF unique_oen_table this] show ?thesis using assms(2) by auto
qed

lemma and_one_cases: "(x :: u32) AND 1 = 0 \<or> x AND 1 = 1"
  by (cases "even x") (simp_all add: and_one_eq mod_2_eq_odd)

lemma unat_u8_u32: "unat (ucast (x :: u8) :: u32) = unat x"
  using unsigned_less [of x, where 'a = nat] by (simp add: unsigned_ucast_eq take_bit_nat_eq_self)

lemma smc_fid_parts: "GET_SMC_OEN fid < 64" "GET_SMC_TYPE fid = 0 \<or> GET_SMC_TYPE fid = 1"
proof -
  have "drop_bit 24 fid AND 0x3f \<le> 0x3f" by (metis and.commute word_and_le1)
  then show "GET_SMC_OEN fid < 64" by (simp add: GET_SMC_OEN_def word_le_nat_alt word_less_nat_alt)
  show "GET_SMC_TYPE fid = 0 \<or> GET_SMC_TYPE fid = 1" unfolding GET_SMC_TYPE_def by (rule and_one_cases)
qed

lemma smc_index: "unat (get_unique_oen_from_smc_fid fid) = unat (GET_SMC_OEN fid) + 64 * unat (GET_SMC_TYPE fid)"
  unfolding get_unique_oen_from_smc_fid_def by (rule unique_oen_value [OF smc_fid_parts])

lemma smc_index_less: "unat (get_unique_oen_from_smc_fid fid) < MAX_RT_SVCS"
  using smc_fid_parts [of fid] by (auto simp: smc_index word_less_nat_alt)

lemma desc_range:
  assumes "validate_rt_svc_desc d = 0"
  shows "desc_start d = unat (start_oen d) + 64 * unat (call_type d)"
    "desc_end d = unat (end_oen d) + 64 * unat (call_type d)"
    "desc_start d \<le> desc_end d" "desc_end d < MAX_RT_SVCS"
proof -
  have v: "start_oen d \<le> end_oen d" "end_oen d < 64" "call_type d = 1 \<or> call_type d = 0"
    using assms by (auto simp: validate_rt_svc_desc_def split: if_splits)
  have "ucast (call_type d) = (0 :: u32) \<or> ucast (call_type d) = (1 :: u32)" using v(3) by auto
  moreover have "(ucast (end_oen d) :: u32) < 64" "(ucast (start_oen d) :: u32) < 64"
    using v(1,2) by (simp_all add: word_less_nat_alt word_le_nat_alt unat_u8_u32)
  ultimately show "desc_start d = unat (start_oen d) + 64 * unat (call_type d)"
    "desc_end d = unat (end_oen d) + 64 * unat (call_type d)"
    by (simp_all add: desc_start_def desc_end_def unique_oen_value unat_u8_u32)
  then show "desc_start d \<le> desc_end d" "desc_end d < MAX_RT_SVCS"
    using v by (auto simp: word_less_nat_alt word_le_nat_alt)
qed

section \<open>The table routes every call\<close>

text \<open>The service of an index: the last one of the accepted descriptors whose range covers it.\<close>

definition rt_route :: "'s rt_svc_desc_t list \<Rightarrow> (nat \<Rightarrow> bool) \<Rightarrow> nat \<Rightarrow> nat option" where
  "rt_route descs acc idx =
     find (\<lambda>i. acc i \<and> desc_start (descs ! i) \<le> idx \<and> idx \<le> desc_end (descs ! i)) (rev [0..<length descs])"

definition rt_entry :: "nat option \<Rightarrow> u8" where
  "rt_entry r = (case r of None \<Rightarrow> NOT 0 | Some i \<Rightarrow> of_nat i)"

definition rt_table_ok :: "'s rt_svc_desc_t list \<Rightarrow> (nat \<Rightarrow> bool) \<Rightarrow> 's rt_state \<Rightarrow> bool" where
  "rt_table_ok descs acc s \<longleftrightarrow>
     length (rt_svc_descs_indices s) = MAX_RT_SVCS \<and>
     (\<forall>idx < MAX_RT_SVCS. rt_svc_descs_indices s ! idx = rt_entry (rt_route descs acc idx))"

text \<open>The loop that fills a range of the table.\<close>

lemma fill_run:
  assumes "b \<le> length (rt_svc_descs_indices s)"
  shows "mfold (\<lambda>i _. rt_set_index v i) [a..<b] () s =
    Ret () (s\<lparr>rt_svc_descs_indices :=
      map (\<lambda>i. if a \<le> i \<and> i < b then v else rt_svc_descs_indices s ! i) [0..<length (rt_svc_descs_indices s)]\<rparr>)"
  using assms
proof (induction b)
  case 0
  then show ?case by (simp add: prog_simps map_nth)
next
  case (Suc b)
  show ?case
  proof (cases "a \<le> b")
    case True
    then show ?thesis
      using Suc by (simp add: mfold_append mbind_def prog_simps rt_set_index_def)
        (rule arg_cong [where f = "\<lambda>x. s\<lparr>rt_svc_descs_indices := x\<rparr>"], rule nth_equalityI, auto simp: nth_list_update)
  next
    case False
    then have "map (\<lambda>i. if a \<le> i \<and> i < Suc b then v else rt_svc_descs_indices s ! i)
        [0..<length (rt_svc_descs_indices s)] = rt_svc_descs_indices s"
      by (intro nth_equalityI) auto
    then show ?thesis using False by (simp add: prog_simps)
  qed
qed

lemma find_agree: "(\<And>x. x \<in> set xs \<Longrightarrow> P x = Q x) \<Longrightarrow> find P xs = find Q xs"
  by (induction xs) auto

lemma rt_route_agree:
  "(\<And>i. i < length descs \<Longrightarrow> acc i = acc' i) \<Longrightarrow> rt_route descs acc idx = rt_route descs acc' idx"
  unfolding rt_route_def by (rule find_agree) auto

lemma rt_route_snoc:
  "rt_route (descs @ [d]) acc idx =
     (if acc (length descs) \<and> desc_start d \<le> idx \<and> idx \<le> desc_end d then Some (length descs)
      else rt_route descs acc idx)"
  unfolding rt_route_def by (auto simp: nth_append intro!: find_agree)

text \<open>The initialisations of the services, one after the other, with what they return.\<close>

definition rt_init :: "'s rt_svc_desc_t \<Rightarrow> ('s, int) prog" where
  "rt_init d = (case svc_init d of None \<Rightarrow> mret 0 | Some f \<Rightarrow> f)"

primrec rt_inits :: "'s rt_svc_desc_t list \<Rightarrow> ('s, int list) prog" where
  "rt_inits [] = mret []"
| "rt_inits (d # ds) = mbind (rt_init d) (\<lambda>rc. mbind (rt_inits ds) (\<lambda>rcs. mret (rc # rcs)))"

text \<open>One registration extends the table by one descriptor, unless its initialisation fails.\<close>

lemma register_extends:
  assumes d: "validate_rt_svc_desc d = 0" and s: "rt_table_ok descs acc s"
    and init: "rt_init d (rt_services s) = Ret rc w" and acc: "acc (length descs) \<longleftrightarrow> rc = 0"
  obtains t where "rt_svc_register dbg d (length descs) s = Ret () t" "rt_table_ok (descs @ [d]) acc t" "rt_services t = w"
proof -
  have run: "(case svc_init d of None \<Rightarrow> mret 0 | Some f \<Rightarrow> rt_lift f) s = Ret rc (s\<lparr>rt_services := w\<rparr>)"
    using init by (auto simp: rt_init_def rt_lift_def prog_simps split: option.splits)
  note range = desc_range [OF d]
  show thesis
  proof (cases "rc = 0")
    case False
    then have "rt_svc_register dbg d (length descs) s = Ret () (s\<lparr>rt_services := w\<rparr>)"
      using d run by (simp add: rt_svc_register_def mbind_def prog_simps)
    moreover have "rt_table_ok (descs @ [d]) acc (s\<lparr>rt_services := w\<rparr>)"
      using s acc False by (auto simp: rt_table_ok_def rt_route_snoc)
    ultimately show thesis by (rule that) simp
  next
    case True
    let ?t = "s\<lparr>rt_services := w, rt_svc_descs_indices :=
      map (\<lambda>i. if desc_start d \<le> i \<and> i < Suc (desc_end d) then of_nat (length descs) else rt_svc_descs_indices s ! i)
        [0..<MAX_RT_SVCS]\<rparr>"
    have len: "length (rt_svc_descs_indices s) = MAX_RT_SVCS" using s by (simp add: rt_table_ok_def)
    have "rt_svc_register dbg d (length descs) s = Ret () ?t"
      using d run [unfolded True] range len fill_run [of "Suc (desc_end d)" "s\<lparr>rt_services := w\<rparr>" "of_nat (length descs)" "desc_start d"]
      by (simp add: rt_svc_register_def mbind_def [of "case svc_init d of None \<Rightarrow> m | Some x \<Rightarrow> f x" for m f] dbg_assert_def del: upt_Suc)
    moreover have "rt_table_ok (descs @ [d]) acc ?t"
      using s acc True by (auto simp: rt_table_ok_def rt_route_snoc rt_entry_def)
    ultimately show thesis by (rule that) simp
  qed
qed

text \<open>The services that stay: \<open>rcs\<close> is what the initialisations return.\<close>

definition rt_accepted :: "int list \<Rightarrow> nat \<Rightarrow> bool" where
  "rt_accepted rcs i \<longleftrightarrow> rcs ! i = 0"

lemma register_all:
  assumes "\<forall>d \<in> set ds. validate_rt_svc_desc d = 0" "rt_table_ok ps acc s" "rt_inits ds (rt_services s) = Ret rcs w"
    "\<forall>j < length ds. acc (length ps + j) \<longleftrightarrow> rcs ! j = 0"
  shows "\<exists>t. mfold (\<lambda>i _. rt_svc_register dbg ((ps @ ds) ! i) i) [length ps..<length ps + length ds] () s = Ret () t \<and>
    rt_table_ok (ps @ ds) acc t \<and> rt_services t = w"
  using assms
proof (induction ds arbitrary: ps s rcs)
  case Nil
  then show ?case by (simp add: prog_simps)
next
  case (Cons d ds)
  obtain rc w1 rcs' where i: "rt_init d (rt_services s) = Ret rc w1" "rt_inits ds w1 = Ret rcs' w" "rcs = rc # rcs'"
    using Cons.prems(3) by (auto simp: mbind_def prog_simps split: outcome.splits)
  obtain t where t: "rt_svc_register dbg d (length ps) s = Ret () t" "rt_table_ok (ps @ [d]) acc t" "rt_services t = w1"
    by (rule register_extends [OF _ Cons.prems(2) i(1)]) (use Cons.prems(1,4) i(3) in force)+
  have acc: "\<forall>j < length ds. acc (length (ps @ [d]) + j) \<longleftrightarrow> rcs' ! j = 0"
    using Cons.prems(4) i(3) by (auto dest: spec [of _ "Suc j" for j])
  obtain u where u: "mfold (\<lambda>i _. rt_svc_register dbg (((ps @ [d]) @ ds) ! i) i)
      [length (ps @ [d])..<length (ps @ [d]) + length ds] () t = Ret () u" "rt_table_ok ((ps @ [d]) @ ds) acc u" "rt_services u = w"
    using Cons.IH [OF _ t(2) _ acc] Cons.prems(1) i(2) t(3) by auto
  have "[length ps..<length ps + length (d # ds)] = length ps # [length (ps @ [d])..<length (ps @ [d]) + length ds]"
    by (subst upt_conv_Cons) simp_all
  then show ?case using t(1) u by (simp add: mbind_def nth_append)
qed

lemma runtime_svc_init_table:
  assumes "\<forall>d \<in> set descs. validate_rt_svc_desc d = 0" "rt_inits descs (rt_services s) = Ret rcs w" "descs \<noteq> []" "length descs < MAX_RT_SVCS"
  shows "\<exists>t. runtime_svc_init dbg descs s = Ret () t \<and> rt_table_ok descs (rt_accepted rcs) t \<and> rt_services t = w"
proof -
  let ?s = "s\<lparr>rt_svc_descs_indices := replicate MAX_RT_SVCS (NOT 0)\<rparr>"
  have "rt_table_ok [] (rt_accepted rcs) ?s" by (simp add: rt_table_ok_def rt_route_def rt_entry_def)
  from register_all [OF assms(1) this, of rcs w dbg] assms(2-4) show ?thesis
    by (auto simp: runtime_svc_init_def dbg_assert_def rt_accepted_def)
qed

lemma rt_route_less: "rt_route descs acc idx = Some i \<Longrightarrow> i < length descs"
proof -
  assume "rt_route descs acc idx = Some i"
  then have "i \<in> set (rev [0..<length descs])" unfolding rt_route_def by (metis find_Some_iff nth_mem)
  then show ?thesis by simp
qed

lemma handle_runtime_svc_routes:
  assumes t: "rt_table_ok descs acc t" and n: "length descs < MAX_RT_SVCS"
  shows "handle_runtime_svc dbg descs fid x1 x2 x3 x4 handle flags t =
    (case rt_route descs acc (unat (get_unique_oen_from_smc_fid fid)) of
       None \<Rightarrow> Ret (To_caller [NOT 0]) t
     | Some i \<Rightarrow>
         (case svc_handle (descs ! i) of None \<Rightarrow> Stop Null_pointer t
          | Some f \<Rightarrow> rt_lift (f fid x1 x2 x3 x4 handle flags) t))"
proof -
  let ?idx = "unat (get_unique_oen_from_smc_fid fid)"
  have e: "length (rt_svc_descs_indices t) = MAX_RT_SVCS"
    "rt_svc_descs_indices t ! ?idx = rt_entry (rt_route descs acc ?idx)"
    using t smc_index_less [of fid] by (simp_all add: rt_table_ok_def)
  have small: "unat (of_nat i :: u8) = i" if "i < MAX_RT_SVCS" for i
    using that by (simp add: unsigned_of_nat take_bit_nat_eq_self)
  have none: "unat (- 1 :: u8) = 255" by (simp add: unsigned_minus_1_eq_mask mask_eq_exp_minus_1)
  show ?thesis
    using e none smc_index_less [of fid] n small rt_route_less [of descs acc ?idx]
    by (cases "rt_route descs acc ?idx")
      (auto simp: handle_runtime_svc_def Let_def dbg_assert_def rt_entry_def prog_simps split: option.splits)
qed

text \<open>
  C23. The table of runtime services: with valid descriptors and initialisations that return, the
  table is filled without leaving it, and a call is then handled by the last service that was
  accepted and whose owning entities and call type cover its function identifier; a call no service
  covers is answered SMC\_UNK.
\<close>

theorem runtime_calls_routed:
  assumes "\<forall>d \<in> set descs. validate_rt_svc_desc d = 0" "rt_inits descs (rt_services s) = Ret rcs w"
    "descs \<noteq> []" "length descs < MAX_RT_SVCS"
  shows "\<exists>t. runtime_svc_init dbg descs s = Ret () t \<and> rt_services t = w \<and>
     (\<forall>fid x1 x2 x3 x4 handle flags. handle_runtime_svc dbg descs fid x1 x2 x3 x4 handle flags t =
        (case rt_route descs (rt_accepted rcs) (unat (GET_SMC_OEN fid) + 64 * unat (GET_SMC_TYPE fid)) of
           None \<Rightarrow> Ret (To_caller [NOT 0]) t
         | Some i \<Rightarrow>
             (case svc_handle (descs ! i) of None \<Rightarrow> Stop Null_pointer t
              | Some f \<Rightarrow> rt_lift (f fid x1 x2 x3 x4 handle flags) t)))"
proof -
  obtain t where t: "runtime_svc_init dbg descs s = Ret () t" "rt_table_ok descs (rt_accepted rcs) t" "rt_services t = w"
    using runtime_svc_init_table [OF assms] by blast
  then show ?thesis using handle_runtime_svc_routes [OF t(2) assms(4)] by (auto simp: smc_index)
qed

text \<open>A service that owns the standard calls and answers 42.\<close>

definition sample_services :: "unit rt_svc_desc_t list" where
  "sample_services = [\<lparr>start_oen = 4, end_oen = 4, call_type = 1, svc_init = Some (mret 0),
     svc_handle = Some (\<lambda>_ _ _ _ _ _ _. mret (To_caller [42]))\<rparr>]"

theorem runtime_calls_routed_witness:
  "\<exists>t. runtime_svc_init True sample_services \<lparr>rt_svc_descs_indices = [], rt_services = ()\<rparr> = Ret () t \<and>
     handle_runtime_svc True sample_services 0x84000000 0 0 0 0 [] 0 t = Ret (To_caller [42]) t"
proof -
  have r: "rt_route sample_services (rt_accepted [0]) (unat (GET_SMC_OEN 0x84000000) + 64 * unat (GET_SMC_TYPE 0x84000000)) = Some 0"
    by (simp add: rt_route_def rt_accepted_def GET_SMC_OEN_def GET_SMC_TYPE_def desc_start_def desc_end_def get_unique_oen_def
        sample_services_def)
  have "\<forall>d \<in> set sample_services. validate_rt_svc_desc d = 0" "rt_inits sample_services () = Ret [0] ()" "sample_services \<noteq> []"
    "length sample_services < MAX_RT_SVCS"
    by (auto simp: validate_rt_svc_desc_def rt_init_def mbind_def prog_simps sample_services_def)
  from runtime_calls_routed [OF this(1) _ this(3,4), of "\<lparr>rt_svc_descs_indices = [], rt_services = ()\<rparr>" "[0]" "()" True] this(2)
  obtain t where t: "runtime_svc_init True sample_services \<lparr>rt_svc_descs_indices = [], rt_services = ()\<rparr> = Ret () t"
    "handle_runtime_svc True sample_services 0x84000000 0 0 0 0 [] 0 t =
       (case svc_handle (sample_services ! 0) of None \<Rightarrow> Stop Null_pointer t
        | Some f \<Rightarrow> rt_lift (f 0x84000000 0 0 0 0 [] 0) t)"
    using r by auto
  have "handle_runtime_svc True sample_services 0x84000000 0 0 0 0 [] 0 t = Ret (To_caller [42]) t"
    unfolding t(2) by (simp add: rt_lift_def prog_simps sample_services_def)
  then show ?thesis using t(1) by blast
qed

end
