(* ===== verification/Opteed.thy ===== *)
theory Opteed
  imports Imx8mq_Bl31 Context_Mgmt Runtime_Svc
begin

text \<open>
  The OP-TEE dispatcher, \<^verbatim>\<open>services/spd/opteed\<close>: it enters OP-TEE at the entry points of a vector
  table when PSCI changes the power state of a core (\<^verbatim>\<open>opteed_pm.c\<close>), and passes SMCs between the
  normal world and OP-TEE (\<^verbatim>\<open>opteed_main.c\<close>, \<^verbatim>\<open>opteed_common.c\<close>).

  Its state extends the world of the i.MX8MQ port. The saved secure context of a core lies in the
  entry of \<^verbatim>\<open>opteed_sp_context\<close> that \<^verbatim>\<open>cm_set_context\<close> installed (\<open>secure_context\<close>, \<open>None\<close> for NULL); of
  the non-secure context the dispatcher only needs SCR\_EL3. OP-TEE itself is the field \<open>sp_run\<close>: a
  function from the entries made so far (core, entry address, registers x0 to x7) to the SMC it
  answers the last one with. A synchronous entry (\<^verbatim>\<open>opteed_enter_sp\<close>, in assembly) stores the stack
  pointer in \<^verbatim>\<open>c_rt_ctx\<close>, runs OP-TEE, and comes back when OP-TEE's SMC reaches
  \<^verbatim>\<open>opteed_synchronous_sp_exit\<close>. \<open>dbg\<close> is the build option \<^verbatim>\<open>ENABLE_ASSERTIONS\<close>.
\<close>

section \<open>State\<close>

datatype el3_interrupt_handler = Opteed_sel1_interrupt_handler

record optee_context_t =
  optee_state :: u32
  optee_mpidr :: u64
  c_rt_ctx :: u64
  cpu_ctx :: cpu_context_t

type_synonym sp_entry = "nat \<times> u64 \<times> u64 list"

record bl31_world = imx_world +
  optee_vector_table :: u64
  opteed_rw :: u32
  opteed_sp_context :: "optee_context_t list"
  secure_context :: "nat option list"
  ns_scr_el3 :: "u32 option list"
  next_eret :: "u32 option list"
  bl31_intr_descs :: "el3_interrupt_handler intr_type_desc_t list"
  bl32_init :: bool
  bl32_ep_info :: "entry_point_info_t option"
  el3_sp :: "nat \<Rightarrow> u64"
  el3_scr :: u32
  el3_sctlr :: u64
  el1_actlr :: u64
  sp_entries :: "sp_entry list"
  sp_run :: "sp_entry list \<Rightarrow> u32 \<times> u64"

abbreviation OPTEE_PSTATE_OFF :: u32 where "OPTEE_PSTATE_OFF \<equiv> 0"
abbreviation OPTEE_PSTATE_ON :: u32 where "OPTEE_PSTATE_ON \<equiv> 1"
abbreviation OPTEE_PSTATE_SUSPEND :: u32 where "OPTEE_PSTATE_SUSPEND \<equiv> 2"

definition get_optee_pstate :: "u32 \<Rightarrow> u32" where
  "get_optee_pstate state = drop_bit 0 state AND 3"

definition set_optee_pstate :: "u32 \<Rightarrow> u32 \<Rightarrow> u32" where
  "set_optee_pstate st pst = (st AND NOT (push_bit 0 3)) OR push_bit 0 (pst AND 3)"

text \<open>The offsets of the entry points in \<^verbatim>\<open>optee_vectors_t\<close>.\<close>

datatype optee_vector =
    yield_smc_entry | fast_smc_entry | cpu_on_entry | cpu_off_entry | cpu_resume_entry
  | cpu_suspend_entry | fiq_entry | system_off_entry | system_reset_entry

definition vector_offset :: "optee_vector \<Rightarrow> u64" where
  "vector_offset v = (case v of
     yield_smc_entry \<Rightarrow> 0 | fast_smc_entry \<Rightarrow> 4 | cpu_on_entry \<Rightarrow> 8 | cpu_off_entry \<Rightarrow> 12
   | cpu_resume_entry \<Rightarrow> 16 | cpu_suspend_entry \<Rightarrow> 20 | fiq_entry \<Rightarrow> 24
   | system_off_entry \<Rightarrow> 28 | system_reset_entry \<Rightarrow> 32)"

definition vector_addr :: "optee_vector \<Rightarrow> bl31_world \<Rightarrow> u64" where
  "vector_addr v w = optee_vector_table w + vector_offset v"

definition TEESMC_OPTEED_RV :: "u32 \<Rightarrow> u32" where
  "TEESMC_OPTEED_RV func_num = push_bit 31 1 OR push_bit 30 0 OR push_bit 24 62 OR (func_num AND 0xffff)"

section \<open>Contexts\<close>

definition ctx_modify :: "nat \<Rightarrow> (optee_context_t \<Rightarrow> optee_context_t) \<Rightarrow> (bl31_world, unit) prog" where
  "ctx_modify i f =
     mbind (mget opteed_sp_context) (\<lambda>cs.
     mbind (array_check cs i) (\<lambda>_.
     mmodify (\<lambda>w. w\<lparr>opteed_sp_context := (opteed_sp_context w)[i := f (opteed_sp_context w ! i)]\<rparr>)))"

definition ctx_read :: "nat \<Rightarrow> (optee_context_t \<Rightarrow> 'b) \<Rightarrow> (bl31_world, 'b) prog" where
  "ctx_read i f = mbind (mget opteed_sp_context) (\<lambda>cs. mbind (array_get cs i) (\<lambda>c. mret (f c)))"

text \<open>\<^verbatim>\<open>cm_get_context(SECURE)\<close> on core \<open>c\<close>, with the assertion its users make.\<close>

definition cm_get_secure_context :: "bool \<Rightarrow> nat \<Rightarrow> (bl31_world, nat) prog" where
  "cm_get_secure_context dbg c =
     mbind (mget secure_context) (\<lambda>sc.
     mbind (array_get sc c) (\<lambda>p.
     mbind (dbg_assert dbg (p \<noteq> None)) (\<lambda>_.
     case p of None \<Rightarrow> mstop Null_pointer | Some i \<Rightarrow> mret i)))"

definition cm_set_elr_el3 :: "bool \<Rightarrow> nat \<Rightarrow> u64 \<Rightarrow> (bl31_world, unit) prog" where
  "cm_set_elr_el3 dbg c entrypoint =
     mbind (cm_get_secure_context dbg c) (\<lambda>i.
     ctx_modify i (\<lambda>x. x\<lparr>cpu_ctx := (cpu_ctx x)\<lparr>ctx_elr_el3 := entrypoint\<rparr>\<rparr>))"

definition cm_set_next_eret_context :: "nat \<Rightarrow> u32 \<Rightarrow> (bl31_world, unit) prog" where
  "cm_set_next_eret_context c security_state =
     mbind (mget next_eret) (\<lambda>ne.
     mbind (array_check ne c) (\<lambda>_.
     mmodify (\<lambda>w. w\<lparr>next_eret := (next_eret w)[c := Some security_state]\<rparr>)))"

definition write_gpreg :: "nat \<Rightarrow> nat \<Rightarrow> u64 \<Rightarrow> (bl31_world, unit) prog" where
  "write_gpreg i n v = ctx_modify i (\<lambda>x. x\<lparr>cpu_ctx := (cpu_ctx x)\<lparr>gpregs := (gpregs (cpu_ctx x))[n := v]\<rparr>\<rparr>)"

text \<open>The interrupt framework works on the table and on the contexts of the executing core.\<close>

definition intr_view :: "nat \<Rightarrow> bl31_world \<Rightarrow> el3_interrupt_handler intr_state" where
  "intr_view c w =
     \<lparr>intr_type_descs = bl31_intr_descs w,
      context_scr_el3 = (\<lambda>ss.
        if ss = SECURE then map_option (\<lambda>i. ctx_scr_el3 (cpu_ctx (opteed_sp_context w ! i))) (secure_context w ! c)
        else ns_scr_el3 w ! c)\<rparr>"

definition intr_store :: "nat \<Rightarrow> el3_interrupt_handler intr_state \<Rightarrow> bl31_world \<Rightarrow> bl31_world" where
  "intr_store c t w = w
     \<lparr>bl31_intr_descs := intr_type_descs t,
      opteed_sp_context :=
        (case (secure_context w ! c, context_scr_el3 t SECURE) of
           (Some i, Some scr) \<Rightarrow> (opteed_sp_context w)[i := (opteed_sp_context w ! i)
              \<lparr>cpu_ctx := (cpu_ctx (opteed_sp_context w ! i))\<lparr>ctx_scr_el3 := scr\<rparr>\<rparr>]
         | _ \<Rightarrow> opteed_sp_context w),
      ns_scr_el3 := (ns_scr_el3 w)[c := context_scr_el3 t NON_SECURE]\<rparr>"

definition with_intr :: "nat \<Rightarrow> (el3_interrupt_handler intr_state, 'b) prog \<Rightarrow> (bl31_world, 'b) prog" where
  "with_intr c m w = (case m (intr_view c w) of
      Ret v t \<Rightarrow> Ret v (intr_store c t w)
    | Stop r t \<Rightarrow> Stop r (intr_store c t w))"

definition cm_init_my_context :: "bool \<Rightarrow> nat \<Rightarrow> entry_point_info_t \<Rightarrow> (bl31_world, unit) prog" where
  "cm_init_my_context dbg c ep =
     mbind (cm_get_secure_context dbg c) (\<lambda>i.
     mbind (with_intr c (get_scr_el3_from_routing_model dbg (ep_attr ep AND 1))) (\<lambda>routing.
     mbind (mget (\<lambda>w. (el3_scr w, el1_actlr w))) (\<lambda>(scr, actlr).
     ctx_modify i (\<lambda>x. x\<lparr>cpu_ctx := cm_setup_context scr actlr routing ep\<rparr>))))"

section \<open>\<^verbatim>\<open>opteed_common.c\<close>\<close>

definition opteed_init_optee_ep_state ::
  "bool \<Rightarrow> cpu_regs \<Rightarrow> u32 \<Rightarrow> u64 \<Rightarrow> u64 \<Rightarrow> u64 \<Rightarrow> u64 \<Rightarrow> nat \<Rightarrow> (bl31_world, entry_point_info_t) prog" where
  "opteed_init_optee_ep_state dbg r rw pc pageable_part mem_limit dt_addr i =
     mbind (dbg_assert dbg (pc \<noteq> 0)) (\<lambda>_.
     mbind (ctx_modify i (\<lambda>x. x\<lparr>optee_mpidr := mpidr_el1 r, optee_state := set_optee_pstate 0 OPTEE_PSTATE_OFF\<rparr>)) (\<lambda>_.
     mbind (mget secure_context) (\<lambda>sc.
     mbind (array_check sc (plat_my_core_pos r)) (\<lambda>_.
     mbind (mmodify (\<lambda>w. w\<lparr>secure_context := (secure_context w)[plat_my_core_pos r := Some i]\<rparr>)) (\<lambda>_.
     mbind (mget el3_sctlr) (\<lambda>sctlr.
     mret \<lparr>ep_attr = (SECURE OR 4) OR (if sctlr AND push_bit 25 1 \<noteq> 0 then 2 else 0),
           ep_pc = pc,
           ep_spsr = (if rw = 0 then SPSR_64 1 1 0xf else SPSR_MODE32 3 0 0 7),
           ep_args = [pageable_part, mem_limit, dt_addr, 0, 0, 0, 0, 0]\<rparr>))))))"

text \<open>
  \<^verbatim>\<open>opteed_synchronous_sp_entry\<close> up to the point where OP-TEE answers: the SMC and its argument.
\<close>

definition opteed_enter_sp :: "bool \<Rightarrow> nat \<Rightarrow> (bl31_world, u32 \<times> u64) prog" where
  "opteed_enter_sp dbg c =
     mbind (ctx_read c c_rt_ctx) (\<lambda>rt.
     mbind (dbg_assert dbg (rt = 0)) (\<lambda>_.
     mbind (mget secure_context) (\<lambda>sc.
     mbind (array_get sc c) (\<lambda>p.
     mbind (dbg_assert dbg (p = Some c)) (\<lambda>_.
     mbind (cm_set_next_eret_context c SECURE) (\<lambda>_.
     mbind (mget el3_sp) (\<lambda>sp.
     mbind (ctx_modify c (\<lambda>x. x\<lparr>c_rt_ctx := sp c\<rparr>)) (\<lambda>_.
     mbind (ctx_read c (\<lambda>x. (c, ctx_elr_el3 (cpu_ctx x), gpregs (cpu_ctx x)))) (\<lambda>entry.
     mbind (mmodify (\<lambda>w. w\<lparr>sp_entries := sp_entries w @ [entry]\<rparr>)) (\<lambda>_.
     mget (\<lambda>w. sp_run w (sp_entries w))))))))))))"

text \<open>The rest of \<^verbatim>\<open>opteed_synchronous_sp_entry\<close>, after \<^verbatim>\<open>opteed_exit_sp\<close>.\<close>

definition opteed_leave_sp :: "bool \<Rightarrow> nat \<Rightarrow> (bl31_world, unit) prog" where
  "opteed_leave_sp dbg c = mwhen dbg (ctx_modify c (\<lambda>x. x\<lparr>c_rt_ctx := 0\<rparr>))"

text \<open>\<^verbatim>\<open>opteed_synchronous_sp_exit\<close> resumes the C code that waits in \<^verbatim>\<open>opteed_enter_sp\<close> with \<open>ret\<close>.\<close>

definition opteed_synchronous_sp_exit :: "bool \<Rightarrow> nat \<Rightarrow> u64 \<Rightarrow> (bl31_world, u64) prog" where
  "opteed_synchronous_sp_exit dbg c ret =
     mbind (mget secure_context) (\<lambda>sc.
     mbind (array_get sc c) (\<lambda>p.
     mbind (dbg_assert dbg (p = Some c)) (\<lambda>_.
     mbind (ctx_read c c_rt_ctx) (\<lambda>rt.
     mbind (dbg_assert dbg (rt \<noteq> 0)) (\<lambda>_.
     mret ret)))))"

section \<open>SMCs from OP-TEE\<close>

text \<open>The SMCs by which OP-TEE reports that it has finished.\<close>

definition is_done_smc :: "u32 \<Rightarrow> bool" where
  "is_done_smc fid \<longleftrightarrow> fid \<in> {TEESMC_OPTEED_RV 1, TEESMC_OPTEED_RV 4, TEESMC_OPTEED_RV 2, TEESMC_OPTEED_RV 3,
     TEESMC_OPTEED_RV 7, TEESMC_OPTEED_RV 8}"

text \<open>
  The case \<^verbatim>\<open>TEESMC_OPTEED_RETURN_ENTRY_DONE\<close> on the world, before and after the registration of the
  power management hooks.
\<close>

definition opteed_entry_done :: "bool \<Rightarrow> nat \<Rightarrow> u64 \<Rightarrow> (bl31_world, unit) prog" where
  "opteed_entry_done dbg c x1 =
     mbind (mget optee_vector_table) (\<lambda>vt.
     mbind (dbg_assert dbg (vt = 0)) (\<lambda>_.
     mbind (mmodify (\<lambda>w. w\<lparr>optee_vector_table := x1\<rparr>)) (\<lambda>_.
     mwhen (x1 \<noteq> 0)
       (ctx_modify c (\<lambda>x. x\<lparr>optee_state := set_optee_pstate (optee_state x) OPTEE_PSTATE_ON\<rparr>)))))"

definition opteed_entry_intr :: "bool \<Rightarrow> nat \<Rightarrow> (bl31_world, unit) prog" where
  "opteed_entry_intr dbg c =
     mbind (with_intr c (register_interrupt_type_handler dbg INTR_TYPE_S_EL1 (Some Opteed_sel1_interrupt_handler)
              (set_interrupt_rm_flag 0 NON_SECURE))) (\<lambda>rc.
     if rc \<noteq> 0 then mstop Panicked else mret ())"

text \<open>
  The answer of OP-TEE to a synchronous entry from a power management hook. The hooks are registered
  already, so registering them again in the case \<^verbatim>\<open>ENTRY_DONE\<close> changes nothing; with \<^verbatim>\<open>CALL_DONE\<close> or
  \<^verbatim>\<open>FIQ_DONE\<close> the core continues in the normal world and the hook never returns.
\<close>

definition opteed_sp_answer :: "bool \<Rightarrow> nat \<Rightarrow> u32 \<Rightarrow> u64 \<Rightarrow> (bl31_world, u64) prog" where
  "opteed_sp_answer dbg c fid x1 =
     (if fid = TEESMC_OPTEED_RV 0 then
        mbind (opteed_entry_done dbg c x1) (\<lambda>_.
        mbind (mwhen (x1 \<noteq> 0) (opteed_entry_intr dbg c)) (\<lambda>_.
        opteed_synchronous_sp_exit dbg c x1))
      else if is_done_smc fid then opteed_synchronous_sp_exit dbg c x1
      else if fid = TEESMC_OPTEED_RV 5 \<or> fid = TEESMC_OPTEED_RV 6 then
        mbind (cm_set_next_eret_context c NON_SECURE) (\<lambda>_. mstop Left_to_normal_world)
      else mstop Panicked)"

definition opteed_synchronous_sp_entry :: "bool \<Rightarrow> nat \<Rightarrow> (bl31_world, u64) prog" where
  "opteed_synchronous_sp_entry dbg c =
     mbind (opteed_enter_sp dbg c) (\<lambda>(fid, x1).
     mbind (opteed_sp_answer dbg c fid x1) (\<lambda>rc.
     mbind (opteed_leave_sp dbg c) (\<lambda>_.
     mret rc)))"

section \<open>\<^verbatim>\<open>opteed_pm.c\<close>\<close>

text \<open>The checks every handler starts with.\<close>

definition opteed_check :: "bool \<Rightarrow> nat \<Rightarrow> u32 \<Rightarrow> (bl31_world, unit) prog" where
  "opteed_check dbg c pstate =
     mbind (mget optee_vector_table) (\<lambda>vt.
     mbind (dbg_assert dbg (vt \<noteq> 0)) (\<lambda>_.
     mbind (ctx_read c optee_state) (\<lambda>st.
     dbg_assert dbg (get_optee_pstate st = pstate))))"

definition opteed_set_pstate :: "nat \<Rightarrow> u32 \<Rightarrow> (bl31_world, unit) prog" where
  "opteed_set_pstate c pst = ctx_modify c (\<lambda>x. x\<lparr>optee_state := set_optee_pstate (optee_state x) pst\<rparr>)"

text \<open>\<^verbatim>\<open>rc\<close> is an \<^verbatim>\<open>int32_t\<close>: the low 32 bits of what OP-TEE returned.\<close>

definition panic_unless_zero :: "u64 \<Rightarrow> ('w, unit) prog" where
  "panic_unless_zero rc = (if (ucast rc :: u32) \<noteq> 0 then mstop Panicked else mret ())"

text \<open>
  What three of the handlers do next: program the entry point, enter OP-TEE, panic when it reports an
  error, and record its new state.
\<close>

definition opteed_pm_call :: "bool \<Rightarrow> nat \<Rightarrow> optee_vector \<Rightarrow> u32 \<Rightarrow> (bl31_world, unit) prog" where
  "opteed_pm_call dbg c v pst =
     mbind (mget (vector_addr v)) (\<lambda>entry.
     mbind (cm_set_elr_el3 dbg c entry) (\<lambda>_.
     mbind (opteed_synchronous_sp_entry dbg c) (\<lambda>rc.
     mbind (panic_unless_zero rc) (\<lambda>_.
     opteed_set_pstate c pst))))"

definition opteed_cpu_on_handler :: "bool \<Rightarrow> cpu_regs \<Rightarrow> u64 \<Rightarrow> (bl31_world, unit) prog" where
  "opteed_cpu_on_handler dbg r target_cpu = mret ()"

definition opteed_cpu_off_handler :: "bool \<Rightarrow> cpu_regs \<Rightarrow> u64 \<Rightarrow> (bl31_world, int) prog" where
  "opteed_cpu_off_handler dbg r unused =
     (let c = plat_my_core_pos r
      in mbind (opteed_check dbg c OPTEE_PSTATE_ON) (\<lambda>_.
         mbind (opteed_pm_call dbg c cpu_off_entry OPTEE_PSTATE_OFF) (\<lambda>_.
         mret 0)))"

definition opteed_cpu_suspend_handler :: "bool \<Rightarrow> cpu_regs \<Rightarrow> u64 \<Rightarrow> (bl31_world, unit) prog" where
  "opteed_cpu_suspend_handler dbg r max_off_pwrlvl =
     (let c = plat_my_core_pos r
      in mbind (opteed_check dbg c OPTEE_PSTATE_ON) (\<lambda>_.
         mbind (write_gpreg c 0 max_off_pwrlvl) (\<lambda>_.
         opteed_pm_call dbg c cpu_suspend_entry OPTEE_PSTATE_SUSPEND)))"

definition opteed_cpu_on_finish_handler :: "bool \<Rightarrow> cpu_regs \<Rightarrow> u64 \<Rightarrow> (bl31_world, unit) prog" where
  "opteed_cpu_on_finish_handler dbg r unused =
     (let c = plat_my_core_pos r
      in mbind (opteed_check dbg c OPTEE_PSTATE_OFF) (\<lambda>_.
         mbind (mget (\<lambda>w. (opteed_rw w, vector_addr cpu_on_entry w))) (\<lambda>(rw, entry).
         mbind (opteed_init_optee_ep_state dbg r rw entry 0 0 0 c) (\<lambda>ep.
         mbind (cm_init_my_context dbg c ep) (\<lambda>_.
         mbind (opteed_synchronous_sp_entry dbg c) (\<lambda>rc.
         mbind (panic_unless_zero rc) (\<lambda>_.
         opteed_set_pstate c OPTEE_PSTATE_ON)))))))"

definition opteed_cpu_suspend_finish_handler :: "bool \<Rightarrow> cpu_regs \<Rightarrow> u64 \<Rightarrow> (bl31_world, unit) prog" where
  "opteed_cpu_suspend_finish_handler dbg r max_off_pwrlvl =
     (let c = plat_my_core_pos r
      in mbind (opteed_check dbg c OPTEE_PSTATE_SUSPEND) (\<lambda>_.
         mbind (write_gpreg c 0 max_off_pwrlvl) (\<lambda>_.
         opteed_pm_call dbg c cpu_resume_entry OPTEE_PSTATE_ON)))"

text \<open>The resident CPU is not written: what the caller passed is what it gets back.\<close>

definition opteed_cpu_migrate_info :: "u64 \<Rightarrow> cpu_regs \<Rightarrow> (bl31_world, int \<times> u64) prog" where
  "opteed_cpu_migrate_info resident_cpu r = mret (PSCI_TOS_NOT_PRESENT_MP, resident_cpu)"

definition opteed_system_off :: "bool \<Rightarrow> cpu_regs \<Rightarrow> (bl31_world, unit) prog" where
  "opteed_system_off dbg r =
     (let c = plat_my_core_pos r
      in mbind (opteed_check dbg c OPTEE_PSTATE_ON) (\<lambda>_.
         mbind (mget (vector_addr system_off_entry)) (\<lambda>entry.
         mbind (cm_set_elr_el3 dbg c entry) (\<lambda>_.
         mbind (opteed_synchronous_sp_entry dbg c) (\<lambda>_.
         mret ())))))"

definition opteed_system_reset :: "bool \<Rightarrow> cpu_regs \<Rightarrow> (bl31_world, unit) prog" where
  "opteed_system_reset dbg r =
     (let c = plat_my_core_pos r
      in mbind (opteed_check dbg c OPTEE_PSTATE_ON) (\<lambda>_.
         mbind (mget (vector_addr system_reset_entry)) (\<lambda>entry.
         mbind (cm_set_elr_el3 dbg c entry) (\<lambda>_.
         mbind (opteed_synchronous_sp_entry dbg c) (\<lambda>_.
         mret ())))))"

definition opteed_pm :: "bool \<Rightarrow> u64 \<Rightarrow> bl31_world spd_pm_ops_t" where
  "opteed_pm dbg resident_cpu =
     \<lparr>svc_on = Some (opteed_cpu_on_handler dbg), svc_off = Some (opteed_cpu_off_handler dbg),
      svc_suspend = Some (opteed_cpu_suspend_handler dbg),
      svc_on_finish = Some (opteed_cpu_on_finish_handler dbg),
      svc_suspend_finish = Some (opteed_cpu_suspend_finish_handler dbg),
      svc_migrate = None, svc_migrate_info = Some (opteed_cpu_migrate_info resident_cpu),
      svc_system_off = Some (opteed_system_off dbg), svc_system_reset = Some (opteed_system_reset dbg)\<rparr>"

section \<open>\<^verbatim>\<open>opteed_main.c\<close>\<close>

definition opteed_forward_smc ::
  "bool \<Rightarrow> nat \<Rightarrow> u32 \<Rightarrow> u64 \<Rightarrow> u64 \<Rightarrow> u64 \<Rightarrow> u64 list \<Rightarrow> (bl31_world, unit) prog" where
  "opteed_forward_smc dbg c smc_fid x1 x2 x3 x4_x7 =
     mbind (mget secure_context) (\<lambda>sc.
     mbind (array_get sc c) (\<lambda>p.
     mbind (dbg_assert dbg (p = Some c)) (\<lambda>_.
     mbind (mget (vector_addr (if GET_SMC_TYPE smc_fid = 1 then fast_smc_entry else yield_smc_entry))) (\<lambda>entry.
     mbind (cm_set_elr_el3 dbg c entry) (\<lambda>_.
     mbind (cm_set_next_eret_context c SECURE) (\<lambda>_.
     mbind (mfold (\<lambda>i _. write_gpreg c (4 + i) (x4_x7 ! i)) [0..<4] ()) (\<lambda>_.
     mbind (write_gpreg c 0 (ucast smc_fid)) (\<lambda>_.
     mbind (write_gpreg c 1 x1) (\<lambda>_.
     mbind (write_gpreg c 2 x2) (\<lambda>_.
     write_gpreg c 3 x3))))))))))"

definition opteed_sel1_interrupt_handler :: "bool \<Rightarrow> cpu_regs \<Rightarrow> u32 \<Rightarrow> u64 \<Rightarrow> (bl31_world, smc_exit) prog" where
  "opteed_sel1_interrupt_handler dbg r flags elr_el3 =
     (let c = plat_my_core_pos r
      in mbind (dbg_assert dbg (flags AND 1 = NON_SECURE)) (\<lambda>_.
         mbind (mget secure_context) (\<lambda>sc.
         mbind (array_get sc c) (\<lambda>p.
         mbind (dbg_assert dbg (p = Some c)) (\<lambda>_.
         mbind (mget (vector_addr fiq_entry)) (\<lambda>entry.
         mbind (cm_set_elr_el3 dbg c entry) (\<lambda>_.
         mbind (cm_set_next_eret_context c SECURE) (\<lambda>_.
         mbind (write_gpreg c 0 elr_el3) (\<lambda>_.
         mret To_optee)))))))))"

definition opteed_setup :: "bool \<Rightarrow> cpu_regs \<Rightarrow> (bl31_world, int) prog" where
  "opteed_setup dbg r =
     mbind (mget bl32_ep_info) (\<lambda>info.
     case info of
       None \<Rightarrow> mret 1
     | Some ep \<Rightarrow>
         if ep_pc ep = 0 then mret 1
         else
           mbind (mmodify (\<lambda>w. w\<lparr>opteed_rw := ucast (ep_args ep ! 0)\<rparr>)) (\<lambda>_.
           mbind (opteed_init_optee_ep_state dbg r (ucast (ep_args ep ! 0)) (ep_pc ep) (ep_args ep ! 1) (ep_args ep ! 2)
                    (ep_args ep ! 3) (plat_my_core_pos r)) (\<lambda>ep'.
           mbind (mmodify (\<lambda>w. w\<lparr>bl32_ep_info := Some ep', bl32_init := True\<rparr>)) (\<lambda>_.
           mret 0))))"

definition opteed_smc_handler ::
  "bool \<Rightarrow> u64 \<Rightarrow> bl31_world cpu_env \<Rightarrow> u32 \<Rightarrow> u64 \<Rightarrow> u64 \<Rightarrow> u64 \<Rightarrow> u64 \<Rightarrow> u64 list \<Rightarrow> u64 \<Rightarrow>
     (bl31_world psci_state, smc_exit) prog" where
  "opteed_smc_handler dbg resident_cpu e smc_fid x1 x2 x3 x4 x4_x7 flags =
     (let c = plat_my_core_pos e
      in if \<not> is_caller_secure flags then
           mbind (lift_world (opteed_forward_smc dbg c smc_fid x1 x2 x3 x4_x7)) (\<lambda>_. mret To_optee)
         else if smc_fid = TEESMC_OPTEED_RV 0 then
           mbind (lift_world (opteed_entry_done dbg c x1)) (\<lambda>_.
           mbind (mwhen (x1 \<noteq> 0)
                    (mbind (psci_register_spd_pm_hook (opteed_pm dbg resident_cpu)) (\<lambda>_.
                     lift_world (opteed_entry_intr dbg c)))) (\<lambda>_.
           mbind (lift_world (opteed_synchronous_sp_exit dbg c x1)) (\<lambda>rc. mret (To_sync_caller rc))))
         else if is_done_smc smc_fid then
           mbind (lift_world (opteed_synchronous_sp_exit dbg c x1)) (\<lambda>rc. mret (To_sync_caller rc))
         else if smc_fid = TEESMC_OPTEED_RV 5 then
           mbind (lift_world (cm_set_next_eret_context c NON_SECURE)) (\<lambda>_.
           mret (To_normal_world [x1, x2, x3, x4]))
         else if smc_fid = TEESMC_OPTEED_RV 6 then
           mbind (lift_world (cm_set_next_eret_context c NON_SECURE)) (\<lambda>_.
           mret (To_normal_world []))
         else mstop Panicked)"

definition opteed_init :: "bool \<Rightarrow> u64 \<Rightarrow> bl31_world cpu_env \<Rightarrow> (bl31_world psci_state, u64) prog" where
  "opteed_init dbg resident_cpu e =
     (let c = plat_my_core_pos e
      in mbind (mget (\<lambda>s. bl32_ep_info (world s))) (\<lambda>info.
         mbind (dbg_assert dbg (info \<noteq> None)) (\<lambda>_.
         case info of
           None \<Rightarrow> mstop Null_pointer
         | Some ep \<Rightarrow>
             mbind (lift_world (cm_init_my_context dbg c ep)) (\<lambda>_.
             mbind (lift_world (opteed_enter_sp dbg c)) (\<lambda>(fid, x1).
             mbind (opteed_smc_handler dbg resident_cpu e fid x1 0 0 0 [0, 0, 0, 0] 0) (\<lambda>ex.
             case ex of
               To_sync_caller rc \<Rightarrow>
                 mbind (lift_world (opteed_leave_sp dbg c)) (\<lambda>_.
                 mbind (dbg_assert dbg (rc \<noteq> 0)) (\<lambda>_.
                 mret rc))
             | _ \<Rightarrow> mstop Left_to_normal_world))))))"

end
