(* ===== verification/Opteed_Pm.thy ===== *)
theory Opteed_Pm
  imports Opteed
begin

text \<open>
  The power management handlers of the OP-TEE dispatcher keep the protocol that PSCI and OP-TEE
  agree on. \<open>opteed_ok\<close> relates the state the dispatcher records for every core to the state PSCI
  expects OP-TEE to be in (\<open>sp_states\<close>); it also states what is assumed of OP-TEE, which is not part
  of the firmware: an entry at a power management vector is answered with one of the completion
  SMCs and the result 0. The last section interprets the contract \<open>imx_dispatcher\<close> of the port on the
  dispatcher, so that every fact proved of the PSCI library holds with OP-TEE present.
\<close>

section \<open>The invariant of the dispatcher\<close>

definition sp_pstate :: "sp_state \<Rightarrow> u32" where
  "sp_pstate st = (case st of SP_ON \<Rightarrow> OPTEE_PSTATE_ON | SP_SUSPENDED \<Rightarrow> OPTEE_PSTATE_SUSPEND | _ \<Rightarrow> OPTEE_PSTATE_OFF)"

definition pm_vectors :: "optee_vector set" where
  "pm_vectors = {cpu_on_entry, cpu_off_entry, cpu_resume_entry, cpu_suspend_entry, system_off_entry, system_reset_entry}"

definition optee_answers :: "u64 \<Rightarrow> (sp_entry list \<Rightarrow> u32 \<times> u64) \<Rightarrow> bool" where
  "optee_answers vt run \<longleftrightarrow>
     (\<forall>h c x. \<forall>v \<in> pm_vectors.
        is_done_smc (fst (run (h @ [(c, vt + vector_offset v, x)]))) \<and>
        (ucast (snd (run (h @ [(c, vt + vector_offset v, x)]))) :: u32) = 0)"

definition opteed_core_ok :: "bool \<Rightarrow> sp_states \<Rightarrow> bl31_world \<Rightarrow> nat \<Rightarrow> bool" where
  "opteed_core_ok dbg \<sigma> w c \<longleftrightarrow>
     \<sigma> c \<noteq> SP_NONE \<and> get_optee_pstate (optee_state (opteed_sp_context w ! c)) = sp_pstate (\<sigma> c) \<and>
     (secure_context w ! c = Some c \<or> \<sigma> c = SP_OFF \<and> secure_context w ! c = None) \<and>
     (dbg \<longrightarrow> c_rt_ctx (opteed_sp_context w ! c) = 0) \<and> el3_sp w c \<noteq> 0"

definition opteed_ok :: "bool \<Rightarrow> sp_states \<Rightarrow> bl31_world \<Rightarrow> bool" where
  "opteed_ok dbg \<sigma> w \<longleftrightarrow>
     length (opteed_sp_context w) = 4 \<and> length (secure_context w) = 4 \<and> length (next_eret w) = 4 \<and>
     length (bl31_intr_descs w) = 3 \<and> (\<forall>d \<in> set (bl31_intr_descs w). length (intr_scr_el3 d) = 2) \<and>
     optee_vector_table w \<noteq> 0 \<and> vector_addr cpu_on_entry w \<noteq> 0 \<and>
     optee_answers (optee_vector_table w) (sp_run w) \<and>
     (\<forall>c. c < 4 \<longleftrightarrow> \<sigma> c \<noteq> SP_NONE) \<and> (\<forall>c < 4. opteed_core_ok dbg \<sigma> w c)"

lemma opteed_okD:
  assumes "opteed_ok dbg \<sigma> w"
  shows "length (opteed_sp_context w) = 4" "length (secure_context w) = 4" "length (next_eret w) = 4"
    "length (bl31_intr_descs w) = 3" "\<And>i. i < 3 \<Longrightarrow> length (intr_scr_el3 (bl31_intr_descs w ! i)) = 2"
    "optee_vector_table w \<noteq> 0" "vector_addr cpu_on_entry w \<noteq> 0" "optee_answers (optee_vector_table w) (sp_run w)"
    "\<And>c. \<sigma> c \<noteq> SP_NONE \<Longrightarrow> c < 4" "\<And>c. c < 4 \<Longrightarrow> opteed_core_ok dbg \<sigma> w c"
  using assms by (auto simp: opteed_ok_def all_set_conv_all_nth)

lemma pstate_set_get: "get_optee_pstate (set_optee_pstate st pst) = pst AND 3"
  unfolding get_optee_pstate_def set_optee_pstate_def
  by (rule bit_eqI) (auto simp: bit_simps)

lemma done_smc_answer:
  "is_done_smc fid \<Longrightarrow> opteed_sp_answer dbg c fid x1 = opteed_synchronous_sp_exit dbg c x1"
  by (auto simp: opteed_sp_answer_def is_done_smc_def TEESMC_OPTEED_RV_def)

lemma ctx_run:
  assumes "i < length (opteed_sp_context w)"
  shows "ctx_read i f w = Ret (f (opteed_sp_context w ! i)) w"
    "ctx_modify i g w = Ret () (w\<lparr>opteed_sp_context := (opteed_sp_context w)[i := g (opteed_sp_context w ! i)]\<rparr>)"
  using assms by (simp_all add: ctx_read_def ctx_modify_def prog_simps)

lemma next_eret_run:
  "c < length (next_eret w) \<Longrightarrow> cm_set_next_eret_context c ss w = Ret () (w\<lparr>next_eret := (next_eret w)[c := Some ss]\<rparr>)"
  by (simp add: cm_set_next_eret_context_def prog_simps)

lemma secure_context_run:
  "c < length (secure_context w) \<Longrightarrow> secure_context w ! c = Some i \<Longrightarrow> cm_get_secure_context dbg c w = Ret i w"
  by (simp add: cm_get_secure_context_def prog_simps)

lemmas opteed_run = ctx_run next_eret_run secure_context_run

text \<open>A synchronous entry at one of the power management vectors comes back with 0.\<close>

lemma sync_entry_run:
  assumes ok: "length (opteed_sp_context w) = 4" "length (secure_context w) = 4" "length (next_eret w) = 4"
      "optee_answers (optee_vector_table w) (sp_run w)" "c < 4" "secure_context w ! c = Some c" "el3_sp w c \<noteq> 0"
      "dbg \<Longrightarrow> c_rt_ctx (opteed_sp_context w ! c) = 0"
    and elr: "ctx_elr_el3 (cpu_ctx (opteed_sp_context w ! c)) = vector_addr v w" "v \<in> pm_vectors"
  obtains rc k es where "opteed_synchronous_sp_entry dbg c w = Ret rc (w
      \<lparr>next_eret := (next_eret w)[c := Some SECURE],
       opteed_sp_context := (opteed_sp_context w)[c := (opteed_sp_context w ! c)\<lparr>c_rt_ctx := k\<rparr>], sp_entries := es\<rparr>)"
    "(ucast rc :: u32) = 0" "dbg \<Longrightarrow> k = 0"
proof -
  let ?e = "(c, vector_addr v w, gpregs (cpu_ctx (opteed_sp_context w ! c)))"
  let ?r = "sp_run w (sp_entries w @ [?e])"
  obtain fid x1 where r: "?r = (fid, x1)" by (cases ?r)
  have ans: "is_done_smc fid" "(ucast x1 :: u32) = 0"
    using ok(4) elr(2) r unfolding optee_answers_def vector_addr_def by (metis fst_conv snd_conv)+
  have "opteed_synchronous_sp_entry dbg c w = Ret x1 (w
      \<lparr>next_eret := (next_eret w)[c := Some SECURE],
       opteed_sp_context := (opteed_sp_context w)[c := (opteed_sp_context w ! c)\<lparr>c_rt_ctx := if dbg then 0 else el3_sp w c\<rparr>],
       sp_entries := sp_entries w @ [?e]\<rparr>)"
    using ok elr r ans(1)
    by (cases dbg) (simp_all add: opteed_synchronous_sp_entry_def opteed_enter_sp_def opteed_leave_sp_def
      opteed_synchronous_sp_exit_def done_smc_answer opteed_run mbind_def prog_simps vector_addr_def)
  from this ans(2) show thesis by (rule that) simp
qed


lemma check_run:
  assumes "opteed_ok dbg \<sigma> w" "\<sigma> c = st" "st \<noteq> SP_NONE"
  shows "opteed_check dbg c (sp_pstate st) w = Ret () w"
proof -
  have c: "c < 4" using opteed_okD(9) assms by blast
  then show ?thesis
    using opteed_okD(1,6,10) [OF assms(1)] assms(2) by (simp add: opteed_check_def mbind_def opteed_run prog_simps opteed_core_ok_def)
qed

text \<open>
  The effect of an operation on core \<open>c\<close>: its entry of the table is \<open>x\<close>, its secure context is
  installed, and nothing else that the invariant depends on has changed.
\<close>

definition sp_effect :: "bool \<Rightarrow> nat \<Rightarrow> optee_context_t \<Rightarrow> bl31_world \<Rightarrow> bl31_world \<Rightarrow> bool" where
  "sp_effect dbg c x w w' \<longleftrightarrow>
     opteed_sp_context w' = (opteed_sp_context w)[c := x] \<and> (dbg \<longrightarrow> c_rt_ctx x = 0) \<and>
     secure_context w' = (secure_context w)[c := Some c] \<and> length (next_eret w') = length (next_eret w) \<and>
     bl31_intr_descs w' = bl31_intr_descs w \<and> optee_vector_table w' = optee_vector_table w \<and>
     sp_run w' = sp_run w \<and> el3_sp w' = el3_sp w \<and> (imx_ok w \<longrightarrow> imx_ok w')"

lemma imx_ok_frame [simp]:
  "imx_ok (w\<lparr>opteed_sp_context := a\<rparr>) = imx_ok w" "imx_ok (w\<lparr>secure_context := b\<rparr>) = imx_ok w"
  "imx_ok (w\<lparr>next_eret := d\<rparr>) = imx_ok w" "imx_ok (w\<lparr>sp_entries := f\<rparr>) = imx_ok w" for w :: bl31_world
  by (simp_all add: imx_ok_def)

lemma opteed_ok_effect:
  assumes ok: "opteed_ok dbg \<sigma> w" and st: "\<sigma> c \<noteq> SP_NONE" "st \<noteq> SP_NONE" and m: "sp_effect dbg c x w w'"
    and x: "get_optee_pstate (optee_state x) = sp_pstate st"
  shows "opteed_ok dbg (\<sigma>(c := st)) w'"
proof -
  have "c < 4" using opteed_okD(9) [OF ok st(1)] .
  then show ?thesis
    using ok st(2) m x unfolding opteed_ok_def opteed_core_ok_def vector_addr_def sp_effect_def
    by (auto simp: nth_list_update)
qed

lemma sp_context_installed:
  "opteed_ok dbg \<sigma> w \<Longrightarrow> \<sigma> c = SP_ON \<or> \<sigma> c = SP_SUSPENDED \<Longrightarrow> secure_context w ! c = Some c"
  using opteed_okD(9,10) [of dbg \<sigma> w c] by (auto simp: opteed_core_ok_def)

text \<open>Entering OP-TEE at the vector \<open>v\<close> on a core whose secure context is installed.\<close>

lemma enter_at_run:
  assumes ok: "opteed_ok dbg \<sigma> w" and c: "\<sigma> c \<noteq> SP_NONE" and sc: "secure_context w ! c = Some c" and v: "v \<in> pm_vectors"
  obtains rc w' x where "mbind (cm_set_elr_el3 dbg c (vector_addr v w)) (\<lambda>_. opteed_synchronous_sp_entry dbg c) w = Ret rc w'"
    "(ucast rc :: u32) = 0" "sp_effect dbg c x w w'" "optee_state x = optee_state (opteed_sp_context w ! c)"
proof -
  note d = opteed_okD [OF ok]
  have c4: "c < 4" using d(9) c by auto
  have core: "opteed_core_ok dbg \<sigma> w c" using d(10) [OF c4] .
  have sc': "(secure_context w)[c := Some c] = secure_context w" by (metis sc list_update_id)
  define y where "y = (opteed_sp_context w ! c)\<lparr>cpu_ctx := (cpu_ctx (opteed_sp_context w ! c))\<lparr>ctx_elr_el3 := vector_addr v w\<rparr>\<rparr>"
  define w1 where "w1 = w\<lparr>opteed_sp_context := (opteed_sp_context w)[c := y]\<rparr>"
  have elr: "cm_set_elr_el3 dbg c (vector_addr v w) w = Ret () w1"
    using c4 d(1,2) sc by (simp add: cm_set_elr_el3_def mbind_def opteed_run w1_def y_def)
  have w1: "opteed_sp_context w1 ! c = y" "vector_addr v w1 = vector_addr v w" "opteed_sp_context w1 = (opteed_sp_context w)[c := y]"
    using c4 d(1) by (simp_all add: w1_def vector_addr_def)
  have pre: "length (opteed_sp_context w1) = 4" "length (secure_context w1) = 4" "length (next_eret w1) = 4"
      "optee_answers (optee_vector_table w1) (sp_run w1)" "secure_context w1 ! c = Some c" "el3_sp w1 c \<noteq> 0"
      "dbg \<Longrightarrow> c_rt_ctx (opteed_sp_context w1 ! c) = 0"
      "ctx_elr_el3 (cpu_ctx (opteed_sp_context w1 ! c)) = vector_addr v w1"
    using d c4 sc core unfolding w1(1,2) by (simp_all add: opteed_core_ok_def w1_def y_def)
  from sync_entry_run [OF pre(1-4) c4 pre(5-8) v] obtain rc k es where
    run: "opteed_synchronous_sp_entry dbg c w1 = Ret rc (w1
      \<lparr>next_eret := (next_eret w1)[c := Some SECURE],
       opteed_sp_context := (opteed_sp_context w1)[c := (opteed_sp_context w1 ! c)\<lparr>c_rt_ctx := k\<rparr>], sp_entries := es\<rparr>)"
    "(ucast rc :: u32) = 0" "dbg \<Longrightarrow> k = 0" by blast
  let ?u = "w1\<lparr>next_eret := (next_eret w1)[c := Some SECURE],
       opteed_sp_context := (opteed_sp_context w)[c := y\<lparr>c_rt_ctx := k\<rparr>], sp_entries := es\<rparr>"
  have "mbind (cm_set_elr_el3 dbg c (vector_addr v w)) (\<lambda>_. opteed_synchronous_sp_entry dbg c) w = Ret rc ?u"
    using run(1) w1(1,3) by (simp add: mbind_def elr)
  moreover have "sp_effect dbg c (y\<lparr>c_rt_ctx := k\<rparr>) w ?u"
    using run(3) sc' by (simp add: sp_effect_def w1_def)
  ultimately show thesis using run(2) that [of rc ?u "y\<lparr>c_rt_ctx := k\<rparr>"] by (simp add: y_def)
qed

lemma set_pstate_run:
  assumes "sp_effect dbg c x w w'" "c < length (opteed_sp_context w)"
  obtains w'' where "opteed_set_pstate c (sp_pstate st) w' = Ret () w''"
    "sp_effect dbg c (x\<lparr>optee_state := set_optee_pstate (optee_state x) (sp_pstate st)\<rparr>) w w''"
proof -
  let ?x = "x\<lparr>optee_state := set_optee_pstate (optee_state x) (sp_pstate st)\<rparr>"
  have c: "opteed_sp_context w' = (opteed_sp_context w)[c := x]" using assms by (simp add: sp_effect_def)
  have "opteed_set_pstate c (sp_pstate st) w' = Ret () (w'\<lparr>opteed_sp_context := (opteed_sp_context w)[c := ?x]\<rparr>)"
    using assms(2) c by (simp add: opteed_set_pstate_def ctx_run)
  moreover have "sp_effect dbg c ?x w (w'\<lparr>opteed_sp_context := (opteed_sp_context w)[c := ?x]\<rparr>)"
    using assms by (simp add: sp_effect_def)
  ultimately show thesis by (rule that)
qed

lemma sp_pstate_simps [simp]:
  "sp_pstate SP_ON = OPTEE_PSTATE_ON" "sp_pstate SP_OFF = OPTEE_PSTATE_OFF" "sp_pstate SP_SUSPENDED = OPTEE_PSTATE_SUSPEND"
  by (simp_all add: sp_pstate_def)

lemma sp_pstate_mask: "sp_pstate st AND 3 = sp_pstate st"
  by (cases st) (simp_all add: sp_pstate_def)

lemma pm_call_run:
  assumes ok: "opteed_ok dbg \<sigma> w" and c: "\<sigma> c = SP_ON \<or> \<sigma> c = SP_SUSPENDED" and v: "v \<in> pm_vectors" and st: "st \<noteq> SP_NONE"
  obtains w' where "opteed_pm_call dbg c v (sp_pstate st) w = Ret () w'"
    "opteed_ok dbg (\<sigma>(c := st)) w'" "imx_ok w \<longrightarrow> imx_ok w'"
proof -
  have ns: "\<sigma> c \<noteq> SP_NONE" using c by auto
  obtain rc w1 x where e: "mbind (cm_set_elr_el3 dbg c (vector_addr v w)) (\<lambda>_. opteed_synchronous_sp_entry dbg c) w = Ret rc w1"
    "(ucast rc :: u32) = 0" "sp_effect dbg c x w w1" by (rule enter_at_run [OF ok ns sp_context_installed [OF ok c] v])
  have c4: "c < length (opteed_sp_context w)" using opteed_okD(1,9) [OF ok] ns by auto
  obtain w2 where s: "opteed_set_pstate c (sp_pstate st) w1 = Ret () w2"
    "sp_effect dbg c (x\<lparr>optee_state := set_optee_pstate (optee_state x) (sp_pstate st)\<rparr>) w w2"
    by (rule set_pstate_run [OF e(3) c4])
  have "opteed_pm_call dbg c v (sp_pstate st) w = Ret () w2"
    using e(2) s(1) by (simp add: opteed_pm_call_def panic_unless_zero_def mbind_then_run [OF e(1)])
  moreover have "opteed_ok dbg (\<sigma>(c := st)) w2"
    by (rule opteed_ok_effect [OF ok ns st s(2)]) (simp add: pstate_set_get sp_pstate_mask)
  moreover have "imx_ok w \<longrightarrow> imx_ok w2" using s(2) by (simp add: sp_effect_def)
  ultimately show thesis by (rule that)
qed

text \<open>Writing a register of the saved context changes nothing the invariant depends on.\<close>

lemma write_gpreg_run:
  assumes ok: "opteed_ok dbg \<sigma> w" and c: "\<sigma> c \<noteq> SP_NONE"
  obtains w' where "write_gpreg c n v w = Ret () w'" "opteed_ok dbg \<sigma> w'" "imx_ok w \<longrightarrow> imx_ok w'"
proof -
  have c4: "c < 4" using opteed_okD(9) [OF ok c] .
  let ?x = "opteed_sp_context w ! c"
  let ?w = "w\<lparr>opteed_sp_context := (opteed_sp_context w)[c := ?x\<lparr>cpu_ctx := (cpu_ctx ?x)\<lparr>gpregs := (gpregs (cpu_ctx ?x))[n := v]\<rparr>\<rparr>]\<rparr>"
  have "write_gpreg c n v w = Ret () ?w" using c4 opteed_okD(1) [OF ok] by (simp add: write_gpreg_def ctx_run)
  moreover have "opteed_ok dbg \<sigma> ?w"
    using ok unfolding opteed_ok_def opteed_core_ok_def vector_addr_def by (auto simp: nth_list_update)
  ultimately show thesis by (rule that) simp
qed

section \<open>The handlers move OP-TEE as PSCI expects\<close>

lemma off_handler_run:
  assumes c: "\<sigma> (plat_my_core_pos r) = SP_ON" and w: "imx_with (opteed_ok dbg) \<sigma> w"
  obtains w' where "opteed_cpu_off_handler dbg r a w = Ret 0 w'" "imx_with (opteed_ok dbg) (\<sigma>(plat_my_core_pos r := SP_OFF)) w'"
proof -
  from c w obtain w' where w': "opteed_pm_call dbg (plat_my_core_pos r) cpu_off_entry (sp_pstate SP_OFF) w = Ret () w'"
    "opteed_ok dbg (\<sigma>(plat_my_core_pos r := SP_OFF)) w'" "imx_ok w'"
    using pm_call_run [of dbg \<sigma> w "plat_my_core_pos r" cpu_off_entry SP_OFF] by (auto simp: pm_vectors_def imx_with_def)
  moreover have "opteed_check dbg (plat_my_core_pos r) OPTEE_PSTATE_ON w = Ret () w"
    using check_run [of dbg \<sigma> w _ SP_ON] c w by (simp add: imx_with_def)
  ultimately have "opteed_cpu_off_handler dbg r a w = Ret 0 w'"
    by (simp add: opteed_cpu_off_handler_def mbind_def mret_def Let_def)
  then show thesis using that w'(2,3) by (simp add: imx_with_def)
qed

lemma opteed_off_moves: "spd_may_turn_off (imx_with (opteed_ok dbg)) (Some (opteed_cpu_off_handler dbg))"
  unfolding spd_may_turn_off_def option.case
proof (intro allI impI)
  fix \<sigma> :: sp_states and r :: cpu_regs and a w assume "\<sigma> (plat_my_core_pos r) = SP_ON" "imx_with (opteed_ok dbg) \<sigma> w"
  then obtain w' where "opteed_cpu_off_handler dbg r a w = Ret 0 w'" "imx_with (opteed_ok dbg) (\<sigma>(plat_my_core_pos r := SP_OFF)) w'"
    by (rule off_handler_run)
  then show "\<exists>rc w'. opteed_cpu_off_handler dbg r a w = Ret rc w' \<and>
      (rc = PSCI_E_SUCCESS \<and> imx_with (opteed_ok dbg) (\<sigma>(plat_my_core_pos r := SP_OFF)) w' \<or>
       rc = PSCI_E_DENIED \<and> imx_with (opteed_ok dbg) \<sigma> w')" by blast
qed

text \<open>The handlers for suspend and resume differ in the states and the vector.\<close>

lemma opteed_call_moves:
  assumes h: "\<And>r a. h r a = (let c = plat_my_core_pos r in mbind (opteed_check dbg c (sp_pstate pre)) (\<lambda>_.
      mbind (write_gpreg c 0 a) (\<lambda>_. opteed_pm_call dbg c v (sp_pstate post))))"
    and pre: "pre = SP_ON \<or> pre = SP_SUSPENDED" and v: "v \<in> pm_vectors" and post: "post \<noteq> SP_NONE"
  shows "spd_moves (imx_with (opteed_ok dbg)) (Some h) pre post"
  unfolding spd_moves_def option.case imx_with_def
proof (intro allI impI)
  fix \<sigma> :: sp_states and r :: cpu_regs and a w assume c: "\<sigma> (plat_my_core_pos r) = pre" and w: "imx_ok w \<and> opteed_ok dbg \<sigma> w"
  let ?c = "plat_my_core_pos r"
  have ns: "\<sigma> ?c \<noteq> SP_NONE" "pre \<noteq> SP_NONE" using c pre by auto
  from w ns(1) obtain w1 where w1: "write_gpreg ?c 0 a w = Ret () w1" "opteed_ok dbg \<sigma> w1" "imx_ok w1"
    using write_gpreg_run [of dbg \<sigma> w ?c 0 a] by blast
  from pm_call_run [OF w1(2) _ v post, of ?c] c pre w1(3) obtain w2 where
    "opteed_pm_call dbg ?c v (sp_pstate post) w1 = Ret () w2" "opteed_ok dbg (\<sigma>(?c := post)) w2" "imx_ok w2" by metis
  then show "\<exists>x w'. h r a w = Ret x w' \<and> imx_ok w' \<and> opteed_ok dbg (\<sigma>(?c := post)) w'"
    using check_run [of dbg \<sigma> w ?c pre] c w ns w1(1) by (simp add: h mbind_def Let_def)
qed


lemma intr_store_view: "intr_store c (intr_view c w) w = w"
proof -
  have "(opteed_sp_context w)[i := (opteed_sp_context w ! i)\<lparr>cpu_ctx := (cpu_ctx (opteed_sp_context w ! i))
      \<lparr>ctx_scr_el3 := ctx_scr_el3 (cpu_ctx (opteed_sp_context w ! i))\<rparr>\<rparr>] = opteed_sp_context w" for i
    by (metis (no_types, lifting) list_update_id cpu_context_t.surjective cpu_context_t.update_convs(2) optee_context_t.surjective optee_context_t.update_convs(4))
  then show ?thesis by (simp add: intr_store_def intr_view_def split: option.splits)
qed

lemma routing_run:
  assumes "length (bl31_intr_descs w) = 3" "\<And>i. i < 3 \<Longrightarrow> length (intr_scr_el3 (bl31_intr_descs w ! i)) = 2"
  obtains rt where "with_intr c (get_scr_el3_from_routing_model dbg SECURE) w = Ret rt w"
proof -
  obtain rt where "get_scr_el3_from_routing_model dbg SECURE (intr_view c w) = Ret rt (intr_view c w)"
    using assms by (simp add: get_scr_el3_from_routing_model_def intr_view_def prog_simps)
  then show thesis by (intro that [of rt]) (simp add: with_intr_def intr_store_view)
qed

lemma init_ep_run:
  assumes "plat_my_core_pos r = c" "c < length (opteed_sp_context w)" "c < length (secure_context w)" "pc \<noteq> 0"
  obtains ep where "opteed_init_optee_ep_state dbg r rw pc x y z c w = Ret ep (w
      \<lparr>opteed_sp_context := (opteed_sp_context w)
         [c := (opteed_sp_context w ! c)\<lparr>optee_mpidr := mpidr_el1 r, optee_state := set_optee_pstate 0 OPTEE_PSTATE_OFF\<rparr>],
       secure_context := (secure_context w)[c := Some c]\<rparr>)"
    "ep_attr ep AND 1 = SECURE" "ep_pc ep = pc" "ep_args ep = [x, y, z, 0, 0, 0, 0, 0]"
  by (rule that, insert assms, simp add: opteed_init_optee_ep_state_def mbind_def ctx_run prog_simps) simp_all

lemma init_context_run:
  assumes "length (bl31_intr_descs w) = 3" "\<And>i. i < 3 \<Longrightarrow> length (intr_scr_el3 (bl31_intr_descs w ! i)) = 2"
    and "c < length (opteed_sp_context w)" "c < length (secure_context w)" "secure_context w ! c = Some c"
    and "ep_attr ep AND 1 = SECURE"
  obtains rt where "cm_init_my_context dbg c ep w = Ret () (w\<lparr>opteed_sp_context := (opteed_sp_context w)
      [c := (opteed_sp_context w ! c)\<lparr>cpu_ctx := cm_setup_context (el3_scr w) (el1_actlr w) rt ep\<rparr>]\<rparr>)"
proof -
  obtain rt where "with_intr c (get_scr_el3_from_routing_model dbg (ep_attr ep AND 1)) w = Ret rt w"
    unfolding assms(6) by (rule routing_run [OF assms(1,2)])
  then show thesis
    using assms by (intro that [of rt]) (simp add: cm_init_my_context_def mbind_def secure_context_run ctx_run prog_simps)
qed

lemma on_finish_run:
  assumes ok: "opteed_ok dbg \<sigma> w" and off: "\<sigma> (plat_my_core_pos r) = SP_OFF"
  obtains w' where "opteed_cpu_on_finish_handler dbg r a w = Ret () w'"
    "opteed_ok dbg (\<sigma>(plat_my_core_pos r := SP_ON)) w'" "imx_ok w \<longrightarrow> imx_ok w'"
proof -
  define c where "c = plat_my_core_pos r"
  note d = opteed_okD [OF ok]
  have ns: "\<sigma> c \<noteq> SP_NONE" using off by (simp add: c_def)
  have c4: "c < 4" and len: "c < length (opteed_sp_context w)" "c < length (secure_context w)" using d(1,2,9) ns by auto
  have core: "opteed_core_ok dbg \<sigma> w c" using d(10) [OF c4] .
  define y where "y = (opteed_sp_context w ! c)\<lparr>optee_mpidr := mpidr_el1 r, optee_state := set_optee_pstate 0 OPTEE_PSTATE_OFF\<rparr>"
  define w1 where "w1 = w\<lparr>opteed_sp_context := (opteed_sp_context w)[c := y], secure_context := (secure_context w)[c := Some c]\<rparr>"
  obtain ep where ep: "opteed_init_optee_ep_state dbg r (opteed_rw w) (vector_addr cpu_on_entry w) 0 0 0 c w = Ret ep w1"
      "ep_attr ep AND 1 = SECURE" "ep_pc ep = vector_addr cpu_on_entry w"
    unfolding w1_def y_def by (rule init_ep_run [OF c_def [symmetric] len d(7)])
  have w1: "bl31_intr_descs w1 = bl31_intr_descs w" "secure_context w1 ! c = Some c" "opteed_sp_context w1 ! c = y"
      "c < length (opteed_sp_context w1)" "c < length (secure_context w1)" using len by (simp_all add: w1_def)
  obtain rt where ctx: "cm_init_my_context dbg c ep w1 = Ret () (w1\<lparr>opteed_sp_context := (opteed_sp_context w1)
      [c := (opteed_sp_context w1 ! c)\<lparr>cpu_ctx := cm_setup_context (el3_scr w1) (el1_actlr w1) rt ep\<rparr>]\<rparr>)"
    by (rule init_context_run [OF _ _ w1(4,5,2) ep(2)]) (use d(4,5) w1(1) in auto)
  define z where "z = y\<lparr>cpu_ctx := cm_setup_context (el3_scr w1) (el1_actlr w1) rt ep\<rparr>"
  define w2 where "w2 = w1\<lparr>opteed_sp_context := (opteed_sp_context w1)[c := z]\<rparr>"
  have pre: "length (opteed_sp_context w2) = 4" "length (secure_context w2) = 4" "length (next_eret w2) = 4"
      "optee_answers (optee_vector_table w2) (sp_run w2)" "secure_context w2 ! c = Some c" "el3_sp w2 c \<noteq> 0"
      "dbg \<Longrightarrow> c_rt_ctx (opteed_sp_context w2 ! c) = 0"
      "ctx_elr_el3 (cpu_ctx (opteed_sp_context w2 ! c)) = vector_addr cpu_on_entry w2" "cpu_on_entry \<in> pm_vectors"
    using d c4 core ep(3) by (simp_all add: opteed_core_ok_def w2_def w1_def z_def y_def cm_setup_context_def vector_addr_def pm_vectors_def)
  from sync_entry_run [OF pre(1-4) c4 pre(5-9)] obtain rc k es where
    run: "opteed_synchronous_sp_entry dbg c w2 = Ret rc (w2
      \<lparr>next_eret := (next_eret w2)[c := Some SECURE],
       opteed_sp_context := (opteed_sp_context w2)[c := (opteed_sp_context w2 ! c)\<lparr>c_rt_ctx := k\<rparr>], sp_entries := es\<rparr>)"
    (is "_ = Ret rc ?u") "(ucast rc :: u32) = 0" "dbg \<Longrightarrow> k = 0" by blast
  have eff: "sp_effect dbg c (z\<lparr>c_rt_ctx := k\<rparr>) w ?u"
    using run(3) c4 d(1) by (simp add: sp_effect_def w2_def w1_def)
  obtain w3 where w3: "opteed_set_pstate c (sp_pstate SP_ON) ?u = Ret () w3"
    "sp_effect dbg c (z\<lparr>c_rt_ctx := k, optee_state := set_optee_pstate (optee_state z) (sp_pstate SP_ON)\<rparr>) w w3"
    using set_pstate_run [OF eff len(1), of SP_ON] by auto
  have "opteed_cpu_on_finish_handler dbg r a w = Ret () w3"
    using check_run [OF ok, of c SP_OFF] off w3(1) run(2) ctx w1(3)
    unfolding opteed_cpu_on_finish_handler_def Let_def c_def [symmetric] w2_def z_def
    by (simp add: mbind_def ep(1) run(1) [unfolded w2_def z_def] panic_unless_zero_def mret_def mget_def)
  moreover have "opteed_ok dbg (\<sigma>(c := SP_ON)) w3"
    by (rule opteed_ok_effect [OF ok ns _ w3(2)]) (simp_all add: pstate_set_get)
  moreover have "imx_ok w \<longrightarrow> imx_ok w3" using w3(2) by (simp add: sp_effect_def)
  ultimately show thesis using that unfolding c_def by blast
qed

lemma opteed_on_finish_moves: "spd_moves (imx_with (opteed_ok dbg)) (Some (opteed_cpu_on_finish_handler dbg)) SP_OFF SP_ON"
  unfolding spd_moves_def option.case imx_with_def
proof (intro allI impI)
  fix \<sigma> :: sp_states and r :: cpu_regs and a w
  assume c: "\<sigma> (plat_my_core_pos r) = SP_OFF" and w: "imx_ok w \<and> opteed_ok dbg \<sigma> w"
  obtain w' where "opteed_cpu_on_finish_handler dbg r a w = Ret () w'"
    "opteed_ok dbg (\<sigma>(plat_my_core_pos r := SP_ON)) w'" "imx_ok w \<longrightarrow> imx_ok w'"
    by (rule on_finish_run [OF conjunct2 [OF w] c])
  with w show "\<exists>v w'. opteed_cpu_on_finish_handler dbg r a w = Ret v w' \<and> imx_ok w' \<and> opteed_ok dbg (\<sigma>(plat_my_core_pos r := SP_ON)) w'"
    by blast
qed

text \<open>Telling OP-TEE that the system goes down leaves its state as it is, or stops.\<close>

lemma opteed_system_call_keeps:
  assumes v: "v \<in> pm_vectors"
  shows "hook_keeps (imx_with (opteed_ok dbg) \<sigma>)
    (mbind (opteed_check dbg c OPTEE_PSTATE_ON) (\<lambda>_. mbind (mget (vector_addr v)) (\<lambda>entry.
     mbind (cm_set_elr_el3 dbg c entry) (\<lambda>_. mbind (opteed_synchronous_sp_entry dbg c) (\<lambda>_. mret ())))))"
  unfolding hook_keeps_def imx_with_def
proof (intro allI impI)
  fix w assume w: "imx_ok w \<and> opteed_ok dbg \<sigma> w"
  then have ok: "opteed_ok dbg \<sigma> w" by simp
  note d = opteed_okD [OF ok]
  let ?m = "\<lambda>_. mbind (mget (vector_addr v)) (\<lambda>entry.
     mbind (cm_set_elr_el3 dbg c entry) (\<lambda>_. mbind (opteed_synchronous_sp_entry dbg c) (\<lambda>_. mret ())))"
  let ?goal = "\<lambda>m. wp m (\<lambda>_ w. imx_ok w \<and> opteed_ok dbg \<sigma> w) (\<lambda>r _. r \<noteq> Powered_down) w"
  show "?goal (mbind (opteed_check dbg c OPTEE_PSTATE_ON) ?m)"
  proof (cases "c < 4")
    case False
    then show ?thesis using d(1,6) by (simp add: wp_def mbind_def opteed_check_def ctx_read_def prog_simps)
  next
    case True
    then have chk: "opteed_check dbg c OPTEE_PSTATE_ON w = Ret () w \<or> opteed_check dbg c OPTEE_PSTATE_ON w = Stop Assertion_failed w"
      using d(1,6) by (simp add: opteed_check_def mbind_def ctx_run prog_simps dbg_assert_def)
    have ns: "\<sigma> c \<noteq> SP_NONE" using True d(10) by (auto simp: opteed_core_ok_def)
    have "?goal (?m ())"
    proof (cases "secure_context w ! c = Some c")
      case True
      obtain rc w1 x where e: "mbind (cm_set_elr_el3 dbg c (vector_addr v w)) (\<lambda>_. opteed_synchronous_sp_entry dbg c) w = Ret rc w1"
        "sp_effect dbg c x w w1" "optee_state x = optee_state (opteed_sp_context w ! c)" by (rule enter_at_run [OF ok ns True v])
      have "?m () w = Ret () w1"
        by (simp add: mbind_then_run [OF e(1)] mret_def)
      moreover have "opteed_ok dbg (\<sigma>(c := \<sigma> c)) w1"
        by (rule opteed_ok_effect [OF ok ns ns e(2)]) (use e(3) d(10) [OF \<open>c < 4\<close>] in \<open>simp add: opteed_core_ok_def\<close>)
      ultimately show ?thesis using e(2) w by (simp add: wp_def sp_effect_def)
    next
      case False
      then have "secure_context w ! c = None" using d(10) [OF \<open>c < 4\<close>] by (simp add: opteed_core_ok_def)
      then show ?thesis using d(2) \<open>c < 4\<close>
        by (simp add: wp_def mbind_def cm_set_elr_el3_def cm_get_secure_context_def prog_simps dbg_assert_def)
    qed
    then show ?thesis using chk by (auto simp: wp_def mbind_def)
  qed
qed

section \<open>The dispatcher satisfies the contract of the port\<close>

lemma opteed_own_state: "imx_world.more w = imx_world.more w' \<Longrightarrow> opteed_ok dbg \<sigma> w = opteed_ok dbg \<sigma> w'"
  by (cases w; cases w') (simp add: opteed_ok_def opteed_core_ok_def vector_addr_def)

lemma opteed_suspend_moves:
  "spd_moves (imx_with (opteed_ok dbg)) (Some (opteed_cpu_suspend_handler dbg)) SP_ON SP_SUSPENDED"
  by (rule opteed_call_moves [where v = cpu_suspend_entry]) (simp_all add: opteed_cpu_suspend_handler_def pm_vectors_def)

lemma opteed_resume_moves:
  "spd_moves (imx_with (opteed_ok dbg)) (Some (opteed_cpu_suspend_finish_handler dbg)) SP_SUSPENDED SP_ON"
  by (rule opteed_call_moves [where v = cpu_resume_entry]) (simp_all add: opteed_cpu_suspend_finish_handler_def pm_vectors_def)

lemma opteed_system_hooks_keep:
  "hook_keeps (imx_with (opteed_ok dbg) \<sigma>) (opteed_system_off dbg r)"
  "hook_keeps (imx_with (opteed_ok dbg) \<sigma>) (opteed_system_reset dbg r)"
  unfolding opteed_system_off_def opteed_system_reset_def Let_def
  by (rule opteed_system_call_keeps; simp add: pm_vectors_def)+

lemma opteed_pm_sel:
  "spd_sel (Some (opteed_pm dbg res)) svc_on = Some (opteed_cpu_on_handler dbg)"
  "spd_sel (Some (opteed_pm dbg res)) svc_off = Some (opteed_cpu_off_handler dbg)"
  "spd_sel (Some (opteed_pm dbg res)) svc_suspend = Some (opteed_cpu_suspend_handler dbg)"
  "spd_sel (Some (opteed_pm dbg res)) svc_on_finish = Some (opteed_cpu_on_finish_handler dbg)"
  "spd_sel (Some (opteed_pm dbg res)) svc_suspend_finish = Some (opteed_cpu_suspend_finish_handler dbg)"
  "spd_sel (Some (opteed_pm dbg res)) svc_migrate = None"
  "spd_sel (Some (opteed_pm dbg res)) svc_migrate_info = Some (opteed_cpu_migrate_info res)"
  "spd_sel (Some (opteed_pm dbg res)) svc_system_off = Some (opteed_system_off dbg)"
  "spd_sel (Some (opteed_pm dbg res)) svc_system_reset = Some (opteed_system_reset dbg)"
  by (simp_all add: spd_sel_def opteed_pm_def)

interpretation imx_optee: imx_dispatcher "Some (opteed_pm dbg resident)" "opteed_ok dbg" b fq for dbg resident b fq
proof (unfold_locales, unfold opteed_pm_sel)
  show "\<And>w w' \<sigma>. imx_world.more w = imx_world.more w' \<Longrightarrow> opteed_ok dbg \<sigma> w \<Longrightarrow> opteed_ok dbg \<sigma> w'"
    using opteed_own_state by blast
  show "\<And>g \<sigma> r x. Some (opteed_cpu_on_handler dbg) = Some g \<Longrightarrow> hook_ok (imx_with (opteed_ok dbg) \<sigma>) (g r x) (\<lambda>_. True)"
    by (auto simp: opteed_cpu_on_handler_def intro: hook_ok_mret)
  show "\<And>h \<sigma> r. Some (opteed_cpu_migrate_info resident) = Some h \<Longrightarrow> hook_keeps (imx_with (opteed_ok dbg) \<sigma>) (h r)"
    by (auto simp: opteed_cpu_migrate_info_def intro!: hook_ok_keeps [where P = "\<lambda>_. True"] hook_ok_mret)
qed (use opteed_off_moves opteed_suspend_moves opteed_resume_moves opteed_on_finish_moves opteed_system_hooks_keep in auto)

end
