(* ===== verification/Opteed_Boot.thy ===== *)
theory Opteed_Boot
  imports Imx8mq_Boot Opteed_Pm
begin

text \<open>
  The cold boot with OP-TEE: \<^verbatim>\<open>psci_setup\<close>, then the initialisation of the dispatcher
  (\<^verbatim>\<open>opteed_setup\<close>, called from \<^verbatim>\<open>runtime_svc_init\<close>) and the first entry into OP-TEE
  (\<^verbatim>\<open>opteed_init\<close>, called from \<^verbatim>\<open>bl31_main\<close>). It leaves the hooks registered and the invariant of
  the library and of the dispatcher true.
\<close>

text \<open>
  The world before the dispatcher is set up: zeroed contexts, no handler for secure interrupts, an
  entry point \<open>ep\<close> for OP-TEE; OP-TEE answers its first entry with its vector table at \<open>vt\<close>.
\<close>

definition opteed_cold :: "u64 \<Rightarrow> entry_point_info_t \<Rightarrow> bl31_world \<Rightarrow> bool" where
  "opteed_cold vt ep w \<longleftrightarrow>
     length (opteed_sp_context w) = 4 \<and> secure_context w = replicate 4 None \<and> length (ns_scr_el3 w) = 4 \<and>
     length (next_eret w) = 4 \<and> (\<forall>x \<in> set (opteed_sp_context w). optee_state x = 0 \<and> c_rt_ctx x = 0) \<and>
     (\<forall>c < 4. el3_sp w c \<noteq> 0) \<and> intr_inv (intr_view 0 w) \<and> intr_handler (bl31_intr_descs w ! 0) = None \<and>
     optee_vector_table w = 0 \<and> bl32_ep_info w = Some ep \<and> ep_pc ep \<noteq> 0 \<and> sp_entries w = [] \<and>
     sp_run w [(0, ep_pc ep, [ep_args ep ! 1, ep_args ep ! 2, ep_args ep ! 3, 0, 0, 0, 0, 0])] = (TEESMC_OPTEED_RV 0, vt) \<and>
     vt \<noteq> 0 \<and> vt + vector_offset cpu_on_entry \<noteq> 0 \<and> optee_answers vt (sp_run w)"

lemma opteed_setup_run:
  assumes cold: "opteed_cold vt ep w" and c: "plat_my_core_pos r = 0"
  obtains ep' where "opteed_setup dbg r w = Ret 0 (w
      \<lparr>opteed_rw := ucast (ep_args ep ! 0),
       opteed_sp_context := (opteed_sp_context w)
         [0 := (opteed_sp_context w ! 0)\<lparr>optee_mpidr := mpidr_el1 r, optee_state := set_optee_pstate 0 OPTEE_PSTATE_OFF\<rparr>],
       secure_context := (secure_context w)[0 := Some 0], bl32_ep_info := Some ep', bl32_init := True\<rparr>)"
    "ep_attr ep' AND 1 = SECURE" "ep_pc ep' = ep_pc ep" "ep_args ep' = [ep_args ep ! 1, ep_args ep ! 2, ep_args ep ! 3, 0, 0, 0, 0, 0]"
proof -
  let ?w = "w\<lparr>opteed_rw := ucast (ep_args ep ! 0)\<rparr>"
  have len: "0 < length (opteed_sp_context ?w)" "0 < length (secure_context ?w)" "ep_pc ep \<noteq> 0" "bl32_ep_info w = Some ep"
    using cold by (auto simp: opteed_cold_def)
  obtain ep' where e: "opteed_init_optee_ep_state dbg r (ucast (ep_args ep ! 0)) (ep_pc ep) (ep_args ep ! 1) (ep_args ep ! 2) (ep_args ep ! 3) 0 ?w
     = Ret ep' (?w\<lparr>opteed_sp_context := (opteed_sp_context ?w)
         [0 := (opteed_sp_context ?w ! 0)\<lparr>optee_mpidr := mpidr_el1 r, optee_state := set_optee_pstate 0 OPTEE_PSTATE_OFF\<rparr>],
       secure_context := (secure_context ?w)[0 := Some 0]\<rparr>)"
    "ep_attr ep' AND 1 = SECURE" "ep_pc ep' = ep_pc ep" "ep_args ep' = [ep_args ep ! 1, ep_args ep ! 2, ep_args ep ! 3, 0, 0, 0, 0, 0]"
    by (rule init_ep_run [OF c len(1-3)])
  show thesis
    by (rule that [OF _ e(2-4)]) (simp add: opteed_setup_def len mbind_def e(1) prog_simps c del: One_nat_def)
qed

lemma opteed_intr_run:
  assumes "intr_inv (intr_view c w)" "intr_handler (bl31_intr_descs w ! 0) = None"
    "secure_context w ! c = Some c" "c < length (opteed_sp_context w)"
  obtains descs scr ns where "opteed_entry_intr dbg c w = Ret () (w\<lparr>bl31_intr_descs := descs,
      opteed_sp_context := (opteed_sp_context w)[c := (opteed_sp_context w ! c)
        \<lparr>cpu_ctx := (cpu_ctx (opteed_sp_context w ! c))\<lparr>ctx_scr_el3 := scr\<rparr>\<rparr>], ns_scr_el3 := ns\<rparr>)"
    "length descs = 3" "\<forall>d \<in> set descs. length (intr_scr_el3 d) = 2"
    "descs ! 0 = (routed_desc INTR_TYPE_S_EL1 2 (bl31_intr_descs w ! 0))\<lparr>intr_handler := Some Opteed_sel1_interrupt_handler\<rparr>"
proof -
  let ?s = "intr_view c w"
  let ?descs = "(bl31_intr_descs w)[0 := (routed_desc INTR_TYPE_S_EL1 2 (bl31_intr_descs w ! 0))\<lparr>intr_handler := Some Opteed_sel1_interrupt_handler\<rparr>]"
  have t: "validate_interrupt_type INTR_TYPE_S_EL1 = 0" and fl: "set_interrupt_rm_flag 0 NON_SECURE = 2" "validate_routing_model INTR_TYPE_S_EL1 2 = 0"
    by code_simp+
  have reg: "register_interrupt_type_handler dbg INTR_TYPE_S_EL1 (Some Opteed_sel1_interrupt_handler) 2 ?s =
      Ret 0 (?s\<lparr>intr_type_descs := ?descs, context_scr_el3 := routed_contexts INTR_TYPE_S_EL1 2 (context_scr_el3 ?s)\<rparr>)" (is "_ = Ret 0 ?t")
    using register_run [OF assms(1) t, of dbg "Some Opteed_sel1_interrupt_handler" 2] assms(2) fl(2) by (simp add: intr_view_def)
  have "intr_inv ?t" using register_keeps_inv [OF assms(1) t reg] .
  from intr_inv_lengths [OF this] have "length ?descs = 3" "\<forall>d \<in> set ?descs. length (intr_scr_el3 d) = 2"
    by (simp_all add: all_set_conv_all_nth)
  moreover obtain scr where "context_scr_el3 ?t SECURE = Some scr"
    using assms(3) by (simp add: routed_contexts_def intr_view_def scr_bit_def)
  ultimately show thesis
    using assms(3) by (intro that [where descs = ?descs and scr = scr]) (auto simp: opteed_entry_intr_def fl(1) mbind_def with_intr_def reg mret_def intr_store_def)
qed


text \<open>The first entry into OP-TEE on core 0, up to its answer.\<close>

lemma first_entry_run:
  assumes len: "length (opteed_sp_context w) = 4" "length (secure_context w) = 4" "secure_context w ! 0 = Some 0" "length (next_eret w) = 4"
    and inv: "intr_inv (intr_view 0 w)" and h: "sp_entries w = []" and rt0: "c_rt_ctx (opteed_sp_context w ! 0) = 0"
    and attr: "ep_attr ep AND 1 = SECURE" and ans: "sp_run w [(0, ep_pc ep, ep_args ep)] = (fid, x1)"
  obtains x es where "mbind (cm_init_my_context dbg 0 ep) (\<lambda>_. opteed_enter_sp dbg 0) w = Ret (fid, x1) (w\<lparr>
      opteed_sp_context := (opteed_sp_context w)[0 := x], next_eret := (next_eret w)[0 := Some SECURE], sp_entries := es\<rparr>)"
    "c_rt_ctx x = el3_sp w 0" "optee_state x = optee_state (opteed_sp_context w ! 0)"
proof -
  have l: "0 < length (opteed_sp_context w)" "0 < length (secure_context w)" using len by auto
  obtain rt where "cm_init_my_context dbg 0 ep w = Ret () (w\<lparr>opteed_sp_context := (opteed_sp_context w)
      [0 := (opteed_sp_context w ! 0)\<lparr>cpu_ctx := cm_setup_context (el3_scr w) (el1_actlr w) rt ep\<rparr>]\<rparr>)"
    by (rule init_context_run [OF _ _ l len(3) attr]) (use intr_inv_lengths [OF inv] in \<open>simp_all add: intr_view_def\<close>)
  then have "mbind (cm_init_my_context dbg 0 ep) (\<lambda>_. opteed_enter_sp dbg 0) w = Ret (fid, x1) (w\<lparr>
      opteed_sp_context := (opteed_sp_context w)[0 := (opteed_sp_context w ! 0)
        \<lparr>cpu_ctx := cm_setup_context (el3_scr w) (el1_actlr w) rt ep, c_rt_ctx := el3_sp w 0\<rparr>],
      next_eret := (next_eret w)[0 := Some SECURE], sp_entries := [(0, ep_pc ep, ep_args ep)]\<rparr>)"
    using len h rt0 ans by (simp add: mbind_def opteed_enter_sp_def ctx_run next_eret_run prog_simps cm_setup_context_def)
  then show thesis by (rule that) simp_all
qed

text \<open>OP-TEE reports that it is initialised: the vector table, the state and the interrupt handler are recorded.\<close>

lemma entry_done_run:
  assumes len: "length (opteed_sp_context w) = 4" "secure_context w ! 0 = Some 0" "length (secure_context w) = 4"
    and inv: "intr_inv (intr_view 0 w)" "intr_handler (bl31_intr_descs w ! 0) = None"
    and vt: "optee_vector_table w = 0" "vt \<noteq> 0" "c_rt_ctx (opteed_sp_context w ! 0) \<noteq> 0"
  obtains w1 descs ns x where "opteed_entry_done dbg 0 vt w = Ret () w1"
    "opteed_entry_intr dbg 0 w1 = Ret () (w\<lparr>optee_vector_table := vt, opteed_sp_context := (opteed_sp_context w)[0 := x],
       bl31_intr_descs := descs, ns_scr_el3 := ns\<rparr>)"
    "length descs = 3" "\<forall>d \<in> set descs. length (intr_scr_el3 d) = 2"
    "descs ! 0 = (routed_desc INTR_TYPE_S_EL1 2 (bl31_intr_descs w ! 0))\<lparr>intr_handler := Some Opteed_sel1_interrupt_handler\<rparr>"
    "c_rt_ctx x = c_rt_ctx (opteed_sp_context w ! 0)" "get_optee_pstate (optee_state x) = OPTEE_PSTATE_ON"
proof -
  let ?y = "(opteed_sp_context w ! 0)\<lparr>optee_state := set_optee_pstate (optee_state (opteed_sp_context w ! 0)) OPTEE_PSTATE_ON\<rparr>"
  define w1 where "w1 = w\<lparr>optee_vector_table := vt, opteed_sp_context := (opteed_sp_context w)[0 := ?y]\<rparr>"
  have l: "0 < length (opteed_sp_context w)" using len by auto
  have done_: "opteed_entry_done dbg 0 vt w = Ret () w1"
    using l vt by (simp add: opteed_entry_done_def mbind_def ctx_run prog_simps w1_def)
  have "intr_inv (intr_view 0 w1)" using inv by (simp add: intr_inv_def intr_view_def w1_def)
  moreover have "intr_handler (bl31_intr_descs w1 ! 0) = None" "secure_context w1 ! 0 = Some 0" "0 < length (opteed_sp_context w1)"
    using inv len by (simp_all add: w1_def)
  ultimately obtain descs scr ns where i: "opteed_entry_intr dbg 0 w1 = Ret () (w1\<lparr>bl31_intr_descs := descs,
      opteed_sp_context := (opteed_sp_context w1)[0 := (opteed_sp_context w1 ! 0)
        \<lparr>cpu_ctx := (cpu_ctx (opteed_sp_context w1 ! 0))\<lparr>ctx_scr_el3 := scr\<rparr>\<rparr>], ns_scr_el3 := ns\<rparr>)"
    "length descs = 3" "\<forall>d \<in> set descs. length (intr_scr_el3 d) = 2"
    "descs ! 0 = (routed_desc INTR_TYPE_S_EL1 2 (bl31_intr_descs w1 ! 0))\<lparr>intr_handler := Some Opteed_sel1_interrupt_handler\<rparr>"
    by (rule opteed_intr_run [where dbg = dbg])
  show thesis
    using i l by (intro that [OF done_ _ i(2,3), where x = "?y\<lparr>cpu_ctx := (cpu_ctx ?y)\<lparr>ctx_scr_el3 := scr\<rparr>\<rparr>" and ns = ns])
      (simp_all add: w1_def pstate_set_get)
qed


lemma lift_world_then_run:
  "mbind m (\<lambda>_. n) (world s) = Ret v w \<Longrightarrow> mbind (lift_world m) (\<lambda>_. mbind (lift_world n) f) s = f v (s\<lparr>world := w\<rparr>)"
  by (auto simp: mbind_def lift_world_def split: outcome.splits)

text \<open>OP-TEE is on on the boot core only.\<close>

definition optee_booted_sp :: sp_states where
  "optee_booted_sp c = (if c = 0 then SP_ON else if c < 4 then SP_OFF else SP_NONE)"

lemma opteed_init_run:
  assumes cold: "opteed_cold vt ep (world s)" and c: "plat_my_core_pos e = 0" and r: "plat_my_core_pos r = 0"
    and set_up: "opteed_setup dbg r (world s) = Ret rc w1"
  shows "\<exists>w2 caps. opteed_init dbg res e (s\<lparr>world := w1\<rparr>) = Ret vt (s\<lparr>psci_spd_pm := Some (opteed_pm dbg res), psci_caps := caps, world := w2\<rparr>) \<and>
     caps = psci_caps s OR (define_psci_cap 0xc4000007 OR define_psci_cap 0x84000006) \<and>
     opteed_ok dbg optee_booted_sp w2 \<and> (imx_ok (world s) \<longrightarrow> imx_ok w2)"
proof -
  define w where "w = world s"
  obtain ep' where ep': "opteed_setup dbg r w = Ret 0 (w
      \<lparr>opteed_rw := ucast (ep_args ep ! 0),
       opteed_sp_context := (opteed_sp_context w)
         [0 := (opteed_sp_context w ! 0)\<lparr>optee_mpidr := mpidr_el1 r, optee_state := set_optee_pstate 0 OPTEE_PSTATE_OFF\<rparr>],
       secure_context := (secure_context w)[0 := Some 0], bl32_ep_info := Some ep', bl32_init := True\<rparr>)"
    "ep_attr ep' AND 1 = SECURE" "ep_pc ep' = ep_pc ep" "ep_args ep' = [ep_args ep ! 1, ep_args ep ! 2, ep_args ep ! 3, 0, 0, 0, 0, 0]"
    by (rule opteed_setup_run [OF cold r, folded w_def])
  note w1 = set_up [folded w_def, unfolded ep'(1), simplified, THEN conjunct2, symmetric]
  have x: "length (opteed_sp_context w1) = 4" "length (secure_context w1) = 4" "secure_context w1 ! 0 = Some 0" "length (next_eret w1) = 4"
    "intr_inv (intr_view 0 w1)" "sp_entries w1 = []" "c_rt_ctx (opteed_sp_context w1 ! 0) = 0"
    "sp_run w1 [(0, ep_pc ep', ep_args ep')] = (TEESMC_OPTEED_RV 0, vt)"
    "bl32_ep_info w1 = Some ep'" "optee_vector_table w1 = 0" "intr_handler (bl31_intr_descs w1 ! 0) = None"
    using cold unfolding w1 opteed_cold_def w_def [symmetric] by (simp_all add: intr_inv_def intr_view_def ep')
  have sp: "el3_sp w1 0 \<noteq> 0" "vt \<noteq> 0" using cold unfolding w1 opteed_cold_def w_def [symmetric] by simp_all
  obtain y es where entry: "mbind (cm_init_my_context dbg 0 ep') (\<lambda>_. opteed_enter_sp dbg 0) w1 = Ret (TEESMC_OPTEED_RV 0, vt) (w1\<lparr>
      opteed_sp_context := (opteed_sp_context w1)[0 := y], next_eret := (next_eret w1)[0 := Some SECURE], sp_entries := es\<rparr>)"
    (is "_ = Ret _ ?w2") "c_rt_ctx y = el3_sp w1 0"
    by (rule first_entry_run [OF x(1-7) ep'(2) x(8)])
  have y: "length (opteed_sp_context ?w2) = 4" "secure_context ?w2 ! 0 = Some 0" "length (secure_context ?w2) = 4"
    "intr_inv (intr_view 0 ?w2)" "intr_handler (bl31_intr_descs ?w2 ! 0) = None" "optee_vector_table ?w2 = 0"
    "c_rt_ctx (opteed_sp_context ?w2 ! 0) \<noteq> 0"
    using x sp entry(2) by (simp_all add: intr_inv_def intr_view_def)
  obtain w3 descs ns z where done_: "opteed_entry_done dbg 0 vt ?w2 = Ret () w3"
    "opteed_entry_intr dbg 0 w3 = Ret () (?w2\<lparr>optee_vector_table := vt, opteed_sp_context := (opteed_sp_context ?w2)[0 := z],
       bl31_intr_descs := descs, ns_scr_el3 := ns\<rparr>)" (is "_ = Ret () ?w4")
    "length descs = 3" "\<forall>d \<in> set descs. length (intr_scr_el3 d) = 2"
    "c_rt_ctx z = c_rt_ctx (opteed_sp_context ?w2 ! 0)" "get_optee_pstate (optee_state z) = OPTEE_PSTATE_ON"
    by (rule entry_done_run [OF y(1-6) sp(2) y(7)])
  define w2 where "w2 = ?w2"
  define w4 where "w4 = ?w4"
  define w5 where "w5 = (if dbg then w4\<lparr>opteed_sp_context := (opteed_sp_context w4)[0 := z\<lparr>c_rt_ctx := 0\<rparr>]\<rparr> else w4)"
  note run = entry(1) [folded w2_def] done_(1,2) [folded w4_def, folded w2_def]
  define caps where "caps = psci_caps s OR (define_psci_cap 0xc4000007 OR define_psci_cap 0x84000006)"
  have reg: "psci_register_spd_pm_hook (opteed_pm dbg res) (s\<lparr>world := w3\<rparr>) =
      Ret () (s\<lparr>psci_spd_pm := Some (opteed_pm dbg res), psci_caps := caps, world := w3\<rparr>)"
    by (simp add: psci_register_spd_pm_hook_def caps_def mmodify_def opteed_pm_def)
  have w4: "length (opteed_sp_context w4) = 4" "length (secure_context w4) = 4" "secure_context w4 ! 0 = Some 0"
    "opteed_sp_context w4 ! 0 = z" using y by (simp_all add: w4_def)
  have exit: "opteed_synchronous_sp_exit dbg 0 vt w4 = Ret vt w4"
    using w4 y(7) done_(5) by (simp add: opteed_synchronous_sp_exit_def mbind_def ctx_run prog_simps)
  have leave: "opteed_leave_sp dbg 0 w4 = Ret () w5"
    using w4 by (simp add: opteed_leave_sp_def w5_def ctx_run mret_def)
  have "opteed_smc_handler dbg res e (TEESMC_OPTEED_RV 0) vt 0 0 0 [0, 0, 0, 0] 0 (s\<lparr>world := w2\<rparr>) =
      Ret (To_sync_caller vt) (s\<lparr>psci_spd_pm := Some (opteed_pm dbg res), psci_caps := caps, world := w4\<rparr>)"
    unfolding opteed_smc_handler_def Let_def c
    using sp(2) by (simp add: is_caller_secure_def mbind_def lift_world_def run exit reg mret_def)
  then have "opteed_init dbg res e (s\<lparr>world := w1\<rparr>) = Ret vt (s\<lparr>psci_spd_pm := Some (opteed_pm dbg res), psci_caps := caps, world := w5\<rparr>)"
    unfolding opteed_init_def Let_def c
    using sp(2) by (simp add: x(9) lift_world_then_run [of _ _ "s\<lparr>world := w1\<rparr>", simplified, OF run(1)] mbind_def [of "opteed_smc_handler dbg res e (TEESMC_OPTEED_RV 0) vt 0 0 0 [0, 0, 0, 0] 0"]
        mbind_def [of "lift_world (opteed_leave_sp dbg 0)"] lift_world_def leave mret_def)
  moreover have "opteed_ok dbg optee_booted_sp w5"
  proof -
    have "opteed_core_ok dbg optee_booted_sp w5 c" if "c < 4" for c
      using that cold done_(5,6) entry(2) y(7) w4
      by (auto simp: opteed_core_ok_def w5_def w4_def w1 opteed_cold_def w_def [symmetric] optee_booted_sp_def nth_list_update get_optee_pstate_def)
    then show ?thesis
      using cold done_(3,4) w4 unfolding opteed_ok_def
      by (auto simp: w5_def w4_def w1 opteed_cold_def w_def [symmetric] optee_booted_sp_def vector_addr_def)
  qed
  moreover have "imx_ok w \<longrightarrow> imx_ok w5" by (simp add: w5_def w4_def w1 imx_ok_def)
  ultimately show ?thesis unfolding w_def caps_def by blast
qed

lemma opteed_cold_log: "opteed_cold vt ep (w\<lparr>imx_log := l\<rparr>) = opteed_cold vt ep w"
  by (cases w) (simp add: opteed_cold_def intr_inv_def intr_view_def)

lemma optee_boot_returns:
  assumes port: "on_port (imx8mq_port b fq) e" and c: "plat_my_core_pos e = 0"
    and args: "verify_psci_lib_args_v1 args" and w: "opteed_cold vt ep w"
  obtains t w1 t2 w' w2 where "psci_setup e imx_plat_setup_psci_ops args (zeroed_psci_state e ops0 w) = Ret 0 t"
    "opteed_setup dbg (regs e) (world t) = Ret 0 w1" "opteed_init dbg res e (t\<lparr>world := w1\<rparr>) = Ret vt t2"
    "imx_booted e imx_plat_psci_ops w' t"
    "t2 = t\<lparr>psci_spd_pm := Some (opteed_pm dbg res),
      psci_caps := psci_setup_caps e (imx_plat_psci_ops :: bl31_world plat_psci_ops_t) OR (define_psci_cap 0xc4000007 OR define_psci_cap 0x84000006),
      world := w2\<rparr>"
proof -
  obtain t where t: "psci_setup e imx_plat_setup_psci_ops args (zeroed_psci_state e ops0 w) = Ret 0 t"
    "imx_booted e imx_plat_psci_ops (w\<lparr>imx_log := imx_log w @ [Imx_mailbox_init (mailbox_ep args)]\<rparr>) t"
    by (rule cold_boot_run [OF port c args])
  have cold: "opteed_cold vt ep (world t)" using t(2) w by (simp add: imx_booted_def opteed_cold_log)
  have r: "plat_my_core_pos (regs e) = 0" using c by (simp add: cpu_regs.truncate_def)
  obtain w1 where "opteed_setup dbg (regs e) (world t) = Ret 0 w1" using opteed_setup_run [OF cold r] by metis
  moreover obtain w2 where "opteed_init dbg res e (t\<lparr>world := w1\<rparr>) = Ret vt (t\<lparr>psci_spd_pm := Some (opteed_pm dbg res),
      psci_caps := psci_setup_caps e (imx_plat_psci_ops :: bl31_world plat_psci_ops_t) OR (define_psci_cap 0xc4000007 OR define_psci_cap 0x84000006),
      world := w2\<rparr>)"
    using opteed_init_run [OF cold c r calculation, of res] t(2) unfolding imx_booted_def by auto
  ultimately show thesis using t by (intro that) (auto intro: refl)
qed

lemma optee_boot_sys_ok:
  assumes port: "on_port (imx8mq_port b fq) e" and c: "plat_my_core_pos e = 0"
    and args: "verify_psci_lib_args_v1 args" and w: "imx_ok w" "opteed_cold vt ep w"
    and run: "psci_setup e imx_plat_setup_psci_ops args (zeroed_psci_state e ops0 w) = Ret v t"
      "opteed_setup dbg (regs e) (world t) = Ret rc w1" "opteed_init dbg res e (t\<lparr>world := w1\<rparr>) = Ret x t2"
  shows "imx_optee.sys_ok dbg res b fq (t2, boot_phases)"
proof -
  obtain t' where "psci_setup e imx_plat_setup_psci_ops args (zeroed_psci_state e ops0 w) = Ret 0 t'"
    "imx_booted e imx_plat_psci_ops (w\<lparr>imx_log := imx_log w @ [Imx_mailbox_init (mailbox_ep args)]\<rparr>) t'"
    by (rule cold_boot_run [OF port c args])
  then have t: "imx_booted e imx_plat_psci_ops (w\<lparr>imx_log := imx_log w @ [Imx_mailbox_init (mailbox_ep args)]\<rparr>) t" using run(1) by simp
  then have cold: "opteed_cold vt ep (world t)" "imx_ok (world t)" using w by (simp_all add: imx_booted_def opteed_cold_log imx_ok_log)
  have r: "plat_my_core_pos (regs e) = 0" using c by (simp add: cpu_regs.truncate_def)
  from opteed_init_run [OF cold(1) c r run(2), of res] run(3) obtain w2 caps where
    t2: "t2 = t\<lparr>psci_spd_pm := Some (opteed_pm dbg res), psci_caps := caps, world := w2\<rparr>" "opteed_ok dbg optee_booted_sp w2" "imx_ok w2"
    using cold(2) by auto
  have "sp_of t2 boot_phases = optee_booted_sp"
    using t by (auto simp: t2 sp_of_def sp_phase_def boot_phases_def optee_booted_sp_def imx_booted_def nth_list_update split: aff_info_state_t.splits)
  moreover have "psci_inv e t boot_phases"
    using booted_inv [OF t port] unfolding boot_phases_def [abs_def] .
  then have "psci_inv e t2 boot_phases"
    by (simp add: t2 psci_inv_def wf_tree_def dom_ok_def unlocked_def cpu_ok_def)
  moreover have "psci_plat_pm_ops t2 = imx_plat_psci_ops" using t by (simp add: t2 imx_booted_def)
  ultimately show ?thesis
    using t2 by (simp add: imx_optee.sys_ok_def imx_optee.plat_ok_def psci_inv_port [OF port] imx_with_def)
qed

end
