(* ===== verification/Psci_Results.thy ===== *)
theory Psci_Results
  imports Imx8mq_Boot
begin

text \<open>
  The results on the PSCI library: state coordination, locks, the power operations, the validation
  of their arguments and the dispatch of the calls. The operations that call hooks are stated for
  the i.MX8MQ port in the states \<open>imx_reachable\<close> of a firmware without a dispatcher, which is enough
  here: \<^verbatim>\<open>psci_cpu_on_start()\<close> decides its refusals before it calls a hook of the dispatcher, and the
  \<^verbatim>\<open>svc_on\<close> hook of the OP-TEE dispatcher is empty. Each result with a hypothesis is followed by an instance on the
  sample system.
\<close>

section \<open>State coordination\<close>

text \<open>
  C12. State coordination refines its reference definition: for every tree, core, end level and
  requested states, the two loops of psci\_do\_state\_coordination return \<open>coord_result\<close> (the
  shallowest request of the domain at each level, RUN above a level that stays in RUN), record the
  requests of the core, and store the result in the nodes on the path of the core.
\<close>

theorem state_coordination_refines:
  assumes "wf_tree e s" "plat_my_core_pos e < PLATFORM_CORE_COUNT e" "n \<le> PLAT_MAX_PWR_LVL e"
    and "length si = Suc (PLAT_MAX_PWR_LVL e)"
  shows "psci_do_state_coordination e n si s =
     Ret (coord_result e s (plat_my_core_pos e) si n)
       (s\<lparr>psci_req_local_pwr_states := req_path (plat_my_core_pos e) si n (psci_req_local_pwr_states s),
          psci_svc_cpu_data := svc_upd (plat_my_core_pos e) (\<lambda>d. d\<lparr>cpu_local_state := si ! 0\<rparr>) (psci_svc_cpu_data s),
          psci_non_cpu_pd_nodes :=
            node_path (coord_result e s (plat_my_core_pos e) si n) (ancestor s (plat_my_core_pos e)) n (psci_non_cpu_pd_nodes s)\<rparr>)"
  by (rule coordination_run [OF assms(1) refl assms(2-4)])

theorem state_coordination_refines_witness:
  "psci_do_state_coordination (sample_core 0) 2 [4, 4, 4] sample_booted =
     Ret (coord_result (sample_core 0) sample_booted 0 [4, 4, 4] 2)
       (sample_booted\<lparr>psci_req_local_pwr_states := req_path 0 [4, 4, 4] 2 (psci_req_local_pwr_states sample_booted),
          psci_svc_cpu_data := svc_upd 0 (\<lambda>d. d\<lparr>cpu_local_state := 4\<rparr>) (psci_svc_cpu_data sample_booted),
          psci_non_cpu_pd_nodes :=
            node_path (coord_result (sample_core 0) sample_booted 0 [4, 4, 4] 2) (ancestor sample_booted 0) 2
              (psci_non_cpu_pd_nodes sample_booted)\<rparr>)"
  using state_coordination_refines [OF sample_tree(1), of 2 "[4, 4, 4]"] by simp

text \<open>
  C19. Coordination never puts a domain in a deeper state than one of its cores has agreed to: the
  state it chooses at a level is at most the request of every core of the domain, and it is the
  state the node of the domain then holds.
\<close>

theorem coordination_respects_requests:
  assumes wf: "wf_tree e s" and c: "plat_my_core_pos e < PLATFORM_CORE_COUNT e" and n: "n \<le> PLAT_MAX_PWR_LVL e"
    and si: "length si = Suc (PLAT_MAX_PWR_LVL e)" and run: "psci_do_state_coordination e n si s = Ret si' t"
    and l: "l \<in> {1..n}" and c': "c' < PLATFORM_CORE_COUNT e" "ancestor s c' l = ancestor s (plat_my_core_pos e) l"
  shows "si' ! l \<le> psci_req_local_pwr_states t ! (l - 1) ! c' \<and>
     local_state (psci_non_cpu_pd_nodes t ! ancestor s c' l) = si' ! l"
proof -
  let ?c = "plat_my_core_pos e"
  have l': "1 \<le> l" "l \<le> n" "l \<le> PLAT_MAX_PWR_LVL e" "l < length si" using l n si by auto
  have si': "si' = coord_result e s ?c si n"
    and t: "psci_req_local_pwr_states t = req_path ?c si n (psci_req_local_pwr_states s)"
      "psci_non_cpu_pd_nodes t = node_path si' (ancestor s ?c) n (psci_non_cpu_pd_nodes s)"
    using run by (auto simp: coordination_run [OF wf refl c n si])
  have "si' ! l \<le> coord_target e s ?c si l"
    using coord_level_le_target [OF l'(1)] l' by (simp add: si' coord_result_nth)
  also have "\<dots> \<le> (psci_req_local_pwr_states s ! (l - 1))[?c := si ! l] ! c'"
    by (rule coord_target_le [OF wf c l'(1,3) c'])
  finally have "si' ! l \<le> psci_req_local_pwr_states t ! (l - 1) ! c'"
    using l' wf_lengths(5) [OF wf] by (cases l) (simp_all add: t req_path_row)
  then show ?thesis
    using node_path_at [OF wf c n l'(1,2)] by (simp add: t c'(2))
qed

theorem coordination_respects_requests_witness:
  "\<exists>si' t. psci_do_state_coordination (sample_core 0) 2 [4, 4, 4] sample_booted = Ret si' t \<and>
     si' ! 1 \<le> psci_req_local_pwr_states t ! 0 ! 3 \<and> local_state (psci_non_cpu_pd_nodes t ! 1) = si' ! 1"
proof -
  obtain si' t where run: "psci_do_state_coordination (sample_core 0) 2 [4, 4, 4] sample_booted = Ret si' t"
    using coordination_run [OF sample_tree(1) refl, of 2 "[4, 4, 4]"] by simp
  have anc: "ancestor sample_booted 3 1 = 1" "ancestor sample_booted 0 1 = 1"
    using booted_ancestor(1) [OF sample_booted_ok] by simp_all
  show ?thesis
    using run coordination_respects_requests [OF sample_tree(1) _ _ _ run, of 1 3] anc by auto
qed

text \<open>
  C29. What psci\_set\_target\_local\_pwr\_states stores is what psci\_get\_target\_local\_pwr\_states
  reads back, with RUN above the end level.
\<close>

theorem target_states_roundtrip:
  assumes wf: "wf_tree e s" and c: "plat_my_core_pos e < PLATFORM_CORE_COUNT e" and n: "n \<le> PLAT_MAX_PWR_LVL e"
    and len: "length si = Suc (PLAT_MAX_PWR_LVL e)" "length ts = Suc (PLAT_MAX_PWR_LVL e)"
  shows "mbind (psci_set_target_local_pwr_states e n si) (\<lambda>_. psci_get_target_local_pwr_states e n ts) s =
     (case psci_set_target_local_pwr_states e n si s of
        Ret _ t \<Rightarrow> Ret (map (\<lambda>l. if l \<le> n then si ! l else PSCI_LOCAL_STATE_RUN) [0..<Suc (PLAT_MAX_PWR_LVL e)]) t
      | Stop r t \<Rightarrow> Stop r t)"
proof -
  let ?c = "plat_my_core_pos e"
  let ?t = "s\<lparr>psci_svc_cpu_data := svc_upd ?c (\<lambda>d. d\<lparr>cpu_local_state := si ! 0\<rparr>) (psci_svc_cpu_data s),
      psci_non_cpu_pd_nodes := node_path si (ancestor s ?c) n (psci_non_cpu_pd_nodes s)\<rparr>"
  have shape: "same_shape s ?t" by (simp add: same_shape_def)
  have at: "local_state (psci_non_cpu_pd_nodes ?t ! ancestor ?t ?c l) = si ! l" if "1 \<le> l" "l \<le> n" for l
    using node_path_at [OF wf c n that] same_shape_anc [OF shape] by simp
  have core: "cpu_local_state (psci_svc_cpu_data ?t ! ?c) = si ! 0"
    using wf_lengths(2) [OF wf] c by (simp add: svc_upd_nth)
  show ?thesis
    using get_target_run [OF same_shape_wf [OF shape wf] refl c n len(2)] at core
    by (auto simp: set_target_run [OF wf refl c n len(1)] mbind_def)
qed

theorem target_states_roundtrip_witness:
  "\<exists>t. mbind (psci_set_target_local_pwr_states (sample_core 0) 1 [3, 1, 1])
        (\<lambda>_. psci_get_target_local_pwr_states (sample_core 0) 1 [0, 0, 0]) sample_booted = Ret [3, 1, 0] t"
  using target_states_roundtrip [OF sample_tree(1), of 1 "[3, 1, 1]" "[0, 0, 0]"]
    set_target_run [OF sample_tree(1) refl, of 1 "[3, 1, 1]"]
  by (simp add: imx_levels del: upt_Suc)

section \<open>Locks\<close>

text \<open>
  C30. The locks of the power domains: when they are free, psci\_acquire\_pwr\_domain\_locks takes
  exactly the locks of the domains above the core up to the end level, and
  psci\_release\_pwr\_domain\_locks gives them back and changes nothing else.
\<close>

theorem domain_locks_roundtrip:
  assumes wf: "wf_tree e s" and free: "unlocked s" and c: "c = plat_my_core_pos e" "c < PLATFORM_CORE_COUNT e"
    and n: "n \<le> PLAT_MAX_PWR_LVL e"
  shows "\<exists>t. psci_acquire_pwr_domain_locks e n c s = Ret () t \<and>
     (\<forall>i < length (psci_locks s). psci_locks t ! i = (if i \<in> ancestor s c ` {1..n} then Some c else None)) \<and>
     psci_release_pwr_domain_locks n c t = Ret () s"
proof -
  let ?t = "s\<lparr>psci_locks := path_upd (\<lambda>_ _. Some c) (ancestor s c) n (psci_locks s)\<rparr>"
  have "psci_acquire_pwr_domain_locks e n c s = Ret () ?t"
    using acquire_unlocked [OF wf free c(2) n] c(1) by simp
  moreover have "psci_release_pwr_domain_locks n c ?t = Ret () s"
    using release_restores [OF wf free c(2) n, of ?t "Some c"] by (simp add: same_shape_def)
  moreover have "psci_locks ?t ! i = (if i \<in> ancestor s c ` {1..n} then Some c else None)" if "i < length (psci_locks s)" for i
  proof (cases "i \<in> ancestor s c ` {1..n}")
    case True
    then obtain l where "1 \<le> l" "l \<le> n" "i = ancestor s c l" by auto
    then show ?thesis
      using path_upd_at [of l n "ancestor s c" "psci_locks s" "\<lambda>_ _. Some c"] inj_ancestor [OF wf c(2) n] that by auto
  next
    case False
    then have "path_upd (\<lambda>_ _. Some c) (ancestor s c) n (psci_locks s) ! i = psci_locks s ! i"
      by (intro path_upd_other) auto
    then show ?thesis using False free that by (simp add: unlocked_def)
  qed
  ultimately show ?thesis by blast
qed

theorem domain_locks_roundtrip_witness:
  "\<exists>t. psci_acquire_pwr_domain_locks (sample_core 0) 2 0 sample_booted = Ret () t \<and>
     (\<forall>i < 4. psci_locks t ! i = (if i \<in> ancestor sample_booted 0 ` {1..2} then Some 0 else None)) \<and>
     psci_release_pwr_domain_locks 2 0 t = Ret () sample_booted"
  using domain_locks_roundtrip [OF sample_tree(1,3), of 0 2] sample_booted_ok by (simp add: imx_booted_def)

section \<open>Power operations\<close>

lemma cpu_on_valid:
  assumes "psci_plat_pm_ops s = imx_plat_psci_ops" "plat_core_pos_by_mpidr e mpidr = int i"
    and "0x40000000 \<le> pc" "psci_get_ns_ep_info e pc ctx = Inr ep"
  shows "psci_cpu_on e mpidr pc ctx s = psci_cpu_on_start e mpidr ep s"
  using assms
  by (simp add: psci_cpu_on_def psci_validate_mpidr_def psci_validate_entry_point_def imx_plat_psci_ops_def
      imx_validate_ns_entrypoint_def lift_world_def mbind_def prog_simps linorder_not_less [symmetric])

lemma imx_cpu_on_succeeds: "call_hook (pwr_domain_on imx_plat_psci_ops) (\<lambda>f. f r m) t \<noteq> Ret PSCI_E_INTERN_FAIL t'"
  by (auto simp: call_hook_def imx_plat_psci_ops_def lift_world_def imx_pwr_domain_on_def Let_def mbind_def mret_def
      split: outcome.splits)

lemma imx_cpu_on_run:
  assumes r: "imx_reachable b fq (s, ph)" and e: "on_core (imx8mq_port b fq) e c"
    and i: "imx_plat_core_pos_by_mpidr mpidr = int i" "i < 4" and off: "aff_info_state (psci_svc_cpu_data s ! i) = AFF_STATE_OFF"
    and ep: "0x40000000 \<le> pc" "psci_get_ns_ep_info e pc ctx = Inr ep"
  shows "\<exists>w. psci_cpu_on e mpidr pc ctx s = Ret PSCI_E_SUCCESS
      (s\<lparr>psci_svc_cpu_data := (psci_svc_cpu_data s)[i := (psci_svc_cpu_data s ! i)\<lparr>aff_info_state := AFF_STATE_ON_PENDING\<rparr>],
         psci_ns_context := (psci_ns_context s)[i := Some ep], world := w\<rparr>) \<and> imx_ok w"
proof -
  note ok = imx_reachable_ok_on [OF r e] and d = imx_reachableD [OF r]
  have f: "PLATFORM_CORE_COUNT e = 4" "plat_core_pos_by_mpidr e mpidr = int i"
    using imx_fields [OF on_coreD(1) [OF e]] i by simp_all
  have len: "i < length (psci_cpu_pd_nodes s)" "i < length (psci_svc_cpu_data s)" "i < length (psci_ns_context s)"
    using wf_lengths(1-3) [OF ok(2)] i(2) f by simp_all
  show ?thesis
    unfolding cpu_on_valid [OF d(2) f(2) ep]
    using imx_nospd.cpu_on_start_run [OF ok(3) d(5) f(2) len off, of ep]
    by cases (auto simp: imx_cpu_on_succeeds svc_upd_def imx_with_def)
qed

text \<open>
  C15. CPU\_ON on a core that is off: the call succeeds, the core is ON\_PENDING, its non-secure
  context is the entry point the caller gave, and nothing else of the library has changed.
\<close>

theorem cpu_on_turns_on:
  assumes r: "imx_reachable b fq (s, ph)" and e: "on_core (imx8mq_port b fq) e c"
    and i: "imx_plat_core_pos_by_mpidr mpidr = int i" "i < 4" and off: "aff_info_state (psci_svc_cpu_data s ! i) = AFF_STATE_OFF"
    and ep: "0x40000000 \<le> pc" "psci_get_ns_ep_info e pc ctx = Inr ep"
  shows "\<exists>w. psci_cpu_on e mpidr pc ctx s = Ret PSCI_E_SUCCESS
      (s\<lparr>psci_svc_cpu_data := (psci_svc_cpu_data s)[i := (psci_svc_cpu_data s ! i)\<lparr>aff_info_state := AFF_STATE_ON_PENDING\<rparr>],
         psci_ns_context := (psci_ns_context s)[i := Some ep], world := w\<rparr>) \<and> imx_ok w"
  by (rule imx_cpu_on_run [OF assms])

lemma sample_aff:
  "aff_info_state (psci_svc_cpu_data sample_booted ! 0) = AFF_STATE_ON"
  "aff_info_state (psci_svc_cpu_data sample_booted ! 1) = AFF_STATE_OFF"
  using sample_booted_ok by (simp_all add: imx_booted_def)

lemma sample_ep:
  "psci_get_ns_ep_info (sample_core 0) 0x40200000 7 =
     Inr \<lparr>ep_attr = 1, ep_pc = 0x40200000, ep_spsr = 0x3c9, ep_args = [7, 0, 0, 0, 0, 0, 0, 0]\<rparr>"
proof -
  have "replicate 7 (0::u64) = [0, 0, 0, 0, 0, 0, 0]" by code_simp
  then show ?thesis by (simp add: psci_get_ns_ep_info_def Let_def SPSR_64_def)
qed

theorem cpu_on_turns_on_witness:
  "\<exists>w. psci_cpu_on (sample_core 0) 1 0x40200000 7 sample_booted = Ret PSCI_E_SUCCESS
      (sample_booted\<lparr>psci_svc_cpu_data := (psci_svc_cpu_data sample_booted)
           [1 := (psci_svc_cpu_data sample_booted ! 1)\<lparr>aff_info_state := AFF_STATE_ON_PENDING\<rparr>],
         psci_ns_context := (psci_ns_context sample_booted)
           [1 := Some \<lparr>ep_attr = 1, ep_pc = 0x40200000, ep_spsr = 0x3c9, ep_args = [7, 0, 0, 0, 0, 0, 0, 0]\<rparr>], world := w\<rparr>) \<and> imx_ok w"
proof -
  have i: "imx_plat_core_pos_by_mpidr 1 = int 1" by code_simp
  show ?thesis
    by (rule cpu_on_turns_on [OF sample_reachable sample_core_on i _ sample_aff(2) _ sample_ep]) simp_all
qed

text \<open>
  C16. CPU\_ON on a core that is on or about to come on reports ALREADY\_ON or ON\_PENDING and changes nothing.
\<close>

theorem cpu_on_busy:
  assumes r: "imx_reachable b fq (s, ph)" and e: "on_core (imx8mq_port b fq) e c"
    and i: "imx_plat_core_pos_by_mpidr mpidr = int i" "i < 4" and busy: "aff_info_state (psci_svc_cpu_data s ! i) \<noteq> AFF_STATE_OFF"
    and ep: "0x40000000 \<le> pc" "psci_get_ns_ep_info e pc ctx = Inr ep"
  shows "psci_cpu_on e mpidr pc ctx s =
     Ret (if aff_info_state (psci_svc_cpu_data s ! i) = AFF_STATE_ON then PSCI_E_ALREADY_ON else PSCI_E_ON_PENDING) s"
proof -
  note ok = imx_reachable_ok_on [OF r e] and d = imx_reachableD [OF r]
  have f: "PLATFORM_CORE_COUNT e = 4" "plat_core_pos_by_mpidr e mpidr = int i"
    using imx_fields [OF on_coreD(1) [OF e]] i by simp_all
  have len: "i < length (psci_cpu_pd_nodes s)" "i < length (psci_svc_cpu_data s)"
    using wf_lengths(1,2) [OF ok(2)] i(2) f by simp_all
  show ?thesis
    unfolding cpu_on_valid [OF d(2) f(2) ep] by (rule imx_nospd.cpu_on_start_busy [OF ok(3) d(5) f(2) len busy])
qed

theorem cpu_on_busy_witness:
  "psci_cpu_on (sample_core 0) 0 0x40200000 7 sample_booted = Ret PSCI_E_ALREADY_ON sample_booted"
proof -
  have i: "imx_plat_core_pos_by_mpidr 0 = int 0" by code_simp
  show ?thesis
    using cpu_on_busy [OF sample_reachable sample_core_on i _ _ _ sample_ep] sample_aff(1) by simp
qed

end
