(* ===== verification/Psci_Calls.thy ===== *)
theory Psci_Calls
  imports Psci_Results
begin

text \<open>
  The results on the calls: suspend requests and their validation, the dispatch and the
  answers to malformed requests, and the arithmetic of the smaller services. Three of them show
  inputs for which the firmware of this board stops.
  The calls end before they reach a hook of the secure payload dispatcher, so that the states
  \<open>imx_reachable\<close> of the port without a dispatcher serve as well as those with one.
\<close>

section \<open>The sample system with two cores\<close>

lemma sample_caps: "psci_caps sample_booted = 0x471f"
proof -
  have "psci_caps sample_booted = psci_setup_caps (sample_core 0) (imx_plat_psci_ops :: imx_world plat_psci_ops_t)"
    using sample_booted_ok by (simp add: imx_booted_def)
  also have "\<dots> = 0x471f" by code_simp
  finally show ?thesis .
qed

text \<open>The sample system after its first core has turned on the second.\<close>

lemma sample_second_core:
  obtains s where "imx_reachable True 8333333 (s, boot_phases)"
    "aff_info_state (psci_svc_cpu_data s ! 1) = AFF_STATE_ON_PENDING"
proof -
  have i: "imx_plat_core_pos_by_mpidr 1 = int 1" by code_simp
  have l: "1 < length (psci_svc_cpu_data sample_booted)" using sample_booted_ok by (simp add: imx_booted_def)
  from imx_cpu_on_run [OF sample_reachable sample_core_on i _ sample_aff(2) _ sample_ep]
  obtain s where s: "psci_cpu_on (sample_core 0) 1 0x40200000 7 sample_booted = Ret PSCI_E_SUCCESS s"
    "aff_info_state (psci_svc_cpu_data s ! 1) = AFF_STATE_ON_PENDING"
    using l by auto
  have "get_smc_cc 0xc4000003 = 1" "0x471f AND define_psci_cap 0xc4000003 \<noteq> 0" "\<not> is_caller_secure 1" by code_simp+
  then have "psci_smc_handler (sample_core 0) 0xc4000003 1 0x40200000 7 1 sample_booted = Ret 0 s"
    by (simp add: psci_smc_handler_def sample_caps mbind_def prog_simps psci_smc64_def ret_int_def s(1))
  then have "psci_step (imx8mq_port True 8333333) (sample_booted, boot_phases) (s, boot_phases)"
    using sample_core_on [of 0] by (intro smc_return) (simp_all add: boot_phases_def)
  then show thesis
    using that [OF _ s(2)] sample_reachable reach_step unfolding imx_reachable_def by blast
qed

section \<open>Suspend\<close>

text \<open>
  C28. A suspend request that finds an interrupt pending is abandoned: the call returns at once
  and the library, its locks included, is as it was.
\<close>

theorem suspend_abandoned_unchanged:
  assumes r: "imx_reachable b fq (s, ph)" and e: "on_core (imx8mq_port b fq) e c"
    and n: "n \<le> 2" and isr: "isr_el1 e \<noteq> 0"
  shows "psci_cpu_suspend_start e ep n si pd s = Ret () s"
proof -
  note ok = imx_reachable_ok_on [OF r e] and d = imx_reachableD [OF r] and o = on_coreD [OF e]
  have "suspend_start_locked e ep n si pd s = Ret None s"
    using imx_nospd.suspend_abandoned [OF ok(2,3) d(5) o(2) _ isr] n imx_fields [OF o(1)] by simp
  then show ?thesis by (simp add: psci_cpu_suspend_start_def mbind_def prog_simps)
qed

theorem suspend_abandoned_unchanged_witness:
  "psci_cpu_suspend_start ((sample_core 0)\<lparr>isr_el1 := 0x80\<rparr>) uninit_ep 1 [4, 1, 0] 1 sample_booted = Ret () sample_booted"
proof -
  have "on_core (imx8mq_port True 8333333) ((sample_core 0)\<lparr>isr_el1 := 0x80\<rparr>) 0"
    by (simp add: on_core_def on_port_def env_ok_def sample_core_def sample_env_def imx8mq_port_def plat_port.truncate_def)
  from suspend_abandoned_unchanged [OF sample_reachable this] show ?thesis by simp
qed

section \<open>Suspend requests\<close>

lemma find_rev_levels_spec:
  "(case find P (rev (levels 0 n)) of None \<Rightarrow> n + 1 | Some k \<Rightarrow> k) =
     (if \<exists>i \<le> n. P i then Max {i. i \<le> n \<and> P i} else n + 1)"
proof (cases "\<exists>i \<le> n. P i")
  case True
  then obtain i where "i \<le> n" "P i" by blast
  then obtain j where j: "find P (rev (levels 0 n)) = Some j" "j \<le> n" "P j" "\<forall>k. j < k \<longrightarrow> k \<le> n \<longrightarrow> \<not> P k"
    using find_rev_levels [of i n P] by metis
  then have "Max {i. i \<le> n \<and> P i} = j"
    by (intro Max_eqI) (auto intro: leI)
  then show ?thesis using True j(1) by simp
next
  case False
  then have "find P (rev (levels 0 n)) = None" by (auto simp: find_None_iff)
  then show ?thesis using False by (auto simp del: upt_Suc)
qed

text \<open>
  psci\_find\_target\_suspend\_lvl and psci\_find\_max\_off\_lvl return the highest level that
  leaves RUN, respectively the highest level that is off, and the invalid level when there is none.
\<close>

theorem suspend_levels_spec:
  "psci_find_target_suspend_lvl e si =
     (if \<exists>l \<le> PLAT_MAX_PWR_LVL e. \<not> is_local_state_run (si ! l)
      then Max {l. l \<le> PLAT_MAX_PWR_LVL e \<and> \<not> is_local_state_run (si ! l)} else PSCI_INVALID_PWR_LVL e) \<and>
   psci_find_max_off_lvl e si =
     (if \<exists>l \<le> PLAT_MAX_PWR_LVL e. is_local_state_off e (si ! l)
      then Max {l. l \<le> PLAT_MAX_PWR_LVL e \<and> is_local_state_off e (si ! l)} else PSCI_INVALID_PWR_LVL e)"
  unfolding psci_find_target_suspend_lvl_def psci_find_max_off_lvl_def
  by (simp add: find_rev_levels_spec del: upt_Suc)

theorem suspend_levels_spec_witness:
  "psci_find_target_suspend_lvl (sample_core 0) [4, 1, 0] = 1 \<and> psci_find_max_off_lvl (sample_core 0) [4, 1, 0] = 0"
proof -
  have le2: "l \<le> 2 \<longleftrightarrow> l = 0 \<or> l = 1 \<or> l = 2" for l :: nat by auto
  have "{l. l \<le> 2 \<and> \<not> is_local_state_run ([4, 1, 0] ! l)} = {0, 1}"
    "{l. l \<le> 2 \<and> is_local_state_off (sample_core 0) ([4, 1, 0] ! l)} = {0}"
    using le2 by (auto simp: is_local_state_run_def is_local_state_off_def)
  then show ?thesis
    using suspend_levels_spec [of "sample_core 0" "[4, 1, 0]"]
    by (auto simp: is_local_state_run_def is_local_state_off_def)
qed

lemma suspend_req_loop_iff:
  "suspend_req_loop e si xs d \<longleftrightarrow>
     sorted_wrt (\<lambda>i j. find_local_state_type e (si ! i) \<le> find_local_state_type e (si ! j)) xs \<and>
     (\<forall>i \<in> set xs. d \<le> find_local_state_type e (si ! i))"
proof (induction xs arbitrary: d)
  case (Cons i xs)
  then show ?case by (auto simp: Let_def)
qed simp

lemma antitone_levels:
  "sorted_wrt (\<lambda>i j. R i j) (rev (levels 0 n)) \<longleftrightarrow> (\<forall>i j. i < j \<and> j \<le> n \<longrightarrow> R j i)"
proof (induction n)
  case (Suc n)
  then show ?case by (auto simp: le_Suc_eq less_Suc_eq)
qed simp

text \<open>What the two searches and the loop of psci\_validate\_suspend\_req check.\<close>

lemma validate_suspend_req_levels:
  "psci_validate_suspend_req e si pd = PSCI_E_SUCCESS \<longleftrightarrow>
     (let t = psci_find_target_suspend_lvl e si in
      t \<le> PLAT_MAX_PWR_LVL e \<and>
      (\<forall>i j. i < j \<and> j \<le> t \<longrightarrow> find_local_state_type e (si ! j) \<le> find_local_state_type e (si ! i)) \<and>
      (pd = 0 \<longrightarrow> (\<forall>l \<le> PLAT_MAX_PWR_LVL e. \<not> is_local_state_off e (si ! l))))"
proof -
  let ?t = "psci_find_target_suspend_lvl e si" and ?m = "psci_find_max_off_lvl e si"
  have t: "?t = PSCI_INVALID_PWR_LVL e \<longleftrightarrow> \<not> ?t \<le> PLAT_MAX_PWR_LVL e" 
    using target_suspend_lvl_le [of e si] by auto
  have m: "?m = PSCI_INVALID_PWR_LVL e \<longleftrightarrow> (\<forall>l \<le> PLAT_MAX_PWR_LVL e. \<not> is_local_state_off e (si ! l))"
  proof -
    have "Max {l. l \<le> PLAT_MAX_PWR_LVL e \<and> is_local_state_off e (si ! l)} \<le> PLAT_MAX_PWR_LVL e"
      if "l \<le> PLAT_MAX_PWR_LVL e" "is_local_state_off e (si ! l)" for l
      using that by (subst Max_le_iff) auto
    then show ?thesis
      unfolding psci_find_max_off_lvl_def find_rev_levels_spec by (metis Suc_eq_plus1 not_less_eq_eq order_refl)
  qed
  have bot: "STATE_TYPE_RUN \<le> x" for x by (cases x) (simp_all add: less_eq_plat_local_state_type_def)
  show ?thesis
    unfolding psci_validate_suspend_req_def Let_def suspend_req_loop_iff antitone_levels
    using t m by (auto simp: bot simp del: upt_Suc)
qed

lemma state_type_run: "find_local_state_type e st = STATE_TYPE_RUN \<longleftrightarrow> is_local_state_run st"
  by (auto simp: find_local_state_type_def is_local_state_run_def)

text \<open>
  C20. psci\_validate\_suspend\_req against a specification by levels: a request is accepted if some level
  leaves RUN, no level is in a deeper kind of state (RUN, retention, OFF) than a level below it, over
  all levels of the platform, and a standby request turns no level off; every other request is
  refused with INVALID\_PARAMETERS. Nothing is demanded of a request for a power down: it is accepted
  also when it turns no level off at all.
\<close>

theorem validate_suspend_req_spec:
  "psci_validate_suspend_req e si pd =
     (if (\<exists>l \<le> PLAT_MAX_PWR_LVL e. find_local_state_type e (si ! l) \<noteq> STATE_TYPE_RUN) \<and>
         (\<forall>i j. i < j \<and> j \<le> PLAT_MAX_PWR_LVL e \<longrightarrow> find_local_state_type e (si ! j) \<le> find_local_state_type e (si ! i)) \<and>
         (pd = 0 \<longrightarrow> (\<forall>l \<le> PLAT_MAX_PWR_LVL e. \<not> is_local_state_off e (si ! l)))
      then PSCI_E_SUCCESS else PSCI_E_INVALID_PARAMS)"
    (is "_ = (if ?some \<and> ?antitone \<and> ?standby then _ else _)")
proof -
  let ?t = "psci_find_target_suspend_lvl e si" and ?k = "\<lambda>l. find_local_state_type e (si ! l)" and ?M = "PLAT_MAX_PWR_LVL e"
  let ?A = "{l. l \<le> ?M \<and> \<not> is_local_state_run (si ! l)}"
  have t: "?t = (if \<exists>l \<le> ?M. \<not> is_local_state_run (si ! l) then Max ?A else PSCI_INVALID_PWR_LVL e)"
    unfolding psci_find_target_suspend_lvl_def by (simp add: find_rev_levels_spec del: upt_Suc)
  have some: "?t \<le> ?M \<longleftrightarrow> ?some"
  proof (cases "\<exists>l \<le> ?M. \<not> is_local_state_run (si ! l)")
    case True
    then have "Max ?A \<in> ?A" by (intro Max_in) auto
    then show ?thesis using True t by (simp add: state_type_run)
  next
    case False
    then show ?thesis using t by (auto simp: state_type_run)
  qed
  have above: "?k l = STATE_TYPE_RUN" if "?t \<le> ?M" "?t < l" "l \<le> ?M" for l
  proof (rule ccontr)
    assume "?k l \<noteq> STATE_TYPE_RUN"
    then have l: "l \<in> ?A" using that(3) by (simp add: state_type_run)
    then have "l \<le> Max ?A" by (intro Max_ge) simp_all
    moreover have "?t = Max ?A" using l t by auto
    ultimately show False using that(2) by simp
  qed
  have bot: "STATE_TYPE_RUN \<le> x" for x by (cases x) (simp_all add: less_eq_plat_local_state_type_def)
  have anti: "(\<forall>i j. i < j \<and> j \<le> ?t \<longrightarrow> ?k j \<le> ?k i) \<longleftrightarrow> ?antitone" if "?t \<le> ?M"
  proof
    assume a: "\<forall>i j. i < j \<and> j \<le> ?t \<longrightarrow> ?k j \<le> ?k i"
    show ?antitone
    proof (intro allI impI)
      fix i j assume ij: "i < j \<and> j \<le> ?M"
      show "?k j \<le> ?k i" using a ij above [OF that, of j] bot [of "?k i"] by (cases "j \<le> ?t") auto
    qed
  qed (use that in auto)
  have "psci_validate_suspend_req e si pd = PSCI_E_SUCCESS \<longleftrightarrow> ?some \<and> ?antitone \<and> ?standby"
    unfolding validate_suspend_req_levels Let_def using some anti by blast
  moreover have "psci_validate_suspend_req e si pd = PSCI_E_SUCCESS \<or> psci_validate_suspend_req e si pd = PSCI_E_INVALID_PARAMS"
    by (simp add: psci_validate_suspend_req_def Let_def)
  ultimately show ?thesis by (simp split: if_split) blast
qed

theorem validate_suspend_req_spec_witness:
  "psci_validate_suspend_req (sample_core 0) [4, 1, 0] 1 = PSCI_E_SUCCESS \<and>
   psci_validate_suspend_req (sample_core 0) [1, 4, 0] 1 = PSCI_E_INVALID_PARAMS \<and>
   psci_validate_suspend_req (sample_core 0) [4, 1, 0] 0 = PSCI_E_INVALID_PARAMS \<and>
   psci_validate_suspend_req (sample_core 0) [1, 0, 0] 1 = PSCI_E_SUCCESS"
proof -
  have le2: "(\<forall>l \<le> (2 :: nat). P l) \<longleftrightarrow> P 0 \<and> P 1 \<and> P 2" "(\<exists>l \<le> (2 :: nat). P l) \<longleftrightarrow> P 0 \<or> P 1 \<or> P 2" for P
    by (auto simp: le_Suc_eq numeral_2_eq_2)
  have pairs: "(\<forall>i j. i < j \<and> j \<le> (2 :: nat) \<longrightarrow> R i j) \<longleftrightarrow> R 0 1 \<and> R 0 2 \<and> R 1 2" for R
    by (auto simp: le_Suc_eq less_Suc_eq numeral_2_eq_2)
  have core: "PLAT_MAX_PWR_LVL (sample_core 0) = 2" by simp
  show ?thesis
    unfolding validate_suspend_req_spec core le2 pairs
    by (simp add: find_local_state_type_def is_local_state_off_def less_eq_plat_local_state_type_def)
qed

section \<open>The calls\<close>

lemma cap_64: "fid \<in> {0xc4000001, 0xc4000003, 0xc4000004, 0xc4000005, 0xc4000007, 0xc400000d, 0xc400000E,
    0xc4000010, 0xc4000011, 0xc4000014, 0xc4000012} \<Longrightarrow> PSCI_CAP_64BIT_MASK AND define_psci_cap fid = define_psci_cap fid"
  by (elim insertE emptyE; hypsubst; code_simp)

lemma smc64_unknown: "fid \<notin> {0xc4000001, 0xc4000003, 0xc4000004, 0xc4000005, 0xc4000007, 0xc400000d, 0xc400000E,
    0xc4000010, 0xc4000011, 0xc4000014, 0xc4000012} \<Longrightarrow> psci_smc64 e fid x1 x2 x3 = mret SMC_UNK"
  by (simp add: psci_smc64_def)

text \<open>
  C27. PSCI\_FEATURES tells the truth about what is missing: a PSCI function it reports as not
  supported is answered SMC\_UNK by the dispatcher, for every argument, and nothing changes.
\<close>

theorem features_not_supported_sound:
  assumes "psci_features fid s = Ret PSCI_E_NOT_SUPPORTED s'" and "is_std_svc_call fid" "is_valid_fast_smc fid" "is_psci_fid fid"
  shows "psci_smc_handler e fid x1 x2 x3 flags s = Ret SMC_UNK s"
proof -
  have caps: "(if get_smc_cc fid = 1 then psci_caps s AND PSCI_CAP_64BIT_MASK else psci_caps s) AND define_psci_cap fid = 0"
    using assms by (auto simp: psci_features_def mbind_def prog_simps Let_def split: if_splits)
  have cc: "get_smc_cc fid = 0 \<or> get_smc_cc fid = 1"
    by (simp add: get_smc_cc_def and_one_eq mod_2_eq_odd)
  show ?thesis
  proof (cases "psci_caps s AND define_psci_cap fid = 0 \<or> is_caller_secure flags")
    case False
    then have cc1: "get_smc_cc fid = 1" using caps cc by auto
    have "psci_smc64 e fid x1 x2 x3 = mret SMC_UNK"
    proof (rule ccontr)
      assume "psci_smc64 e fid x1 x2 x3 \<noteq> mret SMC_UNK"
      then have "PSCI_CAP_64BIT_MASK AND define_psci_cap fid = define_psci_cap fid"
        by (intro cap_64) (erule contrapos_np, erule smc64_unknown)
      then show False using caps cc1 False by (simp add: and.assoc)
    qed
    then show ?thesis using False cc1 by (simp add: psci_smc_handler_def mbind_def prog_simps)
  qed (auto simp: psci_smc_handler_def mbind_def prog_simps)
qed

theorem features_not_supported_sound_witness:
  "psci_smc_handler (sample_core 0) 0x84000013 1 0 0 1 sample_booted = Ret SMC_UNK sample_booted"
proof -
  have "psci_features 0x84000013 sample_booted = Ret PSCI_E_NOT_SUPPORTED sample_booted"
    using sample_caps
    by (simp add: psci_features_def mbind_def prog_simps get_smc_cc_def define_psci_cap_def is_std_svc_call_def
        is_valid_fast_smc_def is_psci_fid_def)
  from features_not_supported_sound [OF this] show ?thesis
    by (simp add: is_std_svc_call_def is_valid_fast_smc_def is_psci_fid_def)
qed

lemma last_on_cpu_loop_run:
  assumes "\<forall>i \<in> set xs. i < length (psci_svc_cpu_data s)" "plat_my_core_pos e < length (psci_svc_cpu_data s)"
    "aff_info_state (psci_svc_cpu_data s ! plat_my_core_pos e) = AFF_STATE_ON"
  shows "last_on_cpu_loop e xs s =
     Ret (\<forall>i \<in> set xs. i \<noteq> plat_my_core_pos e \<longrightarrow> aff_info_state (psci_svc_cpu_data s ! i) = AFF_STATE_OFF) s"
  using assms
  by (induction xs) (auto simp: mbind_def prog_simps psci_get_aff_info_state_def psci_get_aff_info_state_by_idx_def c_assert_def)

text \<open>
  SYSTEM\_SUSPEND is denied, and nothing changes, while another core is not OFF.
\<close>

theorem system_suspend_denied:
  assumes r: "imx_reachable b fq (s, ph)" and e: "on_core (imx8mq_port b fq) e c" and ph: "ph c = Running"
    and i: "i < 4" "i \<noteq> c" "aff_info_state (psci_svc_cpu_data s ! i) \<noteq> AFF_STATE_OFF"
  shows "psci_system_suspend e pc ctx s = Ret PSCI_E_DENIED s"
proof -
  note ok = imx_reachable_ok_on [OF r e] and o = on_coreD [OF e] and f = imx_fields [OF on_coreD(1) [OF e]]
  have len: "length (psci_svc_cpu_data s) = 4" using wf_lengths(2) [OF ok(2)] f by simp
  have "cpu_ok e s c Running" using psci_invD(4) [OF imx_nospd.okD(1) [OF ok(1)] o(4)] ph by simp
  then have on: "aff_info_state (psci_svc_cpu_data s ! c) = AFF_STATE_ON" by (simp add: cpu_ok_def Let_def)
  have "psci_is_last_on_cpu e s = Ret False s"
    unfolding psci_is_last_on_cpu_def
    using last_on_cpu_loop_run [of "[0..<4]" s e] len on o(3,4) f i by auto
  then show ?thesis by (simp add: psci_system_suspend_def mbind_def prog_simps)
qed

theorem system_suspend_denied_witness:
  "\<exists>s. aff_info_state (psci_svc_cpu_data s ! 1) = AFF_STATE_ON_PENDING \<and>
     psci_system_suspend (sample_core 0) 0x40200000 0 s = Ret PSCI_E_DENIED s"
proof -
  obtain s where s: "imx_reachable True 8333333 (s, boot_phases)" "aff_info_state (psci_svc_cpu_data s ! 1) = AFF_STATE_ON_PENDING"
    by (rule sample_second_core)
  from system_suspend_denied [OF s(1) sample_core_on [of 0], of 1] s(2) show ?thesis by (auto simp: boot_phases_def)
qed

text \<open>
  C35. SYSTEM\_SUSPEND never gets past its checks in a build with assertions: the states that
  imx\_get\_sys\_suspend\_power\_state asks for put the system level in retention, and
  psci\_system\_suspend asserts that this level is off.
\<close>

theorem system_suspend_asserts:
  assumes r: "imx_reachable True fq (s, ph)" and e: "on_core (imx8mq_port True fq) e c" and ph: "ph c = Running"
    and others: "\<forall>i < 4. i \<noteq> c \<longrightarrow> aff_info_state (psci_svc_cpu_data s ! i) = AFF_STATE_OFF"
    and ep: "0x40000000 \<le> pc" "psci_get_ns_ep_info e pc ctx = Inr ep"
  shows "psci_system_suspend e pc ctx s = Stop Assertion_failed s"
proof -
  note ok = imx_reachable_ok_on [OF r e] and d = imx_reachableD [OF r] and o = on_coreD [OF e]
    and f = imx_fields [OF on_coreD(1) [OF e]]
  have len: "length (psci_svc_cpu_data s) = 4" using wf_lengths(2) [OF ok(2)] f by simp
  have "cpu_ok e s c Running" using psci_invD(4) [OF imx_nospd.okD(1) [OF ok(1)] o(4)] ph by simp
  then have on: "aff_info_state (psci_svc_cpu_data s ! c) = AFF_STATE_ON" by (simp add: cpu_ok_def Let_def)
  have last: "psci_is_last_on_cpu e s = Ret True s"
    unfolding psci_is_last_on_cpu_def
    using last_on_cpu_loop_run [of "[0..<4]" s e] len on o(3,4) f others by auto
  have entry: "psci_validate_entry_point e pc ctx s = Ret (Inr ep) s"
    using ep d(2) by (simp add: psci_validate_entry_point_def imx_plat_psci_ops_def imx_validate_ns_entrypoint_def
       lift_world_def mbind_def prog_simps linorder_not_less [symmetric])
  have u: "length (uninit_power_state e) = 3" using o(2) f by (simp add: env_ok_def)
  have query: "psci_query_sys_suspend_pwrstate e (uninit_power_state e) s = Ret [3, 3, 1] s"
  proof -
    obtain x y z where "uninit_power_state e = [x, y, z]" using u by (auto simp: eval_nat_numeral length_Suc_conv)
    moreover have "[0..<2] = [0, 1]" by (simp add: upt_rec)
    ultimately show ?thesis
      using d(2) imx_fields [OF on_port_regs [THEN iffD2, OF o(1)]]
      by (simp add: psci_query_sys_suspend_pwrstate_def imx_plat_psci_ops_def imx_get_sys_suspend_power_state_def
          call_hook_def lift_world_def mbind_def prog_simps c_assert_def)
  qed
  show ?thesis
    using last entry query f
    by (simp add: psci_system_suspend_def mbind_def prog_simps c_assert_def is_local_state_off_def)
qed

theorem system_suspend_asserts_witness:
  "psci_system_suspend (sample_core 0) 0x40200000 7 sample_booted = Stop Assertion_failed sample_booted"
proof (rule system_suspend_asserts [OF sample_reachable sample_core_on _ _ _ sample_ep])
  show "\<forall>i < 4. i \<noteq> 0 \<longrightarrow> aff_info_state (psci_svc_cpu_data sample_booted ! i) = AFF_STATE_OFF"
    using sample_booted_ok by (simp add: imx_booted_def)
qed (simp_all add: boot_phases_def)

lemma lists3: "replicate 3 x = [x, x, x]"
  by (simp add: eval_nat_numeral)

text \<open>
  C36. CPU\_SUSPEND with a power down state whose state id is not 0x33 brings the firmware down:
  imx\_validate\_power\_state accepts it without asking for any state, so that no level leaves RUN
  and psci\_cpu\_suspend panics (or fails its assertion, in a build with assertions).
\<close>

theorem cpu_suspend_bad_state_id_panics:
  assumes r: "imx_reachable b fq (s, ph)" and e: "on_core (imx8mq_port b fq) e c"
    and ps: "psci_check_power_state ps = 0" "psci_get_pstate_pwrlvl ps < 3" "psci_get_pstate_type ps = PSTATE_TYPE_POWERDOWN"
      "psci_get_pstate_id ps \<noteq> 0x33"
  shows "psci_cpu_suspend e ps pc ctx s = Stop (if b then Assertion_failed else Panicked) s"
proof -
  note d = imx_reachableD [OF r] and o = on_coreD [OF e] and f = imx_fields [OF on_coreD(1) [OF e]]
  have v: "psci_validate_power_state e ps (all_run e) s = Ret (PSCI_E_SUCCESS, [0, 0, 0]) s"
    using d(2) ps imx_fields [OF on_port_regs [THEN iffD2, OF o(1)]] f
    by (simp add: psci_validate_power_state_def imx_plat_psci_ops_def imx_validate_power_state_def imx_power_state_req_def
        call_hook_def lift_world_def mbind_def prog_simps c_assert_def lists3 word_less_nat_alt)
  have t: "psci_find_target_suspend_lvl e [0, 0, 0] = PSCI_INVALID_PWR_LVL e"
    using f by (simp add: psci_find_target_suspend_lvl_def imx_levels is_local_state_run_def del: upt_Suc)
  show ?thesis
    using v t f by (simp add: psci_cpu_suspend_def mbind_def prog_simps c_assert_def psci_validate_suspend_req_def)
qed

theorem cpu_suspend_bad_state_id_panics_witness:
  "psci_cpu_suspend (sample_core 0) 0x10000 0x40200000 7 sample_booted = Stop Assertion_failed sample_booted"
proof -
  have "psci_check_power_state 0x10000 = 0 \<and> psci_get_pstate_pwrlvl 0x10000 < 3 \<and>
    psci_get_pstate_type 0x10000 = PSTATE_TYPE_POWERDOWN \<and> psci_get_pstate_id 0x10000 \<noteq> 0x33" by code_simp
  then show ?thesis
    using cpu_suspend_bad_state_id_panics [OF sample_reachable sample_core_on, of 0 "0x10000"] by simp
qed

text \<open>
  C34. A core index beyond the last core reaches the tables: plat\_core\_pos\_by\_mpidr accepts the
  affinity 4 of cluster 0 and every affinity of cluster 1, and both CPU\_ON and AFFINITY\_INFO then
  index their arrays out of bounds.
\<close>

theorem core_index_out_of_bounds:
  assumes r: "imx_reachable b fq (s, ph)" and e: "on_core (imx8mq_port b fq) e c"
    and i: "4 \<le> imx_plat_core_pos_by_mpidr mpidr" and ep: "0x40000000 \<le> pc" "psci_get_ns_ep_info e pc ctx = Inr ep"
  shows "psci_cpu_on e mpidr pc ctx s = Stop Out_of_bounds s \<and> psci_affinity_info e mpidr 0 s = Stop Out_of_bounds s"
proof -
  note ok = imx_reachable_ok_on [OF r e] and d = imx_reachableD [OF r] and o = on_coreD [OF e]
    and f = imx_fields [OF on_coreD(1) [OF e]]
  obtain k where k: "imx_plat_core_pos_by_mpidr mpidr = int k" "4 \<le> k" using i zero_le_imp_eq_int by force
  have len: "length (psci_cpu_pd_nodes s) = 4" "length (psci_svc_cpu_data s) = 4" using wf_lengths(1,2) [OF ok(2)] f by simp_all
  have "psci_cpu_on e mpidr pc ctx s = psci_cpu_on_start e mpidr ep s"
    using k f by (intro cpu_on_valid [OF d(2) _ ep]) simp
  also have "\<dots> = Stop Out_of_bounds s"
    using k f len d(2) by (simp add: psci_cpu_on_start_def Let_def psci_spin_lock_cpu_def mbind_def prog_simps c_assert_def imx_plat_psci_ops_def)
  finally show ?thesis
    using k f len by (simp add: psci_affinity_info_def Let_def psci_get_aff_info_state_by_idx_def mbind_def prog_simps)
qed

theorem core_index_out_of_bounds_witness:
  "imx_plat_core_pos_by_mpidr 4 = 4 \<and>
   psci_cpu_on (sample_core 0) 4 0x40200000 7 sample_booted = Stop Out_of_bounds sample_booted \<and>
   psci_affinity_info (sample_core 0) 4 0 sample_booted = Stop Out_of_bounds sample_booted"
proof -
  have i: "imx_plat_core_pos_by_mpidr 4 = 4" by code_simp
  then show ?thesis
    using core_index_out_of_bounds [OF sample_reachable sample_core_on _ _ sample_ep] by simp
qed

lemma powerstate_take_bits:
  "x AND 0xffff = take_bit 16 x" "x AND 1 = take_bit 1 x" "x AND 3 = take_bit 2 x" for x :: u32
  by (simp_all only: take_bit_eq_mask mask_eq_exp_minus_1) simp_all

lemma bit_make_powerstate:
  "bit (psci_make_powerstate sid ty lvl) n \<longleftrightarrow>
     n < 16 \<and> bit sid n \<or> n = 16 \<and> bit ty 0 \<or> n \<in> {24, 25} \<and> bit lvl (n - 24)"
proof -
  have "16 \<le> n \<and> n - 16 < 1 \<longleftrightarrow> n = 16" "24 \<le> n \<and> n - 24 < 2 \<longleftrightarrow> n \<in> {24, 25}" by auto
  then show ?thesis
    by (auto simp: psci_make_powerstate_def powerstate_take_bits bit_or_iff bit_push_bit_iff bit_take_bit_iff bit_0)
qed

lemma bit_pstate_fields:
  "bit (psci_get_pstate_id p) n \<longleftrightarrow> n < 16 \<and> bit p n" "bit (psci_get_pstate_type p) n \<longleftrightarrow> n = 0 \<and> bit p 16"
  "bit (psci_get_pstate_pwrlvl p) n \<longleftrightarrow> n < 2 \<and> bit p (n + 24)"
  by (auto simp: psci_get_pstate_id_def psci_get_pstate_type_def psci_get_pstate_pwrlvl_def powerstate_take_bits
      bit_take_bit_iff bit_drop_bit_eq add.commute bit_0 [symmetric] simp del: bit_0)

lemma powerstate_check_iff:
  "psci_check_power_state p = 0 \<longleftrightarrow> (\<forall>n < 32. bit p n \<longrightarrow> n < 17 \<or> n \<in> {24, 25})"
proof -
  have m: "(0xFCFE0000 :: u32) = NOT (mask 17 OR push_bit 24 (mask 2))" by (simp add: mask_eq_exp_minus_1)
  have "bit (0xFCFE0000 :: u32) n \<longleftrightarrow> n < 32 \<and> \<not> (n < 17 \<or> n \<in> {24, 25})" for n
    unfolding m by (auto simp: bit_not_iff bit_or_iff bit_and_iff bit_push_bit_iff bit_mask_iff)
  then show ?thesis
    unfolding psci_check_power_state_def bit_eq_iff by (auto simp: bit_and_iff)
qed

text \<open>
  C31. The power state parameter: psci\_make\_powerstate packs a state id, a type and a level so that
  the three extractors give them back and psci\_check\_power\_state finds no reserved bit; and a word
  without reserved bits is packed again from its three parts.
\<close>

theorem powerstate_roundtrip:
  "psci_get_pstate_id (psci_make_powerstate sid ty lvl) = sid AND 0xffff \<and>
   psci_get_pstate_type (psci_make_powerstate sid ty lvl) = ty AND 1 \<and>
   psci_get_pstate_pwrlvl (psci_make_powerstate sid ty lvl) = lvl AND 3 \<and>
   psci_check_power_state (psci_make_powerstate sid ty lvl) = 0 \<and>
   (psci_check_power_state p = 0 \<longleftrightarrow>
      psci_make_powerstate (psci_get_pstate_id p) (psci_get_pstate_type p) (psci_get_pstate_pwrlvl p) = p)"
proof -
  have "psci_get_pstate_id (psci_make_powerstate sid ty lvl) = sid AND 0xffff"
    "psci_get_pstate_type (psci_make_powerstate sid ty lvl) = ty AND 1"
    "psci_get_pstate_pwrlvl (psci_make_powerstate sid ty lvl) = lvl AND 3"
    unfolding powerstate_take_bits
    by (auto intro!: bit_word_eqI simp: bit_pstate_fields bit_make_powerstate bit_take_bit_iff
        simp flip: bit_0 simp del: bit_0)
  moreover have "psci_check_power_state (psci_make_powerstate sid ty lvl) = 0" for sid ty lvl
    unfolding powerstate_check_iff by (auto simp: bit_make_powerstate)
  moreover have "psci_make_powerstate (psci_get_pstate_id p) (psci_get_pstate_type p) (psci_get_pstate_pwrlvl p) = p"
    if "psci_check_power_state p = 0"
  proof (rule bit_word_eqI)
    fix n assume "n < LENGTH(32)"
    then have "bit p n \<Longrightarrow> n < 16 \<or> n = 16 \<or> n = 24 \<or> n = 25" using that by (auto simp: powerstate_check_iff)
    then show "bit (psci_make_powerstate (psci_get_pstate_id p) (psci_get_pstate_type p) (psci_get_pstate_pwrlvl p)) n = bit p n"
      by (auto simp: bit_make_powerstate bit_pstate_fields)
  qed
  ultimately show ?thesis by metis
qed

section \<open>Memory ranges and statistics\<close>

text \<open>
  C32. MEM\_PROTECT\_CHECK\_RANGE: an empty range and a range that passes the end of the 64-bit
  address space are denied without asking the platform; for every other range the answer is the
  platform's.
\<close>

theorem mem_chk_range_bounds:
  assumes "mem_protect_chk (psci_plat_pm_ops s) = Some f"
  shows "psci_mem_chk_range e base len s =
     (if len = 0 \<or> unat base + unat len > 2 ^ 64 then Ret (word_of_int PSCI_E_DENIED) s
      else case f (regs e) base len (world s) of
          Ret rc w \<Rightarrow> Ret (word_of_int (if rc < 0 then PSCI_E_DENIED else PSCI_E_SUCCESS)) (s\<lparr>world := w\<rparr>)
        | Stop r w \<Rightarrow> Stop r (s\<lparr>world := w\<rparr>))"
proof -
  have "check_uptr_overflow base (len - 1) \<longleftrightarrow> unat base + unat len > 2 ^ 64" if "len \<noteq> 0"
  proof -
    have "unat (NOT 0 - (len - 1)) = 2 ^ 64 - unat len"
      using that unat_sub_if_size [of 0 len] by (simp add: word_size unat_eq_zero)
    then show ?thesis
      using unsigned_less [of len, where 'a = nat] by (auto simp: check_uptr_overflow_def word_less_nat_alt)
  qed
  then show ?thesis
    using assms by (auto simp: psci_mem_chk_range_def mbind_def prog_simps call_hook_def lift_world_def split: outcome.splits)
qed

theorem mem_chk_range_bounds_witness:
  "let s = sample_booted\<lparr>psci_plat_pm_ops := (psci_plat_pm_ops sample_booted)\<lparr>mem_protect_chk := Some (\<lambda>_ _ _. mret 0)\<rparr>\<rparr>
   in psci_mem_chk_range (sample_core 0) 0xfffffffffffff000 0x1000 s = Ret 0 s \<and>
      psci_mem_chk_range (sample_core 0) 0xfffffffffffff000 0x1001 s = Ret (word_of_int PSCI_E_DENIED) s"
  unfolding Let_def
  by (subst (1 2) mem_chk_range_bounds [of _ "\<lambda>_ _ _. mret 0"]) (simp_all add: mret_def)

text \<open>
  The residency statistics lose a tick when the counter wraps between the two time stamps:
  calc\_stat\_residency then divides one tick less than the time that passed modulo $2^{64}$.
\<close>

theorem residency_wrap_loses_tick:
  assumes "up < dn" "cntfrq_el0 e div 1000000 > 0"
  shows "calc_stat_residency e up dn s = Ret ((up - dn - 1) div (cntfrq_el0 e div 1000000)) s"
  using assms by (simp add: calc_stat_residency_def mbind_def prog_simps c_assert_def algebra_simps)

theorem residency_wrap_loses_tick_witness:
  "cntfrq_el0 (sample_core 0) = 8333333 \<and> (4 - (NOT 3) :: u64) = 8 \<and>
   calc_stat_residency (sample_core 0) 4 (NOT 3) sample_booted = Ret 0 sample_booted"
  using residency_wrap_loses_tick [of 4 "NOT 3" "sample_core 0" sample_booted] by (simp add: sample_core_def sample_env_def)

end
