(* ===== verification/Imx8mq_Results.thy ===== *)
theory Imx8mq_Results
  imports Imx8mq_Sip Imx8mq_Boot
begin

text \<open>
  The results on the i.MX8MQ power controller and the SiP service: the calls of the normal world
  return and do what they say when their arguments are in range, what they do when they are not,
  the low power modes, and the smaller services.
\<close>

section \<open>The SiP calls of the power controller\<close>

lemma hook_ok_m_core_pgc: "hook_ok (imx_okx x) (imx_gpc_set_m_core_pgc off b) (\<lambda>_. True)"
  unfolding imx_gpc_set_m_core_pgc_def by (rule hook_ok_mmio)

lemma hook_ok_pcie1: "hook_ok (imx_okx x) (mmodify (\<lambda>w. w\<lparr>is_pcie1_power_down := b\<rparr>)) (\<lambda>_. True)"
  by (simp add: hook_ok_def prog_simps imx_okx_def imx_ok_def)

lemma hook_ok_array_get: "i < length xs \<Longrightarrow> hook_ok wok (array_get xs i) (\<lambda>_. True)"
  by (simp add: hook_ok_def prog_simps)

lemma hook_ok_pm_domain:
  assumes "d < 11"
  shows "hook_ok (imx_okx x) (imx_gpc_pm_domain_enable d on) (\<lambda>_. True)"
  using assms
proof (induction d on rule: imx_gpc_pm_domain_enable.induct)
  case (1 d on)
  have len: "unat d < length gpc_pu_m_core_offset"
    using 1(2) by (simp add: gpc_pu_m_core_offset_def word_less_nat_alt)
  have regs: "IMX_GPC_BASE + (if on then 0xf8 else 0x104) \<in> gpc_request_regs" by (simp add: gpc_request_regs_def)
  have rec: "domain_id = 1 \<Longrightarrow> hook_ok (imx_okx x) (imx_gpc_pm_domain_enable 10 True) (\<lambda>_. True)" if "domain_id = d" "on" for domain_id
    using 1(1) that by simp
  show ?case
    unfolding imx_gpc_pm_domain_enable.simps [of d on] Let_def
    by (intro hook_ok_then hook_ok_if hook_ok_mwhen hook_ok_pcie1 hook_ok_mget hook_ok_mret hook_ok_m_core_pgc hook_ok_mmio
        hook_ok_poll hook_ok_array_get len regs rec) auto
qed

lemma hook_ok_set_wake:
  "h < 128 \<Longrightarrow> hook_ok (imx_okx x) (imx_gpc_set_wake h on) (\<lambda>_. True)"
  by (auto simp: hook_ok_def imx_gpc_set_wake_def Let_def mbind_def prog_simps imx_okx_def imx_ok_def word_less_nat_alt unat_div)

lemma hook_ok_set_affinity:
  "c < 4 \<Longrightarrow> hook_ok (imx_okx x) (imx_gpc_set_affinity h c) (\<lambda>_. True)"
  unfolding imx_gpc_set_affinity_def
  by (intro hook_ok_then hook_ok_array_get hook_ok_mmio hook_ok_loop hook_ok_mwhen)
    (auto simp: mask_offset_def word_less_nat_alt)

text \<open>
  C26. A SiP call to the power controller with arguments in range always returns: the polling loops
  on the request registers and the nested call for the second PCIe domain end, no array is left,
  and the state of the platform stays good.
\<close>

theorem gpc_handler_returns:
  assumes w: "imx_ok w"
    and wake: "x1 = 2 \<Longrightarrow> (ucast x2 :: u32) < 128" and dom: "x1 = 3 \<Longrightarrow> (ucast x2 :: u32) < 11"
    and aff: "x1 = 4 \<Longrightarrow> (ucast x3 :: u32) < 4"
  shows "\<exists>rc t. imx_gpc_handler fid x1 x2 x3 w = Ret rc t \<and> imx_ok t \<and> (rc = 0 \<longleftrightarrow> x1 \<in> {0, 1, 2, 3, 4})"
proof -
  have "hook_ok (imx_okx (imx_world.more w)) (imx_gpc_handler fid x1 x2 x3) (\<lambda>rc. rc = (if x1 \<in> {0, 1, 2, 3, 4} then 0 else -1))"
    unfolding imx_gpc_handler_def
    by (intro hook_ok_if hook_ok_then [where P = "\<lambda>rc. rc = (if x1 \<in> {0, 1, 2, 3, 4} then 0 else -1)"] hook_ok_set_wake hook_ok_pm_domain
        hook_ok_set_affinity hook_ok_mret wake dom aff;
        (simp add: imx_gpc_hwirq_mask_def imx_gpc_hwirq_unmask_def hook_ok_mmio)?)
  then show ?thesis
    using w by (auto simp: hook_ok_def imx_okx_def split: if_splits)
qed

theorem gpc_handler_returns_witness:
  "\<exists>t. imx_gpc_handler 0xC2000000 3 1 1 sample_world = Ret 0 t \<and> imx_ok t"
proof -
  show ?thesis using gpc_handler_returns [OF sample_world_ok, of 3 1 1 "0xC2000000"] by auto
qed

text \<open>
  C38. The arguments of these calls come from the normal world unchecked: an interrupt number of
  128 or more (wake-up), a core number of 4 or more (affinity) and a domain number of 11 or more
  (power domains) index past the end of the tables of the firmware.
\<close>

theorem gpc_call_out_of_bounds:
  assumes w: "imx_ok w"
    and bad: "x1 = 2 \<and> 128 \<le> (ucast x2 :: u32) \<or> x1 = 4 \<and> 4 \<le> (ucast x3 :: u32) \<or> x1 = 3 \<and> 11 \<le> (ucast x2 :: u32)"
  shows "\<exists>t. imx_svc_smc_handler rom dvfs vs 0xC2000000 x1 x2 x3 x4 w = Stop Out_of_bounds t"
proof -
  have len: "length gpc_pu_m_core_offset = 11" "length mask_offset = 4" "length (gpc_wake_irqs w) = 4"
    using w by (simp_all add: gpc_pu_m_core_offset_def mask_offset_def imx_ok_def)
  have "\<exists>t. imx_gpc_handler 0xC2000000 x1 x2 x3 w = Stop Out_of_bounds t"
    using bad
  proof (elim disjE conjE)
    assume "x1 = 2" "128 \<le> (ucast x2 :: u32)"
    then show ?thesis
      using len(3) by (simp add: imx_gpc_handler_def imx_gpc_set_wake_def Let_def mbind_def prog_simps word_le_nat_alt unat_div)
  next
    assume "x1 = 4" "4 \<le> (ucast x3 :: u32)"
    then show ?thesis
      using len(2) by (simp add: imx_gpc_handler_def imx_gpc_set_affinity_def mbind_def prog_simps word_le_nat_alt)
  next
    assume x: "x1 = 3" "11 \<le> (ucast x2 :: u32)"
    let ?d = "ucast x2 :: u32"
    have d: "?d \<noteq> 1" "?d \<noteq> 10" "?d \<noteq> 4" "?d \<noteq> 5" "?d \<noteq> 7" "\<not> unat ?d < 11" using x(2) by (auto simp: word_le_nat_alt)
    then have "imx_gpc_pm_domain_enable ?d on w = Stop Out_of_bounds w" for on
      using len(1) by (simp add: imx_gpc_pm_domain_enable.simps [of ?d] gpc_pu_handshake_def mbind_def prog_simps)
    then show ?thesis using x(1) by (simp add: imx_gpc_handler_def mbind_def)
  qed
  then show ?thesis by (auto simp: imx_svc_smc_handler_def SMC_RET1_def mbind_def)
qed

theorem gpc_call_out_of_bounds_witness:
  "\<exists>t. imx_svc_smc_handler (\<lambda>_ _. mret 0) (\<lambda>_ _ _ _. mret 0) [] 0xC2000000 4 0 4 0 sample_world = Stop Out_of_bounds t"
  using gpc_call_out_of_bounds [OF sample_world_ok, of 4 0 4 "\<lambda>_ _. mret 0" "\<lambda>_ _ _ _. mret 0" "[]" 0] by simp

text \<open>
  Masking an interrupt writes wherever its number leads: every bit of every word of the 512 MB above
  the first mask register is set by some call. Which of these writes the MMU lets through is shown
  where the memory map is at hand.
\<close>

lemma gpc_mask_sets_bit:
  assumes "k < 2 ^ 27" "b < 32"
  shows "imx_svc_smc_handler rom dvfs vs 0xC2000000 0 (32 * of_nat k + of_nat b) x3 x4 w =
     Ret 0 (w\<lparr>mmio := (mmio w)(IMX_GPC_BASE + 0x30 + 4 * of_nat k := mmio w (IMX_GPC_BASE + 0x30 + 4 * of_nat k) OR BIT32 b)\<rparr>)"
proof -
  let ?h = "ucast (32 * of_nat k + of_nat b :: u64) :: u32"
  have "32 * k + b < 2 ^ 32" using assms by simp
  then have h: "unat ?h = 32 * k + b"
    by (simp add: unsigned_ucast_eq unat_word_ariths unsigned_of_nat take_bit_eq_mod)
  have "unat (?h div 32) = k" "unat (?h mod 32) = b"
    using assms by (simp_all add: unat_div unat_mod h)
  then have "gpc_imr_reg 0x30 ?h = IMX_GPC_BASE + 0x30 + 4 * of_nat k" "unat (?h mod 32) = b"
    using assms
    by (simp_all add: gpc_imr_reg_def word_unat_eq_iff unat_word_ariths unsigned_ucast_eq unsigned_of_nat take_bit_eq_mod)
  then show ?thesis
    by (simp add: imx_svc_smc_handler_def SMC_RET1_def imx_gpc_handler_def imx_gpc_hwirq_mask_def mmio_rmw_32_def
        mmio_read_32_def mmio_write_32_def mbind_def prog_simps)
qed

lemma four: "k < 4 \<longleftrightarrow> k = 0 \<or> k = 1 \<or> k = 2 \<or> k = (3 :: nat)"
  by auto

lemma mmio_rmw_run: "mmio_rmw_32 a f w = Ret () (w\<lparr>mmio := (mmio w)(a := f (mmio w a))\<rparr>)"
  by (simp add: mmio_rmw_32_def mmio_read_32_def mmio_write_32_def mbind_def prog_simps)

text \<open>Masking an interrupt for every core but one: the registers after the first \<open>n\<close> turns.\<close>

lemma mask_others_run:
  assumes "inj_on A {0..<4}" "c < 4" "n \<le> 4"
  shows "mfold (\<lambda>i _. mwhen (c \<noteq> i) (mmio_rmw_32 (A i) (\<lambda>val. val OR msk))) [0..<n] () w =
     Ret () (w\<lparr>mmio := \<lambda>a. if a \<in> A ` ({0..<n} - {c}) then mmio w a OR msk else mmio w a\<rparr>)"
  using assms(3)
proof (induction n)
  case (Suc n)
  define M where "M n = (\<lambda>a. if a \<in> A ` ({0..<n} - {c}) then mmio w a OR msk else mmio w a)" for n
  have IH: "mfold (\<lambda>i _. mwhen (c \<noteq> i) (mmio_rmw_32 (A i) (\<lambda>val. val OR msk))) [0..<n] () w = Ret () (w\<lparr>mmio := M n\<rparr>)"
    using Suc by (simp add: M_def)
  have "mwhen (c \<noteq> n) (mmio_rmw_32 (A n) (\<lambda>val. val OR msk)) (w\<lparr>mmio := M n\<rparr>) = Ret () (w\<lparr>mmio := M (Suc n)\<rparr>)"
  proof (cases "c = n")
    case True
    then have "{0..<Suc n} - {c} = {0..<n} - {c}" by auto
    then show ?thesis using True by (simp add: M_def mwhen_def prog_simps)
  next
    case False
    then have "{0..<Suc n} - {c} = insert n ({0..<n} - {c})" by auto
    moreover have "A n \<notin> A ` ({0..<n} - {c})"
      using assms(1) Suc.prems by (subst inj_on_image_mem_iff [of A "{0..<4}"]) auto
    ultimately have "(M n)(A n := M n (A n) OR msk) = M (Suc n)" by (auto simp: M_def fun_eq_iff)
    then show ?thesis using False by (simp add: mwhen_def mmio_rmw_run)
  qed
  then show ?case using IH by (simp add: mfold_append mbind_def prog_simps M_def)
qed (simp add: prog_simps)

lemma imr_inj: "inj_on (\<lambda>k. gpc_imr_reg (mask_offset ! k) h) {0..<4}"
  by (rule inj_onI) (auto simp: four gpc_imr_reg_def mask_offset_def)

text \<open>
  C22. Setting the affinity of an interrupt unmasks it for the core asked for and masks it for the
  three others, and changes nothing else of the platform.
\<close>

theorem set_affinity_routes:
  assumes c: "c < 4"
  shows "\<exists>m. imx_gpc_set_affinity h (of_nat c) w = Ret () (w\<lparr>mmio := m\<rparr>) \<and>
     (\<forall>k < 4. \<forall>n < 32. bit (m (gpc_imr_reg (mask_offset ! k) h)) n \<longleftrightarrow>
        (if n = unat (h mod 32) then k \<noteq> c else bit (mmio w (gpc_imr_reg (mask_offset ! k) h)) n)) \<and>
     (\<forall>a. a \<notin> (\<lambda>k. gpc_imr_reg (mask_offset ! k) h) ` {0..<4} \<longrightarrow> m a = mmio w a)"
proof -
  define A where "A = (\<lambda>k. gpc_imr_reg (mask_offset ! k) h)"
  define msk where "msk = BIT32 (unat (h mod 32))"
  let ?w = "w\<lparr>mmio := (mmio w)(A c := mmio w (A c) AND NOT msk)\<rparr>"
  let ?m = "\<lambda>a. if a \<in> A ` ({0..<4} - {c}) then mmio ?w a OR msk else mmio ?w a"
  have c': "unat (of_nat c :: u32) = c" using c by (simp add: unsigned_of_nat take_bit_nat_eq_self)
  have inj: "A j = A k \<longleftrightarrow> j = k" if "j < 4" "k < 4" for j k
    using inj_on_eq_iff [OF imr_inj [of h], of j k] that by (simp add: A_def)
  have "mfold (\<lambda>i _. mwhen (c \<noteq> i) (mmio_rmw_32 (A i) (\<lambda>val. val OR msk))) [0..<4] () ?w = Ret () (w\<lparr>mmio := ?m\<rparr>)"
    using mask_others_run [OF imr_inj c order_refl, of h msk ?w] by (simp add: A_def)
  moreover have "c < length mask_offset" using c by (simp add: mask_offset_def)
  ultimately have run: "imx_gpc_set_affinity h (of_nat c) w = Ret () (w\<lparr>mmio := ?m\<rparr>)"
    unfolding imx_gpc_set_affinity_def c' by (simp add: A_def msk_def mmio_rmw_run mbind_def prog_simps)
  have mem: "A k \<in> A ` ({0..<4} - {c}) \<longleftrightarrow> k \<noteq> c" if "k < 4" for k using inj that c by auto
  have "bit (?m (A k)) n \<longleftrightarrow> (if n = unat (h mod 32) then k \<noteq> c else bit (mmio w (A k)) n)" if "k < 4" "n < 32" for k n
    using that mem inj c by (auto simp: msk_def bit_simps)
  moreover have "?m a = mmio w a" if "a \<notin> A ` {0..<4}" for a using that c by auto
  ultimately show ?thesis using run unfolding A_def by blast
qed

theorem set_affinity_routes_witness:
  "\<exists>m. imx_gpc_set_affinity 37 2 sample_world = Ret () (sample_world\<lparr>mmio := m\<rparr>) \<and>
     bit (m 0x303a0034) 5 \<and> bit (m 0x303a0044) 5 \<and> \<not> bit (m 0x303a01c4) 5 \<and> bit (m 0x303a01d4) 5"
proof -
  obtain m where m: "imx_gpc_set_affinity 37 (of_nat 2) sample_world = Ret () (sample_world\<lparr>mmio := m\<rparr>)"
    "\<And>k. k < 4 \<Longrightarrow> bit (m (gpc_imr_reg (mask_offset ! k) 37)) 5 \<longleftrightarrow> k \<noteq> 2"
    using set_affinity_routes [of 2 37 sample_world] by auto
  then show ?thesis
    using m(2) [of 0] m(2) [of 1] m(2) [of 2] m(2) [of 3] by (auto simp: mask_offset_def gpc_imr_reg_def)
qed

section \<open>Low power modes\<close>

lemma save_row:
  assumes "length (gpc_saved_imrs w) = 16" "i < 4"
  shows "mfold (\<lambda>k _. save_imr i k) [0..<4] () w = Ret () (w\<lparr>gpc_saved_imrs := (gpc_saved_imrs w)
    [i := mmio w (0x303a0030 + of_nat i * 4), i + 4 := mmio w (0x303a0040 + of_nat i * 4),
     i + 8 := mmio w (0x303a01c0 + of_nat i * 4), i + 12 := mmio w (0x303a01d0 + of_nat i * 4)]\<rparr>)"
  using assms by (simp add: lists4 mbind_def prog_simps save_imr_def mmio_read_32_def mask_offset_def)

lemma wake_row:
  assumes "length (gpc_wake_irqs w) = 4" "i < 4"
  shows "mfold (\<lambda>k _. write_wake_imr i k) [0..<4] () w = Ret () (w\<lparr>mmio := (mmio w)
    (0x303a0030 + of_nat i * 4 := NOT (gpc_wake_irqs w ! i), 0x303a0040 + of_nat i * 4 := NOT (gpc_wake_irqs w ! i),
     0x303a01c0 + of_nat i * 4 := NOT (gpc_wake_irqs w ! i), 0x303a01d0 + of_nat i * 4 := NOT (gpc_wake_irqs w ! i))\<rparr>)"
  using assms by (simp add: lists4 mbind_def prog_simps write_wake_imr_def mmio_write_32_def mask_offset_def)

lemma restore_row:
  assumes "length (gpc_saved_imrs w) = 16" "i < 4"
  shows "mfold (\<lambda>k _. restore_imr i k) [0..<4] () w = Ret () (w\<lparr>mmio := (mmio w)
    (0x303a0030 + of_nat i * 4 := gpc_saved_imrs w ! i, 0x303a0040 + of_nat i * 4 := gpc_saved_imrs w ! (i + 4),
     0x303a01c0 + of_nat i * 4 := gpc_saved_imrs w ! (i + 8), 0x303a01d0 + of_nat i * 4 := gpc_saved_imrs w ! (i + 12))\<rparr>)"
  using assms by (simp add: lists4 mbind_def prog_simps restore_imr_def mmio_write_32_def mask_offset_def)

lemma loop4:
  "f 0 () w = Ret () w1 \<Longrightarrow> f 1 () w1 = Ret () w2 \<Longrightarrow> f 2 () w2 = Ret () w3 \<Longrightarrow> f 3 () w3 = Ret () w4 \<Longrightarrow>
     mfold f [0..<4] () w = Ret () w4"
  by (simp add: lists4 mbind_def prog_simps)

text \<open>The platform after one turn of the two loops.\<close>

definition lpm_saved :: "nat \<Rightarrow> 'a imx_world_scheme \<Rightarrow> 'a imx_world_scheme" where
  "lpm_saved i w =
     (let v = NOT (gpc_wake_irqs w ! i); a = of_nat i * 4
      in w\<lparr>gpc_saved_imrs := (gpc_saved_imrs w)[i := mmio w (0x303a0030 + a), i + 4 := mmio w (0x303a0040 + a),
             i + 8 := mmio w (0x303a01c0 + a), i + 12 := mmio w (0x303a01d0 + a)],
           mmio := (mmio w)(0x303a0030 + a := v, 0x303a0040 + a := v, 0x303a01c0 + a := v, 0x303a01d0 + a := v)\<rparr>)"

definition lpm_restored :: "nat \<Rightarrow> 'a imx_world_scheme \<Rightarrow> 'a imx_world_scheme" where
  "lpm_restored i w =
     (let s = gpc_saved_imrs w; a = of_nat i * 4
      in w\<lparr>mmio := (mmio w)(0x303a0030 + a := s ! i, 0x303a0040 + a := s ! (i + 4),
             0x303a01c0 + a := s ! (i + 8), 0x303a01d0 + a := s ! (i + 12))\<rparr>)"

lemma lpm_lengths:
  "length (gpc_saved_imrs (lpm_saved i w)) = length (gpc_saved_imrs w)" "gpc_wake_irqs (lpm_saved i w) = gpc_wake_irqs w"
  "gpc_saved_imrs (lpm_restored i w) = gpc_saved_imrs w"
  by (simp_all add: lpm_saved_def lpm_restored_def Let_def)

lemma lpm_wakeup_run:
  assumes "length (gpc_saved_imrs w) = 16" "length (gpc_wake_irqs w) = 4"
  shows "imx_set_lpm_wakeup True w = Ret () (lpm_saved 3 (lpm_saved 2 (lpm_saved 1 (lpm_saved 0 w))))"
    "imx_set_lpm_wakeup False w = Ret () (lpm_restored 3 (lpm_restored 2 (lpm_restored 1 (lpm_restored 0 w))))"
proof -
  have save: "mbind (mfold (\<lambda>k _. save_imr i k) [0..<4] ()) (\<lambda>_. mfold (\<lambda>k _. write_wake_imr i k) [0..<4] ()) w' =
      Ret () (lpm_saved i w')"
    if "i < 4" "length (gpc_saved_imrs w') = 16" "length (gpc_wake_irqs w') = 4" for i and w' :: "'a imx_world_scheme"
    using that by (simp add: mbind_def save_row wake_row lpm_saved_def Let_def)
  show "imx_set_lpm_wakeup True w = Ret () (lpm_saved 3 (lpm_saved 2 (lpm_saved 1 (lpm_saved 0 w))))"
    unfolding imx_set_lpm_wakeup_def if_True by (rule loop4; rule save; simp add: assms lpm_lengths)
  have restore: "mfold (\<lambda>k _. restore_imr i k) [0..<4] () w' = Ret () (lpm_restored i w')"
    if "i < 4" "length (gpc_saved_imrs w') = 16" for i and w' :: "'a imx_world_scheme"
    using that by (simp add: restore_row lpm_restored_def Let_def)
  show "imx_set_lpm_wakeup False w = Ret () (lpm_restored 3 (lpm_restored 2 (lpm_restored 1 (lpm_restored 0 w))))"
    unfolding imx_set_lpm_wakeup_def if_False by (rule loop4; rule restore; simp add: assms lpm_lengths)
qed

text \<open>
  C21. Entering and leaving the cluster power down mode gives back every interrupt mask register:
  between the two, the four registers of every core hold the complement of the wake-up interrupts.
\<close>

theorem lpm_wakeup_roundtrip:
  assumes "imx_ok w"
  shows "\<exists>t u. imx_set_lpm_wakeup True w = Ret () t \<and>
     (\<forall>i < 4. \<forall>k < 4. mmio t (IMX_GPC_BASE + mask_offset ! k + of_nat i * 4) = NOT (gpc_wake_irqs w ! i)) \<and>
     imx_set_lpm_wakeup False t = Ret () u \<and> mmio u = mmio w"
proof -
  have len: "length (gpc_saved_imrs w) = 16" "length (gpc_wake_irqs w) = 4" using assms by (simp_all add: imx_ok_def)
  let ?t = "lpm_saved 3 (lpm_saved 2 (lpm_saved 1 (lpm_saved 0 w)))"
  let ?u = "lpm_restored 3 (lpm_restored 2 (lpm_restored 1 (lpm_restored 0 ?t)))"
  have "\<forall>i < 4. \<forall>k < 4. mmio ?t (IMX_GPC_BASE + mask_offset ! k + of_nat i * 4) = NOT (gpc_wake_irqs w ! i)"
    by (auto simp: four mask_offset_def lpm_saved_def Let_def)
  moreover have "mmio ?u a = mmio w a" for a
    by (simp add: lpm_restored_def lpm_saved_def Let_def len)
  ultimately show ?thesis
    using lpm_wakeup_run(1) [OF len] lpm_wakeup_run(2) [of ?t] len by (auto simp: lpm_lengths fun_eq_iff)
qed

theorem lpm_wakeup_roundtrip_witness:
  "\<exists>t u. imx_set_lpm_wakeup True sample_world = Ret () t \<and> mmio t 0x303a0030 = NOT 0 \<and>
     imx_set_lpm_wakeup False t = Ret () u \<and> mmio u = (\<lambda>_. 0)"
proof -
  obtain t u where t: "imx_set_lpm_wakeup True sample_world = Ret () t"
    "\<forall>i < 4. \<forall>k < 4. mmio t (IMX_GPC_BASE + mask_offset ! k + of_nat i * 4) = NOT (gpc_wake_irqs sample_world ! i)"
    "imx_set_lpm_wakeup False t = Ret () u" "mmio u = mmio sample_world"
    using lpm_wakeup_roundtrip [OF sample_world_ok] by blast
  have "mmio t 0x303a0030 = NOT 0"
    using t(2) [rule_format, of 0 0] by (simp add: mask_offset_def sample_world_def)
  then show ?thesis using t by (auto simp: sample_world_def)
qed

lemma mask_off_disjoint: "m AND own = 0 \<Longrightarrow> (v AND NOT m) AND own = v AND own" for m own v :: "'a::len word"
  by (simp add: bit_eq_iff bit_simps) blast

text \<open>
  C33. Low power mode is a matter of one core: setting or clearing it for a core leaves the wait
  for interrupt, wake-up and power-up bits of the other cores in the advanced control register, and
  their power gating registers, as they were.
\<close>

theorem cpu_lpm_isolated:
  assumes "c < 4" "c' < 4" "c \<noteq> c'"
  shows "\<exists>t. imx_set_cpu_lpm c pdn w = Ret () t \<and>
     mmio t (core_pgc c') = mmio w (core_pgc c') \<and>
     (let own = core_wfi_pdn_bit c' OR core_irq_wup_bit c' OR core_pup_bit c' OR BIT32 (c' + 20)
      in mmio t (IMX_GPC_BASE + 0x4) AND own = mmio w (IMX_GPC_BASE + 0x4) AND own) \<and>
     (mmio t (core_pgc c) AND 1 = 1 \<longleftrightarrow> pdn)"
proof -
  define own where "own = (core_wfi_pdn_bit c' OR core_irq_wup_bit c' OR core_pup_bit c' OR BIT32 (c' + 20))"
  define p q r where "p = core_wfi_pdn_bit c" and "q = BIT32 (c + 20)" and "r = core_irq_wup_bit c"
  have "p AND own = 0" "q AND own = 0" "r AND own = 0"
    using assms by (auto simp: four own_def p_def q_def r_def core_wfi_pdn_bit_def core_irq_wup_bit_def core_pup_bit_def)
  then have keep: "(((v OR p) OR q) OR r) AND own = v AND own" "((v AND NOT p) AND NOT r) AND own = v AND own" for v
    by (simp_all add: bit.conj_disj_distrib2 mask_off_disjoint)
  have addr: "core_pgc c \<noteq> core_pgc c'" "core_pgc c \<noteq> IMX_GPC_BASE + 0x4" "core_pgc c' \<noteq> IMX_GPC_BASE + 0x4"
    using assms by (auto simp: four)
  have one: "(v OR 1) AND 1 = 1" "(v AND - 2) AND 1 = 0" for v :: u32
    by (simp_all add: bit.conj_disj_distrib2 and.assoc)
  show ?thesis
    unfolding imx_set_cpu_lpm_def Let_def own_def [symmetric] p_def [symmetric] q_def [symmetric] r_def [symmetric]
    using addr by (cases pdn) (simp_all add: mbind_def mmio_rmw_run keep one)
qed

theorem cpu_lpm_isolated_witness:
  "\<exists>t. imx_set_cpu_lpm 1 True sample_world = Ret () t \<and> mmio t 0x303a0880 = 0 \<and> mmio t 0x303a0840 AND 1 = 1"
  using cpu_lpm_isolated [of 1 2 True sample_world] by (auto simp: sample_world_def)

section \<open>The other SiP calls\<close>

text \<open>
  Once the normal world has started the Cortex-M4, the query reports it as started, and neither
  call touches another register.
\<close>

lemma m4_start_then_started:
  "\<exists>w'. imx_svc_smc_handler rom dvfs vs 0xc2000005 0 x2 x3 x4 w = Ret 0 w' \<and>
     w' = w\<lparr>mmio := (mmio w)(0x3039000c := mmio w' 0x3039000c)\<rparr> \<and>
     imx_svc_smc_handler rom dvfs vs 0xc2000005 1 y2 y3 y4 w' = Ret 1 w'"
proof -
  have "((v AND NOT 1) OR BIT32 3) AND 1 = (0 :: u32)" for v
    by (rule bit_word_eqI) (auto simp: bit_simps)
  then show ?thesis
    by (simp add: imx_svc_smc_handler_def SMC_RET1_def imx_src_handler_def mbind_def mmio_rmw_run mmio_read_32_def prog_simps)
qed

text \<open>Does \<^verbatim>\<open>-g\<close> occur in a string?\<close>

definition has_mark :: "string \<Rightarrow> bool" where
  "has_mark v \<longleftrightarrow> (\<exists>p q. v = p @ ''-g'' @ q)"

lemma mark_split:
  assumes "CHR ''-'' \<notin> set a" "a @ CHR ''-'' # r = p @ ''-g'' @ q"
  shows "p = a \<and> r = CHR ''g'' # q \<or> (\<exists>p'. p = a @ CHR ''-'' # p' \<and> r = p' @ ''-g'' @ q)"
  using assms by (auto simp: append_eq_append_conv2 append_eq_Cons_conv Cons_eq_append_conv)

text \<open>
  The commit hash of the build is found after the first \<^verbatim>\<open>-g\<close> of the version string, wherever
  that is, and the search ends on every string; there is no hash when there is no \<^verbatim>\<open>-g\<close>.
\<close>

lemma commit_suffix_first:
  "case commit_suffix v of
     None \<Rightarrow> \<not> has_mark v
   | Some suf \<Rightarrow> \<exists>pre. v = pre @ ''-g'' @ suf \<and> \<not> has_mark pre"
proof (induction v rule: commit_suffix.induct)
  case (1 v)
  define a where "a = takeWhile (\<lambda>c. c \<noteq> CHR ''-'') v"
  have a: "CHR ''-'' \<notin> set a" "v = a @ dropWhile (\<lambda>c. c \<noteq> CHR ''-'') v" by (auto simp: a_def dest: set_takeWhileD)
  then have free: "\<not> has_mark a" by (auto simp: has_mark_def)
  show ?case
  proof (cases "dropWhile (\<lambda>c. c \<noteq> CHR ''-'') v")
    case Nil
    then have "commit_suffix v = None" by (subst commit_suffix.simps) (simp only: list.case)
    moreover have "v = a" using a(2) Nil by simp
    ultimately show ?thesis using free by simp
  next
    case (Cons x r)
    then have x: "x = CHR ''-''" using hd_dropWhile [of "\<lambda>c. c \<noteq> CHR ''-''" v] by auto
    show ?thesis
    proof (cases "r \<noteq> [] \<and> hd r = CHR ''g''")
      case True
      then obtain suf where r: "r = CHR ''g'' # suf" by (cases r) auto
      then have "commit_suffix v = Some suf" using Cons by (subst commit_suffix.simps) simp
      moreover have "v = a @ ''-g'' @ suf" using a(2) Cons x r by simp
      ultimately show ?thesis using free by auto
    next
      case False
      have v: "v = a @ CHR ''-'' # r" using a(2) Cons x by simp
      have marks: "has_mark (a @ CHR ''-'' # p) \<longleftrightarrow> has_mark p" if "p = [] \<or> hd p \<noteq> CHR ''g''" for p
        using mark_split [OF a(1), of p] that unfolding has_mark_def
        by (metis append.assoc append_Cons list.distinct(1) list.sel(1))
      have "commit_suffix v = commit_suffix r" using Cons False by (auto simp: commit_suffix.simps [of v])
      moreover note 1 [OF Cons False]
      moreover have "\<not> has_mark (a @ CHR ''-'' # pre)" if "r = pre @ ''-g'' @ suf" "\<not> has_mark pre" for pre suf
        using marks [of pre] that False by (cases pre) auto
      ultimately show ?thesis
        using marks [of r] False unfolding v by (fastforce split: option.splits)
    qed
  qed
qed

text \<open>
  A hash shorter than six characters makes imx\_get\_commit\_hash copy past the end of the version
  string; a longer one is returned as seven bytes, the first character in the lowest byte.
\<close>

theorem commit_hash_short:
  assumes "commit_suffix v = Some suf"
  shows "imx_svc_smc_handler rom dvfs v 0xC2000003 0 x2 x3 x4 w =
     (if length suf < 6 then Stop Out_of_bounds w
      else Ret (horner_sum of_char 256 (take 7 (suf @ [CHR 0x00]))) w)"
  using assms by (simp add: imx_svc_smc_handler_def imx_buildinfo_handler_def imx_get_commit_hash_def prog_simps)

theorem commit_hash_short_witness:
  "imx_svc_smc_handler (\<lambda>_ _. mret 0) (\<lambda>_ _ _ _. mret 0) ''v2.0-g12ab'' 0xC2000003 0 0 0 0 sample_world = Stop Out_of_bounds sample_world"
proof -
  have "commit_suffix ''v2.0-g12ab'' = Some ''12ab''" by (simp add: commit_suffix.simps)
  from commit_hash_short [OF this] show ?thesis by simp
qed

end
