(* ===== verification/Bl31_System.thy ===== *)
theory Bl31_System
  imports Opteed_Boot Psci_Calls Imx8mq_Results
begin

text \<open>
  The firmware as a whole: PSCI, the SiP service and the OP-TEE dispatcher on the four cores, as a
  step relation over the data of all of them. Every state reached after a cold boot satisfies the
  invariant of the PSCI library and that of the dispatcher.
\<close>

section \<open>Programs that preserve an invariant\<close>

text \<open>Whenever the program returns from a state of the invariant, the invariant holds.\<close>

definition preserves :: "('w \<Rightarrow> bool) \<Rightarrow> ('w, 'b) prog \<Rightarrow> bool" where
  "preserves I m \<longleftrightarrow> (\<forall>w. I w \<longrightarrow> wp m (\<lambda>_. I) (\<lambda>_ _. True) w)"

lemma preservesD: "preserves I m \<Longrightarrow> I w \<Longrightarrow> m w = Ret v w' \<Longrightarrow> I w'"
  by (auto simp: preserves_def wp_def dest: spec [of _ w])

lemma preserves_mret: "preserves I (mret v)"
  by (simp add: preserves_def wp_simps)

lemma preserves_mstop: "preserves I (mstop r)"
  by (simp add: preserves_def wp_simps)

lemma preserves_mbind: "preserves I m \<Longrightarrow> (\<And>v. preserves I (f v)) \<Longrightarrow> preserves I (mbind m f)"
  unfolding preserves_def wp_mbind by (blast intro: wp_mono)

lemma preserves_if: "(b \<Longrightarrow> preserves I m) \<Longrightarrow> (\<not> b \<Longrightarrow> preserves I n) \<Longrightarrow> preserves I (if b then m else n)"
  by simp

lemma preserves_hook: "hook_ok I m P \<Longrightarrow> preserves I m"
  by (fastforce simp: preserves_def hook_ok_def wp_def)

lemma preserves_array_get: "preserves I (array_get xs i)"
  by (auto simp: preserves_def wp_simps)

lemma preserves_mget: "preserves I (mget f)"
  by (auto simp: preserves_def wp_simps)

lemma preserves_dbg_assert: "preserves I (dbg_assert dbg b)"
  by (auto simp: preserves_def wp_simps dbg_assert_def)

lemma preserves_mwhen: "preserves I m \<Longrightarrow> preserves I (mwhen b m)"
  by (simp add: mwhen_def preserves_mret)

lemma preserves_loop: "(\<And>x a. preserves I (f x a)) \<Longrightarrow> preserves I (mfold f xs a)"
  by (induction xs arbitrary: a) (auto intro: preserves_mret preserves_mbind)

lemma preserves_option: "preserves I m \<Longrightarrow> (\<And>x. preserves I (f x)) \<Longrightarrow> preserves I (case v of None \<Rightarrow> m | Some x \<Rightarrow> f x)"
  by (cases v) simp_all

lemmas preserves_intros = preserves_mret preserves_mstop preserves_mbind preserves_if preserves_array_get preserves_mget
  preserves_dbg_assert preserves_mwhen preserves_loop preserves_option

section \<open>The SiP service\<close>

lemmas preserves_mmio = hook_ok_mmio [THEN preserves_hook]

lemma preserves_read_8: "preserves I (mmio_read_8 a)"
  unfolding mmio_read_8_def by (rule preserves_mget)

lemma preserves_pm_domain: "preserves (imx_okx x) (imx_gpc_pm_domain_enable d on)"
proof (induction d on rule: imx_gpc_pm_domain_enable.induct)
  case (1 d on)
  have regs: "IMX_GPC_BASE + (if on then 0xf8 else 0x104) \<in> gpc_request_regs" by (simp add: gpc_request_regs_def)
  show ?case
    unfolding imx_gpc_pm_domain_enable.simps [of d on] Let_def
    by (intro preserves_intros preserves_hook [OF hook_ok_pcie1] preserves_hook [OF hook_ok_m_core_pgc] preserves_mmio
        preserves_hook [OF hook_ok_poll] regs 1)
qed

lemma preserves_wake: "preserves (imx_okx x) (imx_gpc_set_wake h on)"
  by (auto simp: preserves_def wp_simps imx_gpc_set_wake_def Let_def imx_okx_def imx_ok_def)

lemma preserves_gpc_handler: "preserves (imx_okx x) (imx_gpc_handler fid x1 x2 x3)"
  unfolding imx_gpc_handler_def imx_gpc_hwirq_mask_def imx_gpc_hwirq_unmask_def imx_gpc_set_affinity_def
  by (intro preserves_intros preserves_wake preserves_mmio preserves_pm_domain)

text \<open>
  What is assumed of the code the service calls but the firmware does not contain: the ROM and the
  DDR frequency handler keep the data of the other components.
\<close>

definition sip_callees_ok :: "'a imx_world_scheme rom_call \<Rightarrow> 'a imx_world_scheme dvfs_handler \<Rightarrow> bool" where
  "sip_callees_ok rom dvfs \<longleftrightarrow>
     (\<forall>x a args. preserves (imx_okx x) (rom a args)) \<and> (\<forall>x fid a b c. preserves (imx_okx x) (dvfs fid a b c))"

lemma preserves_sip:
  assumes "sip_callees_ok rom dvfs"
  shows "preserves (imx_okx x) (imx_svc_smc_handler rom dvfs version fid x1 x2 x3 x4)"
proof -
  have rom: "\<And>a args. preserves (imx_okx x) (rom a args)" and dvfs: "\<And>fid a b c. preserves (imx_okx x) (dvfs fid a b c)"
    using assms by (simp_all add: sip_callees_ok_def)
  show ?thesis
    unfolding imx_svc_smc_handler_def SMC_RET1_def imx_src_handler_def imx_soc_handler_def imx_hab_handler_def hab_rvt_call_def
      imx_noc_handler_def imx_buildinfo_handler_def imx_get_commit_hash_def Let_def split_def
    by (intro preserves_intros preserves_mmio preserves_gpc_handler preserves_read_8 rom dvfs)
qed

section \<open>Calls to OP-TEE\<close>

lemma preserves_ctx:
  assumes "\<And>y. optee_state (f y) = optee_state y" "\<And>y. c_rt_ctx (f y) = c_rt_ctx y"
  shows "preserves (imx_with (opteed_ok dbg) \<sigma>) (ctx_modify i f)"
  using assms
  by (auto simp: preserves_def wp_simps ctx_modify_def imx_with_def opteed_ok_def opteed_core_ok_def vector_addr_def nth_list_update)

lemma preserves_next_eret: "preserves (imx_with (opteed_ok dbg) \<sigma>) (cm_set_next_eret_context c ss)"
  by (auto simp: preserves_def wp_simps cm_set_next_eret_context_def imx_with_def opteed_ok_def opteed_core_ok_def vector_addr_def)

lemma preserves_regs:
  "preserves (imx_with (opteed_ok dbg) \<sigma>) (write_gpreg c n v)"
  "preserves (imx_with (opteed_ok dbg) \<sigma>) (cm_set_elr_el3 dbg c entry)"
  unfolding write_gpreg_def cm_set_elr_el3_def cm_get_secure_context_def
  by (intro preserves_intros preserves_ctx; simp)+

lemma preserves_forward: "preserves (imx_with (opteed_ok dbg) \<sigma>) (opteed_forward_smc dbg c fid x1 x2 x3 xs)"
  unfolding opteed_forward_smc_def by (intro preserves_intros preserves_regs preserves_next_eret)

lemma preserves_interrupt: "preserves (imx_with (opteed_ok dbg) \<sigma>) (opteed_sel1_interrupt_handler dbg r flags elr)"
  unfolding opteed_sel1_interrupt_handler_def Let_def by (intro preserves_intros preserves_regs preserves_next_eret)

section \<open>Steps of the firmware\<close>

text \<open>
  The steps of the cores: a PSCI step, a SiP call, a call the normal world makes to OP-TEE, its
  return, and a secure interrupt that is handed to OP-TEE.
\<close>

inductive bl31_step ::
  "bool \<Rightarrow> plat_port \<Rightarrow> u64 \<Rightarrow> bl31_world rom_call \<Rightarrow> bl31_world dvfs_handler \<Rightarrow> string \<Rightarrow>
     bl31_world system \<Rightarrow> bl31_world system \<Rightarrow> bool"
  for dbg p resident rom dvfs version where
  psci:
    "psci_step p x y \<Longrightarrow> bl31_step dbg p resident rom dvfs version x y"
| sip_call:
    "on_core p (e :: bl31_world cpu_env) c \<Longrightarrow> ph c = Running \<Longrightarrow>
     lift_world (imx_svc_smc_handler rom dvfs version fid x1 x2 x3 x4) s = Ret v s' \<Longrightarrow>
     bl31_step dbg p resident rom dvfs version (s, ph) (s', ph)"
| optee_call:
    "on_core p e c \<Longrightarrow> ph c = Running \<Longrightarrow> \<not> is_caller_secure flags \<Longrightarrow>
     opteed_smc_handler dbg resident e fid x1 x2 x3 x4 x4_x7 flags s = Ret ex s' \<Longrightarrow>
     bl31_step dbg p resident rom dvfs version (s, ph) (s', ph)"
| optee_return:
    "on_core p e c \<Longrightarrow> ph c = Running \<Longrightarrow> is_caller_secure flags \<Longrightarrow> fid \<in> {TEESMC_OPTEED_RV 5, TEESMC_OPTEED_RV 6} \<Longrightarrow>
     opteed_smc_handler dbg resident e fid x1 x2 x3 x4 x4_x7 flags s = Ret ex s' \<Longrightarrow>
     bl31_step dbg p resident rom dvfs version (s, ph) (s', ph)"
| secure_interrupt:
    "on_core p (e :: bl31_world cpu_env) c \<Longrightarrow> ph c = Running \<Longrightarrow>
     lift_world (opteed_sel1_interrupt_handler dbg (regs e) flags elr) s = Ret ex s' \<Longrightarrow>
     bl31_step dbg p resident rom dvfs version (s, ph) (s', ph)"


lemma world_step_ok:
  assumes e: "on_core (imx8mq_port b fq) (e :: bl31_world cpu_env) c" and I: "preserves (imx_with (opteed_ok dbg) (sp_of s ph)) m"
    and ok: "imx_optee.sys_ok dbg res b fq (s, ph)" and run: "lift_world m s = Ret v s'"
  shows "imx_optee.sys_ok dbg res b fq (s', ph)"
proof -
  obtain w where w: "m (world s) = Ret v w" "s' = s\<lparr>world := w\<rparr>"
    using run by (auto simp: lift_world_def split: outcome.splits)
  have "imx_with (opteed_ok dbg) (sp_of s ph) (world s)" using ok by (simp add: imx_optee.sys_ok_def imx_optee.plat_ok_def)
  from preservesD [OF I this w(1)] show ?thesis
    using ok imx_optee.ok_world w(2) by (simp add: imx_optee.sys_ok_iff [OF on_coreD(1) [OF e]])
qed

lemma preserves_frame:
  assumes "\<And>x. preserves (imx_okx x) m"
  shows "preserves (imx_with (opteed_ok dbg) \<sigma>) m"
  unfolding preserves_def
proof (intro allI impI)
  fix w assume w: "imx_with (opteed_ok dbg) \<sigma> w"
  then have "wp m (\<lambda>_. imx_okx (imx_world.more w)) (\<lambda>_ _. True) w"
    using assms by (simp add: preserves_def imx_okx_def imx_with_def)
  then show "wp m (\<lambda>_. imx_with (opteed_ok dbg) \<sigma>) (\<lambda>_ _. True) w"
  proof (rule wp_mono)
    fix t assume "imx_okx (imx_world.more w) t"
    then show "imx_with (opteed_ok dbg) \<sigma> t" using w opteed_own_state [of t w] by (simp add: imx_with_def imx_okx_def)
  qed
qed

lemma bl31_step_ok:
  assumes "bl31_step dbg (imx8mq_port b fq) res rom dvfs version x y" "sip_callees_ok rom dvfs" "imx_optee.sys_ok dbg res b fq x"
  shows "imx_optee.sys_ok dbg res b fq y"
  using assms
proof (induction rule: bl31_step.induct)
  case (psci x y)
  then show ?case using imx_optee.psci_step_ok by blast
next
  case (sip_call e c ph fid x1 x2 x3 x4 s v s')
  show ?case by (rule world_step_ok [OF sip_call(1) preserves_frame [OF preserves_sip [OF sip_call(4)]] sip_call(5,3)])
next
  case (optee_call e c ph flags fid x1 x2 x3 x4 x4_x7 s ex s')
  then have "lift_world (opteed_forward_smc dbg (plat_my_core_pos e) fid x1 x2 x3 x4_x7) s = Ret () s'"
    by (auto simp: opteed_smc_handler_def Let_def mbind_def mret_def split: outcome.splits)
  then show ?case using world_step_ok [OF optee_call(1) preserves_forward optee_call(6)] by blast
next
  case (optee_return e c ph flags fid x1 x2 x3 x4 x4_x7 s ex s')
  have fid: "\<not> is_done_smc fid" "fid \<noteq> TEESMC_OPTEED_RV 0" "TEESMC_OPTEED_RV 6 \<noteq> TEESMC_OPTEED_RV 5"
    using optee_return(4) by (auto simp: is_done_smc_def TEESMC_OPTEED_RV_def)
  then have "lift_world (cm_set_next_eret_context (plat_my_core_pos e) NON_SECURE) s = Ret () s'"
    using optee_return(3-5) by (auto simp: opteed_smc_handler_def Let_def mbind_def mret_def split: outcome.splits)
  then show ?case using world_step_ok [OF optee_return(1) preserves_next_eret optee_return(7)] by blast
next
  case (secure_interrupt e c ph flags elr s ex s')
  show ?case by (rule world_step_ok [OF secure_interrupt(1) preserves_interrupt secure_interrupt(5,3)])
qed

section \<open>Reachable states\<close>

text \<open>
  A cold boot on core 0: the set-up of PSCI, the set-up of the dispatcher and the first run of
  OP-TEE, on a board whose request registers clear themselves and with an OP-TEE that answers the
  calls of the dispatcher.
\<close>

definition bl31_cold_boot :: "bool \<Rightarrow> u64 \<Rightarrow> u64 \<Rightarrow> bl31_world system \<Rightarrow> bool" where
  "bl31_cold_boot b fq resident x \<longleftrightarrow>
     (\<exists>e args ops0 w vt ep v t rc w1 y t2. on_port (imx8mq_port b fq) e \<and> plat_my_core_pos e = 0 \<and>
        verify_psci_lib_args_v1 args \<and> imx_ok w \<and> opteed_cold vt ep w \<and>
        psci_setup e imx_plat_setup_psci_ops args (zeroed_psci_state e ops0 w) = Ret v t \<and>
        opteed_setup b (regs e) (world t) = Ret rc w1 \<and> opteed_init b resident e (t\<lparr>world := w1\<rparr>) = Ret y t2 \<and>
        x = (t2, boot_phases))"

inductive bl31_reachable ::
  "bool \<Rightarrow> u64 \<Rightarrow> u64 \<Rightarrow> bl31_world rom_call \<Rightarrow> bl31_world dvfs_handler \<Rightarrow> string \<Rightarrow> bl31_world system \<Rightarrow> bool"
  for b fq resident rom dvfs version where
  booted: "bl31_cold_boot b fq resident x \<Longrightarrow> bl31_reachable b fq resident rom dvfs version x"
| stepped: "bl31_reachable b fq resident rom dvfs version x \<Longrightarrow>
    bl31_step b (imx8mq_port b fq) resident rom dvfs version x y \<Longrightarrow> bl31_reachable b fq resident rom dvfs version y"

lemma bl31_reachable_ok:
  assumes "bl31_reachable b fq res rom dvfs version x" "sip_callees_ok rom dvfs"
  shows "imx_optee.sys_ok b res b fq x"
  using assms(1)
proof (induction rule: bl31_reachable.induct)
  case (booted x)
  then show ?case unfolding bl31_cold_boot_def by (metis optee_boot_sys_ok)
next
  case (stepped x y)
  then show ?case using bl31_step_ok assms(2) by blast
qed

lemma bl31_reachableD:
  assumes "bl31_reachable b fq res rom dvfs version (s, ph)" "sip_callees_ok rom dvfs"
  shows "psci_inv (imx8mq_port b fq) s ph" "opteed_ok b (sp_of s ph) (world s)" "imx_ok (world s)"
  using bl31_reachable_ok [OF assms] by (simp_all add: imx_optee.sys_ok_def imx_optee.plat_ok_def imx_with_def)

section \<open>A sample system\<close>

text \<open>
  An OP-TEE that is loaded at 0xfe000000, answers its first entry with the address of its vector
  table, and every other one with success.
\<close>

definition sample_optee :: "sp_entry list \<Rightarrow> u32 \<times> u64" where
  "sample_optee h = (case last h of (c, a, x) \<Rightarrow>
     if a = 0xfe000000 then (TEESMC_OPTEED_RV 0, 0xfe001000) else (TEESMC_OPTEED_RV 1, 0))"

definition sample_optee_context :: "u32 \<Rightarrow> optee_context_t" where
  "sample_optee_context st = \<lparr>optee_state = st, optee_mpidr = 0, c_rt_ctx = 0, cpu_ctx =
     \<lparr>gpregs = replicate 8 0, ctx_scr_el3 = 0, ctx_elr_el3 = 0, ctx_spsr_el3 = 0, ctx_sctlr_el1 = 0, ctx_actlr_el1 = 0, ctx_pmcr_el0 = 0\<rparr>\<rparr>"

definition sample_optee_ep :: entry_point_info_t where
  "sample_optee_ep = \<lparr>ep_attr = 0, ep_pc = 0xfe000000, ep_spsr = 0, ep_args = [0, 0, 0, 0, 0, 0, 0, 0]\<rparr>"

definition sample_bl31 :: bl31_world where
  "sample_bl31 = \<lparr>mmio = (\<lambda>_. 0), mmio_half = (\<lambda>_. 0), mmio_byte = (\<lambda>_. 0), device = (\<lambda>_ _. 0), poll_limit = 2,
     is_pcie1_power_down = False, gpc_saved_imrs = replicate 16 0, gpc_wake_irqs = replicate 4 0, imx_log = [],
     optee_vector_table = 0, opteed_rw = 0, opteed_sp_context = replicate 4 (sample_optee_context 0),
     secure_context = replicate 4 None, ns_scr_el3 = replicate 4 None, next_eret = replicate 4 None,
     bl31_intr_descs = replicate 3 \<lparr>intr_handler = None, intr_flags = 0, intr_scr_el3 = [0, 0]\<rparr>,
     bl32_init = False, bl32_ep_info = Some sample_optee_ep, el3_sp = (\<lambda>_. 0x918000), el3_scr = 0, el3_sctlr = 0,
     el1_actlr = 0, sp_entries = [], sp_run = sample_optee\<rparr>"

lemma sample_optee_answers: "optee_answers 0xfe001000 sample_optee"
  by (auto simp: optee_answers_def pm_vectors_def sample_optee_def vector_offset_def is_done_smc_def)

lemma sample_bl31_cold: "opteed_cold 0xfe001000 sample_optee_ep sample_bl31" "imx_ok sample_bl31"
  using sample_optee_answers
  by (auto simp: opteed_cold_def sample_bl31_def sample_optee_context_def sample_optee_ep_def sample_optee_def vector_offset_def
      intr_inv_def intr_view_def desc_ok_def get_interrupt_rm_flag_def lists3 imx_ok_def self_clearing_def intro!: exI [of _ "1"])

abbreviation sample_reach :: "bl31_world system \<Rightarrow> bool" where
  "sample_reach \<equiv> bl31_reachable True 8333333 0 (\<lambda>_ _. mret 0) (\<lambda>_ _ _ _. mret 0) []"

lemma sample_callees: "sip_callees_ok (\<lambda>_ _. mret 0) (\<lambda>_ _ _ _. mret 0)"
  by (simp add: sip_callees_ok_def preserves_mret)

text \<open>The sample system after its cold boot, and after its first core has turned on the second.\<close>

lemma sample_bl31_booted:
  obtains s where "sample_reach (s, boot_phases)" "psci_caps s = 0x47df"
    "aff_info_state (psci_svc_cpu_data s ! 1) = AFF_STATE_OFF"
proof -
  let ?e = "sample_env 0 :: bl31_world cpu_env"
  have e: "on_port (imx8mq_port True 8333333) ?e" "plat_my_core_pos ?e = 0"
    using on_coreD(1,3) [OF sample_env_port [THEN iffD2, of 0]] by simp_all
  obtain t w1 t2 w' w2 where run: "psci_setup ?e imx_plat_setup_psci_ops sample_args (zeroed_psci_state ?e imx_plat_psci_ops sample_bl31) = Ret 0 t"
    "opteed_setup True (regs ?e) (world t) = Ret 0 w1" "opteed_init True 0 ?e (t\<lparr>world := w1\<rparr>) = Ret 0xfe001000 t2"
    "imx_booted ?e imx_plat_psci_ops w' t"
    "t2 = t\<lparr>psci_spd_pm := Some (opteed_pm True 0),
      psci_caps := psci_setup_caps ?e (imx_plat_psci_ops :: bl31_world plat_psci_ops_t) OR (define_psci_cap 0xc4000007 OR define_psci_cap 0x84000006),
      world := w2\<rparr>"
    by (rule optee_boot_returns [OF e sample_boot(3) sample_bl31_cold(1)])
  then have "bl31_cold_boot True 8333333 0 (t2, boot_phases)"
    unfolding bl31_cold_boot_def using e sample_boot(3) sample_bl31_cold by blast
  moreover have "psci_setup_caps ?e (imx_plat_psci_ops :: bl31_world plat_psci_ops_t) OR (define_psci_cap 0xc4000007 OR define_psci_cap 0x84000006) = 0x47df"
    by code_simp
  ultimately show thesis
    using run(4,5) by (intro that [of t2] booted) (simp_all add: imx_booted_def)
qed

lemma sample_bl31_boot: obtains s where "sample_reach (s, boot_phases)"
  by (rule sample_bl31_booted)

lemma sample_bl31_second:
  obtains s where "sample_reach (s, boot_phases)" "aff_info_state (psci_svc_cpu_data s ! 1) = AFF_STATE_ON_PENDING"
proof -
  obtain s where s: "sample_reach (s, boot_phases)" "psci_caps s = 0x47df" "aff_info_state (psci_svc_cpu_data s ! 1) = AFF_STATE_OFF"
    by (rule sample_bl31_booted)
  let ?e = "sample_env 0 :: bl31_world cpu_env"
  let ?ep = "\<lparr>ep_attr = 1, ep_pc = 0x40200000, ep_spsr = 0x3c9, ep_args = [7, 0, 0, 0, 0, 0, 0, 0]\<rparr>"
  have e: "on_core (imx8mq_port True 8333333) ?e 0" by (simp add: sample_env_port)
  have ep: "psci_get_ns_ep_info ?e 0x40200000 7 = Inr ?ep"
    using sample_ep by (simp add: sample_core_def psci_get_ns_ep_info_def sample_env_def)
  have pos: "imx_plat_core_pos_by_mpidr 1 = int 1" by code_simp
  note sys = bl31_reachable_ok [OF s(1) sample_callees]
  note i = psci_invD [OF bl31_reachableD(1) [OF s(1) sample_callees]] and len = wf_lengths(1-3) [OF psci_invD(1) [OF bl31_reachableD(1) [OF s(1) sample_callees]]]
  have p: "imx_optee.plat_ok True 0 (sp_of s boot_phases) s" "psci_plat_pm_ops s = imx_plat_psci_ops"
    using sys by (simp_all add: imx_optee.sys_ok_def imx_optee.plat_ok_def)
  have fields: "plat_core_pos_by_mpidr ?e 1 = int 1" using pos by (simp add: sample_env_def)
  obtain s' where on: "psci_cpu_on_start ?e 1 ?ep s = Ret PSCI_E_SUCCESS s'" "aff_info_state (psci_svc_cpu_data s' ! 1) = AFF_STATE_ON_PENDING"
  proof (rule imx_optee.cpu_on_start_run [OF i(3) p(1) fields _ _ _ s(3), of ?ep])
    show "1 < length (psci_cpu_pd_nodes s)" "1 < length (psci_svc_cpu_data s)" "1 < length (psci_ns_context s)" using len by simp_all
  qed (use that len in \<open>auto simp: imx_cpu_on_succeeds svc_upd_def\<close>)
  have "psci_cpu_on ?e 1 0x40200000 7 s = Ret PSCI_E_SUCCESS s'"
    using on(1) by (simp add: cpu_on_valid [OF p(2) fields _ ep])
  moreover have "get_smc_cc 0xc4000003 = 1" "0x47df AND define_psci_cap 0xc4000003 \<noteq> 0" "\<not> is_caller_secure 1" by code_simp+
  ultimately have "psci_smc_handler ?e 0xc4000003 1 0x40200000 7 1 s = Ret 0 s'"
    by (simp add: psci_smc_handler_def s(2) mbind_def prog_simps psci_smc64_def ret_int_def)
  then have "psci_step (imx8mq_port True 8333333) (s, boot_phases) (s', boot_phases)"
    using e by (intro smc_return) (simp_all add: boot_phases_def sample_env_def)
  then show thesis using that [OF _ on(2)] stepped [OF s(1) psci] by blast
qed

end
