(* ===== verification/Bl31_Main.thy ===== *)
theory Bl31_Main
  imports Bl31_System
begin

text \<open>
  The services of the firmware behind its one entry for SMCs: the standard service
  (\<^verbatim>\<open>services/std_svc/std_svc_setup.c\<close>), the Arm architecture service
  (\<^verbatim>\<open>services/arm_arch_svc/arm_arch_svc_setup.c\<close>), the SiP service and the OP-TEE dispatcher, in the
  order in which the build links their descriptors, and the middle part of \<^verbatim>\<open>bl31_main()\<close>, which
  initialises them and OP-TEE. The theory shows that this initialisation returns and which service
  handles a call from then on.
\<close>

section \<open>The standard service\<close>

definition get_arm_std_svc_args :: "u64 \<Rightarrow> psci_lib_args_t" where
  "get_arm_std_svc_args bl31_warm_entrypoint =
     \<lparr>h_type = 6, h_version = 1, h_size = 16, h_attr = 0, mailbox_ep = bl31_warm_entrypoint\<rparr>"

definition std_svc_setup :: "bl31_world cpu_env \<Rightarrow> u64 \<Rightarrow> (bl31_world psci_state, int) prog" where
  "std_svc_setup e bl31_warm_entrypoint =
     mbind (psci_setup e imx_plat_setup_psci_ops (get_arm_std_svc_args bl31_warm_entrypoint)) (\<lambda>rc.
     mret (if rc \<noteq> PSCI_E_SUCCESS then 1 else 0))"

definition smc_uuid_word :: "u32 \<Rightarrow> u32 \<Rightarrow> u32 \<Rightarrow> u32 \<Rightarrow> u32" where
  "smc_uuid_word b0 b1 b2 b3 = b0 OR push_bit 8 b1 OR push_bit 16 b2 OR push_bit 24 b3"

definition arm_svc_uid :: "u64 list" where
  "arm_svc_uid = map ucast [smc_uuid_word 0x5b 0x90 0x8d 0x10, smc_uuid_word 0x63 0xf8 0xe8 0x47,
     smc_uuid_word 0xae 0x2d 0xc0 0xfb, smc_uuid_word 0x56 0x41 0xf6 0xe2]"

definition std_svc_smc_handler :: "bl31_world cpu_env \<Rightarrow> bl31_world psci_state rt_svc_handle_t" where
  "std_svc_smc_handler e smc_fid x1 x2 x3 x4 handle flags =
     (if is_psci_fid smc_fid then mbind (psci_smc_handler e smc_fid x1 x2 x3 flags) (\<lambda>ret. mret (To_caller [ret]))
      else if smc_fid = 0x8400ff00 then mret (To_caller [if ENABLE_PSCI_STAT e then 22 else 18])
      else if smc_fid = 0x8400ff01 then mret (To_caller arm_svc_uid)
      else if smc_fid = 0x8400ff03 then mret (To_caller [0, 1])
      else mret (To_caller [SMC_UNK]))"

section \<open>The Arm architecture service\<close>

text \<open>
  \<open>applies\<close> is what \<^verbatim>\<open>check_wa_cve_2017_5715()\<close> reports for the executing core: whether the branch
  predictor workaround applies to it.
\<close>

definition smccc_arch_features :: "bool \<Rightarrow> u64 \<Rightarrow> int" where
  "smccc_arch_features applies arg =
     (if arg = 0x80000000 \<or> arg = 0x80000001 then 0
      else if arg = 0x80008000 then (if applies then 0 else 1)
      else if arg = 0x80007FFF then -2
      else -1)"

definition arm_arch_svc_smc_handler :: "bool \<Rightarrow> 's rt_svc_handle_t" where
  "arm_arch_svc_smc_handler applies smc_fid x1 x2 x3 x4 handle flags =
     (if smc_fid = 0x80000000 then mret (To_caller [0x10001])
      else if smc_fid = 0x80000001 then mret (To_caller [word_of_int (smccc_arch_features applies x1)])
      else if smc_fid = 0x80008000 \<or> smc_fid = 0x80007FFF then mret (To_caller [])
      else mret (To_caller [SMC_UNK]))"

section \<open>The descriptors\<close>

record bl31_config =
  cfg_assertions :: bool
  cfg_resident_cpu :: u64
  cfg_warm_entrypoint :: u64
  cfg_version_string :: string
  cfg_rom :: "bl31_world rom_call"
  cfg_dvfs :: "bl31_world dvfs_handler"
  cfg_wa_applies :: "bl31_world cpu_env \<Rightarrow> bool"

definition imx_svc :: "bl31_config \<Rightarrow> bl31_world psci_state rt_svc_desc_t" where
  "imx_svc k = \<lparr>start_oen = 2, end_oen = 2, call_type = 1, svc_init = Some (mret 0),
     svc_handle = Some (\<lambda>smc_fid x1 x2 x3 x4 handle flags.
       mbind (lift_world (imx_svc_smc_handler (cfg_rom k) (cfg_dvfs k) (cfg_version_string k) smc_fid x1 x2 x3 x4)) (\<lambda>v.
       mret (To_caller [v])))\<rparr>"

definition arm_arch_svc :: "bl31_config \<Rightarrow> bl31_world cpu_env \<Rightarrow> bl31_world psci_state rt_svc_desc_t" where
  "arm_arch_svc k e = \<lparr>start_oen = 0, end_oen = 0, call_type = 1, svc_init = None,
     svc_handle = Some (arm_arch_svc_smc_handler (cfg_wa_applies k e))\<rparr>"

definition std_svc :: "bl31_config \<Rightarrow> bl31_world cpu_env \<Rightarrow> bl31_world psci_state rt_svc_desc_t" where
  "std_svc k e = \<lparr>start_oen = 4, end_oen = 4, call_type = 1, svc_init = Some (std_svc_setup e (cfg_warm_entrypoint k)),
     svc_handle = Some (std_svc_smc_handler e)\<rparr>"

definition opteed_fast :: "bl31_config \<Rightarrow> bl31_world cpu_env \<Rightarrow> bl31_world psci_state rt_svc_desc_t" where
  "opteed_fast k e = \<lparr>start_oen = 50, end_oen = 63, call_type = 1,
     svc_init = Some (lift_world (opteed_setup (cfg_assertions k) (regs e))),
     svc_handle = Some (opteed_smc_handler (cfg_assertions k) (cfg_resident_cpu k) e)\<rparr>"

definition opteed_std :: "bl31_config \<Rightarrow> bl31_world cpu_env \<Rightarrow> bl31_world psci_state rt_svc_desc_t" where
  "opteed_std k e = \<lparr>start_oen = 50, end_oen = 63, call_type = 0, svc_init = None,
     svc_handle = Some (opteed_smc_handler (cfg_assertions k) (cfg_resident_cpu k) e)\<rparr>"

text \<open>The section \<^verbatim>\<open>rt_svc_descs\<close>: the platform first, then BL31, then the dispatcher.\<close>

definition rt_svc_descs :: "bl31_config \<Rightarrow> bl31_world cpu_env \<Rightarrow> bl31_world psci_state rt_svc_desc_t list" where
  "rt_svc_descs k e = [imx_svc k, arm_arch_svc k e, std_svc k e, opteed_fast k e, opteed_std k e]"

lemmas svc_defs = rt_svc_descs_def imx_svc_def arm_arch_svc_def std_svc_def opteed_fast_def opteed_std_def

section \<open>\<^verbatim>\<open>bl31_main()\<close>\<close>

text \<open>
  The part of \<^verbatim>\<open>bl31_main()\<close> between the set-up of the platform and the preparation of the first
  exception return: the runtime services, then OP-TEE when the dispatcher has asked for it. What
  follows it, \<^verbatim>\<open>bl31_prepare_next_image_entry()\<close> and \<^verbatim>\<open>bl31_plat_runtime_setup()\<close>, is not modelled.
\<close>

definition bl31_main_services :: "bl31_config \<Rightarrow> bl31_world cpu_env \<Rightarrow> (bl31_world psci_state rt_state, unit) prog" where
  "bl31_main_services k e =
     mbind (runtime_svc_init (cfg_assertions k) (rt_svc_descs k e)) (\<lambda>_.
     mbind (mget (\<lambda>s. bl32_init (world (rt_services s)))) (\<lambda>set.
     mwhen set (mbind (rt_lift (opteed_init (cfg_assertions k) (cfg_resident_cpu k) e)) (\<lambda>_. mret ()))))"

section \<open>The initialisation returns\<close>

lemma std_svc_args: "bl31_warm_entrypoint \<noteq> 0 \<Longrightarrow> verify_psci_lib_args_v1 (get_arm_std_svc_args bl31_warm_entrypoint)"
  by (simp add: verify_psci_lib_args_v1_def get_arm_std_svc_args_def)

lemma descs_valid: "\<forall>d \<in> set (rt_svc_descs k e). validate_rt_svc_desc d = 0"
  by (simp add: svc_defs validate_rt_svc_desc_def)

lemma route_values:
  "desc_start (imx_svc k) = 66" "desc_end (imx_svc k) = 66" "desc_start (arm_arch_svc k e) = 64" "desc_end (arm_arch_svc k e) = 64"
  "desc_start (std_svc k e) = 68" "desc_end (std_svc k e) = 68" "desc_start (opteed_fast k e) = 114" "desc_end (opteed_fast k e) = 127"
  "desc_start (opteed_std k e) = 50" "desc_end (opteed_std k e) = 63"
  by (simp_all add: desc_start_def desc_end_def svc_defs get_unique_oen_def)

lemma route_bl31:
  "rt_route (rt_svc_descs k e) (\<lambda>_. True) idx =
     (if 50 \<le> idx \<and> idx \<le> 63 then Some 4 else if 114 \<le> idx \<and> idx \<le> 127 then Some 3 else if 68 \<le> idx \<and> idx \<le> 68 then Some 2
      else if 64 \<le> idx \<and> idx \<le> 64 then Some 1 else if 66 \<le> idx \<and> idx \<le> 66 then Some 0 else None)"
proof -
  have "rev [0..<length (rt_svc_descs k e)] = [4, 3, 2, 1, 0]" by (simp add: rt_svc_descs_def upt_rec)
  moreover have "rt_svc_descs k e ! 4 = opteed_std k e" "rt_svc_descs k e ! 3 = opteed_fast k e" "rt_svc_descs k e ! 2 = std_svc k e"
    "rt_svc_descs k e ! 1 = arm_arch_svc k e" "rt_svc_descs k e ! 0 = imx_svc k"
    by (simp_all add: rt_svc_descs_def)
  ultimately show ?thesis by (simp only: rt_route_def find.simps route_values simp_thms)
qed

text \<open>The table is in place: the same one for every core.\<close>

definition bl31_table :: "'s rt_state \<Rightarrow> bool" where
  "bl31_table t \<longleftrightarrow> length (rt_svc_descs_indices t) = MAX_RT_SVCS \<and>
     (\<forall>idx < MAX_RT_SVCS. rt_svc_descs_indices t ! idx =
        rt_entry (if 50 \<le> idx \<and> idx \<le> 63 then Some 4 else if 114 \<le> idx \<and> idx \<le> 127 then Some 3
          else if 68 \<le> idx \<and> idx \<le> 68 then Some 2 else if 64 \<le> idx \<and> idx \<le> 64 then Some 1
          else if 66 \<le> idx \<and> idx \<le> 66 then Some 0 else None))"

lemma bl31_table_ok: "rt_table_ok (rt_svc_descs k e) (\<lambda>_. True) t \<longleftrightarrow> bl31_table t"
  unfolding rt_table_ok_def bl31_table_def route_bl31 ..

text \<open>The service that handles a call.\<close>

definition bl31_service :: "bl31_config \<Rightarrow> bl31_world cpu_env \<Rightarrow> bl31_world psci_state rt_svc_handle_t" where
  "bl31_service k e fid x1 x2 x3 x4 handle flags =
     (let oen = GET_SMC_OEN fid; fast = (GET_SMC_TYPE fid = 1)
      in if 50 \<le> oen then opteed_smc_handler (cfg_assertions k) (cfg_resident_cpu k) e fid x1 x2 x3 x4 handle flags
         else if fast \<and> oen = 4 then std_svc_smc_handler e fid x1 x2 x3 x4 handle flags
         else if fast \<and> oen = 2 then
           mbind (lift_world (imx_svc_smc_handler (cfg_rom k) (cfg_dvfs k) (cfg_version_string k) fid x1 x2 x3 x4)) (\<lambda>v.
           mret (To_caller [v]))
         else if fast \<and> oen = 0 then arm_arch_svc_smc_handler (cfg_wa_applies k e) fid x1 x2 x3 x4 handle flags
         else mret (To_caller [SMC_UNK]))"

lemma bl31_call:
  assumes "bl31_table t"
  shows "handle_runtime_svc dbg (rt_svc_descs k e) fid x1 x2 x3 x4 handle flags t =
    rt_lift (bl31_service k e fid x1 x2 x3 x4 handle flags) t"
proof -
  have n: "length (rt_svc_descs k e) < MAX_RT_SVCS" by (simp add: rt_svc_descs_def)
  have o: "GET_SMC_OEN fid < 64" "GET_SMC_TYPE fid = 0 \<or> GET_SMC_TYPE fid = 1" by (rule smc_fid_parts)+
  obtain n where oen: "GET_SMC_OEN fid = of_nat n" "n < 64" 
    by (rule that [of "unat (GET_SMC_OEN fid)"]) (use o(1) in \<open>simp_all add: word_less_nat_alt\<close>)
  have u: "unat (of_nat n :: u32) = n" "\<And>j. j < 64 \<Longrightarrow> (of_nat n :: u32) = of_nat j \<longleftrightarrow> n = j"
    using oen(2) by (simp_all add: unat_of_nat word_unat_eq_iff)
  have small: "(50 \<le> (of_nat n :: u32)) = (50 \<le> n)" "((of_nat n :: u32) = 4) = (n = 4)" "((of_nat n :: u32) = 2) = (n = 2)"
    "((of_nat n :: u32) = 0) = (n = 0)"
    using u(1) u(2) [of 4] u(2) [of 2] u(2) [of 0] by (simp_all add: word_le_nat_alt)
  consider "50 \<le> n" | "n < 50" "n = 4" | "n < 50" "n = 2" | "n < 50" "n = 0" | "n < 50" "n \<notin> {0, 2, 4}" by (cases "50 \<le> n") auto
  then show ?thesis
    unfolding handle_runtime_svc_routes [OF assms [folded bl31_table_ok [of k e]] n] route_bl31 smc_index bl31_service_def Let_def oen(1) small u(1)
    using o(2) oen(2) by cases (auto simp: svc_defs rt_lift_def prog_simps)
qed


lemma bl31_inits:
  assumes "psci_setup e imx_plat_setup_psci_ops (get_arm_std_svc_args (cfg_warm_entrypoint k)) s = Ret 0 t"
    "opteed_setup (cfg_assertions k) (regs e) (world t) = Ret 0 w1"
  shows "rt_inits (rt_svc_descs k e) s = Ret [0, 0, 0, 0, 0] (t\<lparr>world := w1\<rparr>)"
  using assms by (simp add: svc_defs rt_init_def std_svc_setup_def lift_world_def mbind_def prog_simps)

text \<open>
  C4. The start of the services: from the state the platform set-up leaves, the part of \<^verbatim>\<open>bl31_main()\<close>
  that initialises the runtime services and OP-TEE comes to its end, up to the preparation of the
  first exception return; the system is then in one of the states of the step relation, and every
  call on every core is handled by the service that owns it: by the dispatcher
  for the trusted operating system, by PSCI, the SiP service or the architecture service for fast
  calls to their entities, and by SMC\_UNK otherwise.
\<close>

theorem bl31_main_services_returns:
  assumes e: "on_port (imx8mq_port (cfg_assertions k) fq) e" "plat_my_core_pos e = 0" and mailbox: "cfg_warm_entrypoint k \<noteq> 0"
    and w: "imx_ok w" "opteed_cold vt ep w"
  shows "\<exists>t. bl31_main_services k e \<lparr>rt_svc_descs_indices = ix, rt_services = zeroed_psci_state e ops0 w\<rparr> = Ret () t \<and>
     bl31_reachable (cfg_assertions k) fq (cfg_resident_cpu k) (cfg_rom k) (cfg_dvfs k) (cfg_version_string k)
       (rt_services t, boot_phases) \<and> bl31_table t \<and>
     (\<forall>e' fid x1 x2 x3 x4 handle flags.
        handle_runtime_svc (cfg_assertions k) (rt_svc_descs k e') fid x1 x2 x3 x4 handle flags t =
        rt_lift (bl31_service k e' fid x1 x2 x3 x4 handle flags) t)"
proof -
  let ?b = "cfg_assertions k" and ?res = "cfg_resident_cpu k"
  let ?args = "get_arm_std_svc_args (cfg_warm_entrypoint k)"
  let ?s = "\<lparr>rt_svc_descs_indices = ix, rt_services = zeroed_psci_state e ops0 w\<rparr>"
  note args = std_svc_args [OF mailbox]
  obtain t w1 t2 w' w2 where run: "psci_setup e imx_plat_setup_psci_ops ?args (zeroed_psci_state e ops0 w) = Ret 0 t"
    "opteed_setup ?b (regs e) (world t) = Ret 0 w1" "opteed_init ?b ?res e (t\<lparr>world := w1\<rparr>) = Ret vt t2"
    "imx_booted e imx_plat_psci_ops w' t"
    by (rule optee_boot_returns [OF e args w(2)])
  have cold: "bl31_cold_boot ?b fq ?res (t2, boot_phases)"
    unfolding bl31_cold_boot_def using e args w run(1-3) by blast
  have init: "bl32_init w1"
  proof -
    obtain t' where "psci_setup e imx_plat_setup_psci_ops ?args (zeroed_psci_state e ops0 w) = Ret 0 t'"
      "imx_booted e imx_plat_psci_ops (w\<lparr>imx_log := imx_log w @ [Imx_mailbox_init (mailbox_ep ?args)]\<rparr>) t'"
      by (rule cold_boot_run [OF e args])
    then have cold: "opteed_cold vt ep (world t)" using run(1) w(2) by (simp add: imx_booted_def opteed_cold_log)
    have "plat_my_core_pos (regs e) = 0" using e(2) by (simp add: cpu_regs.truncate_def)
    then show ?thesis by (rule opteed_setup_run [OF cold, where dbg = ?b]) (use run(2) in auto)
  qed
  obtain u where u: "runtime_svc_init ?b (rt_svc_descs k e) ?s = Ret () u" "rt_table_ok (rt_svc_descs k e) (rt_accepted [0, 0, 0, 0, 0]) u"
    "rt_services u = t\<lparr>world := w1\<rparr>"
    using runtime_svc_init_table [OF descs_valid, of k e ?s] bl31_inits [OF run(1,2)] by (auto simp: rt_svc_descs_def)
  have "rt_table_ok (rt_svc_descs k e) (rt_accepted [0, 0, 0, 0, 0]) u = rt_table_ok (rt_svc_descs k e) (\<lambda>_. True) u"
  proof -
    have "rt_accepted [0, 0, 0, 0, 0] i = True" if "i < length (rt_svc_descs k e)" for i
      using that by (auto simp: rt_accepted_def rt_svc_descs_def less_Suc_eq)
    then have "rt_route (rt_svc_descs k e) (rt_accepted [0, 0, 0, 0, 0]) idx = rt_route (rt_svc_descs k e) (\<lambda>_. True) idx" for idx
      by (rule rt_route_agree)
    then show ?thesis unfolding rt_table_ok_def by presburger
  qed
  then have table: "bl31_table (u\<lparr>rt_services := t2\<rparr>)" using u(2) bl31_table_ok by (simp add: bl31_table_def)
  have "bl31_main_services k e ?s = Ret () (u\<lparr>rt_services := t2\<rparr>)"
    using u(1,3) run(3) init by (simp add: bl31_main_services_def mbind_def mwhen_def rt_lift_def prog_simps)
  then show ?thesis using booted [OF cold] table bl31_call [OF table] by auto
qed

definition sample_config :: bl31_config where
  "sample_config = \<lparr>cfg_assertions = True, cfg_resident_cpu = 0, cfg_warm_entrypoint = 0x910000, cfg_version_string = [],
     cfg_rom = (\<lambda>_ _. mret 0), cfg_dvfs = (\<lambda>_ _ _ _. mret 0), cfg_wa_applies = (\<lambda>_. False)\<rparr>"

lemma sample_boot_core: "on_core (imx8mq_port True 8333333) (sample_env 0 :: bl31_world cpu_env) 0"
  by (simp add: sample_env_port)

theorem bl31_main_services_returns_witness:
  "\<exists>t. bl31_main_services sample_config (sample_env 0)
       \<lparr>rt_svc_descs_indices = [], rt_services = zeroed_psci_state (sample_env 0 :: bl31_world cpu_env) imx_plat_psci_ops sample_bl31\<rparr> = Ret () t \<and>
     sample_reach (rt_services t, boot_phases) \<and>
     handle_runtime_svc True (rt_svc_descs sample_config (sample_env 3)) 0x80000000 0 0 0 0 [] 1 t = Ret (To_caller [0x10001]) t"
proof -
  have oen: "\<not> 50 \<le> GET_SMC_OEN 0x80000000" "GET_SMC_OEN 0x80000000 = 0" "GET_SMC_TYPE 0x80000000 = 1" by code_simp+
  note o = on_coreD [OF sample_boot_core]
  have "cfg_warm_entrypoint sample_config \<noteq> 0" "cfg_assertions sample_config = True" by (simp_all add: sample_config_def)
  with bl31_main_services_returns [of sample_config 8333333 "sample_env 0" sample_bl31 "0xfe001000" sample_optee_ep "[]" imx_plat_psci_ops] o sample_bl31_cold
  show ?thesis by (auto simp: sample_config_def bl31_service_def oen arm_arch_svc_smc_handler_def rt_lift_def prog_simps)
qed

end
