(* ===== verification/Bakery_Lock.thy ===== *)
theory Bakery_Lock
  imports Prelude
begin

text \<open>
  The bakery lock of \<^verbatim>\<open>lib/locks/bakery/bakery_lock_normal.c\<close>, which protects the power domains of
  PSCI. The algorithm is a step relation: one step of a core makes at most one access to the lock
  data of another core, so that the steps of the cores interleave the way single-copy atomic
  accesses do. Cache maintenance and barriers make every store visible before the next access of
  the same core; the steps take that as given.
  A core that waits is stepped again and again: \<^verbatim>\<open>wfe()\<close> only skips such steps until an event, and
  every release of the lock ends with \<^verbatim>\<open>sev()\<close>, so that no wake-up is missed.

  The lock excludes every second core and is never stuck, as long as the 15-bit tickets last; when
  they run out two cores get the lock.
\<close>

section \<open>Lock data\<close>

type_synonym u16 = "16 word"

definition PRIORITY :: "u32 \<Rightarrow> nat \<Rightarrow> u32" where
  "PRIORITY t pos = push_bit 8 t OR of_nat pos"

definition bakery_is_choosing :: "u32 \<Rightarrow> bool" where
  "bakery_is_choosing info \<longleftrightarrow> info AND 0x1 \<noteq> 0"

definition bakery_ticket_number :: "u32 \<Rightarrow> u32" where
  "bakery_ticket_number info = drop_bit 1 info AND 0x7FFF"

definition make_bakery_data :: "u32 \<Rightarrow> u32 \<Rightarrow> u16" where
  "make_bakery_data choosing number = ucast (((choosing AND 0x1) OR push_bit 1 number) AND 0xFFFF)"

text \<open>
  Where a core is in \<^verbatim>\<open>bakery_lock_get()\<close>, with its local variables: outside, in the loop of
  \<^verbatim>\<open>bakery_get_ticket()\<close> (\<open>my_ticket\<close>, \<open>they\<close>), at the next contender of the second loop
  (\<open>my_ticket\<close>, \<open>they\<close>), waiting for the ticket of a contender to change (\<open>my_ticket\<close>, \<open>they\<close>,
  \<open>their_ticket\<close>), or inside, with the lock.
\<close>

datatype bakery_pc = Outside | Choosing u32 nat | Comparing u32 nat | Awaiting u32 nat u32 | Inside

record bakery_state =
  lock_data :: "nat \<Rightarrow> u16"
  bakery_pc :: "nat \<Rightarrow> bakery_pc"

abbreviation bakery_info :: "bakery_state \<Rightarrow> nat \<Rightarrow> u32" where
  "bakery_info s c \<equiv> ucast (lock_data s c)"

definition is_lock_acquired :: "u32 \<Rightarrow> bool" where
  "is_lock_acquired my_bakery_info \<longleftrightarrow> bakery_ticket_number my_bakery_info \<noteq> 0"

definition bakery_at :: "nat \<Rightarrow> bakery_pc \<Rightarrow> (bakery_state, unit) prog" where
  "bakery_at me p = mmodify (\<lambda>s. s\<lparr>bakery_pc := (bakery_pc s)(me := p)\<rparr>)"

definition set_lock_data :: "nat \<Rightarrow> u16 \<Rightarrow> (bakery_state, unit) prog" where
  "set_lock_data me v = mmodify (\<lambda>s. s\<lparr>lock_data := (lock_data s)(me := v)\<rparr>)"

section \<open>Steps of a core\<close>

text \<open>The entry of \<^verbatim>\<open>bakery_get_ticket()\<close>: the core announces that it is choosing.\<close>

definition bakery_enter :: "bool \<Rightarrow> nat \<Rightarrow> (bakery_state, unit) prog" where
  "bakery_enter dbg me =
     mbind (mget (\<lambda>s. bakery_info s me)) (\<lambda>mine.
     mbind (dbg_assert dbg (\<not> is_lock_acquired mine)) (\<lambda>_.
     mbind (set_lock_data me (make_bakery_data 0x1 0)) (\<lambda>_. bakery_at me (Choosing 0 0))))"

text \<open>An iteration of its loop, and the ticket when the loop is over.\<close>

definition bakery_get_ticket :: "nat \<Rightarrow> nat \<Rightarrow> u32 \<Rightarrow> nat \<Rightarrow> (bakery_state, unit) prog" where
  "bakery_get_ticket n me my_ticket they =
     (if they < n then
        if me = they then bakery_at me (Choosing my_ticket (they + 1))
        else mbind (mget (\<lambda>s. bakery_info s they)) (\<lambda>theirs.
          let their_ticket = bakery_ticket_number theirs in
          bakery_at me (Choosing (if their_ticket > my_ticket then their_ticket else my_ticket) (they + 1)))
      else mbind (set_lock_data me (make_bakery_data 0x0 (my_ticket + 1))) (\<lambda>_. bakery_at me (Comparing (my_ticket + 1) 0)))"

text \<open>
  An iteration of the loop of \<^verbatim>\<open>bakery_lock_get()\<close>: nothing moves while the other core chooses, and
  a core with a better ticket is waited for.
\<close>

definition bakery_compare :: "nat \<Rightarrow> nat \<Rightarrow> u32 \<Rightarrow> nat \<Rightarrow> (bakery_state, unit) prog" where
  "bakery_compare n me my_ticket they =
     (if they < n then
        if me = they then bakery_at me (Comparing my_ticket (they + 1))
        else mbind (mget (\<lambda>s. bakery_info s they)) (\<lambda>their_bakery_data.
          if bakery_is_choosing their_bakery_data then mret ()
          else let their_ticket = bakery_ticket_number their_bakery_data in
            if their_ticket \<noteq> 0 \<and> PRIORITY their_ticket they < PRIORITY my_ticket me
            then bakery_at me (Awaiting my_ticket they their_ticket)
            else bakery_at me (Comparing my_ticket (they + 1)))
      else bakery_at me Inside)"

definition bakery_await :: "nat \<Rightarrow> u32 \<Rightarrow> nat \<Rightarrow> u32 \<Rightarrow> (bakery_state, unit) prog" where
  "bakery_await me my_ticket they their_ticket =
     mbind (mget (\<lambda>s. bakery_info s they)) (\<lambda>theirs.
       if their_ticket = bakery_ticket_number theirs then mret () else bakery_at me (Comparing my_ticket (they + 1)))"

definition bakery_lock_release :: "bool \<Rightarrow> nat \<Rightarrow> (bakery_state, unit) prog" where
  "bakery_lock_release dbg me =
     mbind (mget (\<lambda>s. bakery_info s me)) (\<lambda>mine.
     mbind (dbg_assert dbg (is_lock_acquired mine)) (\<lambda>_.
     mbind (set_lock_data me 0) (\<lambda>_. bakery_at me Outside)))"

definition bakery_lock_get :: "bool \<Rightarrow> nat \<Rightarrow> nat \<Rightarrow> (bakery_state, unit) prog" where
  "bakery_lock_get dbg n me s =
     (case bakery_pc s me of
        Outside \<Rightarrow> bakery_enter dbg me s
      | Choosing my_ticket they \<Rightarrow> bakery_get_ticket n me my_ticket they s
      | Comparing my_ticket they \<Rightarrow> bakery_compare n me my_ticket they s
      | Awaiting my_ticket they their_ticket \<Rightarrow> bakery_await me my_ticket they their_ticket s
      | Inside \<Rightarrow> mret () s)"

text \<open>A core outside asks for the lock, a core inside gives it back.\<close>

definition bakery_step :: "bool \<Rightarrow> nat \<Rightarrow> nat \<Rightarrow> (bakery_state, unit) prog" where
  "bakery_step dbg n me s =
     (if bakery_pc s me = Inside then bakery_lock_release dbg me s else bakery_lock_get dbg n me s)"

lemmas bakery_step_defs = bakery_step_def bakery_lock_get_def bakery_enter_def bakery_get_ticket_def bakery_compare_def
  bakery_await_def bakery_lock_release_def bakery_at_def set_lock_data_def

text \<open>
  The states that the cores reach by any interleaving, as long as no ticket above \<open>lim\<close> has been
  drawn; for \<open>lim = 0x7fff\<close> this is every interleaving.
\<close>

definition bakery_free :: bakery_state where
  "bakery_free = \<lparr>lock_data = (\<lambda>_. 0), bakery_pc = (\<lambda>_. Outside)\<rparr>"

inductive bakery_reachable :: "bool \<Rightarrow> nat \<Rightarrow> u32 \<Rightarrow> bakery_state \<Rightarrow> bool" for dbg n lim where
  free: "bakery_reachable dbg n lim bakery_free"
| step: "bakery_reachable dbg n lim s \<Longrightarrow> me < n \<Longrightarrow> \<forall>c < n. bakery_ticket_number (bakery_info s c) \<le> lim \<Longrightarrow>
    bakery_step dbg n me s = Ret () s' \<Longrightarrow> bakery_reachable dbg n lim s'"

section \<open>Lock data as words\<close>

abbreviation ticket :: "bakery_state \<Rightarrow> nat \<Rightarrow> u32" where
  "ticket s c \<equiv> bakery_ticket_number (bakery_info s c)"

abbreviation choosing :: "bakery_state \<Rightarrow> nat \<Rightarrow> bool" where
  "choosing s c \<equiv> bakery_is_choosing (bakery_info s c)"

lemma ticket_le: "bakery_ticket_number x \<le> 0x7fff"
  unfolding bakery_ticket_number_def by (rule word_and_le1)

lemma choosing_bit: "bakery_is_choosing x \<longleftrightarrow> bit x 0"
  by (simp add: bakery_is_choosing_def and_one_eq bit_0 odd_iff_mod_2_eq_one)

lemma choosing_data [simp]:
  "bakery_ticket_number (ucast (make_bakery_data 1 0)) = 0" "bakery_is_choosing (ucast (make_bakery_data 1 0))"
  "bakery_ticket_number 0 = 0" "\<not> bakery_is_choosing 0"
  by (simp_all add: bakery_ticket_number_def make_bakery_data_def bakery_is_choosing_def)

lemma chosen_data:
  "\<not> bakery_is_choosing (ucast (make_bakery_data 0 t))"
  "bakery_ticket_number (ucast (make_bakery_data 0 t)) = t AND 0x7fff"
proof -
  have masks: "(0x7fff :: u32) = mask 15" "(0xffff :: u32) = mask 16" by (simp_all add: mask_eq_exp_minus_1)
  show "\<not> bakery_is_choosing (ucast (make_bakery_data 0 t))"
    unfolding make_bakery_data_def choosing_bit by (simp add: bit_simps) (simp add: bit_0)
  show "bakery_ticket_number (ucast (make_bakery_data 0 t)) = t AND 0x7fff"
    unfolding make_bakery_data_def bakery_ticket_number_def masks
    by (rule bit_word_eqI) (auto simp: bit_simps bit_double_iff mult.commute [of t 2])
qed

lemma chosen_ticket [simp]: "t \<le> 0x7fff \<Longrightarrow> bakery_ticket_number (ucast (make_bakery_data 0 t)) = t"
proof -
  assume "t \<le> 0x7fff"
  then have "unat t < 2 ^ 15" by (simp add: word_le_nat_alt)
  then have "take_bit 15 t = t" by (simp add: word_unat_eq_iff unsigned_take_bit_eq take_bit_nat_eq_self)
  then show ?thesis by (simp add: chosen_data take_bit_eq_mask mask_eq_exp_minus_1)
qed

lemma PRIORITY_less:
  assumes "t \<le> 0x7fff" "t' \<le> 0x7fff" "i < 256" "j < 256"
  shows "PRIORITY t i < PRIORITY t' j \<longleftrightarrow> t < t' \<or> t = t' \<and> i < j"
proof -
  have val: "unat (PRIORITY u k) = unat u * 256 + k" if "u \<le> 0x7fff" "k < 256" for u k
  proof -
    have "PRIORITY u k = push_bit 8 u + of_nat k"
      unfolding PRIORITY_def
    proof (rule disjunctive_add [symmetric])
      have "take_bit 8 k = k" using that(2) by (simp add: take_bit_nat_eq_self)
      then have "bit k n \<Longrightarrow> n < 8" for n by (metis bit_take_bit_iff)
      then show "\<not> bit (push_bit 8 u) n \<or> \<not> bit (of_nat k :: u32) n" for n by (fastforce simp: bit_simps)
    qed
    moreover have "unat u \<le> 0x7fff" using that by (simp add: word_le_nat_alt)
    ultimately show ?thesis using that(2) by (simp add: unat_word_ariths push_bit_eq_mult unat_of_nat)
  qed
  show ?thesis using assms by (simp add: word_less_nat_alt val word_unat_eq_iff) linarith
qed

section \<open>The invariant\<close>

text \<open>
  What the place of a core says of its lock data.
\<close>

definition bakery_core_ok :: "nat \<Rightarrow> u32 \<Rightarrow> bakery_state \<Rightarrow> nat \<Rightarrow> bool" where
  "bakery_core_ok n lim s c \<longleftrightarrow> ticket s c \<le> lim + 1 \<and>
     (case bakery_pc s c of
        Outside \<Rightarrow> ticket s c = 0 \<and> \<not> choosing s c
      | Choosing t k \<Rightarrow> ticket s c = 0 \<and> choosing s c \<and> t \<le> lim \<and> k \<le> n
      | Comparing t k \<Rightarrow> ticket s c = t \<and> t \<noteq> 0 \<and> \<not> choosing s c \<and> k \<le> n
      | Awaiting t k tk \<Rightarrow> ticket s c = t \<and> t \<noteq> 0 \<and> \<not> choosing s c \<and> k < n \<and> k \<noteq> c \<and> tk \<noteq> 0 \<and>
          (tk < t \<or> tk = t \<and> k < c)
      | Inside \<Rightarrow> ticket s c \<noteq> 0 \<and> \<not> choosing s c)"

text \<open>
  Core \<open>i\<close> goes before core \<open>j\<close>: \<open>j\<close> has no ticket, and if it is choosing one it has still to look
  at \<open>i\<close> or has seen its ticket; or \<open>j\<close> has a later one.
\<close>

definition goes_before :: "bakery_state \<Rightarrow> nat \<Rightarrow> nat \<Rightarrow> bool" where
  "goes_before s i j \<longleftrightarrow>
     (if ticket s j = 0 then (case bakery_pc s j of Choosing t k \<Rightarrow> k \<le> i \<or> ticket s i \<le> t | _ \<Rightarrow> True)
      else ticket s i < ticket s j \<or> ticket s i = ticket s j \<and> i < j)"

text \<open>What a core has established about the cores its second loop has passed.\<close>

definition bakery_order_ok :: "bakery_state \<Rightarrow> nat \<Rightarrow> nat \<Rightarrow> bool" where
  "bakery_order_ok s i j \<longleftrightarrow>
     (case bakery_pc s i of
        Comparing t k \<Rightarrow> j < k \<longrightarrow> goes_before s i j
      | Awaiting t k tk \<Rightarrow> (j < k \<longrightarrow> goes_before s i j) \<and>
          (j = k \<longrightarrow> goes_before s i j \<or> ticket s j = tk)
      | Inside \<Rightarrow> goes_before s i j
      | _ \<Rightarrow> True)"

definition bakery_inv :: "nat \<Rightarrow> u32 \<Rightarrow> bakery_state \<Rightarrow> bool" where
  "bakery_inv n lim s \<longleftrightarrow> (\<forall>c < n. bakery_core_ok n lim s c) \<and> (\<forall>i < n. \<forall>j < n. i \<noteq> j \<longrightarrow> bakery_order_ok s i j)"

lemma bakery_free_inv: "bakery_inv n lim bakery_free"
  by (simp add: bakery_inv_def bakery_core_ok_def bakery_order_ok_def bakery_free_def)

lemma goes_before_cong:
  "ticket s' i = ticket s i \<Longrightarrow> ticket s' j = ticket s j \<Longrightarrow> bakery_pc s' j = bakery_pc s j \<Longrightarrow> goes_before s' i j = goes_before s i j"
  by (simp add: goes_before_def split: bakery_pc.splits)

text \<open>A step of the core \<open>me\<close> keeps the invariant when it keeps the place of the others before it.\<close>

lemma bakery_inv_step:
  assumes inv: "bakery_inv n lim s" and me: "me < n"
    and same: "\<And>c. c \<noteq> me \<Longrightarrow> lock_data s' c = lock_data s c" "\<And>c. c \<noteq> me \<Longrightarrow> bakery_pc s' c = bakery_pc s c"
    and core: "bakery_core_ok n lim s' me"
    and order: "\<And>j. j < n \<Longrightarrow> j \<noteq> me \<Longrightarrow> bakery_order_ok s' me j"
    and before: "\<And>i. i < n \<Longrightarrow> i \<noteq> me \<Longrightarrow> goes_before s i me \<Longrightarrow> goes_before s' i me"
    and ticket: "\<And>i. i < n \<Longrightarrow> i \<noteq> me \<Longrightarrow> ticket s me \<noteq> 0 \<Longrightarrow> ticket s' me = ticket s me \<or> goes_before s' i me"
  shows "bakery_inv n lim s'"
proof -
  have bakery_core: "bakery_core_ok n lim s c" if "c < n" for c using inv that by (simp add: bakery_inv_def)
  have "bakery_core_ok n lim s' c" if "c < n" for c
  proof (cases "c = me")
    case False
    show ?thesis using bakery_core [OF that] unfolding bakery_core_ok_def same(1) [OF False] same(2) [OF False] .
  qed (use core in simp)
  moreover have "bakery_order_ok s' i j" if ij: "i < n" "j < n" "i \<noteq> j" for i j
  proof -
    have old: "bakery_order_ok s i j" using inv ij by (simp add: bakery_inv_def)
    consider "i = me" | "i \<noteq> me" "j = me" | "i \<noteq> me" "j \<noteq> me" by blast
    then show ?thesis
    proof cases
      case 2
      then show ?thesis
        using old before [of i] ticket [of i] ij same bakery_core [OF ij(1)]
        by (fastforce simp: bakery_order_ok_def bakery_core_ok_def split: bakery_pc.splits)
    next
      case 3
      then have eq: "goes_before s' i j = goes_before s i j" by (intro goes_before_cong) (simp_all add: same)
      show ?thesis using old unfolding bakery_order_ok_def same(2) [OF 3(1)] same(1) [OF 3(2)] eq .
    qed (use order ij in simp)
  qed
  ultimately show ?thesis by (simp add: bakery_inv_def)
qed

lemma bakery_invD:
  assumes "bakery_inv n lim s"
  shows "c < n \<Longrightarrow> bakery_core_ok n lim s c" "i < n \<Longrightarrow> j < n \<Longrightarrow> i \<noteq> j \<Longrightarrow> bakery_order_ok s i j"
  using assms by (simp_all add: bakery_inv_def)

lemma lex_asym: "a < b \<or> a = b \<and> i < j \<Longrightarrow> b < a \<or> b = a \<and> j < i \<Longrightarrow> False" for a b :: "'a :: linorder" and i j :: nat
  by auto

lemma order_inside: "bakery_order_ok s i j \<Longrightarrow> bakery_pc s i = Inside \<Longrightarrow> goes_before s i j"
  by (simp add: bakery_order_ok_def)

lemma outside_no_ticket: "bakery_core_ok n lim s c \<Longrightarrow> bakery_pc s c = Outside \<Longrightarrow> ticket s c = 0"
  by (simp add: bakery_core_ok_def)

text \<open>A step that only moves the core on, keeping its lock data.\<close>

lemma bakery_inv_move:
  assumes inv: "bakery_inv n lim s" and me: "me < n" and s': "s' = s\<lparr>bakery_pc := (bakery_pc s)(me := p)\<rparr>"
    and core: "bakery_core_ok n lim s' me" and order: "\<And>j. j < n \<Longrightarrow> j \<noteq> me \<Longrightarrow> bakery_order_ok s' me j"
    and had: "ticket s me \<noteq> 0"
  shows "bakery_inv n lim s'"
  by (rule bakery_inv_step [OF inv me _ _ core order]) (use had in \<open>auto simp: s' goes_before_def\<close>)

lemma bakery_enter_inv:
  assumes inv: "bakery_inv n lim s" and me: "me < n" and pc: "bakery_pc s me = Outside"
    and run: "bakery_step dbg n me s = Ret () s'"
  shows "bakery_inv n lim s'"
proof -
  have "ticket s me = 0" using bakery_invD(1) [OF inv me] pc by (simp add: bakery_core_ok_def)
  then have s': "s' = s\<lparr>lock_data := (lock_data s)(me := make_bakery_data 1 0), bakery_pc := (bakery_pc s)(me := Choosing 0 0)\<rparr>"
    using run pc by (simp add: bakery_step_defs mbind_def prog_simps dbg_assert_def is_lock_acquired_def)
  show ?thesis
    by (rule bakery_inv_step [OF inv me])
      (auto simp: s' bakery_core_ok_def bakery_order_ok_def goes_before_def)
qed

lemma bakery_choose_inv:
  assumes inv: "bakery_inv n lim s" and me: "me < n" and pc: "bakery_pc s me = Choosing t k" "k < n"
    and left: "\<forall>c < n. ticket s c \<le> lim" and run: "bakery_step dbg n me s = Ret () s'"
  shows "bakery_inv n lim s'"
proof -
  define t' where "t' = (if me \<noteq> k \<and> ticket s k > t then ticket s k else t)"
  have core: "ticket s me = 0" "choosing s me" "t \<le> lim"
    using bakery_invD(1) [OF inv me] pc by (simp_all add: bakery_core_ok_def)
  have t': "t \<le> t'" "t' \<le> lim" "k \<noteq> me \<Longrightarrow> ticket s k \<le> t'" using left pc(2) core(3) by (auto simp: t'_def)
  have s': "s' = s\<lparr>bakery_pc := (bakery_pc s)(me := Choosing t' (k + 1))\<rparr>"
    using run pc by (simp add: bakery_step_defs mbind_def prog_simps t'_def Let_def split: if_splits)
  show ?thesis
  proof (rule bakery_inv_step [OF inv me])
    fix i assume i: "i < n" "i \<noteq> me" "goes_before s i me"
    then have "k \<le> i \<or> ticket s i \<le> t" using core pc by (simp add: goes_before_def)
    then have "k + 1 \<le> i \<or> ticket s i \<le> t'" using t' i(2) by (cases "k = i") auto
    then show "goes_before s' i me" using core i(2) by (simp add: s' goes_before_def)
  qed (use core t' pc in \<open>auto simp: s' bakery_core_ok_def bakery_order_ok_def\<close>)
qed

lemma bakery_ticket_inv:
  assumes inv: "bakery_inv n lim s" and lim: "lim < 0x7fff" and me: "me < n" and pc: "bakery_pc s me = Choosing t k" "\<not> k < n"
    and run: "bakery_step dbg n me s = Ret () s'"
  shows "bakery_inv n lim s'"
proof -
  have core: "ticket s me = 0" "choosing s me" "t \<le> lim"
    using bakery_invD(1) [OF inv me] pc by (simp_all add: bakery_core_ok_def)
  have t: "t + 1 \<le> lim + 1" "t + 1 \<le> 0x7fff" "t < t + 1"
    using core(3) lim by (simp_all add: word_le_nat_alt word_less_nat_alt unat_word_ariths)
  have s': "s' = s\<lparr>lock_data := (lock_data s)(me := make_bakery_data 0 (t + 1)), bakery_pc := (bakery_pc s)(me := Comparing (t + 1) 0)\<rparr>"
    using run pc by (simp add: bakery_step_defs mbind_def prog_simps)
  have tk: "ticket s' me = t + 1" "t + 1 \<noteq> 0" using t by (auto simp: s' chosen_ticket)
  show ?thesis
  proof (rule bakery_inv_step [OF inv me])
    fix i assume i: "i < n" "i \<noteq> me" "goes_before s i me"
    then have "ticket s i \<le> t" using core pc by (simp add: goes_before_def)
    then have "ticket s' i < t + 1" using t(3) i(2) by (simp add: s')
    then show "goes_before s' i me" unfolding goes_before_def tk(1) using tk(2) by simp
  qed (use core t tk in \<open>auto simp: s' bakery_core_ok_def bakery_order_ok_def chosen_data\<close>)
qed

lemma bakery_compare_inv:
  assumes inv: "bakery_inv n lim s" and n: "n \<le> 256" and me: "me < n" and pc: "bakery_pc s me = Comparing t k"
    and run: "bakery_step dbg n me s = Ret () s'"
  shows "bakery_inv n lim s'"
proof -
  have core: "ticket s me = t" "t \<noteq> 0" "\<not> choosing s me" "k \<le> n" "t \<le> lim + 1"
    using bakery_invD(1) [OF inv me] pc by (auto simp: bakery_core_ok_def)
  have prio: "PRIORITY (ticket s k) k < PRIORITY t me \<longleftrightarrow> ticket s k < t \<or> ticket s k = t \<and> k < me" if "k < n"
    using PRIORITY_less [OF ticket_le ticket_le, of k me "bakery_info s k" "bakery_info s me"] n me that by (simp add: core(1))
  have passed: "j < n \<Longrightarrow> j \<noteq> me \<Longrightarrow> j < k \<Longrightarrow> goes_before s me j" for j
    using bakery_invD(2) [OF inv me, of j] pc by (simp add: bakery_order_ok_def)
  have move: "bakery_inv n lim s'" if s': "s' = s\<lparr>bakery_pc := (bakery_pc s)(me := p)\<rparr>"
    and p: "p = Comparing t (k + 1) \<and> k < n \<or> p = Inside \<and> \<not> k < n \<or>
      p = Awaiting t k (ticket s k) \<and> k < n \<and> k \<noteq> me \<and> ticket s k \<noteq> 0 \<and> (ticket s k < t \<or> ticket s k = t \<and> k < me)"
    and k: "p = Comparing t (k + 1) \<Longrightarrow> k \<noteq> me \<Longrightarrow> goes_before s me k" for p
  proof (rule bakery_inv_move [OF inv me s'])
    show "bakery_core_ok n lim s' me" using p core by (auto simp: s' bakery_core_ok_def)
    fix j assume j: "j < n" "j \<noteq> me"
    have "goes_before s' me j = goes_before s me j" using j by (intro goes_before_cong) (simp_all add: s')
    then show "bakery_order_ok s' me j"
      using p k passed [OF j] j core(4) by (auto simp: s' bakery_order_ok_def less_Suc_eq)
  qed (use core in simp)
  consider "\<not> k < n" | "k = me" | "k < n" "k \<noteq> me" "choosing s k" | "k < n" "k \<noteq> me" "\<not> choosing s k" by blast
  then show ?thesis
  proof cases
    case 1
    then show ?thesis using run pc by (intro move [of Inside]) (simp_all add: bakery_step_defs mbind_def prog_simps)
  next
    case 2
    then show ?thesis using run pc me by (intro move [of "Comparing t (k + 1)"]) (simp_all add: bakery_step_defs mbind_def prog_simps)
  next
    case 3
    then show ?thesis using run pc inv by (simp add: bakery_step_defs mbind_def prog_simps)
  next
    case 4
    show ?thesis
    proof (cases "ticket s k \<noteq> 0 \<and> PRIORITY (ticket s k) k < PRIORITY t me")
      case True
      then show ?thesis using run pc 4 prio
        by (intro move [of "Awaiting t k (ticket s k)"]) (simp_all add: bakery_step_defs mbind_def prog_simps Let_def)
    next
      case False
      have "goes_before s me k"
        using False prio [OF 4(1)] 4 core(1) bakery_invD(1) [OF inv 4(1)]
        by (auto simp: goes_before_def bakery_core_ok_def split: bakery_pc.splits)
      then show ?thesis using run pc 4 False
        by (intro move [of "Comparing t (k + 1)"]) (auto simp: bakery_step_defs mbind_def prog_simps Let_def)
    qed
  qed
qed

lemma bakery_await_inv:
  assumes inv: "bakery_inv n lim s" and me: "me < n" and pc: "bakery_pc s me = Awaiting t k tk"
    and run: "bakery_step dbg n me s = Ret () s'"
  shows "bakery_inv n lim s'"
proof (cases "tk = ticket s k")
  case True
  then show ?thesis using run pc inv by (simp add: bakery_step_defs mbind_def prog_simps)
next
  case False
  have core: "ticket s me = t" "t \<noteq> 0" "\<not> choosing s me" "k < n" "k \<noteq> me" "t \<le> lim + 1"
    using bakery_invD(1) [OF inv me] pc by (auto simp: bakery_core_ok_def)
  have s': "s' = s\<lparr>bakery_pc := (bakery_pc s)(me := Comparing t (k + 1))\<rparr>"
    using run pc False by (simp add: bakery_step_defs mbind_def prog_simps)
  show ?thesis
  proof (rule bakery_inv_move [OF inv me s'])
    fix j assume j: "j < n" "j \<noteq> me"
    have "goes_before s' me j = goes_before s me j" using j by (intro goes_before_cong) (simp_all add: s')
    then show "bakery_order_ok s' me j"
      using bakery_invD(2) [OF inv me j(1)] j pc False by (auto simp: s' bakery_order_ok_def less_Suc_eq)
  qed (use core in \<open>auto simp: s' bakery_core_ok_def\<close>)
qed

lemma bakery_release_inv:
  assumes inv: "bakery_inv n lim s" and me: "me < n" and pc: "bakery_pc s me = Inside"
    and run: "bakery_step dbg n me s = Ret () s'"
  shows "bakery_inv n lim s'"
proof -
  have "ticket s me \<noteq> 0" using bakery_invD(1) [OF inv me] pc by (simp add: bakery_core_ok_def)
  then have s': "s' = s\<lparr>lock_data := (lock_data s)(me := 0), bakery_pc := (bakery_pc s)(me := Outside)\<rparr>"
    using run pc by (simp add: bakery_step_defs mbind_def prog_simps dbg_assert_def is_lock_acquired_def)
  show ?thesis
    by (rule bakery_inv_step [OF inv me]) (auto simp: s' bakery_core_ok_def bakery_order_ok_def goes_before_def)
qed

lemma bakery_reachable_inv:
  assumes "bakery_reachable dbg n lim s" "n \<le> 256" "lim < 0x7fff"
  shows "bakery_inv n lim s"
  using assms(1)
proof (induction rule: bakery_reachable.induct)
  case (step s me s')
  show ?case
  proof (cases "bakery_pc s me")
    case Outside
    show ?thesis by (rule bakery_enter_inv [OF step(5,2) Outside step(4)])
  next
    case (Choosing t k)
    then show ?thesis
      using bakery_choose_inv [OF step(5,2) Choosing _ step(3,4)] bakery_ticket_inv [OF step(5) assms(3) step(2) Choosing _ step(4)] by blast
  next
    case (Comparing t k)
    show ?thesis by (rule bakery_compare_inv [OF step(5) assms(2) step(2) Comparing step(4)])
  next
    case (Awaiting t k tk)
    show ?thesis by (rule bakery_await_inv [OF step(5,2) Awaiting step(4)])
  next
    case Inside
    show ?thesis by (rule bakery_release_inv [OF step(5,2) Inside step(4)])
  qed
qed (rule bakery_free_inv)

text \<open>The assertions of the lock hold, so that a step never stops.\<close>

lemma bakery_step_returns:
  assumes "bakery_inv n lim s" "c < n"
  obtains s' where "bakery_step dbg n c s = Ret () s'"
    "bakery_pc s' c = bakery_pc s c \<Longrightarrow>
       (\<exists>t k. bakery_pc s c = Comparing t k \<and> k < n \<and> choosing s k) \<or> (\<exists>t k tk. bakery_pc s c = Awaiting t k tk \<and> tk = ticket s k)"
proof -
  have ok: "bakery_core_ok n lim s c" by (rule bakery_invD(1) [OF assms])
  show thesis
  proof (cases "bakery_pc s c")
    case Outside
    with ok have "ticket s c = 0" by (simp add: bakery_core_ok_def)
    with Outside show ?thesis
      by (intro that) (simp add: bakery_step_defs mbind_def prog_simps dbg_assert_def is_lock_acquired_def, simp)
  next
    case Inside
    with ok have "ticket s c \<noteq> 0" by (simp add: bakery_core_ok_def)
    with Inside show ?thesis
      by (intro that) (simp add: bakery_step_defs mbind_def prog_simps dbg_assert_def is_lock_acquired_def, simp)
  next
    case (Choosing t k)
    then show ?thesis
      by (cases "k < n"; cases "c = k"; intro that) (auto simp: bakery_step_defs mbind_def prog_simps Let_def)
  next
    case (Comparing t k)
    then show ?thesis
      by (cases "k < n"; cases "c = k"; cases "choosing s k"; cases "ticket s k \<noteq> 0 \<and> PRIORITY (ticket s k) k < PRIORITY t c"; intro that)
        (auto simp: bakery_step_defs mbind_def prog_simps Let_def)
  next
    case (Awaiting t k tk)
    then show ?thesis
      by (cases "tk = ticket s k"; intro that) (auto simp: bakery_step_defs mbind_def prog_simps)
  qed
qed

section \<open>Schedules\<close>

text \<open>The steps of a schedule, a list of cores, while no ticket above \<open>lim\<close> is drawn.\<close>

definition bakery_run :: "bool \<Rightarrow> nat \<Rightarrow> u32 \<Rightarrow> nat list \<Rightarrow> (bakery_state, unit) prog" where
  "bakery_run dbg n lim sched = mfold (\<lambda>me _ s.
     if list_all (\<lambda>c. ticket s c \<le> lim) [0..<n] then bakery_step dbg n me s else Stop Blocked s) sched ()"

lemma bakery_run_reachable:
  assumes "bakery_reachable dbg n lim s" "bakery_run dbg n lim sched s = Ret () s'" "\<forall>c \<in> set sched. c < n"
  shows "bakery_reachable dbg n lim s'"
  using assms
proof (induction sched arbitrary: s)
  case (Cons c sched)
  then obtain t where t: "\<forall>c < n. ticket s c \<le> lim" "bakery_step dbg n c s = Ret () t" "bakery_run dbg n lim sched t = Ret () s'"
    by (auto simp: bakery_run_def mbind_def list_all_iff split: outcome.splits if_splits)
  have "bakery_reachable dbg n lim t" by (rule step [OF Cons(2) _ t(1,2)]) (use Cons(4) in simp)
  then show ?case using Cons t by simp
qed (simp add: bakery_run_def prog_simps)

text \<open>The states of four cores, for the evaluation of schedules.\<close>

definition bakery4 :: "u16 list \<Rightarrow> bakery_pc list \<Rightarrow> bakery_state" where
  "bakery4 ds ps = \<lparr>lock_data = (\<lambda>c. if c < 4 then ds ! c else 0), bakery_pc = (\<lambda>c. if c < 4 then ps ! c else Outside)\<rparr>"

lemma bakery4_run:
  "c < 4 \<Longrightarrow> length ps = 4 \<Longrightarrow> bakery_at c p (bakery4 ds ps) = Ret () (bakery4 ds (ps[c := p]))"
  "c < 4 \<Longrightarrow> length ds = 4 \<Longrightarrow> set_lock_data c v (bakery4 ds ps) = Ret () (bakery4 (ds[c := v]) ps)"
  "c < 4 \<Longrightarrow> lock_data (bakery4 ds ps) c = ds ! c" "c < 4 \<Longrightarrow> bakery_pc (bakery4 ds ps) c = ps ! c"
  by (auto simp: bakery4_def bakery_at_def set_lock_data_def prog_simps)

lemma bakery4_free: "bakery_free = bakery4 [0, 0, 0, 0] [Outside, Outside, Outside, Outside]"
  by (auto simp: bakery4_def bakery_free_def less_Suc_eq eval_nat_numeral)

lemma upt4: "[0..<4] = [0, 1, 2, 3 :: nat]"
  by (simp add: upt_rec)

lemmas bakery4_eval = bakery4_run bakery_run_def upt4 mbind_def prog_simps dbg_assert_def is_lock_acquired_def Let_def chosen_data(1)
  bakery_step_def bakery_lock_get_def bakery_enter_def bakery_get_ticket_def bakery_compare_def bakery_await_def bakery_lock_release_def

section \<open>Exclusion and progress\<close>

text \<open>
  C10. The bakery lock excludes: whatever the interleaving of the cores, and as long as the tickets
  last, no two of them are inside at once; and its assertions hold, so that the step of every core
  returns.
\<close>

theorem bakery_mutual_exclusion:
  assumes r: "bakery_reachable dbg n lim s" and n: "n \<le> 256" and lim: "lim < 0x7fff"
  shows "(\<forall>i < n. \<forall>j < n. bakery_pc s i = Inside \<and> bakery_pc s j = Inside \<longrightarrow> i = j) \<and>
     (\<forall>c < n. \<exists>s'. bakery_step dbg n c s = Ret () s')"
proof -
  note inv = bakery_reachable_inv [OF r n lim] 
  have "i = j" if i: "i < n" "bakery_pc s i = Inside" and j: "j < n" "bakery_pc s j = Inside" for i j
  proof (rule ccontr)
    assume ne: "i \<noteq> j"
    have "ticket s i \<noteq> 0" "ticket s j \<noteq> 0"
      using bakery_invD(1) [OF inv i(1)] bakery_invD(1) [OF inv j(1)] i(2) j(2) by (simp_all add: bakery_core_ok_def)
    moreover have "goes_before s i j" "goes_before s j i"
      using bakery_invD(2) [OF inv i(1) j(1) ne] bakery_invD(2) [OF inv j(1) i(1) ne [symmetric]] i(2) j(2)
      by (blast dest: order_inside)+
    ultimately show False using lex_asym [of "ticket s i" "ticket s j" i j] unfolding goes_before_def if_not_P by presburger
  qed
  moreover have "\<exists>s'. bakery_step dbg n c s = Ret () s'" if "c < n" for c
    using bakery_step_returns [OF inv that] by blast
  ultimately show ?thesis by blast
qed

theorem bakery_mutual_exclusion_witness:
  "\<exists>s. bakery_pc s 2 = Inside \<and> bakery_pc s 1 \<noteq> Inside \<and> (\<exists>s'. bakery_step True 4 2 s = Ret () s')"
proof -
  let ?s = "bakery4 [0, make_bakery_data 1 0, make_bakery_data 0 1, 0] [Outside, Choosing 0 0, Inside, Outside]"
  have "bakery_run True 4 0x100 [2, 2, 2, 2, 2, 2, 2, 2, 2, 2, 2, 1] bakery_free = Ret () ?s"
    by (simp add: bakery4_eval bakery4_free)
  then have "bakery_reachable True 4 0x100 ?s" by (rule bakery_run_reachable [OF free]) simp
  from bakery_mutual_exclusion [OF this] show ?thesis by (intro exI [of _ ?s]) (simp add: bakery4_run)
qed

text \<open>
  C11. The bakery lock is never stuck: as long as some core is in the protocol, one of the cores in
  it moves on at its next step.
\<close>

theorem bakery_never_stuck:
  assumes r: "bakery_reachable dbg n lim s" and n: "n \<le> 256" and lim: "lim < 0x7fff"
    and c: "c < n" "bakery_pc s c \<noteq> Outside"
  shows "\<exists>i < n. bakery_pc s i \<noteq> Outside \<and> (\<exists>s'. bakery_step dbg n i s = Ret () s' \<and> bakery_pc s' i \<noteq> bakery_pc s i)"
proof (rule ccontr)
  assume stuck: "\<not> ?thesis"
  note inv = bakery_reachable_inv [OF r n lim]
  have wait: "(\<exists>t k. bakery_pc s i = Comparing t k \<and> k < n \<and> choosing s k) \<or> (\<exists>t k tk. bakery_pc s i = Awaiting t k tk \<and> tk = ticket s k)"
    if "i < n" "bakery_pc s i \<noteq> Outside" for i
  proof -
    from bakery_step_returns [OF inv \<open>i < n\<close>, of dbg] stuck that show ?thesis by blast
  qed
  have quiet: "\<not> choosing s k" if "k < n" for k
    using wait [OF that] bakery_invD(1) [OF inv that] by (auto simp: bakery_core_ok_def split: bakery_pc.splits)
  have await: "\<exists>j < n. bakery_pc s j \<noteq> Outside \<and> (ticket s j < ticket s i \<or> ticket s j = ticket s i \<and> j < i)"
    if i: "i < n" "bakery_pc s i \<noteq> Outside" for i
  proof -
    obtain t k tk where pc: "bakery_pc s i = Awaiting t k tk" "tk = ticket s k" using wait [OF i] quiet by blast
    then have k: "k < n" "ticket s i = t" "tk \<noteq> 0" "tk < t \<or> tk = t \<and> k < i"
      using bakery_invD(1) [OF inv i(1)] by (simp_all add: bakery_core_ok_def)
    have "bakery_pc s k \<noteq> Outside"
      using bakery_invD(1) [OF inv k(1)] k(3) pc(2) outside_no_ticket by blast
    then show ?thesis using k(1,4) unfolding pc(2) k(2) [symmetric] by (intro exI [of _ k] conjI)
  qed
  have "\<not> (i < n \<and> bakery_pc s i \<noteq> Outside)" for i
  proof (induction "unat (ticket s i) * n + i" arbitrary: i rule: less_induct)
    case less
    have "unat (ticket s j) * n + j < unat (ticket s i) * n + i"
      if "i < n" "j < n" "ticket s j < ticket s i \<or> ticket s j = ticket s i \<and> j < i" for j
    proof (cases "ticket s j < ticket s i")
      case True
      then have "(unat (ticket s j) + 1) * n \<le> unat (ticket s i) * n" by (intro mult_le_mono1) (simp add: word_less_nat_alt)
      then show ?thesis using that(2) by simp
    qed (use that in auto)
    then show ?case using less await by blast
  qed
  then show False using c by blast
qed

theorem bakery_never_stuck_witness:
  "\<exists>s. bakery_pc s 1 = Awaiting 2 0 1 \<and>
     (\<exists>i < 4. bakery_pc s i \<noteq> Outside \<and> (\<exists>s'. bakery_step True 4 i s = Ret () s' \<and> bakery_pc s' i \<noteq> bakery_pc s i))"
proof -
  let ?s = "bakery4 [make_bakery_data 0 1, make_bakery_data 0 2, 0, 0] [Inside, Awaiting 2 0 1, Outside, Outside]"
  have "bakery_run True 4 0x100 [0, 0, 0, 0, 0, 0, 0, 0, 0, 0, 0, 1, 1, 1, 1, 1, 1, 1] bakery_free = Ret () ?s"
    by (simp add: bakery4_eval bakery4_free PRIORITY_def)
  then have "bakery_reachable True 4 0x100 ?s" by (rule bakery_run_reachable [OF free]) simp
  from bakery_never_stuck [OF this, of 1] show ?thesis by (intro exI [of _ ?s]) (simp add: bakery4_run)
qed

section \<open>When the tickets run out\<close>

lemma bakery_hand_over:
  assumes t: "t < 0x7fff" "t \<noteq> 0"
  shows "bakery_run dbg 4 0x7fff [1, 1, 1, 1, 1, 1, 1, 0, 1, 1, 1, 1, 1]
      (bakery4 [make_bakery_data 0 t, 0, 0, 0] [Inside, Outside, Outside, Outside]) =
      Ret () (bakery4 [0, make_bakery_data 0 (t + 1), 0, 0] [Outside, Inside, Outside, Outside])" (is ?one)
    "bakery_run dbg 4 0x7fff [0, 0, 0, 0, 0, 0, 0, 0, 1, 0, 0, 0, 0]
      (bakery4 [0, make_bakery_data 0 t, 0, 0] [Outside, Inside, Outside, Outside]) =
      Ret () (bakery4 [make_bakery_data 0 (t + 1), 0, 0, 0] [Inside, Outside, Outside, Outside])" (is ?two)
proof -
  have n: "unat t < 0x7fff" using t(1) by (simp add: word_less_nat_alt)
  then have m: "unat (t + 1) = unat t + 1" by (simp add: unat_word_ariths)
  then have u: "t \<le> 0x7fff" "t + 1 \<le> 0x7fff" "t < t + 1"
    using n by (simp_all add: word_le_nat_alt word_less_nat_alt)
  have z: "0 < t" "t + 1 \<noteq> 0" using t(2) m by (simp add: word_neq_0_conv, metis unat_0 add_eq_0_iff_both_eq_0 zero_neq_one)
  have p: "PRIORITY t 0 < PRIORITY (t + 1) 1" "PRIORITY t 1 < PRIORITY (t + 1) 0"
    using u by (simp_all add: PRIORITY_less)
  show ?one using t u z p by (simp add: bakery4_eval ticket_le)
  show ?two using t u z p by (simp add: bakery4_eval ticket_le)
qed

lemma bakery_any_ticket:
  "m < 0x4000 \<Longrightarrow>
   bakery_reachable dbg 4 0x7fff (bakery4 [make_bakery_data 0 (of_nat (2 * m + 1)), 0, 0, 0] [Inside, Outside, Outside, Outside])"
proof (induction m)
  case 0
  have "bakery_run dbg 4 0x7fff [0, 0, 0, 0, 0, 0, 0, 0, 0, 0, 0] bakery_free =
    Ret () (bakery4 [make_bakery_data 0 (of_nat (2 * 0 + 1)), 0, 0, 0] [Inside, Outside, Outside, Outside])"
    by (simp add: bakery4_eval bakery4_free ticket_le)
  then show ?case by (rule bakery_run_reachable [OF free]) simp
next
  case (Suc m)
  let ?t = "of_nat (2 * m + 1) :: u32"
  have nat: "unat (of_nat k :: u32) = k" if "k < 0x8000" for k
    using that by (simp add: unat_of_nat)
  have "?t + 1 = of_nat (2 * m + 2)" by simp
  then have "unat ?t = 2 * m + 1" "unat (?t + 1) = 2 * m + 2" using nat [of "2 * m + 1"] nat [of "2 * m + 2"] Suc(2) by simp_all
  then have t: "?t < 0x7fff" "?t \<noteq> 0" "?t + 1 < 0x7fff" "?t + 1 \<noteq> 0"
    using Suc(2) by (auto simp: word_less_nat_alt)
  have "bakery_reachable dbg 4 0x7fff (bakery4 [0, make_bakery_data 0 (?t + 1), 0, 0] [Outside, Inside, Outside, Outside])"
    by (rule bakery_run_reachable [OF Suc(1) bakery_hand_over(1) [OF t(1,2)]]) (use Suc(2) in auto)
  from bakery_run_reachable [OF this bakery_hand_over(2) [OF t(3,4)]] show ?case by (simp add: algebra_simps)
qed

text \<open>
  C40. The tickets can run out: on a lock that is handed from core to core without a pause the tickets
  grow up to 0x7fff, the next one is stored as zero, and two cores get the lock.
\<close>

theorem bakery_tickets_run_out:
  "\<exists>s. bakery_reachable dbg 4 0x7fff s \<and> bakery_pc s 1 = Inside \<and> bakery_pc s 2 = Inside"
proof -
  let ?s = "bakery4 [make_bakery_data 0 0x7fff, 0, 0, 0] [Inside, Outside, Outside, Outside]"
  let ?sched = "[1, 1, 1, 1, 1, 1, 1, 0, 1, 1, 1, 1, 1, 2, 2, 2, 2, 2, 2, 2, 2, 2, 2, 2]"
  have r: "bakery_reachable dbg 4 0x7fff ?s" using bakery_any_ticket [of "0x3fff" dbg] by simp
  have "bakery_run dbg 4 0x7fff ?sched ?s =
    Ret () (bakery4 [0, make_bakery_data 0 0x8000, make_bakery_data 0 1, 0] [Outside, Inside, Inside, Outside])"
    by (simp add: bakery4_eval ticket_le PRIORITY_def chosen_data)
  from bakery_run_reachable [OF r this] show ?thesis by (auto simp: bakery4_run)
qed

end
