(* ===== verification/Xlat_Tables.thy ===== *)
theory Xlat_Tables
  imports Prelude
begin

text \<open>
  The translation tables of BL31: \<^verbatim>\<open>lib/xlat_tables/xlat_tables_common.c\<close> and the table set-up of
  \<^verbatim>\<open>lib/xlat_tables/aarch64/xlat_tables.c\<close>. The regions of memory are collected in an array that is
  kept in order of ascending base addresses and ends with a region of size 0; the tables are then
  filled by one recursive function.

  Addresses and sizes are natural numbers, with the 64-bit wrap-around of the code written out
  (\<open>wrap64\<close>); descriptors are 64-bit words. A pointer into the array of regions is the rest of the array from
  there on, so that reading past the end is reading the empty list. \<open>xlat_port\<close> holds what the
  platform and the linker define: the sizes of the address spaces, the number of tables and the
  address at which they lie.
\<close>

section \<open>State\<close>

record mmap_region_t =
  base_pa :: nat
  base_va :: nat
  rsize :: nat
  rattr :: u32

record xlat_port =
  xl_assertions :: bool
  PLAT_VIRT_ADDR_SPACE_SIZE :: nat
  PLAT_PHY_ADDR_SPACE_SIZE :: nat
  MAX_XLAT_TABLES :: nat
  xlat_tables_addr :: nat
  base_table_addr :: nat

record xlat_state =
  mmap :: "mmap_region_t list"
  base_xlation_table :: "u64 list"
  xlat_tables :: "u64 list list"
  next_xlat :: nat
  xlat_max_pa :: nat
  xlat_max_va :: nat
  execute_never_mask :: u64
  ap1_mask :: u64
  tcr_ps_bits :: u64
  mair_el3 :: u64
  tcr_el3 :: u64
  ttbr0_el3 :: u64
  sctlr_el3 :: u32

definition wrap64 :: "nat \<Rightarrow> nat" where
  "wrap64 x = x mod 2 ^ 64"

text \<open>The last address of an area: \<^verbatim>\<open>base + size - 1U\<close>.\<close>

definition area_end :: "nat \<Rightarrow> nat \<Rightarrow> nat" where
  "area_end base sz = wrap64 (base + sz + (2 ^ 64 - 1))"

abbreviation region_end :: "mmap_region_t \<Rightarrow> nat" where
  "region_end mm \<equiv> area_end (base_va mm) (rsize mm)"

abbreviation PAGE_SIZE :: nat where "PAGE_SIZE \<equiv> 4096"

definition IS_PAGE_ALIGNED :: "nat \<Rightarrow> bool" where
  "IS_PAGE_ALIGNED a \<longleftrightarrow> a mod PAGE_SIZE = 0"

section \<open>The array of regions\<close>

text \<open>The comparison of a new region with one that is there.\<close>

definition check_overlap :: "bool \<Rightarrow> nat \<Rightarrow> nat \<Rightarrow> nat \<Rightarrow> mmap_region_t \<Rightarrow> ('s, unit) prog" where
  "check_overlap dbg pa va sz mm =
     (let end_pa = area_end pa sz; end_va = area_end va sz; mm_end_va = region_end mm;
          fully_overlapped_va =
            (va \<ge> base_va mm \<and> end_va \<le> mm_end_va) \<or> (base_va mm \<ge> va \<and> mm_end_va \<le> end_va)
      in if fully_overlapped_va then
           mbind (dbg_assert dbg (wrap64 (base_va mm + 2 ^ 64 - base_pa mm) = wrap64 (va + 2 ^ 64 - pa))) (\<lambda>_.
           dbg_assert dbg (va \<noteq> base_va mm \<or> sz \<noteq> rsize mm))
         else
           let mm_end_pa = area_end (base_pa mm) (rsize mm);
               separated_pa = end_pa < base_pa mm \<or> pa > mm_end_pa;
               separated_va = end_va < base_va mm \<or> va > mm_end_va
           in dbg_assert dbg (separated_va \<and> separated_pa))"

fun check_overlaps :: "bool \<Rightarrow> nat \<Rightarrow> nat \<Rightarrow> nat \<Rightarrow> mmap_region_t list \<Rightarrow> ('s, unit) prog" where
  "check_overlaps dbg pa va sz [] = mstop Out_of_bounds"
| "check_overlaps dbg pa va sz (mm # rest) =
     (if rsize mm = 0 then mret ()
      else mbind (check_overlap dbg pa va sz mm) (\<lambda>_. check_overlaps dbg pa va sz rest))"

text \<open>A loop \<^verbatim>\<open>while (...) ++mm\<close>: how many regions it skips.\<close>

fun mmap_skip :: "(mmap_region_t \<Rightarrow> bool) \<Rightarrow> mmap_region_t list \<Rightarrow> ('s, nat) prog" where
  "mmap_skip P [] = mstop Out_of_bounds"
| "mmap_skip P (mm # rest) = (if P mm then mbind (mmap_skip P rest) (\<lambda>i. mret (i + 1)) else mret 0)"

definition mmap_add_region :: "xlat_port \<Rightarrow> nat \<Rightarrow> nat \<Rightarrow> nat \<Rightarrow> u32 \<Rightarrow> (xlat_state, unit) prog" where
  "mmap_add_region p pa va sz attr =
     (let dbg = xl_assertions p; end_pa = area_end pa sz; end_va = area_end va sz
      in mbind (dbg_assert dbg (IS_PAGE_ALIGNED pa)) (\<lambda>_.
         mbind (dbg_assert dbg (IS_PAGE_ALIGNED va)) (\<lambda>_.
         mbind (dbg_assert dbg (IS_PAGE_ALIGNED sz)) (\<lambda>_.
         if sz = 0 then mret ()
         else
           mbind (dbg_assert dbg (pa < end_pa)) (\<lambda>_.
           mbind (dbg_assert dbg (va < end_va)) (\<lambda>_.
           mbind (dbg_assert dbg (end_va \<le> PLAT_VIRT_ADDR_SPACE_SIZE p - 1)) (\<lambda>_.
           mbind (dbg_assert dbg (end_pa \<le> PLAT_PHY_ADDR_SPACE_SIZE p - 1)) (\<lambda>_.
           mbind (mget mmap) (\<lambda>a.
           mbind (mwhen dbg (check_overlaps dbg pa va sz a)) (\<lambda>_.
           mbind (mmap_skip (\<lambda>mm. base_va mm < va \<and> rsize mm \<noteq> 0) a) (\<lambda>i.
           mbind (mmap_skip (\<lambda>mm. base_va mm = va \<and> rsize mm > sz) (drop i a)) (\<lambda>j.
           let moved = take (i + j) a @ [a ! (i + j)] @ butlast (drop (i + j) a)
           in mbind (dbg_assert dbg (rsize (last moved) = 0)) (\<lambda>_.
              mmodify (\<lambda>s. s\<lparr>mmap := moved[i + j := \<lparr>base_pa = pa, base_va = va, rsize = sz, rattr = attr\<rparr>],
                xlat_max_pa := max end_pa (xlat_max_pa s), xlat_max_va := max end_va (xlat_max_va s)\<rparr>))))))))))))))"

fun mmap_add :: "xlat_port \<Rightarrow> mmap_region_t list \<Rightarrow> (xlat_state, unit) prog" where
  "mmap_add p [] = mstop Out_of_bounds"
| "mmap_add p (mm # rest) =
     (if rsize mm = 0 then mret ()
      else mbind (mmap_add_region p (base_pa mm) (base_va mm) (rsize mm) (rattr mm)) (\<lambda>_. mmap_add p rest))"

section \<open>Descriptors\<close>

definition LOWER_ATTRS :: "u64 \<Rightarrow> u64" where
  "LOWER_ATTRS x = push_bit 2 (x AND 0xfff)"

definition XLAT_BLOCK_SIZE :: "nat \<Rightarrow> nat" where
  "XLAT_BLOCK_SIZE level = 2 ^ (12 + (3 - level) * 9)"

text \<open>
  The attribute bits of a descriptor, from the attributes of a region: bits 0 to 2 are the memory
  type (0 device, 1 not cacheable, 2 memory), bit 3 is \<^verbatim>\<open>MT_RW\<close>, bit 4 \<^verbatim>\<open>MT_NS\<close>, bit 5
  \<^verbatim>\<open>MT_EXECUTE_NEVER\<close>.
\<close>

definition mmap_attrs :: "u64 \<Rightarrow> u64 \<Rightarrow> u32 \<Rightarrow> u64" where
  "mmap_attrs xn ap1 attr =
     (if attr AND 0x10 \<noteq> 0 then LOWER_ATTRS 0x8 else 0) OR
     (if attr AND 0x8 \<noteq> 0 then LOWER_ATTRS 0 else LOWER_ATTRS 0x20) OR
     LOWER_ATTRS 0x100 OR ap1 OR
     (if attr AND 7 = 0 then LOWER_ATTRS 0x81 OR xn
      else (if attr AND 0x8 \<noteq> 0 \<or> attr AND 0x20 \<noteq> 0 then xn else 0) OR
           (if attr AND 7 = 2 then LOWER_ATTRS 0xC0 else LOWER_ATTRS 0x82))"

definition mmap_desc :: "bool \<Rightarrow> u32 \<Rightarrow> nat \<Rightarrow> nat \<Rightarrow> (xlat_state, u64) prog" where
  "mmap_desc dbg attr addr_pa level =
     mbind (dbg_assert dbg (addr_pa mod XLAT_BLOCK_SIZE level = 0)) (\<lambda>_.
     mbind (dbg_assert dbg (attr AND 7 \<le> 2)) (\<lambda>_.
     mget (\<lambda>s. of_nat addr_pa OR (if level = 3 then 3 else 1) OR mmap_attrs (execute_never_mask s) (ap1_mask s) attr)))"

fun mmap_region_attr :: "mmap_region_t list \<Rightarrow> nat \<Rightarrow> nat \<Rightarrow> u32 option \<Rightarrow> ('s, u32 option) prog" where
  "mmap_region_attr [] va sz ret = mstop Out_of_bounds"
| "mmap_region_attr (mm # rest) va sz ret =
     (if rsize mm = 0 then mret ret
      else if base_va mm > area_end va sz then mret ret
      else if region_end mm < va then mmap_region_attr rest va sz ret
      else if ret = Some (rattr mm) then mmap_region_attr rest va sz ret
      else if base_va mm > va \<or> region_end mm < area_end va sz then mret None
      else mmap_region_attr rest va sz (Some (rattr mm)))"

section \<open>Filling the tables\<close>

text \<open>A table is the base table or one of the others, by its number.\<close>

datatype xlat_table = Base | Sub nat

definition store_desc :: "xlat_table \<Rightarrow> nat \<Rightarrow> u64 \<Rightarrow> (xlat_state, unit) prog" where
  "store_desc table pos desc =
     (case table of
        Base \<Rightarrow>
          mbind (mget base_xlation_table) (\<lambda>t.
          mbind (array_check t pos) (\<lambda>_.
          mmodify (\<lambda>s. s\<lparr>base_xlation_table := (base_xlation_table s)[pos := desc]\<rparr>)))
      | Sub n \<Rightarrow>
          mbind (mget xlat_tables) (\<lambda>ts.
          mbind (array_get ts n) (\<lambda>t.
          mbind (array_check t pos) (\<lambda>_.
          mmodify (\<lambda>s. s\<lparr>xlat_tables := (xlat_tables s)[n := (xlat_tables s ! n)[pos := desc]]\<rparr>)))))"

definition table_addr :: "xlat_port \<Rightarrow> nat \<Rightarrow> nat" where
  "table_addr p n = xlat_tables_addr p + n * PAGE_SIZE"

text \<open>The condition of the loop: \<open>va\<close> lies in the same table and in the address space.\<close>

definition xlat_more :: "xlat_port \<Rightarrow> nat \<Rightarrow> nat \<Rightarrow> bool" where
  "xlat_more p level va \<longleftrightarrow>
     va div XLAT_BLOCK_SIZE level mod 512 \<noteq> 0 \<and> wrap64 (va + (2 ^ 64 - 1)) < PLAT_VIRT_ADDR_SPACE_SIZE p - 1"

text \<open>
  The descriptor of one entry, \<open>None\<close> for \<^verbatim>\<open>UNSET_DESC\<close>, when a finer table is needed.
\<close>

definition xlat_entry_desc :: "xlat_port \<Rightarrow> mmap_region_t list \<Rightarrow> nat \<Rightarrow> nat \<Rightarrow> (xlat_state, u64 option) prog" where
  "xlat_entry_desc p mm va level =
     (let desc = (if rsize (hd mm) = 0 then Some 0 else None); level_size = XLAT_BLOCK_SIZE level
      in if base_va (hd mm) > area_end va level_size then mret (Some 0)
         else if level \<ge> 1 then
           mbind (mmap_region_attr mm va level_size None) (\<lambda>r.
           case r of
             None \<Rightarrow> mret desc
           | Some attr \<Rightarrow>
               mbind (mmap_desc (xl_assertions p) attr (wrap64 (va + 2 ^ 64 - base_va (hd mm) + base_pa (hd mm))) level) (\<lambda>d.
               mret (Some d)))
         else mret desc)"

definition xlat_new_table :: "xlat_port \<Rightarrow> (xlat_state, nat) prog" where
  "xlat_new_table p =
     mbind (mget next_xlat) (\<lambda>n.
     mbind (mmodify (\<lambda>s. s\<lparr>next_xlat := n + 1\<rparr>)) (\<lambda>_.
     mbind (dbg_assert (xl_assertions p) (n + 1 \<le> MAX_XLAT_TABLES p)) (\<lambda>_.
     mret n)))"

text \<open>The index of an address in its table, for the termination of the loop.\<close>

lemma block_size_pos [simp]: "XLAT_BLOCK_SIZE level > 0"
  by (simp add: XLAT_BLOCK_SIZE_def)

lemma block_size_dvd: "\<exists>m. 2 ^ 64 = XLAT_BLOCK_SIZE level * (512 * m)"
proof -
  define k where "k = 12 + (3 - level) * 9"
  have "64 = k + (9 + (55 - k))" by (simp add: k_def)
  then have "(2 :: nat) ^ 64 = 2 ^ k * (2 ^ 9 * 2 ^ (55 - k))" by (metis power_add)
  moreover have "XLAT_BLOCK_SIZE level = 2 ^ k" "(2 :: nat) ^ 9 = 512" by (simp_all add: XLAT_BLOCK_SIZE_def k_def)
  ultimately show ?thesis by metis
qed

lemma xlat_index_wrap:
  "wrap64 (va + XLAT_BLOCK_SIZE level) div XLAT_BLOCK_SIZE level mod 512 = (va div XLAT_BLOCK_SIZE level + 1) mod 512"
proof -
  obtain m where m: "2 ^ 64 = XLAT_BLOCK_SIZE level * (512 * m)" using block_size_dvd by blast
  have "x mod (XLAT_BLOCK_SIZE level * n) div XLAT_BLOCK_SIZE level = x div XLAT_BLOCK_SIZE level mod n" for x n
    by (subst mod_mult2_eq) simp
  moreover have "(va + XLAT_BLOCK_SIZE level) div XLAT_BLOCK_SIZE level = va div XLAT_BLOCK_SIZE level + 1"
    using block_size_pos [of level] by (intro div_add_self2) simp
  ultimately show ?thesis unfolding wrap64_def m by (simp only: mod_mod_cancel [OF dvd_triv_left])
qed

lemma xlat_index_step:
  assumes "wrap64 (va + XLAT_BLOCK_SIZE level) div XLAT_BLOCK_SIZE level mod 512 \<noteq> 0"
  shows "wrap64 (va + XLAT_BLOCK_SIZE level) div XLAT_BLOCK_SIZE level mod 512 = va div XLAT_BLOCK_SIZE level mod 512 + 1"
  using assms unfolding xlat_index_wrap by (simp add: mod_Suc split: if_splits)

text \<open>
  The loop over the entries of a table. A \<^verbatim>\<open>continue\<close> goes to the condition of the loop. There is no
  level above 3: the assertion on the level stops the function there.
\<close>

function init_xlation_table_inner ::
  "xlat_port \<Rightarrow> mmap_region_t list \<Rightarrow> nat \<Rightarrow> xlat_table \<Rightarrow> nat \<Rightarrow> nat \<Rightarrow> (xlat_state, mmap_region_t list) prog" where
  "init_xlation_table_inner p mm va table pos level =
     (if level > 3 then mstop (if xl_assertions p then Assertion_failed else Out_of_bounds)
      else if mm = [] then mstop Out_of_bounds
      else if rsize (hd mm) \<noteq> 0 \<and> region_end (hd mm) < va then
        if xlat_more p level va then init_xlation_table_inner p (tl mm) va table pos level
        else mret (tl mm)
      else
        mbind (xlat_entry_desc p mm va level) (\<lambda>desc.
        mbind (case desc of
            Some d \<Rightarrow> mret (d, mm)
          | None \<Rightarrow>
              mbind (xlat_new_table p) (\<lambda>n.
              mbind (init_xlation_table_inner p mm va (Sub n) 0 (level + 1)) (\<lambda>mm'.
              mret (3 OR of_nat (table_addr p n), mm')))) (\<lambda>(d, mm').
        mbind (store_desc table pos d) (\<lambda>_.
        let next = wrap64 (va + XLAT_BLOCK_SIZE level)
        in if xlat_more p level next then init_xlation_table_inner p mm' next table (pos + 1) level
           else mret mm'))))"
  by pat_completeness auto

termination
  by (relation "measures [\<lambda>(p, mm, va, table, pos, level). 4 - level,
      \<lambda>(p, mm, va, table, pos, level). 512 - va div XLAT_BLOCK_SIZE level mod 512,
      \<lambda>(p, mm, va, table, pos, level). length mm]")
    (auto simp: xlat_more_def xlat_index_step intro!: diff_less_mono2)

declare init_xlation_table_inner.simps [simp del]

section \<open>Set-up\<close>

text \<open>\<open>el\<close> is the current exception level.\<close>

definition xlat_arch_get_xn_desc :: "nat \<Rightarrow> u64" where
  "xlat_arch_get_xn_desc el = (if el = 3 then push_bit 52 4 else push_bit 52 2)"

definition init_xlation_table :: "xlat_port \<Rightarrow> nat \<Rightarrow> nat \<Rightarrow> xlat_table \<Rightarrow> nat \<Rightarrow> (xlat_state, nat \<times> nat) prog" where
  "init_xlation_table p el va table level =
     mbind (dbg_assert (xl_assertions p) (el = 3 \<or> el = 1)) (\<lambda>_.
     mbind (mmodify (\<lambda>s. s\<lparr>execute_never_mask := xlat_arch_get_xn_desc el,
              ap1_mask := (if el = 3 then LOWER_ATTRS 0x10 else 0)\<rparr>)) (\<lambda>_.
     mbind (mget mmap) (\<lambda>mm.
     mbind (init_xlation_table_inner p mm va table 0 level) (\<lambda>_.
     mget (\<lambda>s. (xlat_max_va s, xlat_max_pa s))))))"

definition calc_physical_addr_size_bits :: "bool \<Rightarrow> u64 \<Rightarrow> (xlat_state, u64) prog" where
  "calc_physical_addr_size_bits dbg max_addr =
     mbind (dbg_assert dbg (max_addr AND 0xFFFF000000000000 = 0)) (\<lambda>_.
     mret (if max_addr AND 0x0000F00000000000 \<noteq> 0 then 5
           else if max_addr AND 0x00000C0000000000 \<noteq> 0 then 4
           else if max_addr AND 0x0000030000000000 \<noteq> 0 then 3
           else if max_addr AND 0x000000F000000000 \<noteq> 0 then 2
           else if max_addr AND 0x0000000F00000000 \<noteq> 0 then 1
           else 0))"

definition GET_XLAT_TABLE_LEVEL_BASE :: "nat \<Rightarrow> nat" where
  "GET_XLAT_TABLE_LEVEL_BASE sz = (if sz > 2 ^ 39 then 0 else if sz > 2 ^ 30 then 1 else 2)"

text \<open>\<open>mmfr0\<close> is the identification register \<^verbatim>\<open>ID_AA64MMFR0_EL1\<close>; only the assertion of a debug build reads it.\<close>

definition get_max_supported_pa :: "u64 \<Rightarrow> (xlat_state, nat) prog" where
  "get_max_supported_pa mmfr0 =
     mbind (dbg_assert True (unat (mmfr0 AND 0xf) < 7)) (\<lambda>_.
     mbind (array_get [32, 36, 40, 42, 44, 48, 52] (unat (mmfr0 AND 0xf))) (\<lambda>b.
     mret (2 ^ b - 1)))"

definition init_xlat_tables :: "xlat_port \<Rightarrow> nat \<Rightarrow> u64 \<Rightarrow> (xlat_state, unit) prog" where
  "init_xlat_tables p el mmfr0 =
     (let dbg = xl_assertions p
      in mbind (init_xlation_table p el 0 Base (GET_XLAT_TABLE_LEVEL_BASE (PLAT_VIRT_ADDR_SPACE_SIZE p))) (\<lambda>(max_va, max_pa).
         mbind (dbg_assert dbg (max_va \<le> PLAT_VIRT_ADDR_SPACE_SIZE p - 1)) (\<lambda>_.
         mbind (dbg_assert dbg (max_pa \<le> PLAT_PHY_ADDR_SPACE_SIZE p - 1)) (\<lambda>_.
         mbind (mwhen dbg (mbind (get_max_supported_pa mmfr0) (\<lambda>m. dbg_assert dbg (PLAT_PHY_ADDR_SPACE_SIZE p - 1 \<le> m)))) (\<lambda>_.
         mbind (calc_physical_addr_size_bits dbg (of_nat max_pa)) (\<lambda>bits.
         mmodify (\<lambda>s. s\<lparr>tcr_ps_bits := bits\<rparr>)))))))"

text \<open>
  \<^verbatim>\<open>enable_mmu_el3()\<close>: the registers of the MMU. \<^verbatim>\<open>__builtin_ctzll\<close> counts the zeros at the low end of
  the size of the address space.
\<close>

definition MAIR_ATTR_SET :: "u64 \<Rightarrow> nat \<Rightarrow> u64" where
  "MAIR_ATTR_SET attr index = push_bit (index * 8) attr"

fun ctz :: "nat \<Rightarrow> nat" where
  "ctz n = (if n = 0 \<or> odd n then 0 else Suc (ctz (n div 2)))"

declare ctz.simps [simp del]

definition enable_mmu_el3 :: "xlat_port \<Rightarrow> u32 \<Rightarrow> (xlat_state, unit) prog" where
  "enable_mmu_el3 p flags =
     mbind (mget sctlr_el3) (\<lambda>sctlr.
     mbind (dbg_assert (xl_assertions p) (sctlr AND 1 = 0)) (\<lambda>_.
     mbind (mmodify (\<lambda>s. s\<lparr>mair_el3 := MAIR_ATTR_SET 0x4 1 OR MAIR_ATTR_SET 0xff 0 OR MAIR_ATTR_SET 0x44 2\<rparr>)) (\<lambda>_.
     let t0sz = of_nat (64 - ctz (PLAT_VIRT_ADDR_SPACE_SIZE p));
         tcr = (if flags AND 2 \<noteq> 0 then t0sz else push_bit 12 3 OR push_bit 10 1 OR push_bit 8 1 OR t0sz)
     in mbind (mmodify (\<lambda>s. s\<lparr>tcr_el3 := tcr OR push_bit 31 1 OR push_bit 23 1 OR push_bit 16 (tcr_ps_bits s)\<rparr>)) (\<lambda>_.
        mbind (mmodify (\<lambda>s. s\<lparr>ttbr0_el3 := of_nat (base_table_addr p)\<rparr>)) (\<lambda>_.
        mmodify (\<lambda>s. s\<lparr>sctlr_el3 :=
          (let c = sctlr_el3 s OR push_bit 19 1 OR 1 in if flags AND 1 \<noteq> 0 then c AND NOT 4 else c OR 4)\<rparr>))))))"

section \<open>The board\<close>

text \<open>
  The memory map of the board; \<open>ro_size\<close> is the size of the read-only part of the image, which the
  linker knows. The linker script places the tables at the start of the memory at \<^verbatim>\<open>0x180000\<close>; the
  address \<open>base_addr\<close> of the base table is the linker's choice.
\<close>

definition imx8mq_mmap :: "nat \<Rightarrow> (nat \<times> nat \<times> u32) list" where
  "imx8mq_mmap ro_size =
     [(0x900000, 0x20000, 0xA), (0x100000, 0x10000, 0xA), (0x180000, 0x8000, 0xA), (0x40000000, 0xc0000000, 0x1A),
      (0x910000, ro_size, 0x2), (0x0, 0x20000, 0x2), (0x32000000, 0x800000, 0x8), (0x30200000, 0xC00000, 0x8),
      (0x38800000, 0x200000, 0x8), (0x3c000000, 0x4000000, 0x8)]"

definition imx8mq_xlat_port :: "bool \<Rightarrow> nat \<Rightarrow> xlat_port" where
  "imx8mq_xlat_port dbg base_addr = \<lparr>xl_assertions = dbg, PLAT_VIRT_ADDR_SPACE_SIZE = 2 ^ 32,
     PLAT_PHY_ADDR_SPACE_SIZE = 2 ^ 32, MAX_XLAT_TABLES = 4, xlat_tables_addr = 0x180000, base_table_addr = base_addr\<rparr>"

definition bl31_plat_arch_setup :: "xlat_port \<Rightarrow> nat \<Rightarrow> u64 \<Rightarrow> (xlat_state, unit) prog" where
  "bl31_plat_arch_setup p ro_size mmfr0 =
     mbind (mfold (\<lambda>(base, sz, attr) _. mmap_add_region p base base sz attr) (imx8mq_mmap ro_size) ()) (\<lambda>_.
     mbind (init_xlat_tables p 3 mmfr0) (\<lambda>_.
     enable_mmu_el3 p 0))"

end
