(* ===== verification/Xlat_Walk.thy ===== *)
theory Xlat_Walk
  imports Xlat_Tables
begin

text \<open>
  What the translation tables mean: the walk of the MMU through the tables that \<^verbatim>\<open>init_xlat_tables()\<close>
  has filled finds, for every address of the virtual address space, the physical address and the
  attributes of the innermost region that contains it, and no translation where there is no region.
\<close>

section \<open>The walk of the MMU\<close>

text \<open>
  A descriptor is invalid, leads to the table of the next level, or maps a block (a page at level 3).
\<close>

definition table_no :: "xlat_port \<Rightarrow> u64 \<Rightarrow> nat" where
  "table_no p d = (unat (d AND 0xFFFFFFFFF000) - xlat_tables_addr p) div PAGE_SIZE"

function mmu_desc :: "xlat_port \<Rightarrow> xlat_state \<Rightarrow> u64 \<Rightarrow> nat \<Rightarrow> nat \<Rightarrow> (nat \<times> u64) option" where
  "mmu_desc p s d level va =
     (if level < 3 \<and> d AND 3 = 3 then
        mmu_desc p s (xlat_tables s ! table_no p d ! (va div XLAT_BLOCK_SIZE (level + 1) mod 512)) (level + 1) va
      else if level = 3 \<and> d AND 3 = 3 \<or> 1 \<le> level \<and> level < 3 \<and> d AND 3 = 1 then
        Some (unat (d AND 0xFFFFFFFFF000) + va mod XLAT_BLOCK_SIZE level, d AND 0xFFFF000000000FFC)
      else None)"
  by pat_completeness auto

termination
  by (relation "measure (\<lambda>(p, s, d, level, va). 3 - level)") auto

declare mmu_desc.simps [simp del]

definition mmu_walk :: "xlat_port \<Rightarrow> xlat_state \<Rightarrow> nat \<Rightarrow> (nat \<times> u64) option" where
  "mmu_walk p s va =
     (let level = GET_XLAT_TABLE_LEVEL_BASE (PLAT_VIRT_ADDR_SPACE_SIZE p)
      in mmu_desc p s (base_xlation_table s ! (va div XLAT_BLOCK_SIZE level)) level va)"

section \<open>Regions\<close>

definition in_region :: "mmap_region_t \<Rightarrow> nat \<Rightarrow> bool" where
  "in_region r va \<longleftrightarrow> base_va r \<le> va \<and> va < base_va r + rsize r"

definition mmap_lookup :: "mmap_region_t list \<Rightarrow> nat \<Rightarrow> mmap_region_t option" where
  "mmap_lookup R va = find (\<lambda>r. in_region r va) (rev R)"

definition region_ok :: "xlat_port \<Rightarrow> mmap_region_t \<Rightarrow> bool" where
  "region_ok p r \<longleftrightarrow> rsize r \<noteq> 0 \<and> base_va r mod PAGE_SIZE = 0 \<and> rsize r mod PAGE_SIZE = 0 \<and>
     base_va r + rsize r \<le> PLAT_VIRT_ADDR_SPACE_SIZE p \<and> base_pa r + rsize r \<le> PLAT_PHY_ADDR_SPACE_SIZE p \<and>
     base_pa r mod 2 ^ 30 = base_va r mod 2 ^ 30 \<and> rattr r AND 7 \<le> 2"

definition no_region :: "mmap_region_t \<Rightarrow> bool" where
  "no_region r \<longleftrightarrow> rsize r = 0 \<and> base_va r = 0"

lemma lookup_Nil [simp]: "mmap_lookup [] va = None"
  by (simp add: mmap_lookup_def)

lemma lookup_snoc: "mmap_lookup (P @ [r]) va = (if in_region r va then Some r else mmap_lookup P va)"
  by (simp add: mmap_lookup_def)

lemma lookup_skip: "(\<And>r. r \<in> set Q \<Longrightarrow> \<not> in_region r va) \<Longrightarrow> mmap_lookup (P @ Q) va = mmap_lookup P va"
proof (induction Q rule: rev_induct)
  case (snoc r Q)
  then show ?case using lookup_snoc [of "P @ Q" r va] by simp
qed simp

lemma lookup_None: "(\<And>r. r \<in> set Q \<Longrightarrow> \<not> in_region r va) \<Longrightarrow> mmap_lookup Q va = None"
  using lookup_skip [of Q va "[]"] by simp

lemma lookup_Some: "mmap_lookup R va = Some r \<Longrightarrow> r \<in> set R \<and> in_region r va"
  unfolding mmap_lookup_def by (metis find_Some_iff nth_mem set_rev)

lemma area_end_eq: "0 < sz \<Longrightarrow> b + sz \<le> 2 ^ 64 \<Longrightarrow> area_end b sz = b + sz - 1"
proof -
  assume a: "0 < sz" "b + sz \<le> 2 ^ 64"
  have "b + sz + (2 ^ 64 - 1) = (b + sz - 1) + 2 ^ 64" using a by simp
  then have "area_end b sz = (b + sz - 1) mod 2 ^ 64" by (simp only: area_end_def wrap64_def mod_add_self2)
  then show ?thesis using a by simp
qed

section \<open>The attributes of an area\<close>

text \<open>\<^verbatim>\<open>mmap_region_attr()\<close> without the wrap-around and the end of the array.\<close>

fun region_attr :: "mmap_region_t list \<Rightarrow> nat \<Rightarrow> nat \<Rightarrow> u32 option \<Rightarrow> u32 option" where
  "region_attr [] va sz ret = ret"
| "region_attr (mm # rest) va sz ret =
     (if base_va mm \<ge> va + sz then ret
      else if base_va mm + rsize mm \<le> va then region_attr rest va sz ret
      else if ret = Some (rattr mm) then region_attr rest va sz ret
      else if base_va mm > va \<or> base_va mm + rsize mm < va + sz then None
      else region_attr rest va sz (Some (rattr mm)))"

lemma region_attr_run:
  assumes "\<forall>r \<in> set R. rsize r \<noteq> 0 \<and> base_va r + rsize r \<le> 2 ^ 64" "Z \<noteq> []" "rsize (hd Z) = 0" "0 < sz" "va + sz \<le> 2 ^ 64"
  shows "mmap_region_attr (R @ Z) va sz ret s = Ret (region_attr R va sz ret) s"
  using assms
proof (induction R arbitrary: ret)
  case Nil
  then show ?case by (cases Z) (simp_all add: prog_simps)
next
  case (Cons r R)
  have e: "area_end va sz = va + sz - 1" "region_end r = base_va r + rsize r - 1"
    using Cons.prems by (simp_all add: area_end_eq)
  have "rsize r \<noteq> 0" using Cons.prems by simp
  then show ?case using Cons by (auto simp: e prog_simps)
qed

definition partly :: "mmap_region_t \<Rightarrow> nat \<Rightarrow> nat \<Rightarrow> bool" where
  "partly r va sz \<longleftrightarrow> (\<exists>v. va \<le> v \<and> v < va + sz \<and> in_region r v) \<and> \<not> (base_va r \<le> va \<and> va + sz \<le> base_va r + rsize r)"

lemma aligned_cover:
  assumes "a mod n = 0" "b mod n = 0" "v mod n = 0" "0 < (n :: nat)" "a < v + n" "v < a + b"
  shows "a \<le> v \<and> v + n \<le> a + b"
proof -
  obtain i j l where "a = n * i" "b = n * j" "v = n * l" using assms(1-3) by (metis mod_0_imp_dvd dvdE)
  then have "n * i < n * (l + 1)" "n * l < n * (i + j)" using assms(5,6) by (simp_all add: algebra_simps)
  then have "i < l + 1" "l < i + j" using assms(4) by (simp_all only: mult_less_cancel1)
  then have "i \<le> l" "l + 1 \<le> i + j" by simp_all
  then have "n * i \<le> n * l" "n * (l + 1) \<le> n * (i + j)" by (simp_all only: mult_le_mono2)
  then show ?thesis using \<open>a = _\<close> \<open>b = _\<close> \<open>v = _\<close> by (simp add: algebra_simps)
qed

lemma aligned_not_partly:
  assumes "base_va r mod n = 0" "rsize r mod n = 0" "va mod n = 0" "0 < n"
  shows "\<not> partly r va n"
  using aligned_cover [OF assms] by (fastforce simp: partly_def in_region_def)

definition area_attr :: "mmap_region_t list \<Rightarrow> nat \<Rightarrow> nat \<Rightarrow> u32 option \<Rightarrow> bool" where
  "area_attr P va sz ret \<longleftrightarrow> (\<forall>v. va \<le> v \<and> v < va + sz \<longrightarrow> map_option rattr (mmap_lookup P v) = ret)"

lemma region_attr_spec:
  assumes "area_attr P va sz ret" "sorted_wrt (\<lambda>r s. base_va r \<le> base_va s) R" "\<forall>r \<in> set R. rsize r \<noteq> 0" "0 < sz"
  shows "(region_attr R va sz ret = Some a \<longrightarrow> area_attr (P @ R) va sz (Some a)) \<and>
    (region_attr R va sz ret = None \<longrightarrow> area_attr (P @ R) va sz None \<or> (\<exists>r \<in> set R. partly r va sz))"
  using assms
proof (induction R arbitrary: P ret)
  case Nil
  then show ?case by auto
next
  case (Cons r R)
  have step: ?case if "area_attr (P @ [r]) va sz ret'" "region_attr (r # R) va sz ret = region_attr R va sz ret'" for ret'
    using Cons.IH [OF that(1)] Cons.prems that(2) by auto
  consider "base_va r \<ge> va + sz" | "base_va r < va + sz" "base_va r + rsize r \<le> va"
    | "base_va r < va + sz" "va < base_va r + rsize r" "ret = Some (rattr r)"
    | "base_va r < va + sz" "va < base_va r + rsize r" "ret \<noteq> Some (rattr r)" "base_va r > va \<or> base_va r + rsize r < va + sz"
    | "base_va r < va + sz" "va < base_va r + rsize r" "ret \<noteq> Some (rattr r)" "base_va r \<le> va" "va + sz \<le> base_va r + rsize r"
    by linarith
  then show ?case
  proof cases
    case 1
    have "mmap_lookup (P @ r # R) v = mmap_lookup P v" if "va \<le> v" "v < va + sz" for v
      using 1 that Cons.prems(2) by (intro lookup_skip) (auto simp: in_region_def)
    then have "area_attr (P @ r # R) va sz ret" using Cons.prems(1) by (simp add: area_attr_def)
    then show ?thesis using 1 by auto
  next
    case 2
    then show ?thesis using Cons.prems(1) by (intro step [of ret]) (auto simp: area_attr_def lookup_snoc in_region_def)
  next
    case 3
    then show ?thesis using Cons.prems(1) by (intro step [of ret]) (auto simp: area_attr_def lookup_snoc)
  next
    case 4
    have "in_region r (max va (base_va r))" using 4 Cons.prems(3) by (auto simp: in_region_def max_def)
    then have "partly r va sz" unfolding partly_def using 4 Cons.prems(4) by (intro conjI exI [of _ "max va (base_va r)"]) auto
    then show ?thesis using 4 by auto
  next
    case 5
    then show ?thesis by (intro step [of "Some (rattr r)"]) (auto simp: area_attr_def lookup_snoc in_region_def)
  qed
qed

section \<open>Decoding a descriptor\<close>

lemma addr_bits:
  assumes "a mod PAGE_SIZE = 0" "a < 2 ^ 48" "bit a n"
  shows "12 \<le> n \<and> n < 48"
proof -
  have "take_bit 12 a = 0" "take_bit 48 a = a" using assms(1,2) by (simp_all add: take_bit_eq_mod)
  then show ?thesis using assms(3) by (metis bit_take_bit_iff bit_0_eq bot_apply bot_bool_def not_le)
qed

abbreviation el3_xn :: u64 where "el3_xn \<equiv> 0x40000000000000"
abbreviation el3_ap1 :: u64 where "el3_ap1 \<equiv> 0x40"

lemma attrs_cases:
  "mmap_attrs el3_xn el3_ap1 attr AND 0xFFFFFFFFF003 = 0" "mmap_attrs el3_xn el3_ap1 attr AND 0xFFFF000000000FFC = mmap_attrs el3_xn el3_ap1 attr"
  by (simp_all add: mmap_attrs_def LOWER_ATTRS_def)

lemma desc_masks:
  "(0xFFFFFFFFF000 :: u64) = mask 48 AND NOT (mask 12)" "(0xFFFF000000000FFC :: u64) = NOT (mask 48) OR (mask 12 AND NOT (mask 2))"
  "(0xFFFFFFFFF003 :: u64) = (mask 48 AND NOT (mask 12)) OR mask 2" "(3 :: u64) = mask 2"
  by (simp_all add: mask_eq_exp_minus_1)

lemma decode_desc:
  fixes w :: u64
  assumes a: "a mod PAGE_SIZE = 0" "a < 2 ^ 48" and w: "w AND 0xFFFFFFFFF003 = 0" and ty: "ty AND 3 = ty"
  shows "(of_nat a OR ty OR w) AND 3 = ty" "(of_nat a OR ty OR w) AND 0xFFFFFFFFF000 = of_nat a"
    "(of_nat a OR ty OR w) AND 0xFFFF000000000FFC = w AND 0xFFFF000000000FFC"
proof -
  have w': "\<not> (bit w n \<and> (n < 2 \<or> 12 \<le> n \<and> n < 48))" for n
    using arg_cong [OF w, of "\<lambda>x. bit x n"] unfolding desc_masks by (auto simp: bit_simps)
  have ty': "bit ty n \<Longrightarrow> n < 2" for n
    using arg_cong [OF ty, of "\<lambda>x. bit x n"] unfolding desc_masks by (auto simp: bit_simps)
  note b = addr_bits [OF a] w' ty'
  show "(of_nat a OR ty OR w) AND 3 = ty" unfolding desc_masks
  proof (rule bit_word_eqI)
    fix n :: nat assume "n < LENGTH(64)"
    then show "bit ((of_nat a OR ty OR w) AND mask 2) n = bit ty n" using b [of n] by (auto simp: bit_simps)
  qed
  show "(of_nat a OR ty OR w) AND 0xFFFFFFFFF000 = of_nat a" unfolding desc_masks
    by (rule bit_word_eqI) (use b in \<open>fastforce simp: bit_simps\<close>)
  show "(of_nat a OR ty OR w) AND 0xFFFF000000000FFC = w AND 0xFFFF000000000FFC" unfolding desc_masks
    by (rule bit_word_eqI) (use b in \<open>fastforce simp: bit_simps\<close>)
qed

section \<open>The width of physical addresses\<close>

definition ps_width :: "u64 \<Rightarrow> nat" where
  "ps_width b = [32, 36, 40, 42, 44, 48] ! unat b"

definition pa_supported :: "xlat_port \<Rightarrow> u64 \<Rightarrow> bool" where
  "pa_supported p mmfr0 \<longleftrightarrow> unat (mmfr0 AND 0xf) < 7 \<and>
     PLAT_PHY_ADDR_SPACE_SIZE p \<le> 2 ^ ([32, 36, 40, 42, 44, 48, 52] ! unat (mmfr0 AND 0xf))"

lemma clear_top:
  assumes "n < 2 ^ k" "(of_nat n :: u64) AND (mask k AND NOT (mask j)) = 0" "k \<le> 64"
  shows "n < 2 ^ j"
proof -
  have "take_bit k n = n" using assms(1) by (simp add: take_bit_eq_mod)
  then have k: "bit n i \<Longrightarrow> i < k" for i by (metis bit_take_bit_iff)
  have "\<not> (bit n i \<and> j \<le> i)" for i
    using arg_cong [OF assms(2), of "\<lambda>x. bit x i"] k [of i] assms(3) by (auto simp: bit_simps)
  then have "take_bit j n = n" by (intro bit_eqI) (auto simp: bit_simps not_le)
  then show ?thesis by (metis take_bit_nat_less_exp)
qed

lemma above48: "n < 2 ^ 48 \<Longrightarrow> (of_nat n :: u64) AND 0xFFFF000000000000 = 0"
proof -
  assume n: "n < 2 ^ 48"
  then have "take_bit 48 n = n" by (simp add: take_bit_eq_mod)
  then have b: "bit n i \<Longrightarrow> i < 48" for i by (metis bit_take_bit_iff)
  have m: "(0xFFFF000000000000 :: u64) = NOT (mask 48)" by (simp add: mask_eq_exp_minus_1)
  show ?thesis unfolding m by (rule bit_word_eqI) (use b in \<open>auto simp: bit_simps\<close>)
qed

lemma ps_masks:
  "(0x0000F00000000000 :: u64) = mask 48 AND NOT (mask 44)" "(0x00000C0000000000 :: u64) = mask 44 AND NOT (mask 42)"
  "(0x0000030000000000 :: u64) = mask 42 AND NOT (mask 40)" "(0x000000F000000000 :: u64) = mask 40 AND NOT (mask 36)"
  "(0x0000000F00000000 :: u64) = mask 36 AND NOT (mask 32)"
  by (simp_all add: mask_eq_exp_minus_1)

lemma calc_bits_fit:
  assumes "n < 2 ^ 48"
  shows "\<exists>b. calc_physical_addr_size_bits dbg (of_nat n) s = Ret b s \<and> n < 2 ^ ps_width b"
proof -
  note c = clear_top [of n 48 44] clear_top [of n 44 42] clear_top [of n 42 40] clear_top [of n 40 36] clear_top [of n 36 32]
  show ?thesis using assms above48 [OF assms] c [folded ps_masks]
    by (auto simp: calc_physical_addr_size_bits_def prog_simps ps_width_def)
qed

section \<open>How many tables are needed\<close>

text \<open>
  The size of a block at the depth \<open>d\<close> above the pages, whether a block needs a table of its own
  (it overlaps a region, and is not uniform), and how many tables it needs in all.
\<close>

definition bsz :: "nat \<Rightarrow> nat" where
  "bsz d = PAGE_SIZE * 512 ^ d"

definition overlapped :: "mmap_region_t list \<Rightarrow> nat \<Rightarrow> nat \<Rightarrow> bool" where
  "overlapped R va sz \<longleftrightarrow> (\<exists>r \<in> set R. base_va r < va + sz \<and> va < base_va r + rsize r)"

definition needs_table :: "mmap_region_t list \<Rightarrow> nat \<Rightarrow> nat \<Rightarrow> bool" where
  "needs_table R d va \<longleftrightarrow> overlapped R va (bsz d) \<and> (d \<ge> 3 \<or> region_attr R va (bsz d) None = None)"

primrec block_cost :: "mmap_region_t list \<Rightarrow> nat \<Rightarrow> nat \<Rightarrow> nat" where
  "block_cost R 0 va = 0"
| "block_cost R (Suc d) va =
     (if needs_table R (Suc d) va then 1 + (\<Sum>i < 512. block_cost R d (va + i * bsz d)) else 0)"

lemma block_size_bsz: "level \<le> 3 \<Longrightarrow> XLAT_BLOCK_SIZE level = bsz (3 - level)"
proof -
  have "(512 :: nat) ^ n = 2 ^ (n * 9)" for n using power_mult [of "2 :: nat" 9 n] by (simp add: mult.commute)
  then show "XLAT_BLOCK_SIZE level = bsz (3 - level)"
    by (simp only: XLAT_BLOCK_SIZE_def bsz_def power_add) simp
qed

lemma bsz_pos [simp]: "0 < bsz d" "bsz d \<noteq> 0"
  by (simp_all add: bsz_def)

lemma bsz_Suc: "bsz (Suc d) = 512 * bsz d"
  by (simp add: bsz_def)

section \<open>A good memory map\<close>

definition xlat_spec :: "mmap_region_t list \<Rightarrow> nat \<Rightarrow> (nat \<times> u64) option" where
  "xlat_spec R va =
     map_option (\<lambda>r. (va - base_va r + base_pa r, mmap_attrs el3_xn el3_ap1 (rattr r))) (mmap_lookup R va)"

definition base_depth :: "xlat_port \<Rightarrow> nat" where
  "base_depth p = 3 - GET_XLAT_TABLE_LEVEL_BASE (PLAT_VIRT_ADDR_SPACE_SIZE p)"

definition xlat_port_ok :: "xlat_port \<Rightarrow> bool" where
  "xlat_port_ok p \<longleftrightarrow> PLAT_VIRT_ADDR_SPACE_SIZE p > 0 \<and> PLAT_VIRT_ADDR_SPACE_SIZE p \<le> 2 ^ 48 \<and>
     bsz (base_depth p) dvd PLAT_VIRT_ADDR_SPACE_SIZE p \<and> PLAT_PHY_ADDR_SPACE_SIZE p \<le> 2 ^ 48 \<and>
     xlat_tables_addr p mod PAGE_SIZE = 0 \<and> xlat_tables_addr p + MAX_XLAT_TABLES p * PAGE_SIZE \<le> 2 ^ 48"

definition blocks_cost :: "mmap_region_t list \<Rightarrow> nat \<Rightarrow> nat \<Rightarrow> nat \<Rightarrow> nat" where
  "blocks_cost R d va m = (\<Sum>i < m. block_cost R d (va + i * bsz d))"

definition num_base_entries :: "xlat_port \<Rightarrow> nat" where
  "num_base_entries p = PLAT_VIRT_ADDR_SPACE_SIZE p div bsz (base_depth p)"

definition tables_needed :: "xlat_port \<Rightarrow> mmap_region_t list \<Rightarrow> nat" where
  "tables_needed p R = blocks_cost R (base_depth p) 0 (num_base_entries p)"

end
