(* ===== verification/Xlat_Fill.thy ===== *)
theory Xlat_Fill
  imports Xlat_Walk
begin

text \<open>
  The tables are right. The locale \<open>memory_map\<close> states what the filling of the tables relies on: a
  platform whose sizes fit the translation regime, and a list of regions that are aligned, in the
  order of their base addresses, and agree on the offset where they overlap. Inside it the recursive
  function is followed through one entry, one table and all tables.
\<close>

locale memory_map =
  fixes p :: xlat_port and R :: "mmap_region_t list"
  assumes port: "xlat_port_ok p" and regions: "\<forall>r \<in> set R. region_ok p r"
    and ordered: "sorted_wrt (\<lambda>r s. base_va r \<le> base_va s) R"
    and same_offset: "r \<in> set R \<Longrightarrow> t \<in> set R \<Longrightarrow> in_region r va \<Longrightarrow> in_region t va \<Longrightarrow>
      base_pa r + base_va t = base_pa t + base_va r"
begin

lemma portD:
  "PLAT_VIRT_ADDR_SPACE_SIZE p > 0" "PLAT_VIRT_ADDR_SPACE_SIZE p \<le> 2 ^ 48" "bsz (base_depth p) dvd PLAT_VIRT_ADDR_SPACE_SIZE p"
  "PLAT_PHY_ADDR_SPACE_SIZE p \<le> 2 ^ 48" "xlat_tables_addr p mod PAGE_SIZE = 0"
  "xlat_tables_addr p + MAX_XLAT_TABLES p * PAGE_SIZE \<le> 2 ^ 48"
  using port by (simp_all add: xlat_port_ok_def)

lemma regionD:
  assumes "r \<in> set R"
  shows "rsize r \<noteq> 0" "base_va r mod PAGE_SIZE = 0" "rsize r mod PAGE_SIZE = 0"
    "base_va r + rsize r \<le> PLAT_VIRT_ADDR_SPACE_SIZE p" "base_pa r + rsize r \<le> PLAT_PHY_ADDR_SPACE_SIZE p"
    "base_pa r mod 2 ^ 30 = base_va r mod 2 ^ 30" "rattr r AND 7 \<le> 2" "base_va r + rsize r \<le> 2 ^ 64"
  using assms regions portD(2) by (auto simp: region_ok_def)

lemma region_end: "r \<in> set R \<Longrightarrow> region_end r = base_va r + rsize r - 1"
  using regionD [of r] by (simp add: area_end_eq)

definition passed :: "nat \<Rightarrow> nat \<Rightarrow> bool" where
  "passed k va \<longleftrightarrow> k \<le> length R \<and> (\<forall>r \<in> set (take k R). base_va r + rsize r \<le> va)"

text \<open>The head of the list has not been passed.\<close>

definition ahead :: "nat \<Rightarrow> nat \<Rightarrow> bool" where
  "ahead k va \<longleftrightarrow> (k < length R \<longrightarrow> va < base_va (R ! k) + rsize (R ! k))"

lemma xlat_more_iff:
  assumes "level \<le> 3" "va \<le> PLAT_VIRT_ADDR_SPACE_SIZE p"
  shows "xlat_more p level va \<longleftrightarrow> va div bsz (3 - level) mod 512 \<noteq> 0 \<and> va < PLAT_VIRT_ADDR_SPACE_SIZE p"
proof (cases "va = 0")
  case False
  then have "va + (2 ^ 64 - 1) = (va - 1) + 2 ^ 64" by simp
  then have "wrap64 (va + (2 ^ 64 - 1)) = (va - 1) mod 2 ^ 64" unfolding wrap64_def by (simp only: mod_add_self2)
  also have "\<dots> = va - 1" using assms(2) portD(2) by simp
  finally show ?thesis using False assms by (auto simp: xlat_more_def block_size_bsz)
qed (use assms in \<open>simp add: xlat_more_def\<close>)

lemma skip_run:
  assumes "level \<le> 3" "va < PLAT_VIRT_ADDR_SPACE_SIZE p" "passed k va" "Z \<noteq> []" "rsize (hd Z) = 0"
    "va div bsz (3 - level) mod 512 = 0 \<longrightarrow> ahead k va"
  obtains k' where "k \<le> k'" "passed k' va" "ahead k' va"
    "init_xlation_table_inner p (drop k R @ Z) va table pos level s = init_xlation_table_inner p (drop k' R @ Z) va table pos level s"
  using assms(3,6)
proof (induction "length R - k" arbitrary: k thesis rule: less_induct)
  case less
  show ?case
  proof (cases "ahead k va")
    case False
    then have k: "k < length R" "base_va (R ! k) + rsize (R ! k) \<le> va" by (auto simp: ahead_def)
    then have mem: "R ! k \<in> set R" by simp
    have idx: "va div bsz (3 - level) mod 512 \<noteq> 0" using False less.prems(3) by blast
    have d: "drop k R @ Z = R ! k # drop (Suc k) R @ Z" using k(1) by (simp add: Cons_nth_drop_Suc)
    have "region_end (R ! k) < va" using k(2) regionD(1) [OF mem] region_end [OF mem] by simp
    then have run: "init_xlation_table_inner p (drop k R @ Z) va table pos level s =
      init_xlation_table_inner p (drop (Suc k) R @ Z) va table pos level s"
      unfolding d using assms(1,2) regionD(1) [OF mem] idx
      by (subst init_xlation_table_inner.simps) (simp add: xlat_more_iff)
    have "passed (Suc k) va" using less.prems(2) k by (auto simp: passed_def take_Suc_conv_app_nth)
    then show ?thesis using less.hyps [of "Suc k"] k(1) idx run less.prems(1) by (metis Suc_leD diff_less_mono2 lessI)
  qed (use less.prems in blast)
qed

definition good_desc :: "nat \<Rightarrow> nat \<Rightarrow> xlat_state \<Rightarrow> nat \<Rightarrow> nat \<Rightarrow> u64 \<Rightarrow> bool" where
  "good_desc lo hi s d va desc \<longleftrightarrow>
     (\<forall>s' v. (\<forall>n j. lo \<le> n \<and> n < hi \<longrightarrow> xlat_tables s' ! n ! j = xlat_tables s ! n ! j) \<longrightarrow>
       va \<le> v \<longrightarrow> v < va + bsz d \<longrightarrow> mmu_desc p s' desc (3 - d) v = xlat_spec R v)"

lemma good_desc_mono:
  assumes "good_desc lo hi s d va desc" "lo' \<le> lo" "hi \<le> hi'"
    "\<And>n j. lo \<le> n \<Longrightarrow> n < hi \<Longrightarrow> xlat_tables s' ! n ! j = xlat_tables s ! n ! j"
  shows "good_desc lo' hi' s' d va desc"
  unfolding good_desc_def
proof (intro allI impI)
  fix u :: xlat_state and v
  assume "\<forall>n j. lo' \<le> n \<and> n < hi' \<longrightarrow> xlat_tables u ! n ! j = xlat_tables s' ! n ! j" "va \<le> v" "v < va + bsz d"
  then show "mmu_desc p u desc (3 - d) v = xlat_spec R v"
    using assms by (intro assms(1) [unfolded good_desc_def, rule_format]) auto
qed

lemma attr_of_rest:
  assumes "passed k va" "0 < sz"
  shows "region_attr R va sz None = region_attr (drop k R) va sz None"
proof -
  have "region_attr (P @ Q) va sz None = region_attr Q va sz None" if "\<forall>r \<in> set P. base_va r + rsize r \<le> va" for P Q
    using that assms(2) by (induction P) auto
  then show ?thesis using assms(1) unfolding passed_def by (metis append_take_drop_id)
qed

lemma lookup_rest: "passed k va \<Longrightarrow> va \<le> v \<Longrightarrow> mmap_lookup R v = mmap_lookup (drop k R) v"
proof -
  assume a: "passed k va" "va \<le> v"
  have "mmap_lookup (P @ Q) v = mmap_lookup Q v" if "\<forall>r \<in> set P. \<not> in_region r v" for P Q
  proof (induction Q rule: rev_induct)
    case (snoc r Q)
    then show ?case using lookup_snoc [of "P @ Q" r v] by (simp add: lookup_snoc)
  qed (use that in \<open>simp add: lookup_None\<close>)
  moreover have "\<forall>r \<in> set (take k R). \<not> in_region r v" using a by (auto simp: passed_def in_region_def)
  ultimately show ?thesis using append_take_drop_id [of k R] by metis
qed

text \<open>The descriptor of an entry that needs no table of its own.\<close>

lemma entry_none:
  assumes "passed k va" "k < length R \<longrightarrow> va + bsz d \<le> base_va (R ! k)" "va \<le> v" "v < va + bsz d"
  shows "mmap_lookup R v = None"
proof -
  have "\<not> in_region r v" if "r \<in> set (drop k R)" for r
  proof -
    have "k < length R" using that by (cases "k < length R") simp_all
    moreover from this have "drop k R = R ! k # drop (Suc k) R" by (simp add: Cons_nth_drop_Suc)
    moreover have "sorted_wrt (\<lambda>r s. base_va r \<le> base_va s) (drop k R)" using ordered by (rule sorted_wrt_drop)
    ultimately have "base_va (R ! k) \<le> base_va r" using that by auto
    then show ?thesis using assms \<open>k < length R\<close> by (simp add: in_region_def)
  qed
  then show ?thesis using lookup_rest [OF assms(1,3)] lookup_None by metis
qed

lemma rest_ok:
  "\<forall>r \<in> set (drop k R). rsize r \<noteq> 0 \<and> base_va r + rsize r \<le> 2 ^ 64"
  using regionD(1,8) by (meson in_set_dropD)

lemma attr_Some:
  assumes "passed k va" "k < length R" "region_attr R va sz None = Some attr" "0 < sz" "base_va (R ! k) < va + sz" "ahead k va"
  shows "base_va (R ! k) \<le> va" "va + sz \<le> base_va (R ! k) + rsize (R ! k)" "attr AND 7 \<le> 2"
    "\<And>v. va \<le> v \<Longrightarrow> v < va + sz \<Longrightarrow> xlat_spec R v = Some (v - base_va (R ! k) + base_pa (R ! k), mmap_attrs el3_xn el3_ap1 attr)"
proof -
  have dr: "drop k R = R ! k # drop (Suc k) R" using assms(2) by (simp add: Cons_nth_drop_Suc)
  have "region_attr (R ! k # drop (Suc k) R) va sz None = Some attr" using assms(3) attr_of_rest [OF assms(1,4)] dr by simp
  then show c: "base_va (R ! k) \<le> va" "va + sz \<le> base_va (R ! k) + rsize (R ! k)"
    using assms(5,6,2) by (auto simp: ahead_def split: if_splits)
  have "area_attr [] va sz None" by (simp add: area_attr_def)
  from region_attr_spec [OF this ordered _ assms(4)] regionD(1) assms(3) have aa: "area_attr R va sz (Some attr)" by simp
  have mem: "R ! k \<in> set R" using assms(2) by simp
  have look: "\<exists>r. mmap_lookup R v = Some r \<and> rattr r = attr \<and> r \<in> set R \<and> in_region r v" if "va \<le> v" "v < va + sz" for v
    using aa that lookup_Some [of R v] by (fastforce simp: area_attr_def)
  show "attr AND 7 \<le> 2" using look [of va] assms(4) regionD(7) by auto
  fix v
  assume v: "va \<le> v" "v < va + sz"
  then obtain r where r: "mmap_lookup R v = Some r" "rattr r = attr" "r \<in> set R" "in_region r v" using look by blast
  have "in_region (R ! k) v" using c v by (simp add: in_region_def)
  from same_offset [OF r(3) mem r(4) this] have "v - base_va r + base_pa r = v - base_va (R ! k) + base_pa (R ! k)"
    using r(4) \<open>in_region (R ! k) v\<close> by (simp add: in_region_def)
  then show "xlat_spec R v = Some (v - base_va (R ! k) + base_pa (R ! k), mmap_attrs el3_xn el3_ap1 attr)"
    using r by (simp add: xlat_spec_def)
qed

lemma overlapped_iff:
  assumes "passed k va" "ahead k va" "0 < sz"
  shows "overlapped R va sz \<longleftrightarrow> k < length R \<and> base_va (R ! k) < va + sz"
proof
  assume "overlapped R va sz"
  then obtain r where r: "r \<in> set R" "base_va r < va + sz" "va < base_va r + rsize r" by (auto simp: overlapped_def)
  then have "r \<notin> set (take k R)" using assms(1) by (auto simp: passed_def)
  then have "r \<in> set (drop k R)" using r(1) append_take_drop_id [of k R] by (metis Un_iff set_append)
  then obtain i where "k \<le> i" "i < length R" "r = R ! i"
    by (metis in_set_conv_nth length_drop less_diff_conv2 nth_drop add.commute le_add1 less_diff_conv nat_le_linear drop_all empty_iff list.set(1))
  then show "k < length R \<and> base_va (R ! k) < va + sz" using r(2) ordered
    by (metis le_less_trans le_neq_implies_less sorted_wrt_iff_nth_less)
next
  assume "k < length R \<and> base_va (R ! k) < va + sz"
  then show "overlapped R va sz" using assms(2) by (auto simp: overlapped_def ahead_def)
qed

text \<open>A block that needs a table has a region that covers only a part of it.\<close>

lemma needs_partly:
  assumes "needs_table R d va" "d < 3"
  shows "\<exists>r \<in> set R. partly r va (bsz d)"
proof (rule ccontr)
  assume none: "\<not> (\<exists>r \<in> set R. partly r va (bsz d))"
  have o: "overlapped R va (bsz d)" and n: "region_attr R va (bsz d) None = None"
    using assms by (auto simp: needs_table_def)
  have "area_attr [] va (bsz d) None" by (simp add: area_attr_def)
  then have "area_attr R va (bsz d) None"
    using region_attr_spec [of "[]" va "bsz d" None R] ordered regionD(1) n none by auto
  then have out: "\<not> in_region r v" if "r \<in> set R" "va \<le> v" "v < va + bsz d" for r v
    using that by (auto simp: area_attr_def mmap_lookup_def find_None_iff)
  obtain r where r: "r \<in> set R" "base_va r < va + bsz d" "va < base_va r + rsize r" using o by (auto simp: overlapped_def)
  have "in_region r (max va (base_va r))" using r regionD(1) [OF r(1)] by (auto simp: in_region_def max_def)
  then show False using out [OF r(1), of "max va (base_va r)"] r(2) by simp
qed

lemma page_level: "va mod PAGE_SIZE = 0 \<Longrightarrow> \<not> needs_table R 0 va"
  using needs_partly [of 0 va] aligned_not_partly [of _ PAGE_SIZE va] regionD(2,3) by (auto simp: bsz_def)

definition masks_set :: "xlat_state \<Rightarrow> bool" where
  "masks_set s \<longleftrightarrow> execute_never_mask s = el3_xn \<and> ap1_mask s = el3_ap1"

lemma desc_run:
  assumes "a mod bsz d = 0" "attr AND 7 \<le> 2" "masks_set s" "d \<le> 3"
  shows "mmap_desc (xl_assertions p) attr a (3 - d) s =
    Ret (of_nat a OR (if d = 0 then 3 else 1) OR mmap_attrs el3_xn el3_ap1 attr) s"
  using assms by (auto simp: mmap_desc_def prog_simps block_size_bsz masks_set_def)

lemma page_dvd: "PAGE_SIZE dvd bsz d"
  by (simp add: bsz_def)

lemma block_good:
  assumes "a mod bsz d = 0" "a + bsz d \<le> 2 ^ 48" "d \<le> 2" "bsz d dvd va"
    "\<And>v. va \<le> v \<Longrightarrow> v < va + bsz d \<Longrightarrow> xlat_spec R v = Some (v - va + a, mmap_attrs el3_xn el3_ap1 attr)"
  shows "good_desc 0 0 s d va (of_nat a OR (if d = 0 then 3 else 1) OR mmap_attrs el3_xn el3_ap1 attr)"
  unfolding good_desc_def
proof (intro allI impI)
  fix s' :: xlat_state and v
  assume v: "va \<le> v" "v < va + bsz d"
  have "a mod PAGE_SIZE = 0" using assms(1) page_dvd by (metis mod_0_imp_dvd dvd_trans dvd_imp_mod_0)
  moreover have a: "a < 2 ^ 48" using assms(2) bsz_pos [of d] by linarith
  ultimately have dec: "(of_nat a OR (if d = 0 then 3 else 1) OR mmap_attrs el3_xn el3_ap1 attr) AND 3 = (if d = 0 then 3 else 1)"
    "(of_nat a OR (if d = 0 then 3 else 1) OR mmap_attrs el3_xn el3_ap1 attr) AND 0xFFFFFFFFF000 = of_nat a"
    "(of_nat a OR (if d = 0 then 3 else 1) OR mmap_attrs el3_xn el3_ap1 attr) AND 0xFFFF000000000FFC = mmap_attrs el3_xn el3_ap1 attr"
    using attrs_cases by (subst decode_desc; simp)+
  have u: "unat (of_nat a :: u64) = a" using a by (simp add: unat_of_nat take_bit_eq_mod)
  obtain q where "va = bsz d * q" using assms(4) by blast
  then have m: "v mod bsz d = v - va" using v by (metis add_diff_inverse_nat mod_less mod_mult_self2 mult.commute not_less add.commute less_diff_conv2)
  show "mmu_desc p s' (of_nat a OR (if d = 0 then 3 else 1) OR mmap_attrs el3_xn el3_ap1 attr) (3 - d) v = xlat_spec R v"
    using assms(3,5) v by (subst mmu_desc.simps) (auto simp: dec u m block_size_bsz)
qed

lemma invalid_good:
  assumes "\<And>v. va \<le> v \<Longrightarrow> v < va + bsz d \<Longrightarrow> mmap_lookup R v = None"
  shows "good_desc 0 0 s d va 0"
  unfolding good_desc_def using assms by (auto simp: mmu_desc.simps xlat_spec_def)

lemma bsz_le: "d \<le> e \<Longrightarrow> bsz d dvd bsz e"
  by (simp add: bsz_def le_imp_power_dvd)

lemma region_offset:
  assumes "r \<in> set R" "base_va r \<le> va" "va + bsz d \<le> base_va r + rsize r" "bsz d dvd va" "d \<le> 2"
  shows "wrap64 (va + 2 ^ 64 - base_va r + base_pa r) = va - base_va r + base_pa r"
    "(va - base_va r + base_pa r) mod bsz d = 0" "va - base_va r + base_pa r + bsz d \<le> 2 ^ 48"
proof -
  let ?a = "va - base_va r + base_pa r"
  show b: "?a + bsz d \<le> 2 ^ 48" using assms(2,3) regionD(5) [OF assms(1)] portD(4) by linarith
  have "va + 2 ^ 64 - base_va r + base_pa r = ?a + 2 ^ 64" using assms(2) by simp
  moreover have "?a < 2 ^ 64" using b bsz_pos(1) [of d] by simp
  ultimately show "wrap64 (va + 2 ^ 64 - base_va r + base_pa r) = ?a" unfolding wrap64_def by (simp only: mod_add_self2 mod_less)
  have "bsz 2 = 2 ^ 30" by (simp add: bsz_def)
  then have "bsz d dvd 2 ^ 30" using bsz_le [OF assms(5)] by simp
  then have "base_pa r mod bsz d = base_va r mod bsz d" using regionD(6) [OF assms(1)] by (metis mod_mod_cancel)
  then have "base_va r = bsz d * (base_va r div bsz d) + base_pa r mod bsz d"
    "base_pa r = bsz d * (base_pa r div bsz d) + base_pa r mod bsz d" by (metis mult_div_mod_eq)+
  then have "?a + bsz d * (base_va r div bsz d) = va + bsz d * (base_pa r div bsz d)" using assms(2) by linarith
  moreover have "bsz d dvd va + bsz d * (base_pa r div bsz d)" using assms(4) by simp
  ultimately have "bsz d dvd ?a" by (metis dvd_add_left_iff dvd_triv_left)
  then show "?a mod bsz d = 0" by simp
qed

definition sentinel :: "mmap_region_t list \<Rightarrow> bool" where
  "sentinel Z \<longleftrightarrow> Z \<noteq> [] \<and> rsize (hd Z) = 0 \<and> base_va (hd Z) = 0"

lemma entry_run:
  assumes "d \<le> 3" "bsz d dvd va" "va + bsz d \<le> PLAT_VIRT_ADDR_SPACE_SIZE p" "passed k va" "ahead k va" "sentinel Z" "masks_set s"
  shows "if needs_table R d va then xlat_entry_desc p (drop k R @ Z) va (3 - d) s = Ret None s
    else \<exists>desc. xlat_entry_desc p (drop k R @ Z) va (3 - d) s = Ret (Some desc) s \<and> good_desc 0 0 s d va desc"
proof -
  have le64: "va + bsz d \<le> 2 ^ 64" using assms(3) portD(2) by simp
  have end': "area_end va (bsz d) = va + bsz d - 1" using le64 by (simp add: area_end_eq)
  have ra: "mmap_region_attr (drop k R @ Z) va (bsz d) None s = Ret (region_attr R va (bsz d) None) s"
    using region_attr_run [OF rest_ok, of Z "bsz d" va k] assms(6) le64 attr_of_rest [OF assms(4) bsz_pos(1)]
    by (simp add: sentinel_def)
  have bs: "XLAT_BLOCK_SIZE (3 - d) = bsz d" using assms(1) by (simp add: block_size_bsz)
  note ov = overlapped_iff [OF assms(4,5) bsz_pos(1), of d]
  show ?thesis
  proof (cases "overlapped R va (bsz d)")
    case False
    then have none: "good_desc 0 0 s d va 0"
      by (intro invalid_good entry_none [OF assms(4)]) (use ov in auto)
    have "xlat_entry_desc p (drop k R @ Z) va (3 - d) s = Ret (Some 0) s"
    proof (cases "k < length R")
      case True
      then have "hd (drop k R @ Z) = R ! k" by (simp add: hd_append hd_drop_conv_nth)
      moreover have "va + bsz d - 1 < base_va (R ! k)" using False ov True bsz_pos(1) [of d] by linarith
      ultimately show ?thesis
        by (simp add: xlat_entry_desc_def Let_def bs end' prog_simps)
    next
      case False
      then have "region_attr R va (bsz d) None = None" using attr_of_rest [OF assms(4) bsz_pos(1)] by simp
      then show ?thesis using False ra assms(6)
        by (simp add: xlat_entry_desc_def Let_def bs mbind_run prog_simps sentinel_def)
    qed
    then show ?thesis using none False by (auto simp: needs_table_def)
  next
    case True
    with ov have k: "k < length R" "base_va (R ! k) < va + bsz d" by auto
    then have hd: "hd (drop k R @ Z) = R ! k" by (simp add: hd_append hd_drop_conv_nth)
    have mem: "R ! k \<in> set R" using k by simp
    have nlt: "\<not> area_end va (bsz d) < base_va (R ! k)" using k(2) by (simp add: end')
    have run: "xlat_entry_desc p (drop k R @ Z) va (3 - d) s =
        (if d \<ge> 3 then Ret None s else case region_attr R va (bsz d) None of None \<Rightarrow> Ret None s
         | Some attr \<Rightarrow> mbind (mmap_desc (xl_assertions p) attr (wrap64 (va + 2 ^ 64 - base_va (R ! k) + base_pa (R ! k))) (3 - d))
             (\<lambda>x. mret (Some x)) s)"
      using regionD(1) [OF mem] ra assms(1) nlt
      by (auto simp: xlat_entry_desc_def Let_def bs hd mbind_run prog_simps split: option.splits)
    show ?thesis
    proof (cases "d \<ge> 3 \<or> region_attr R va (bsz d) None = None")
      case True
      then show ?thesis using run \<open>overlapped R va (bsz d)\<close> by (auto simp: needs_table_def)
    next
      case False
      then obtain attr where attr: "region_attr R va (bsz d) None = Some attr" and d: "d \<le> 2" by auto
      note c = attr_Some [OF assms(4) k(1) attr bsz_pos(1) k(2) assms(5)]
      note off = region_offset [OF mem c(1,2) assms(2) d]
      have "good_desc 0 0 s d va (of_nat (va - base_va (R ! k) + base_pa (R ! k)) OR (if d = 0 then 3 else 1) OR mmap_attrs el3_xn el3_ap1 attr)"
        by (rule block_good [OF off(2,3) d assms(2)]) (use c(1,4) in auto)
      then show ?thesis using False run attr off(1) desc_run [OF off(2) c(3) assms(7,1)]
        by (auto simp: needs_table_def mbind_run prog_simps)
    qed
  qed
qed

subsection \<open>The tables after a part of the work\<close>

text \<open>
  \<open>m\<close> entries of the table \<open>tb\<close> from \<open>pos\<close> on have been filled for the blocks from \<open>va\<close> on. Nothing
  of the old tables has changed but these entries.
\<close>

definition table_of :: "xlat_state \<Rightarrow> xlat_table \<Rightarrow> u64 list" where
  "table_of s tb = (case tb of Base \<Rightarrow> base_xlation_table s | Sub n \<Rightarrow> xlat_tables s ! n)"

definition old_table :: "xlat_state \<Rightarrow> xlat_table \<Rightarrow> bool" where
  "old_table s tb \<longleftrightarrow> (case tb of Base \<Rightarrow> True | Sub n \<Rightarrow> n < next_xlat s)"

definition tables_frame :: "xlat_state \<Rightarrow> xlat_state \<Rightarrow> bool" where
  "tables_frame s s' \<longleftrightarrow> mmap s' = mmap s \<and> xlat_max_pa s' = xlat_max_pa s \<and> xlat_max_va s' = xlat_max_va s \<and>
     execute_never_mask s' = execute_never_mask s \<and> ap1_mask s' = ap1_mask s \<and> tcr_ps_bits s' = tcr_ps_bits s \<and>
     sctlr_el3 s' = sctlr_el3 s \<and>
     length (base_xlation_table s') = length (base_xlation_table s) \<and>
     map length (xlat_tables s') = map length (xlat_tables s)"

abbreviation cost_of :: "nat \<Rightarrow> nat \<Rightarrow> nat \<Rightarrow> nat" where
  "cost_of \<equiv> blocks_cost R"

definition filled :: "nat \<Rightarrow> nat \<Rightarrow> nat \<Rightarrow> xlat_table \<Rightarrow> nat \<Rightarrow> xlat_state \<Rightarrow> xlat_state \<Rightarrow> bool" where
  "filled d va m tb pos s s' \<longleftrightarrow>
     tables_frame s s' \<and> next_xlat s' = next_xlat s + cost_of d va m \<and>
     (\<forall>t j. old_table s t \<and> (t = tb \<longrightarrow> j < pos \<or> pos + m \<le> j) \<longrightarrow> table_of s' t ! j = table_of s t ! j) \<and>
     (\<forall>i < m. good_desc (next_xlat s) (next_xlat s') s' d (va + i * bsz d) (table_of s' tb ! (pos + i)))"

lemma cost_of_add: "cost_of d va (m + n) = cost_of d va m + cost_of d (va + m * bsz d) n"
  by (induction n) (simp_all add: blocks_cost_def algebra_simps)

lemma filled_append:
  assumes "old_table s tb" "filled d va m tb pos s s1" "filled d (va + m * bsz d) n tb (pos + m) s1 s2"
  shows "filled d va (m + n) tb pos s s2"
proof -
  note f = assms(2,3) [unfolded filled_def]
  have nx: "next_xlat s1 = next_xlat s + cost_of d va m" "next_xlat s2 = next_xlat s1 + cost_of d (va + m * bsz d) n"
    using f by simp_all
  have old: "old_table s t \<Longrightarrow> old_table s1 t" for t using nx by (auto simp: old_table_def split: xlat_table.splits)
  have sub: "xlat_tables s2 ! i ! j = xlat_tables s1 ! i ! j" if "next_xlat s \<le> i" "i < next_xlat s1" for i j
  proof -
    have "old_table s1 (Sub i)" "Sub i \<noteq> tb" using that assms(1) by (auto simp: old_table_def)
    then have "table_of s2 (Sub i) ! j = table_of s1 (Sub i) ! j" using f(2) by blast
    then show ?thesis by (simp add: table_of_def)
  qed
  have "good_desc (next_xlat s) (next_xlat s2) s2 d (va + i * bsz d) (table_of s2 tb ! (pos + i))" if "i < m + n" for i
  proof (cases "i < m")
    case True
    then have "good_desc (next_xlat s) (next_xlat s1) s1 d (va + i * bsz d) (table_of s1 tb ! (pos + i))" using f(1) by blast
    moreover have "table_of s2 tb ! (pos + i) = table_of s1 tb ! (pos + i)" using f(2) old [OF assms(1)] True by simp
    ultimately show ?thesis using sub nx(2) by (auto elim!: good_desc_mono)
  next
    case False
    then have "i - m < n" using that by simp
    then have "good_desc (next_xlat s1) (next_xlat s2) s2 d (va + m * bsz d + (i - m) * bsz d) (table_of s2 tb ! (pos + m + (i - m)))"
      using f(2) by blast
    moreover have "va + m * bsz d + (i - m) * bsz d = va + i * bsz d" using False by (simp add: add.assoc flip: add_mult_distrib)
    ultimately show ?thesis using False nx(1) by (auto elim!: good_desc_mono)
  qed
  moreover have "table_of s2 t ! j = table_of s t ! j" if "old_table s t" "t = tb \<longrightarrow> j < pos \<or> pos + (m + n) \<le> j" for t j
  proof -
    have "table_of s2 t ! j = table_of s1 t ! j" using f(2) old [OF that(1)] that(2) by auto
    also have "\<dots> = table_of s t ! j" using f(1) that by auto
    finally show ?thesis .
  qed
  moreover have "tables_frame s s2" using f unfolding tables_frame_def by simp
  ultimately show ?thesis unfolding filled_def using nx cost_of_add by auto
qed

text \<open>The descriptor of a table whose entries are good.\<close>

lemma table_no_addr:
  assumes "n < MAX_XLAT_TABLES p"
  shows "(3 OR of_nat (table_addr p n) :: u64) AND 3 = 3" "table_no p (3 OR of_nat (table_addr p n)) = n"
proof -
  have a: "table_addr p n mod PAGE_SIZE = 0" using portD(5) by (simp add: table_addr_def)
  have "table_addr p n < xlat_tables_addr p + MAX_XLAT_TABLES p * PAGE_SIZE" using assms by (simp add: table_addr_def)
  then have b: "table_addr p n < 2 ^ 48" using portD(6) by linarith
  have c: "(3 OR of_nat (table_addr p n) :: u64) = of_nat (table_addr p n) OR 3 OR 0" by (simp add: or.commute)
  show "(3 OR of_nat (table_addr p n) :: u64) AND 3 = 3" unfolding c by (rule decode_desc(1) [OF a b]) simp_all
  have "unat ((3 OR of_nat (table_addr p n) :: u64) AND 0xFFFFFFFFF000) = table_addr p n"
    unfolding c using b by (subst decode_desc(2) [OF a b]) (simp_all add: unat_of_nat take_bit_eq_mod)
  then show "table_no p (3 OR of_nat (table_addr p n)) = n" by (simp add: table_no_def table_addr_def)
qed

lemma block_index:
  assumes "bsz (Suc d) dvd va" "va \<le> v" "v < va + bsz (Suc d)"
  obtains i where "i < 512" "v div bsz d mod 512 = i" "va + i * bsz d \<le> v" "v < va + i * bsz d + bsz d"
proof -
  obtain q where q: "va = bsz d * (512 * q)" using assms(1) by (auto simp: bsz_Suc algebra_simps)
  define i where "i = (v - va) div bsz d"
  have "i < 512" unfolding i_def using assms(2,3) by (simp add: bsz_Suc less_mult_imp_div_less)
  have v: "v = va + (v - va)" using assms(2) by simp
  have "v div bsz d = 512 * q + i" unfolding i_def by (subst v, subst q) simp
  then have "v div bsz d mod 512 = i" using \<open>i < 512\<close> by simp
  moreover have "i * bsz d \<le> v - va" "v - va < i * bsz d + bsz d"
    unfolding i_def using dividend_less_div_times [OF bsz_pos(1) [of d], of "v - va"] by (simp_all add: div_times_less_eq_dividend)
  ultimately show ?thesis using that \<open>i < 512\<close> assms(2) by simp
qed

lemma table_good:
  assumes "n < MAX_XLAT_TABLES p" "lo \<le> n" "n < hi" "lo \<le> lo'" "d < 3" "bsz (Suc d) dvd va"
    "\<And>i. i < 512 \<Longrightarrow> good_desc lo' hi s d (va + i * bsz d) (xlat_tables s ! n ! i)"
  shows "good_desc lo hi s (Suc d) va (3 OR of_nat (table_addr p n))"
  unfolding good_desc_def
proof (intro allI impI)
  fix s' :: xlat_state and v
  assume same: "\<forall>m j. lo \<le> m \<and> m < hi \<longrightarrow> xlat_tables s' ! m ! j = xlat_tables s ! m ! j"
    and v: "va \<le> v" "v < va + bsz (Suc d)"
  obtain i where i: "i < 512" "v div bsz d mod 512 = i" "va + i * bsz d \<le> v" "v < va + i * bsz d + bsz d"
    using block_index [OF assms(6) v] .
  have "XLAT_BLOCK_SIZE (3 - Suc d + 1) = bsz d" "3 - Suc d + 1 = 3 - d" "3 - Suc d < 3" using assms(5) by (simp_all add: block_size_bsz)
  then have "mmu_desc p s' (3 OR of_nat (table_addr p n)) (3 - Suc d) v = mmu_desc p s' (xlat_tables s' ! n ! i) (3 - d) v"
    using table_no_addr [OF assms(1)] i(2) by (subst mmu_desc.simps) simp
  also have "\<dots> = xlat_spec R v"
    using assms(2-4) assms(7) [OF i(1)] same i(3,4) unfolding good_desc_def by auto
  finally show "mmu_desc p s' (3 OR of_nat (table_addr p n)) (3 - Suc d) v = xlat_spec R v" .
qed

subsection \<open>One entry\<close>

definition put_desc :: "xlat_state \<Rightarrow> xlat_table \<Rightarrow> nat \<Rightarrow> u64 \<Rightarrow> xlat_state" where
  "put_desc s tb pos desc =
     (case tb of Base \<Rightarrow> s\<lparr>base_xlation_table := (base_xlation_table s)[pos := desc]\<rparr>
      | Sub n \<Rightarrow> s\<lparr>xlat_tables := (xlat_tables s)[n := (xlat_tables s ! n)[pos := desc]]\<rparr>)"

definition tables_wf :: "xlat_state \<Rightarrow> bool" where
  "tables_wf s \<longleftrightarrow> masks_set s \<and> map length (xlat_tables s) = replicate (MAX_XLAT_TABLES p) 512 \<and> next_xlat s \<le> MAX_XLAT_TABLES p"

lemma tables_wfD:
  assumes "tables_wf s"
  shows "length (xlat_tables s) = MAX_XLAT_TABLES p" "n < MAX_XLAT_TABLES p \<Longrightarrow> length (xlat_tables s ! n) = 512"
proof -
  show l: "length (xlat_tables s) = MAX_XLAT_TABLES p" using assms unfolding tables_wf_def by (metis length_map length_replicate)
  assume "n < MAX_XLAT_TABLES p"
  then have "map length (xlat_tables s) ! n = 512" using assms by (simp add: tables_wf_def)
  then show "length (xlat_tables s ! n) = 512" using l \<open>n < MAX_XLAT_TABLES p\<close> by simp
qed

lemma old_in_range: "tables_wf s \<Longrightarrow> old_table s (Sub n) \<Longrightarrow> n < length (xlat_tables s)"
  using tables_wfD(1) [of s] by (simp add: old_table_def tables_wf_def)

lemma store_run:
  assumes "tables_wf s" "old_table s tb" "pos < length (table_of s tb)"
  shows "store_desc tb pos desc s = Ret () (put_desc s tb pos desc)"
  using assms old_in_range [OF assms(1)]
  by (cases tb) (simp_all add: store_desc_def put_desc_def table_of_def prog_simps)

lemma frame_put: "old_table s tb \<Longrightarrow> tables_wf s \<Longrightarrow> tables_frame s (put_desc s tb pos desc)"
  using old_in_range [of s]
  by (cases tb) (auto simp: put_desc_def tables_frame_def map_update list_update_same_conv)

lemma table_of_put:
  assumes "old_table s tb" "tables_wf s" "pos < length (table_of s tb)"
  shows "table_of (put_desc s tb pos desc) tb ! pos = desc" "t \<noteq> tb \<or> j \<noteq> pos \<Longrightarrow> table_of (put_desc s tb pos desc) t ! j = table_of s t ! j"
  using assms old_in_range [of s]
  by (auto simp: put_desc_def table_of_def nth_list_update split: xlat_table.splits)

lemma next_put [simp]: "next_xlat (put_desc s tb pos desc) = next_xlat s"
  by (simp add: put_desc_def split: xlat_table.split)

lemma frame_wf: "tables_frame s s' \<Longrightarrow> tables_wf s \<Longrightarrow> next_xlat s' \<le> MAX_XLAT_TABLES p \<Longrightarrow> tables_wf s'"
  by (simp add: tables_frame_def tables_wf_def masks_set_def)

lemma frame_length:
  assumes "tables_frame s s'" "old_table s t" "tables_wf s"
  shows "length (table_of s' t) = length (table_of s t)"
proof (cases t)
  case (Sub n)
  then have "n < length (xlat_tables s)" using assms(2,3) old_in_range by blast
  moreover have m: "map length (xlat_tables s') = map length (xlat_tables s)" using assms(1) by (simp add: tables_frame_def)
  ultimately have "map length (xlat_tables s') ! n = length (xlat_tables s ! n)" "n < length (xlat_tables s')"
    by (simp, metis length_map)
  then show ?thesis using Sub by (simp add: table_of_def)
qed (use assms in \<open>simp add: table_of_def tables_frame_def\<close>)

lemma filled_one:
  assumes s1: "tables_frame s s1" "next_xlat s1 = next_xlat s + block_cost R d va"
    "\<And>t j. old_table s t \<Longrightarrow> table_of s1 t ! j = table_of s t ! j"
    and good: "good_desc (next_xlat s) (next_xlat s1) s1 d va desc"
    and tb: "old_table s tb" "pos < length (table_of s tb)" and wf: "tables_wf s" "tables_wf s1"
  shows "filled d va 1 tb pos s (put_desc s1 tb pos desc)"
proof -
  have old: "old_table s1 tb" using tb(1) s1(2) by (auto simp: old_table_def split: xlat_table.splits)
  have len: "pos < length (table_of s1 tb)" using frame_length [OF s1(1) tb(1) wf(1)] tb(2) by simp
  note put = table_of_put [OF old wf(2) len, where desc = desc]
  have "xlat_tables (put_desc s1 tb pos desc) ! n ! j = xlat_tables s1 ! n ! j" if "next_xlat s \<le> n" for n j
  proof -
    have "Sub n \<noteq> tb" using tb(1) that by (auto simp: old_table_def)
    then show ?thesis using put(2) [of "Sub n" j] by (simp add: table_of_def)
  qed
  then have "good_desc (next_xlat s) (next_xlat s1) (put_desc s1 tb pos desc) d va desc"
    using good_desc_mono [OF good] by simp
  moreover have "tables_frame s (put_desc s1 tb pos desc)"
    using frame_put [OF old wf(2)] s1(1) by (simp add: tables_frame_def)
  moreover have "table_of (put_desc s1 tb pos desc) t ! j = table_of s t ! j" if "old_table s t" "t = tb \<longrightarrow> j < pos \<or> pos + 1 \<le> j" for t j
    using put(2) [of t j] that s1(3) [OF that(1)] by auto
  ultimately show ?thesis using s1(2) put(1) by (simp add: filled_def blocks_cost_def)
qed

subsection \<open>A table\<close>

text \<open>The part of a table that a call has to fill.\<close>

definition table_part :: "nat \<Rightarrow> nat \<Rightarrow> nat \<Rightarrow> xlat_table \<Rightarrow> nat \<Rightarrow> xlat_state \<Rightarrow> bool" where
  "table_part d va m tb pos s \<longleftrightarrow> tables_wf s \<and> old_table s tb \<and> pos + m \<le> length (table_of s tb) \<and>
     next_xlat s + cost_of d va m \<le> MAX_XLAT_TABLES p \<and> bsz d dvd va \<and> va + m * bsz d \<le> PLAT_VIRT_ADDR_SPACE_SIZE p"

definition table_fills :: "nat \<Rightarrow> nat \<Rightarrow> nat \<Rightarrow> nat \<Rightarrow> xlat_table \<Rightarrow> nat \<Rightarrow> mmap_region_t list \<Rightarrow> xlat_state \<Rightarrow> bool" where
  "table_fills d k va m tb pos Z s \<longleftrightarrow>
     (\<exists>k' s'. init_xlation_table_inner p (drop k R @ Z) va tb pos (3 - d) s = Ret (drop k' R @ Z) s' \<and>
       passed k' (va + m * bsz d) \<and> filled d va m tb pos s s')"

text \<open>What the code does for the descriptor of one entry, and to store it.\<close>

definition entry_prog :: "nat \<Rightarrow> nat \<Rightarrow> mmap_region_t list \<Rightarrow> (xlat_state, u64 \<times> mmap_region_t list) prog" where
  "entry_prog d va mm =
     mbind (xlat_entry_desc p mm va (3 - d)) (\<lambda>desc.
     case desc of
       Some x \<Rightarrow> mret (x, mm)
     | None \<Rightarrow>
         mbind (xlat_new_table p) (\<lambda>n.
         mbind (init_xlation_table_inner p mm va (Sub n) 0 (3 - d + 1)) (\<lambda>mm'.
         mret (3 OR of_nat (table_addr p n), mm'))))"

lemma inner_step:
  assumes "d \<le> 3" "mm \<noteq> []" "\<not> (rsize (hd mm) \<noteq> 0 \<and> region_end (hd mm) < va)"
  shows "init_xlation_table_inner p mm va tb pos (3 - d) =
    mbind (entry_prog d va mm) (\<lambda>(x, mm').
    mbind (store_desc tb pos x) (\<lambda>_.
    if xlat_more p (3 - d) (wrap64 (va + bsz d))
    then init_xlation_table_inner p mm' (wrap64 (va + bsz d)) tb (pos + 1) (3 - d) else mret mm'))"
proof -
  have "XLAT_BLOCK_SIZE (3 - d) = bsz d" "\<not> 3 - d > 3" using assms(1) by (simp_all add: block_size_bsz)
  then show ?thesis using assms(2,3)
    by (subst init_xlation_table_inner.simps) (simp only: if_False Let_def entry_prog_def mbind_assoc)
qed

lemma not_passed:
  assumes "ahead k va" "sentinel Z"
  shows "drop k R @ Z \<noteq> []" "\<not> (rsize (hd (drop k R @ Z)) \<noteq> 0 \<and> region_end (hd (drop k R @ Z)) < va)"
proof -
  show "\<not> (rsize (hd (drop k R @ Z)) \<noteq> 0 \<and> region_end (hd (drop k R @ Z)) < va)"
  proof (cases "k < length R")
    case True
    then have "hd (drop k R @ Z) = R ! k" "R ! k \<in> set R" by (simp_all add: hd_append hd_drop_conv_nth)
    then show ?thesis using region_end [of "R ! k"] assms(1) True by (auto simp: ahead_def)
  qed (use assms(2) in \<open>simp add: sentinel_def\<close>)
qed (use assms(2) in \<open>simp add: sentinel_def\<close>)

lemma passed_mono: "passed k va \<Longrightarrow> va \<le> va' \<Longrightarrow> passed k va'"
  by (fastforce simp: passed_def)

lemma entry_fills:
  assumes d: "d \<le> 3" and part: "table_part d va 1 tb pos s" and k: "passed k va" "ahead k va" and Z: "sentinel Z"
    and sub: "\<And>e n s'. d = Suc e \<Longrightarrow> table_part e va 512 (Sub n) 0 s' \<Longrightarrow> table_fills e k va 512 (Sub n) 0 Z s'"
  shows "\<exists>x k' s1. entry_prog d va (drop k R @ Z) s = Ret (x, drop k' R @ Z) s1 \<and>
    store_desc tb pos x s1 = Ret () (put_desc s1 tb pos x) \<and>
    passed k' (va + bsz d) \<and> filled d va 1 tb pos s (put_desc s1 tb pos x)"
proof -
  note P = part [unfolded table_part_def]
  have wf: "tables_wf s" and old: "old_table s tb" and pos: "pos < length (table_of s tb)"
    and dvd: "bsz d dvd va" and end': "va + bsz d \<le> PLAT_VIRT_ADDR_SPACE_SIZE p" using P by simp_all
  have masks: "masks_set s" using wf by (simp add: tables_wf_def)
  note entry = entry_run [OF d dvd end' k Z masks]
  show ?thesis
  proof (cases "needs_table R d va")
    case False
    then obtain x where x: "xlat_entry_desc p (drop k R @ Z) va (3 - d) s = Ret (Some x) s" "good_desc 0 0 s d va x"
      using entry by auto
    have "block_cost R d va = 0" using False by (cases d) simp_all
    moreover have "good_desc lo hi s d va x" for lo hi using x(2) by (simp add: good_desc_def)
    ultimately have "filled d va 1 tb pos s (put_desc s tb pos x)"
      by (intro filled_one) (simp_all add: wf old pos tables_frame_def)
    moreover have "entry_prog d va (drop k R @ Z) s = Ret (x, drop k R @ Z) s"
      using x(1) by (simp add: entry_prog_def mbind_run prog_simps)
    ultimately show ?thesis using store_run [OF wf old pos, of x] passed_mono [OF k(1), of "va + bsz d"]
      by (intro exI [of _ x] exI [of _ k] exI [of _ s]) simp
  next
    case True
    then obtain e where e: "d = Suc e" using dvd page_level by (cases d) (auto simp: bsz_def)
    define n where "n = next_xlat s"
    define sa where "sa = s\<lparr>next_xlat := n + 1\<rparr>"
    have cost: "block_cost R d va = 1 + cost_of e va 512" using True by (simp add: e blocks_cost_def)
    then have n: "n + 1 + cost_of e va 512 \<le> MAX_XLAT_TABLES p" using P by (simp add: n_def blocks_cost_def)
    have wfa: "tables_wf sa" using wf n by (simp add: tables_wf_def masks_set_def sa_def)
    have "bsz e dvd va" using dvd unfolding e bsz_Suc by (rule dvd_mult_right)
    then have "table_part e va 512 (Sub n) 0 sa"
      using wfa n end' tables_wfD(2) [OF wfa, of n] by (simp add: table_part_def old_table_def table_of_def sa_def e bsz_Suc)
    from sub [OF e this] obtain k' s1 where
      run: "init_xlation_table_inner p (drop k R @ Z) va (Sub n) 0 (3 - e) sa = Ret (drop k' R @ Z) s1"
      and pass: "passed k' (va + bsz d)" and fill: "filled e va 512 (Sub n) 0 sa s1"
      unfolding table_fills_def by (auto simp: e bsz_Suc)
    note F = fill [unfolded filled_def]
    have nx: "next_xlat s1 = next_xlat s + block_cost R d va" using F by (simp add: sa_def cost n_def)
    have wf1: "tables_wf s1" using F frame_wf [OF _ wfa] nx P by (auto simp: blocks_cost_def)
    have "good_desc (next_xlat s) (next_xlat s1) s1 d va (3 OR of_nat (table_addr p n))"
      unfolding e
    proof (rule table_good)
      show "good_desc (n + 1) (next_xlat s1) s1 e (va + i * bsz e) (xlat_tables s1 ! n ! i)" if "i < 512" for i
      proof -
        have "good_desc (next_xlat sa) (next_xlat s1) s1 e (va + i * bsz e) (table_of s1 (Sub n) ! (0 + i))" using F that by blast
        then show ?thesis by (simp add: table_of_def sa_def)
      qed
    qed (use n d dvd e nx cost in \<open>simp_all add: n_def\<close>)
    moreover have "table_of s1 t ! j = table_of s t ! j" if "old_table s t" for t j
    proof -
      have "old_table sa t" "t \<noteq> Sub n" using that by (auto simp: old_table_def sa_def n_def split: xlat_table.splits)
      then have "table_of s1 t ! j = table_of sa t ! j" using F by blast
      then show ?thesis by (simp add: table_of_def sa_def split: xlat_table.splits)
    qed
    moreover have fr: "tables_frame s s1" using F by (simp add: tables_frame_def sa_def)
    ultimately have "filled d va 1 tb pos s (put_desc s1 tb pos (3 OR of_nat (table_addr p n)))"
      by (intro filled_one) (simp_all add: nx wf wf1 old pos)
    moreover have "entry_prog d va (drop k R @ Z) s = Ret (3 OR of_nat (table_addr p n), drop k' R @ Z) s1"
    proof -
      have "3 - d + 1 = 3 - e" using d by (simp add: e)
      moreover have "xlat_new_table p s = Ret n sa" using n by (simp add: xlat_new_table_def n_def sa_def prog_simps)
      ultimately show ?thesis using entry True run by (simp add: entry_prog_def mbind_run prog_simps)
    qed
    moreover have "old_table s1 tb" using old nx by (auto simp: old_table_def split: xlat_table.splits)
    then have "store_desc tb pos x s1 = Ret () (put_desc s1 tb pos x)" for x
      using store_run [OF wf1, of tb pos x] frame_length [OF fr old wf] pos by simp
    ultimately show ?thesis using pass by blast
  qed
qed

lemma part_next:
  assumes "table_part d va (Suc m) tb pos s" "filled d va 1 tb pos s s'"
  shows "table_part d (va + bsz d) m tb (pos + 1) s'"
proof -
  note P = assms(1) [unfolded table_part_def] and F = assms(2) [unfolded filled_def]
  have cost: "cost_of d va (Suc m) = cost_of d va 1 + cost_of d (va + bsz d) m" using cost_of_add [of d va 1 m] by simp
  have "tables_wf s'" using frame_wf [of s s'] P F cost by simp
  moreover have "old_table s' tb" using P F by (auto simp: old_table_def split: xlat_table.splits)
  moreover have "length (table_of s' tb) = length (table_of s tb)" using frame_length P F by blast
  ultimately show ?thesis using P F cost unfolding table_part_def by auto
qed

lemma next_more:
  assumes "d \<le> 3" "bsz d dvd va" "va + bsz d \<le> PLAT_VIRT_ADDR_SPACE_SIZE p"
  shows "wrap64 (va + bsz d) = va + bsz d"
    "xlat_more p (3 - d) (va + bsz d) \<longleftrightarrow> va div bsz d mod 512 + 1 < 512 \<and> va + bsz d < PLAT_VIRT_ADDR_SPACE_SIZE p"
    "va div bsz d mod 512 + 1 < 512 \<Longrightarrow> (va + bsz d) div bsz d mod 512 = va div bsz d mod 512 + 1"
proof -
  show "wrap64 (va + bsz d) = va + bsz d" using assms(3) portD(2) by (simp add: wrap64_def)
  have i: "(va + bsz d) div bsz d mod 512 = (va div bsz d + 1) mod 512" by (subst div_add_self2) simp_all
  then show "va div bsz d mod 512 + 1 < 512 \<Longrightarrow> (va + bsz d) div bsz d mod 512 = va div bsz d mod 512 + 1"
    by (simp add: mod_Suc)
  show "xlat_more p (3 - d) (va + bsz d) \<longleftrightarrow> va div bsz d mod 512 + 1 < 512 \<and> va + bsz d < PLAT_VIRT_ADDR_SPACE_SIZE p"
  proof -
    have "3 - (3 - d) = d" using assms(1) by simp
    moreover have "(va div bsz d + 1) mod 512 \<noteq> 0 \<longleftrightarrow> va div bsz d mod 512 + 1 < 512"
      using mod_less_divisor [of 512 "va div bsz d"] by (auto simp: mod_Suc)
    ultimately show ?thesis using xlat_more_iff [of "3 - d" "va + bsz d"] assms(3) i by simp
  qed
qed

lemma table_step:
  assumes d: "d \<le> 3" and Z: "sentinel Z"
    and sub: "\<And>e k va n s. d = Suc e \<Longrightarrow> passed k va \<Longrightarrow> ahead k va \<Longrightarrow> bsz d dvd va \<Longrightarrow>
      table_part e va 512 (Sub n) 0 s \<Longrightarrow> table_fills e k va 512 (Sub n) 0 Z s"
    and part: "table_part d va m tb pos s" "0 < m" and k: "passed k va" "va div bsz d mod 512 = 0 \<Longrightarrow> ahead k va"
    and idx: "va div bsz d mod 512 + m \<le> 512" "va div bsz d mod 512 + m = 512 \<or> va + m * bsz d = PLAT_VIRT_ADDR_SPACE_SIZE p"
  shows "table_fills d k va m tb pos Z s"
  using part k idx
proof (induction m arbitrary: k va pos s)
  case (Suc m)
  note P = Suc.prems(1) [unfolded table_part_def]
  have dvd: "bsz d dvd va" and en: "va + bsz d \<le> PLAT_VIRT_ADDR_SPACE_SIZE p" using P by simp_all
  then have lt: "va < PLAT_VIRT_ADDR_SPACE_SIZE p" using bsz_pos(1) [of d] by linarith
  obtain k0 where k0: "passed k0 va" "ahead k0 va" and skip:
    "init_xlation_table_inner p (drop k R @ Z) va tb pos (3 - d) s = init_xlation_table_inner p (drop k0 R @ Z) va tb pos (3 - d) s"
    using skip_run [of "3 - d" va k Z tb pos s] lt Suc.prems(3,4) Z d by (auto simp: sentinel_def)
  have "table_part d va 1 tb pos s" using P by (simp add: table_part_def cost_of_add [of d va 1 m, simplified])
  from entry_fills [OF d this k0 Z sub [OF _ k0 dvd]] obtain x k1 s1 s2 where
    e: "entry_prog d va (drop k0 R @ Z) s = Ret (x, drop k1 R @ Z) s1" "store_desc tb pos x s1 = Ret () s2"
    "passed k1 (va + bsz d)" "filled d va 1 tb pos s s2" by blast
  note nx = next_more [OF d dvd en]
  have run: "init_xlation_table_inner p (drop k R @ Z) va tb pos (3 - d) s =
      (if xlat_more p (3 - d) (va + bsz d) then init_xlation_table_inner p (drop k1 R @ Z) (va + bsz d) tb (pos + 1) (3 - d) s2
       else Ret (drop k1 R @ Z) s2)"
    unfolding skip inner_step [OF d not_passed [OF k0(2) Z]] using e(1,2) by (simp add: mbind_run nx(1) prog_simps)
  show ?case
  proof (cases m)
    case 0
    then have "\<not> xlat_more p (3 - d) (va + bsz d)" using Suc.prems(6) nx(2) by auto
    then show ?thesis using run e(3,4) 0 by (auto simp: table_fills_def)
  next
    case (Suc m')
    then have i: "va div bsz d mod 512 + 1 < 512" using Suc.prems(5) by simp
    have "va + (bsz d + (bsz d + m' * bsz d)) \<le> PLAT_VIRT_ADDR_SPACE_SIZE p" using P Suc by simp
    then have "va + bsz d < PLAT_VIRT_ADDR_SPACE_SIZE p" using bsz_pos(1) [of d] by linarith
    then have more: "xlat_more p (3 - d) (va + bsz d)" using nx(2) i by blast
    have "table_fills d k1 (va + bsz d) m tb (pos + 1) Z s2"
      by (rule Suc.IH [OF part_next [OF Suc.prems(1) e(4)]]) (use Suc Suc.prems(5,6) e(3) nx(3) [OF i] in auto)
    then obtain k' s' where f: "init_xlation_table_inner p (drop k1 R @ Z) (va + bsz d) tb (pos + 1) (3 - d) s2 = Ret (drop k' R @ Z) s'"
      "passed k' (va + bsz d + m * bsz d)" "filled d (va + bsz d) m tb (pos + 1) s2 s'" by (auto simp: table_fills_def)
    have "filled d va (Suc m) tb pos s s'" using filled_append [of s tb d va 1 pos s2 m s'] P e(4) f(3) by simp
    then show ?thesis using run more f(1,2) by (auto simp: table_fills_def add.assoc)
  qed
qed simp

lemma sub_table_run:
  assumes "d < 3" "sentinel Z" "passed k va" "ahead k va" "bsz (Suc d) dvd va" "table_part d va 512 (Sub n) 0 s"
  shows "table_fills d k va 512 (Sub n) 0 Z s"
  using assms
proof (induction d arbitrary: k va n s)
  case 0
  then have "va div bsz 0 mod 512 = 0" by (auto simp: bsz_Suc)
  then show ?case using 0 by (intro table_step [where d = 0]) simp_all
next
  case (Suc d)
  obtain q where "va = bsz (Suc d) * (512 * q)" using Suc.prems(5) unfolding bsz_Suc [of "Suc d"] by (auto simp: ac_simps)
  then have "va div bsz (Suc d) mod 512 = 0" by simp
  then show ?case
    by (intro table_step [where d = "Suc d"]) (use Suc.IH Suc.prems in simp_all)
qed

subsection \<open>All tables\<close>

abbreviation base_entries :: nat where
  "base_entries \<equiv> num_base_entries p"

lemma base_depth_bounds:
  "base_depth p \<le> 3" "PLAT_VIRT_ADDR_SPACE_SIZE p \<le> 512 * bsz (base_depth p)"
  "GET_XLAT_TABLE_LEVEL_BASE (PLAT_VIRT_ADDR_SPACE_SIZE p) = 3 - base_depth p"
  using portD(2) by (simp_all add: base_depth_def GET_XLAT_TABLE_LEVEL_BASE_def bsz_def)

lemma base_entries:
  "base_entries * bsz (base_depth p) = PLAT_VIRT_ADDR_SPACE_SIZE p" "0 < base_entries" "base_entries \<le> 512"
proof -
  show e: "base_entries * bsz (base_depth p) = PLAT_VIRT_ADDR_SPACE_SIZE p" using portD(3) by (simp add: num_base_entries_def)
  show "0 < base_entries" using e portD(1) by (cases "base_entries = 0") simp_all
  have "base_entries * bsz (base_depth p) \<le> 512 * bsz (base_depth p)" using e base_depth_bounds(2) by simp
  then show "base_entries \<le> 512" using mult_le_cancel2 bsz_pos(1) by blast
qed

lemma base_table_run:
  assumes "tables_wf s" "length (base_xlation_table s) = base_entries" "sentinel Z"
    "next_xlat s + cost_of (base_depth p) 0 base_entries \<le> MAX_XLAT_TABLES p"
  obtains k' s' where
    "init_xlation_table_inner p (R @ Z) 0 Base 0 (GET_XLAT_TABLE_LEVEL_BASE (PLAT_VIRT_ADDR_SPACE_SIZE p)) s = Ret (drop k' R @ Z) s'"
    "filled (base_depth p) 0 base_entries Base 0 s s'"
proof -
  have start: "passed 0 0" "ahead 0 0" using regionD(1) by (auto simp: passed_def ahead_def)
  have part: "table_part (base_depth p) 0 base_entries Base 0 s"
    using assms base_entries(1) by (simp add: table_part_def old_table_def table_of_def)
  have sub: "table_fills e k va 512 (Sub n) 0 Z s'" if "base_depth p = Suc e" "passed k va" "ahead k va"
    "bsz (base_depth p) dvd va" "table_part e va 512 (Sub n) 0 s'" for e k va n s'
    using sub_table_run [OF _ assms(3) that(2,3) _ that(5)] that(1,4) base_depth_bounds(1) by simp
  have "table_fills (base_depth p) 0 0 base_entries Base 0 Z s"
    by (rule table_step [OF base_depth_bounds(1) assms(3) sub part base_entries(2) start(1)])
      (use start(2) base_entries(1,3) in simp_all)
  then show ?thesis using that by (auto simp: table_fills_def base_depth_bounds(3))
qed

lemma walk_filled:
  assumes "filled (base_depth p) 0 base_entries Base 0 s s'" "va < PLAT_VIRT_ADDR_SPACE_SIZE p"
    "base_xlation_table t = base_xlation_table s'" "xlat_tables t = xlat_tables s'"
  shows "mmu_walk p t va = xlat_spec R va"
proof -
  let ?d = "base_depth p" and ?i = "va div bsz (base_depth p)"
  have i: "?i < base_entries" using assms(2) base_entries(1) by (simp add: less_mult_imp_div_less)
  have "good_desc (next_xlat s) (next_xlat s') s' ?d (0 + ?i * bsz ?d) (table_of s' Base ! (0 + ?i))"
    using assms(1) i unfolding filled_def by blast
  moreover have "?i * bsz ?d \<le> va" "va < ?i * bsz ?d + bsz ?d"
    using dividend_less_div_times [OF bsz_pos(1) [of ?d], of va] by (simp_all add: div_times_less_eq_dividend)
  ultimately have "mmu_desc p t (base_xlation_table s' ! ?i) (3 - ?d) va = xlat_spec R va"
    using assms(4) unfolding good_desc_def by (simp add: table_of_def)
  then show ?thesis using assms(3) base_depth_bounds(1) by (simp add: mmu_walk_def Let_def base_depth_bounds(3) block_size_bsz)
qed

lemma init_xlat_tables_run:
  assumes "mmap s = R @ Z" "sentinel Z" "length (base_xlation_table s) = base_entries"
    "map length (xlat_tables s) = replicate (MAX_XLAT_TABLES p) 512"
    "next_xlat s + tables_needed p R \<le> MAX_XLAT_TABLES p"
    "xlat_max_va s < PLAT_VIRT_ADDR_SPACE_SIZE p" "xlat_max_pa s < PLAT_PHY_ADDR_SPACE_SIZE p"
    "xl_assertions p \<Longrightarrow> pa_supported p mmfr0"
  shows "\<exists>s'. init_xlat_tables p 3 mmfr0 s = Ret () s' \<and> xlat_max_pa s < 2 ^ ps_width (tcr_ps_bits s') \<and> sctlr_el3 s' = sctlr_el3 s \<and>
    (\<forall>va < PLAT_VIRT_ADDR_SPACE_SIZE p. mmu_walk p s' va = xlat_spec R va)"
proof -
  let ?s = "s\<lparr>execute_never_mask := el3_xn, ap1_mask := el3_ap1\<rparr>"
  note needed = assms(5) [unfolded tables_needed_def]
  have "tables_wf ?s" using assms(4) needed by (simp add: tables_wf_def masks_set_def)
  then obtain k' s' where
    run: "init_xlation_table_inner p (R @ Z) 0 Base 0 (GET_XLAT_TABLE_LEVEL_BASE (PLAT_VIRT_ADDR_SPACE_SIZE p)) ?s = Ret (drop k' R @ Z) s'"
    and fill: "filled (base_depth p) 0 base_entries Base 0 ?s s'"
    using base_table_run [of ?s Z] assms(2,3) needed by auto
  have mx: "xlat_max_va s' = xlat_max_va s" "xlat_max_pa s' = xlat_max_pa s" "sctlr_el3 s' = sctlr_el3 s"
    using fill by (simp_all add: filled_def tables_frame_def)
  have "xlat_max_pa s < 2 ^ 48" using assms(7) portD(4) by simp
  then obtain b where b: "calc_physical_addr_size_bits (xl_assertions p) (of_nat (xlat_max_pa s)) s' = Ret b s'"
    "xlat_max_pa s < 2 ^ ps_width b" using calc_bits_fit by blast
  moreover have "init_xlation_table p 3 0 Base (GET_XLAT_TABLE_LEVEL_BASE (PLAT_VIRT_ADDR_SPACE_SIZE p)) s =
      Ret (xlat_max_va s, xlat_max_pa s) s'"
    using run assms(1) mx
    by (simp add: init_xlation_table_def xlat_arch_get_xn_desc_def LOWER_ATTRS_def mbind_run prog_simps)
  ultimately have "init_xlat_tables p 3 mmfr0 s = Ret () (s'\<lparr>tcr_ps_bits := b\<rparr>)"
    using assms(6-8)
    by (auto simp: init_xlat_tables_def Let_def get_max_supported_pa_def pa_supported_def mwhen_def mbind_run prog_simps)
  then show ?thesis using walk_filled [OF fill] b(2) mx(3) by simp
qed

end

end
