(* ===== verification/Xlat_Regions.thy ===== *)
theory Xlat_Regions
  imports Xlat_Fill
begin

text \<open>
  The array of regions: what \<^verbatim>\<open>mmap_add_region()\<close> checks and where it inserts the new region. With the
  assertions of a debug build the array only ever holds regions that lie inside each other or apart,
  in the order the filling of the tables relies on.
\<close>

section \<open>What an array of regions has to be\<close>

definition region_fits :: "xlat_port \<Rightarrow> mmap_region_t \<Rightarrow> bool" where
  "region_fits p r \<longleftrightarrow> rsize r \<noteq> 0 \<and> base_pa r mod PAGE_SIZE = 0 \<and> base_va r mod PAGE_SIZE = 0 \<and> rsize r mod PAGE_SIZE = 0 \<and>
     base_va r + rsize r \<le> PLAT_VIRT_ADDR_SPACE_SIZE p \<and> base_pa r + rsize r \<le> PLAT_PHY_ADDR_SPACE_SIZE p"

definition inside :: "mmap_region_t \<Rightarrow> mmap_region_t \<Rightarrow> bool" where
  "inside r t \<longleftrightarrow> base_va t \<le> base_va r \<and> base_va r + rsize r \<le> base_va t + rsize t"

definition apart :: "nat \<Rightarrow> nat \<Rightarrow> nat \<Rightarrow> nat \<Rightarrow> bool" where
  "apart a m b n \<longleftrightarrow> a + m \<le> b \<or> b + n \<le> a"

definition compatible :: "mmap_region_t \<Rightarrow> mmap_region_t \<Rightarrow> bool" where
  "compatible r t \<longleftrightarrow>
     (if inside r t \<or> inside t r
      then base_pa r + base_va t = base_pa t + base_va r \<and> (base_va r \<noteq> base_va t \<or> rsize r \<noteq> rsize t)
      else apart (base_va r) (rsize r) (base_va t) (rsize t) \<and> apart (base_pa r) (rsize r) (base_pa t) (rsize t))"

definition before :: "mmap_region_t \<Rightarrow> mmap_region_t \<Rightarrow> bool" where
  "before r t \<longleftrightarrow> base_va r < base_va t \<or> base_va r = base_va t \<and> rsize t < rsize r"

definition mmap_ok :: "xlat_port \<Rightarrow> mmap_region_t list \<Rightarrow> bool" where
  "mmap_ok p R \<longleftrightarrow> (\<forall>r \<in> set R. region_fits p r) \<and> sorted_wrt before R \<and> sorted_wrt compatible R"

fun insert_region :: "mmap_region_t \<Rightarrow> mmap_region_t list \<Rightarrow> mmap_region_t list" where
  "insert_region r [] = [r]"
| "insert_region r (t # R) = (if before t r then t # insert_region r R else r # t # R)"

abbreviation empty_region :: mmap_region_t where
  "empty_region \<equiv> \<lparr>base_pa = 0, base_va = 0, rsize = 0, rattr = 0\<rparr>"

lemma before_trans: "before r t \<Longrightarrow> before t u \<Longrightarrow> before r u"
  by (auto simp: before_def)

lemma compatible_sym: "compatible r t \<longleftrightarrow> compatible t r"
  by (auto simp: compatible_def apart_def)

lemma compatible_before: "compatible r t \<Longrightarrow> before r t \<or> before t r"
  by (auto simp: compatible_def before_def inside_def apart_def split: if_splits)

lemma set_insert_region [simp]: "set (insert_region r R) = insert r (set R)"
  by (induction R) auto

lemma insert_region_keeps:
  assumes "mmap_ok p R" "region_fits p r" "\<forall>t \<in> set R. compatible r t"
  shows "mmap_ok p (insert_region r R)"
proof -
  have "sorted_wrt before (insert_region r R)" if "sorted_wrt before R" "\<forall>t \<in> set R. compatible r t" for R
    using that by (induction R) (auto intro: before_trans dest: compatible_before)
  moreover have "sorted_wrt compatible (insert_region r R)" if "sorted_wrt compatible R" "\<forall>t \<in> set R. compatible r t" for R
    using that compatible_sym by (induction R) auto
  ultimately show ?thesis using assms by (auto simp: mmap_ok_def)
qed

section \<open>The checks\<close>

lemma offset_eq:
  assumes "a < 2 ^ 48" "b < 2 ^ 48" "c < 2 ^ 48" "d < 2 ^ 48"
  shows "wrap64 (a + 2 ^ 64 - b) = wrap64 (c + 2 ^ 64 - d) \<longleftrightarrow> a + d = c + b"
proof -
  have w: "wrap64 (x + 2 ^ 64 - y) = (if y \<le> x then x - y else x + 2 ^ 64 - y)" if "x < 2 ^ 48" "y < 2 ^ 48" for x y
  proof (cases "y \<le> x")
    case True
    then have "x + 2 ^ 64 - y = (x - y) + 2 ^ 64" by simp
    then show ?thesis using True that by (simp only: wrap64_def mod_add_self2) simp
  next
    case False
    then show ?thesis using that by (simp add: wrap64_def)
  qed
  show ?thesis unfolding w [OF assms(1,2)] w [OF assms(3,4)] using assms by auto
qed

lemma region_fits_area:
  assumes "region_fits p r" "PLAT_VIRT_ADDR_SPACE_SIZE p \<le> 2 ^ 48" "PLAT_PHY_ADDR_SPACE_SIZE p \<le> 2 ^ 48"
  shows "region_end r = base_va r + rsize r - 1" "area_end (base_pa r) (rsize r) = base_pa r + rsize r - 1"
    "base_va r < 2 ^ 48" "base_pa r < 2 ^ 48" "0 < rsize r"
  using assms by (simp_all add: region_fits_def area_end_eq)

lemma check_overlap_run:
  assumes "region_fits p r" "region_fits p mm" "PLAT_VIRT_ADDR_SPACE_SIZE p \<le> 2 ^ 48" "PLAT_PHY_ADDR_SPACE_SIZE p \<le> 2 ^ 48"
  shows "check_overlap True (base_pa r) (base_va r) (rsize r) mm s =
    (if compatible r mm then Ret () s else Stop Assertion_failed s)"
proof -
  note r = region_fits_area [OF assms(1,3,4)] and m = region_fits_area [OF assms(2,3,4)]
  have full: "(base_va r \<ge> base_va mm \<and> region_end r \<le> region_end mm \<or> base_va mm \<ge> base_va r \<and> region_end mm \<le> region_end r)
      \<longleftrightarrow> inside r mm \<or> inside mm r"
    unfolding r(1) m(1) using r(5) m(5) by (auto simp: inside_def)
  have sep: "(x + a - 1 < y \<or> x > y + b - 1) \<longleftrightarrow> apart x a y b" if "0 < a" "0 < b" for x y a b :: nat
    using that by (auto simp: apart_def)
  have off: "wrap64 (base_va mm + 2 ^ 64 - base_pa mm) = wrap64 (base_va r + 2 ^ 64 - base_pa r) \<longleftrightarrow>
      base_pa r + base_va mm = base_pa mm + base_va r"
    unfolding offset_eq [OF m(3,4) r(3,4)] by (simp add: add.commute)
  show ?thesis
    unfolding check_overlap_def Let_def full off compatible_def
    by (simp only: r(1,2) m(1,2) sep [OF r(5) m(5)]) (simp add: dbg_assert_def mbind_def prog_simps)
qed

lemma check_overlaps_run:
  assumes "region_fits p r" "\<forall>t \<in> set R. region_fits p t" "rsize (hd Z) = 0" "Z \<noteq> []"
    "PLAT_VIRT_ADDR_SPACE_SIZE p \<le> 2 ^ 48" "PLAT_PHY_ADDR_SPACE_SIZE p \<le> 2 ^ 48"
  shows "check_overlaps True (base_pa r) (base_va r) (rsize r) (R @ Z) s =
    (if \<forall>t \<in> set R. compatible r t then Ret () s else Stop Assertion_failed s)"
  using assms(2)
proof (induction R)
  case Nil
  then show ?case using assms(3,4) by (cases Z) (simp_all add: prog_simps)
next
  case (Cons t R)
  then show ?case
    using check_overlap_run [OF assms(1) _ assms(5,6), of t s] by (simp add: mbind_def region_fits_def)
qed

section \<open>The place of the new region\<close>

lemma mmap_skip_run: "Z \<noteq> [] \<Longrightarrow> \<not> P (hd Z) \<Longrightarrow> mmap_skip P (R @ Z) s = Ret (length (takeWhile P R)) s"
proof (induction R)
  case Nil
  then show ?case by (cases Z) (simp_all add: prog_simps)
qed (simp add: mbind_def prog_simps)

lemma insert_place:
  assumes "sorted_wrt before R" "\<forall>t \<in> set R. rsize t \<noteq> 0"
  shows "insert_region r R =
    (let A = takeWhile (\<lambda>t. base_va t < base_va r \<and> rsize t \<noteq> 0) R; B = dropWhile (\<lambda>t. base_va t < base_va r \<and> rsize t \<noteq> 0) R
     in A @ takeWhile (\<lambda>t. base_va t = base_va r \<and> rsize r < rsize t) B @ r # dropWhile (\<lambda>t. base_va t = base_va r \<and> rsize r < rsize t) B)"
  using assms
proof (induction R)
  case (Cons t R)
  have same: "insert_region r Q = takeWhile (\<lambda>t. base_va t = base_va r \<and> rsize r < rsize t) Q @
      r # dropWhile (\<lambda>t. base_va t = base_va r \<and> rsize r < rsize t) Q" if "\<forall>t \<in> set Q. base_va r \<le> base_va t" for Q
    using that by (induction Q) (auto simp: before_def)
  show ?case
  proof (cases "base_va t < base_va r")
    case True
    then show ?thesis using Cons by (simp add: before_def Let_def)
  next
    case False
    then have "\<forall>u \<in> set (t # R). base_va r \<le> base_va u" using Cons.prems(1) by (auto simp: before_def)
    from same [OF this] show ?thesis using False by (simp add: Let_def)
  qed
qed simp

section \<open>Adding a region\<close>

abbreviation new_region :: "nat \<Rightarrow> nat \<Rightarrow> nat \<Rightarrow> u32 \<Rightarrow> mmap_region_t" where
  "new_region pa va sz attr \<equiv> \<lparr>base_pa = pa, base_va = va, rsize = sz, rattr = attr\<rparr>"

lemma area_end_gt:
  assumes "0 < sz" "b < 2 ^ 64" "sz < 2 ^ 64"
  shows "b < area_end b sz \<and> area_end b sz \<le> m - 1 \<longleftrightarrow> sz \<noteq> 1 \<and> b + sz \<le> 2 ^ 64 \<and> b + sz \<le> m"
proof (cases "b + sz \<le> 2 ^ 64")
  case True
  then show ?thesis using assms by (auto simp: area_end_eq)
next
  case False
  then have "b + sz + (2 ^ 64 - 1) = (b + sz - 1 - 2 ^ 64) + 2 ^ 64 + 2 ^ 64" by simp
  then have "area_end b sz = (b + sz - 1 - 2 ^ 64) mod 2 ^ 64" by (simp only: area_end_def wrap64_def mod_add_self2)
  then have "area_end b sz = b + sz - 1 - 2 ^ 64" using assms by simp
  then show ?thesis using False assms by auto
qed

lemma butlast_replicate: "butlast (replicate n x) = replicate (n - 1) x"
  by (metis butlast_conv_take length_replicate min_diff take_replicate diff_le_self min.absorb1)

lemma moved_insert:
  assumes "x = length A"
  shows "(take x (A @ B) @ [(A @ B) ! x] @ butlast (drop x (A @ B)))[x := r] = A @ r # butlast B"
  using assms by (simp add: list_update_append)

lemma fits_checks:
  assumes "sz \<noteq> 0" "pa < 2 ^ 64" "va < 2 ^ 64" "sz < 2 ^ 64" "PLAT_VIRT_ADDR_SPACE_SIZE p \<le> 2 ^ 48" "PLAT_PHY_ADDR_SPACE_SIZE p \<le> 2 ^ 48"
  shows "region_fits p (new_region pa va sz attr) \<longleftrightarrow> IS_PAGE_ALIGNED pa \<and> IS_PAGE_ALIGNED va \<and> IS_PAGE_ALIGNED sz \<and>
    pa < area_end pa sz \<and> va < area_end va sz \<and> area_end va sz \<le> PLAT_VIRT_ADDR_SPACE_SIZE p - 1 \<and> area_end pa sz \<le> PLAT_PHY_ADDR_SPACE_SIZE p - 1"
proof -
  have "IS_PAGE_ALIGNED sz \<Longrightarrow> sz \<noteq> 1" by (auto simp: IS_PAGE_ALIGNED_def)
  then show ?thesis
    using area_end_gt [of sz va "PLAT_VIRT_ADDR_SPACE_SIZE p"] area_end_gt [of sz pa "PLAT_PHY_ADDR_SPACE_SIZE p"] assms
    by (auto simp: region_fits_def IS_PAGE_ALIGNED_def)
qed

text \<open>
  The array after the insertion, before the check of the sentinel: \<open>n\<close> entries were empty.
\<close>

definition added_region :: "mmap_region_t \<Rightarrow> mmap_region_t list \<Rightarrow> nat \<Rightarrow> xlat_state \<Rightarrow> xlat_state" where
  "added_region r R n s = s\<lparr>mmap := butlast (insert_region r R @ replicate n empty_region),
     xlat_max_pa := max (base_pa r + rsize r - 1) (xlat_max_pa s), xlat_max_va := max (base_va r + rsize r - 1) (xlat_max_va s)\<rparr>"

lemma add_region_place:
  assumes "mmap_ok p R" "0 < n" "r = new_region pa va sz attr"
  defines "a \<equiv> R @ replicate n empty_region"
  obtains i j A B where "mmap_skip (\<lambda>mm. base_va mm < va \<and> rsize mm \<noteq> 0) a s = Ret i s"
    "mmap_skip (\<lambda>mm. base_va mm = va \<and> rsize mm > sz) (drop i a) s = Ret j s"
    "i + j = length A" "a = A @ B @ replicate n empty_region" "insert_region r R = A @ r # B"
proof -
  let ?P = "\<lambda>t. base_va t < va \<and> rsize t \<noteq> 0" and ?Q = "\<lambda>t. base_va t = va \<and> sz < rsize t"
  have Z: "replicate n empty_region \<noteq> []" "hd (replicate n empty_region) = empty_region" using assms(2) by simp_all
  have drop: "drop (length (takeWhile ?P R)) a = dropWhile ?P R @ replicate n empty_region"
    using length_takeWhile_le [of ?P R] by (simp add: a_def dropWhile_eq_drop)
  have ins: "insert_region r R = takeWhile ?P R @ takeWhile ?Q (dropWhile ?P R) @ r # dropWhile ?Q (dropWhile ?P R)"
    using insert_place [of R r] assms(1,3) by (simp add: mmap_ok_def region_fits_def Let_def)
  show ?thesis
  proof (rule that)
    show "mmap_skip ?P a s = Ret (length (takeWhile ?P R)) s" unfolding a_def by (rule mmap_skip_run) (use Z in simp_all)
    show "mmap_skip ?Q (drop (length (takeWhile ?P R)) a) s = Ret (length (takeWhile ?Q (dropWhile ?P R))) s"
      unfolding drop by (rule mmap_skip_run) (use Z in simp_all)
    show "insert_region r R = (takeWhile ?P R @ takeWhile ?Q (dropWhile ?P R)) @ r # dropWhile ?Q (dropWhile ?P R)" using ins by simp
  qed (simp_all add: a_def)
qed

lemma mmap_add_region_run:
  assumes s: "mmap s = R @ replicate n empty_region" "mmap_ok p R" "0 < n"
    and r: "r = new_region pa va sz attr" "region_fits p r" "\<forall>t \<in> set R. compatible r t"
    and p: "PLAT_VIRT_ADDR_SPACE_SIZE p \<le> 2 ^ 48" "PLAT_PHY_ADDR_SPACE_SIZE p \<le> 2 ^ 48"
  shows "mmap_add_region p pa va sz attr s =
    (if xl_assertions p \<and> n = 1 \<and> (\<exists>t \<in> set R. before r t) then Stop Assertion_failed s else Ret () (added_region r R n s))"
proof -
  define a where "a = R @ replicate n empty_region"
  obtain i j A B where ij: "mmap_skip (\<lambda>mm. base_va mm < va \<and> rsize mm \<noteq> 0) a s = Ret i s"
    "mmap_skip (\<lambda>mm. base_va mm = va \<and> rsize mm > sz) (drop i a) s = Ret j s"
    and A: "i + j = length A" "a = A @ B @ replicate n empty_region" "insert_region r R = A @ r # B"
    using add_region_place [OF s(2,3) r(1), folded a_def] .
  have AB: "R = A @ B" using A(2) by (simp add: a_def)
  have lt: "sz \<noteq> 0" "pa < 2 ^ 64" "va < 2 ^ 64" "sz < 2 ^ 64" using r(1,2) p by (simp_all add: region_fits_def)
  have checks: "IS_PAGE_ALIGNED pa" "IS_PAGE_ALIGNED va" "IS_PAGE_ALIGNED sz" "pa < area_end pa sz" "va < area_end va sz"
    "area_end va sz \<le> PLAT_VIRT_ADDR_SPACE_SIZE p - 1" "area_end pa sz \<le> PLAT_PHY_ADDR_SPACE_SIZE p - 1"
    using fits_checks [OF lt p] r(1,2) by blast+
  have ends: "area_end pa sz = base_pa r + rsize r - 1" "area_end va sz = base_va r + rsize r - 1"
    using region_fits_area [OF r(2) p] r(1) by simp_all
  have over: "mwhen (xl_assertions p) (check_overlaps (xl_assertions p) pa va sz a) s = Ret () s"
    using check_overlaps_run [OF r(2) _ _ _ p, of R "replicate n empty_region" s] s(2,3) r(1,3)
    by (simp add: mwhen_def prog_simps mmap_ok_def a_def)
  let ?moved = "take (i + j) a @ [a ! (i + j)] @ butlast (drop (i + j) a)"
  have new: "?moved[i + j := r] = butlast (insert_region r R @ replicate n empty_region)"
    using moved_insert [OF A(1), of "B @ replicate n empty_region" r] s(3) A(2,3) by (simp add: butlast_append)
  have "rsize (last ?moved) = 0 \<longleftrightarrow> \<not> (n = 1 \<and> B \<noteq> [])"
  proof (cases "n = 1")
    case True
    then have "last ?moved = (if B = [] then empty_region else last B)" unfolding A(1,2) by (simp add: butlast_append nth_append)
    moreover have "B \<noteq> [] \<Longrightarrow> rsize (last B) \<noteq> 0" using s(2) AB last_in_set [of B] by (auto simp: mmap_ok_def region_fits_def)
    ultimately show ?thesis using True by auto
  next
    case False
    then obtain m where "n = Suc (Suc m)" using s(3) by (metis One_nat_def gr0_implies_Suc not0_implies_Suc)
    then have "last ?moved = empty_region" unfolding A(1,2) by (simp add: butlast_append butlast_replicate)
    then show ?thesis using False by simp
  qed
  moreover have "B \<noteq> [] \<longleftrightarrow> (\<exists>t \<in> set R. before r t)"
  proof -
    have so: "sorted_wrt before (A @ r # B)" using insert_region_keeps [OF s(2) r(2,3)] unfolding A(3) mmap_ok_def by simp
    then have "\<forall>t \<in> set A. before t r" "\<forall>t \<in> set B. before r t" by (auto simp: sorted_wrt_append)
    moreover have "\<not> (before t r \<and> before r t)" for t by (auto simp: before_def)
    ultimately show ?thesis unfolding AB by (cases B) auto
  qed
  ultimately have last: "rsize (last ?moved) = 0 \<longleftrightarrow> \<not> (n = 1 \<and> (\<exists>t \<in> set R. before r t))" by blast
  have "mmap_add_region p pa va sz attr s =
      mbind (dbg_assert (xl_assertions p) (rsize (last ?moved) = 0)) (\<lambda>_.
      mmodify (\<lambda>s. s\<lparr>mmap := ?moved[i + j := r], xlat_max_pa := max (area_end pa sz) (xlat_max_pa s),
        xlat_max_va := max (area_end va sz) (xlat_max_va s)\<rparr>)) s"
    unfolding mmap_add_region_def Let_def r(1) using checks over ij lt(1) s(1) by (simp only: dbg_assert_holds mbind_mret mbind_mget_run mbind_run a_def [symmetric] if_False)
  then show ?thesis unfolding last new ends by (simp add: dbg_assert_def added_region_def prog_simps)
qed

lemma mmap_add_region_rejects:
  assumes s: "mmap s = R @ replicate n empty_region" "mmap_ok p R" "0 < n" and dbg: "xl_assertions p"
    and a: "sz \<noteq> 0" "pa < 2 ^ 64" "va < 2 ^ 64" "sz < 2 ^ 64"
    and p: "PLAT_VIRT_ADDR_SPACE_SIZE p \<le> 2 ^ 48" "PLAT_PHY_ADDR_SPACE_SIZE p \<le> 2 ^ 48"
    and r: "r = new_region pa va sz attr" "\<not> (region_fits p r \<and> (\<forall>t \<in> set R. compatible r t))"
  shows "mmap_add_region p pa va sz attr s = Stop Assertion_failed s"
proof (cases "region_fits p r")
  case False
  then have "\<not> (IS_PAGE_ALIGNED pa \<and> IS_PAGE_ALIGNED va \<and> IS_PAGE_ALIGNED sz \<and> pa < area_end pa sz \<and> va < area_end va sz \<and>
      area_end va sz \<le> PLAT_VIRT_ADDR_SPACE_SIZE p - 1 \<and> area_end pa sz \<le> PLAT_PHY_ADDR_SPACE_SIZE p - 1)"
    using fits_checks [OF a p] r(1) by blast
  then show ?thesis using dbg a(1)
    by (auto simp: mmap_add_region_def Let_def dbg_assert_def prog_simps)
next
  case True
  then have checks: "IS_PAGE_ALIGNED pa" "IS_PAGE_ALIGNED va" "IS_PAGE_ALIGNED sz" "pa < area_end pa sz" "va < area_end va sz"
    "area_end va sz \<le> PLAT_VIRT_ADDR_SPACE_SIZE p - 1" "area_end pa sz \<le> PLAT_PHY_ADDR_SPACE_SIZE p - 1"
    using fits_checks [OF a p] r(1) by blast+
  have "check_overlaps True pa va sz (mmap s) s = Stop Assertion_failed s"
    using check_overlaps_run [OF True _ _ _ p, of R "replicate n empty_region" s] s r True by (simp add: mmap_ok_def)
  then show ?thesis using checks dbg a(1)
    by (simp add: mmap_add_region_def Let_def mwhen_def mbind_run)
qed

lemma added_ok:
  assumes "mmap_ok p R" "region_fits p r" "\<forall>t \<in> set R. compatible r t" "2 \<le> n"
  shows "mmap (added_region r R n s) = insert_region r R @ replicate (n - 1) empty_region" "mmap_ok p (insert_region r R)"
  using assms insert_region_keeps by (simp_all add: added_region_def butlast_append butlast_replicate)

text \<open>The innermost region comes last among those that contain an address.\<close>

lemma lookup_last:
  assumes "mmap_lookup R va = Some r" "t \<in> set R" "in_region t va" "t \<noteq> r"
  obtains P Q where "R = P @ r # Q" "t \<in> set P"
proof -
  have "\<exists>P Q. R = P @ r # Q \<and> (\<forall>u \<in> set Q. \<not> in_region u va)" using assms(1)
  proof (induction R rule: rev_induct)
    case (snoc x R)
    show ?case
    proof (cases "in_region x va")
      case True
      then have "x = r" using snoc.prems by (simp add: lookup_snoc)
      then show ?thesis by (intro exI [of _ R] exI [of _ "[]"]) simp
    next
      case False
      then obtain P Q where "R = P @ r # Q" "\<forall>u \<in> set Q. \<not> in_region u va" using snoc by (auto simp: lookup_snoc)
      then show ?thesis using False by (intro exI [of _ P] exI [of _ "Q @ [x]"]) simp
    qed
  qed simp
  then show ?thesis using assms(2-4) that by auto
qed

lemma in_both_inside: "compatible r t \<Longrightarrow> in_region r va \<Longrightarrow> in_region t va \<Longrightarrow> inside r t \<or> inside t r"
  by (auto simp: compatible_def in_region_def apart_def split: if_splits)

lemma innermost:
  assumes "mmap_ok p R" "mmap_lookup R va = Some r" "t \<in> set R" "in_region t va"
  shows "inside r t"
proof (cases "t = r")
  case False
  obtain P Q where R: "R = P @ r # Q" "t \<in> set P" using lookup_last [OF assms(2-4) False] .
  have "before t r" "compatible t r" using assms(1) R by (auto simp: mmap_ok_def sorted_wrt_append)
  moreover have "in_region r va" using lookup_Some [OF assms(2)] by simp
  ultimately show ?thesis using in_both_inside [of t r va] assms(4) by (auto simp: before_def inside_def)
qed (simp add: inside_def)

text \<open>An array that is good for the tables.\<close>

lemma mmap_ok_memory_map:
  assumes "mmap_ok p R" "xlat_port_ok p" "\<forall>r \<in> set R. base_pa r mod 2 ^ 30 = base_va r mod 2 ^ 30 \<and> rattr r AND 7 \<le> 2"
  shows "memory_map p R"
proof
  show "xlat_port_ok p" by (rule assms(2))
  show "\<forall>r \<in> set R. region_ok p r" using assms(1,3) by (auto simp: mmap_ok_def region_fits_def region_ok_def)
  show "sorted_wrt (\<lambda>r t. base_va r \<le> base_va t) R"
    using assms(1) by (auto simp: mmap_ok_def before_def elim!: sorted_wrt_mono_rel [rotated])
  fix r t va
  assume a: "r \<in> set R" "t \<in> set R" "in_region r va" "in_region t va"
  show "base_pa r + base_va t = base_pa t + base_va r"
  proof (cases "r = t")
    case False
    obtain i j where ij: "i < length R" "j < length R" "r = R ! i" "t = R ! j" using a(1,2) by (metis in_set_conv_nth)
    then have "i < j \<or> j < i" using False by (metis nat_neq_iff)
    moreover have "\<forall>i j. i < j \<longrightarrow> j < length R \<longrightarrow> compatible (R ! i) (R ! j)"
      using assms(1) by (simp add: mmap_ok_def sorted_wrt_iff_nth_less)
    ultimately have "compatible r t" using ij compatible_sym [of r t] by auto
    then show ?thesis using in_both_inside [OF _ a(3,4)] unfolding compatible_def by presburger
  qed simp
qed

end
