(* ===== verification/Xlat_Board.thy ===== *)
theory Xlat_Board
  imports Xlat_Regions
begin

text \<open>
  The memory map of the board: the regions that \<^verbatim>\<open>bl31_plat_arch_setup()\<close> adds are a good array, four
  tables are more than enough for them, and the MMU is switched on with tables that give every address the
  attributes of the memory map.
\<close>

section \<open>The regions of the board\<close>

definition ident_region :: "nat \<times> nat \<times> u32 \<Rightarrow> mmap_region_t" where
  "ident_region x = (case x of (base, sz, attr) \<Rightarrow> new_region base base sz attr)"

definition board_regions :: "nat \<Rightarrow> mmap_region_t list" where
  "board_regions ro_size = map ident_region
     [(0x0, 0x20000, 0x2), (0x100000, 0x10000, 0xA), (0x180000, 0x8000, 0xA), (0x900000, 0x20000, 0xA),
      (0x910000, ro_size, 0x2), (0x30200000, 0xC00000, 0x8), (0x32000000, 0x800000, 0x8), (0x38800000, 0x200000, 0x8),
      (0x3c000000, 0x4000000, 0x8), (0x40000000, 0xc0000000, 0x1A)]"

text \<open>The linker script leaves at most 64 KB for the image.\<close>

definition ro_size_ok :: "nat \<Rightarrow> bool" where
  "ro_size_ok ro_size \<longleftrightarrow> 0 < ro_size \<and> ro_size mod PAGE_SIZE = 0 \<and> ro_size \<le> 0x10000"

lemma board_sorted:
  assumes "ro_size_ok ro"
  shows "fold insert_region (map ident_region (imx8mq_mmap ro)) [] = board_regions ro"
  by (simp add: imx8mq_mmap_def board_regions_def ident_region_def before_def)

lemma board_fits:
  assumes "ro_size_ok ro"
  shows "\<forall>x \<in> set (imx8mq_mmap ro). region_fits (imx8mq_xlat_port dbg base) (ident_region x)"
  using assms by (simp add: imx8mq_mmap_def ident_region_def region_fits_def imx8mq_xlat_port_def ro_size_ok_def)

lemma board_compatible:
  assumes "ro_size_ok ro"
  shows "sorted_wrt compatible (map ident_region (imx8mq_mmap ro))"
  using assms
  by (simp add: imx8mq_mmap_def ident_region_def compatible_def inside_def apart_def ro_size_ok_def)

lemma board_port_ok: "xlat_port_ok (imx8mq_xlat_port dbg base)"
  by (simp add: xlat_port_ok_def imx8mq_xlat_port_def base_depth_def GET_XLAT_TABLE_LEVEL_BASE_def bsz_def)

section \<open>Adding them\<close>

definition same_tables :: "xlat_state \<Rightarrow> xlat_state \<Rightarrow> bool" where
  "same_tables s s' \<longleftrightarrow> base_xlation_table s' = base_xlation_table s \<and> xlat_tables s' = xlat_tables s \<and>
     next_xlat s' = next_xlat s \<and> sctlr_el3 s' = sctlr_el3 s"

definition max_below :: "xlat_port \<Rightarrow> xlat_state \<Rightarrow> bool" where
  "max_below p s \<longleftrightarrow> xlat_max_va s < PLAT_VIRT_ADDR_SPACE_SIZE p \<and> xlat_max_pa s < PLAT_PHY_ADDR_SPACE_SIZE p"

lemma add_regions_run:
  assumes "mmap s = R @ replicate n empty_region" "mmap_ok p R" "length xs < n" "max_below p s"
    "\<forall>x \<in> set xs. region_fits p (ident_region x)" "sorted_wrt compatible (map ident_region xs)"
    "\<forall>x \<in> set xs. \<forall>t \<in> set R. compatible (ident_region x) t" "xlat_port_ok p"
  shows "\<exists>s'. mfold (\<lambda>(base, sz, attr) _. mmap_add_region p base base sz attr) xs () s = Ret () s' \<and>
    mmap s' = fold insert_region (map ident_region xs) R @ replicate (n - length xs) empty_region \<and>
    mmap_ok p (fold insert_region (map ident_region xs) R) \<and> same_tables s s' \<and> max_below p s'"
  using assms
proof (induction xs arbitrary: s R n)
  case Nil
  then show ?case by (simp add: prog_simps same_tables_def)
next
  case (Cons x xs)
  obtain base sz attr where x: "x = (base, sz, attr)" by (cases x)
  define r where "r = ident_region x"
  have r: "r = new_region base base sz attr" by (simp add: r_def x ident_region_def)
  have fits: "region_fits p r" and comp: "\<forall>t \<in> set R. compatible r t" using Cons.prems by (simp_all add: r_def)
  have n: "2 \<le> n" using Cons.prems(3) by simp
  let ?s = "added_region r R n s"
  have run: "mmap_add_region p base base sz attr s = Ret () ?s"
    using mmap_add_region_run [OF Cons.prems(1,2) _ r fits comp] n Cons.prems(8) by (simp add: xlat_port_ok_def)
  note ok = added_ok(1) [OF Cons.prems(2) fits comp n, of s] added_ok(2) [OF Cons.prems(2) fits comp n]
  have "max_below p ?s" "same_tables s ?s" using Cons.prems(4) fits
    by (auto simp: max_below_def added_region_def region_fits_def same_tables_def)
  moreover have "\<forall>y \<in> set xs. \<forall>t \<in> set (insert_region r R). compatible (ident_region y) t"
    using Cons.prems(6,7) compatible_sym by (auto simp: r_def)
  moreover have "length xs < n - 1" using Cons.prems(3) by simp
  ultimately obtain s' where s': "mfold (\<lambda>(base, sz, attr) _. mmap_add_region p base base sz attr) xs () ?s = Ret () s'"
    "mmap s' = fold insert_region (map ident_region xs) (insert_region r R) @ replicate (n - 1 - length xs) empty_region"
    "mmap_ok p (fold insert_region (map ident_region xs) (insert_region r R))" "same_tables ?s s'" "max_below p s'"
    using Cons.IH [OF ok] Cons.prems(3,5,6,8) by auto
  then show ?case using run \<open>same_tables s ?s\<close> by (simp add: x mbind_run flip: r r_def) (simp add: r_def x same_tables_def)
qed

section \<open>How many tables they need\<close>

lemma board_ok:
  assumes "ro_size_ok ro"
  shows "mmap_ok (imx8mq_xlat_port dbg base) (board_regions ro)"
  using assms
  by (simp add: mmap_ok_def board_regions_def ident_region_def region_fits_def imx8mq_xlat_port_def before_def
      compatible_def inside_def apart_def ro_size_ok_def)

lemma board_offsets: "\<forall>r \<in> set (board_regions ro). base_pa r mod 2 ^ 30 = base_va r mod 2 ^ 30 \<and> rattr r AND 7 \<le> 2"
  by (simp add: board_regions_def ident_region_def)

lemma board_memory_map: "ro_size_ok ro \<Longrightarrow> memory_map (imx8mq_xlat_port dbg base) (board_regions ro)"
  by (rule mmap_ok_memory_map [OF board_ok board_port_ok board_offsets])

lemma board_base:
  "base_depth (imx8mq_xlat_port dbg base) = 2" "num_base_entries (imx8mq_xlat_port dbg base) = 4"
  by (simp_all add: base_depth_def num_base_entries_def GET_XLAT_TABLE_LEVEL_BASE_def imx8mq_xlat_port_def bsz_def)

text \<open>A valid size of the image, from any number.\<close>

definition ro_pages :: "nat \<Rightarrow> nat" where
  "ro_pages n = PAGE_SIZE * (1 + n mod 16)"

lemma ro_pages_ok: "ro_size_ok (ro_pages n)"
proof -
  have "n mod 16 \<le> 15" by (rule less_Suc_eq_le [THEN iffD1]) simp
  then have "PAGE_SIZE * (1 + n mod 16) \<le> PAGE_SIZE * 16" by (intro mult_le_mono2) simp
  then show ?thesis by (simp add: ro_pages_def ro_size_ok_def)
qed

lemma ro_size_pages:
  assumes "ro_size_ok ro"
  obtains n where "ro = ro_pages n"
proof -
  obtain q where q: "ro = PAGE_SIZE * q" "0 < q" "q \<le> 16" using assms by (auto simp: ro_size_ok_def elim!: dvdE)
  then have "ro = ro_pages (q - 1)" by (simp add: ro_pages_def)
  then show ?thesis using that by blast
qed

interpretation board: memory_map "imx8mq_xlat_port dbg base" "board_regions (ro_pages n)" for dbg base n
  by (rule board_memory_map [OF ro_pages_ok])

text \<open>The first gigabyte is mapped by a table, and in it the first and the fifth block of 2 MB.\<close>

lemma board_partly_1:
  assumes "r \<in> set (board_regions ro)" "partly r (i * bsz 1) (bsz 1)" "ro_size_ok ro"
  shows "i \<in> {0, 4}"
proof -
  have b: "bsz 1 = 0x200000" by (simp add: bsz_def)
  have "\<not> partly r (i * 0x200000) 0x200000" if "base_va r mod 0x200000 = 0" "rsize r mod 0x200000 = 0"
    using aligned_not_partly [OF that] by simp
  moreover have "i = 0" if "base_va r + rsize r \<le> 0x200000" "partly r (i * 0x200000) 0x200000"
    using that by (cases i) (auto simp: partly_def in_region_def)
  moreover have "i = 4" if "0x800000 \<le> base_va r" "base_va r + rsize r \<le> 0xA00000" "partly r (i * 0x200000) 0x200000"
    using that by (auto simp: partly_def in_region_def)
  ultimately show ?thesis using assms unfolding b
    by (auto simp: board_regions_def ident_region_def ro_size_ok_def)
qed

lemma board_partly_2:
  assumes "r \<in> set (board_regions ro)" "partly r (i * bsz 2) (bsz 2)" "ro_size_ok ro"
  shows "i = 0"
proof -
  have b: "bsz 2 = 0x40000000" by (simp add: bsz_def)
  have "\<not> partly r (i * 0x40000000) 0x40000000" if "base_va r mod 0x40000000 = 0" "rsize r mod 0x40000000 = 0"
    using aligned_not_partly [OF that] by simp
  moreover have "i = 0" if "base_va r + rsize r \<le> 0x40000000" "partly r (i * 0x40000000) 0x40000000"
    using that by (cases i) (auto simp: partly_def in_region_def)
  ultimately show ?thesis using assms unfolding b
    by (auto simp: board_regions_def ident_region_def ro_size_ok_def)
qed

lemma board_tables: "tables_needed (imx8mq_xlat_port dbg base) (board_regions (ro_pages n)) \<le> 3"
proof -
  let ?R = "board_regions (ro_pages n)"
  have one: "block_cost ?R 1 (i * bsz 1) \<le> (if i \<in> {0, 4} then 1 else 0)" for i
    using board.needs_partly [of n 1 "i * bsz 1"] board_partly_1 [OF _ _ ro_pages_ok, of _ n i] by auto
  have "(\<Sum>i < 512. block_cost ?R 1 (i * bsz 1)) \<le> (\<Sum>i < 512. if i \<in> {0, 4 :: nat} then 1 else 0)"
    by (intro sum_mono one)
  also have "\<dots> = 2"
  proof -
    have "{..<512} \<inter> {i. i \<in> {0, 4}} = {0, 4 :: nat}" by auto
    then show ?thesis by (simp only: sum.If_cases finite_lessThan) simp
  qed
  finally have first: "block_cost ?R 2 0 \<le> 3" by (simp add: numeral_2_eq_2)
  have "block_cost ?R 2 (i * bsz 2) = 0" if "i \<noteq> 0" for i
    using board.needs_partly [of n 2 "i * bsz 2"] board_partly_2 [OF _ _ ro_pages_ok, of _ n i] that by (auto simp: numeral_2_eq_2)
  then have "(\<Sum>i < 4. block_cost ?R 2 (i * bsz 2)) = (\<Sum>i \<in> {0}. block_cost ?R 2 (i * bsz 2))"
    by (intro sum.mono_neutral_right) auto
  then show ?thesis using first by (simp add: tables_needed_def blocks_cost_def board_base)
qed

section \<open>The translation\<close>

definition board_attr :: "nat \<Rightarrow> nat \<Rightarrow> u32 option" where
  "board_attr ro_size va =
     (if va < 0x20000 then Some 0x2
      else if 0x100000 \<le> va \<and> va < 0x110000 \<or> 0x180000 \<le> va \<and> va < 0x188000 then Some 0xA
      else if 0x910000 \<le> va \<and> va < 0x910000 + ro_size then Some 0x2
      else if 0x900000 \<le> va \<and> va < 0x920000 then Some 0xA
      else if 0x30200000 \<le> va \<and> va < 0x30E00000 \<or> 0x32000000 \<le> va \<and> va < 0x32800000 \<or>
              0x38800000 \<le> va \<and> va < 0x38A00000 \<or> 0x3C000000 \<le> va \<and> va < 0x40000000 then Some 0x8
      else if 0x40000000 \<le> va \<and> va < 0x100000000 then Some 0x1A
      else None)"

lemma board_spec:
  assumes "ro_size_ok ro"
  shows "xlat_spec (board_regions ro) va = map_option (\<lambda>attr. (va, mmap_attrs el3_xn el3_ap1 attr)) (board_attr ro va)"
  using assms
  by (simp add: xlat_spec_def mmap_lookup_def board_regions_def ident_region_def in_region_def board_attr_def ro_size_ok_def)

lemma ctz_power: "ctz (2 ^ n) = n"
  by (induction n) (subst ctz.simps, simp)+

lemma or_mask_absorb: "(x OR w) AND w = w" for x w :: u32
  by (rule bit_word_eqI) (auto simp: bit_simps)

text \<open>The registers with which the MMU runs; the number of address bits is 32.\<close>

definition mmu_running :: "nat \<Rightarrow> xlat_state \<Rightarrow> bool" where
  "mmu_running base s \<longleftrightarrow> sctlr_el3 s AND 0x80005 = 0x80005 \<and> mair_el3 s = 0x4404FF \<and> ttbr0_el3 s = of_nat base \<and>
     tcr_el3 s = 0x80803520 OR push_bit 16 (tcr_ps_bits s)"

lemma mmu_on:
  assumes "sctlr_el3 s AND 1 = 0"
  shows "\<exists>s'. enable_mmu_el3 (imx8mq_xlat_port dbg base) 0 s = Ret () s' \<and> base_xlation_table s' = base_xlation_table s \<and>
    xlat_tables s' = xlat_tables s \<and> mmu_running base s'"
proof -
  have c: "((x OR 0x80001) OR 4) AND 0x80005 = 0x80005" for x :: u32
    using or_mask_absorb [of x "0x80005"] by (simp add: or.assoc)
  have t: "ctz 4294967296 = 32" using ctz_power [of 32] by simp
  have w: "(push_bit 12 3 OR push_bit 10 1 OR push_bit 8 1 OR of_nat 32) OR push_bit 31 1 OR push_bit 23 1 OR y = 0x80803520 OR y" for y :: u64
    by (simp flip: or.assoc)
  show ?thesis using assms
    by (simp add: enable_mmu_el3_def imx8mq_xlat_port_def t Let_def prog_simps mmu_running_def MAIR_ATTR_SET_def c w [simplified])
qed

lemma walk_same: "base_xlation_table s' = base_xlation_table s \<Longrightarrow> xlat_tables s' = xlat_tables s \<Longrightarrow> mmu_walk p s' va = mmu_walk p s va"
proof -
  assume a: "base_xlation_table s' = base_xlation_table s" "xlat_tables s' = xlat_tables s"
  have "mmu_desc p s' d level va = mmu_desc p s d level va" for d level
    by (induction "3 - level" arbitrary: d level) (subst (1 2) mmu_desc.simps, simp add: a)+
  then show ?thesis using a by (simp add: mmu_walk_def Let_def)
qed

section \<open>The MMU of the board\<close>

definition cold_tables :: "xlat_state \<Rightarrow> bool" where
  "cold_tables s \<longleftrightarrow> mmap s = replicate 15 empty_region \<and> length (base_xlation_table s) = 4 \<and>
     map length (xlat_tables s) = replicate 4 512 \<and> next_xlat s = 0 \<and> xlat_max_pa s = 0 \<and> xlat_max_va s = 0 \<and>
     sctlr_el3 s AND 1 = 0"

lemma board_run:
  assumes ro: "ro_size_ok ro" and s: "cold_tables s" and id: "dbg \<Longrightarrow> unat (mmfr0 AND 0xf) < 7"
  shows "\<exists>s'. bl31_plat_arch_setup (imx8mq_xlat_port dbg base) ro mmfr0 s = Ret () s' \<and> mmu_running base s' \<and>
    (\<forall>va < 2 ^ 32. mmu_walk (imx8mq_xlat_port dbg base) s' va =
      map_option (\<lambda>attr. (va, mmap_attrs el3_xn el3_ap1 attr)) (board_attr ro va))"
proof -
  let ?p = "imx8mq_xlat_port dbg base"
  obtain n where n: "ro = ro_pages n" using ro_size_pages [OF ro] .
  have sz: "PLAT_VIRT_ADDR_SPACE_SIZE ?p = 2 ^ 32" "PLAT_PHY_ADDR_SPACE_SIZE ?p = 2 ^ 32" "MAX_XLAT_TABLES ?p = 4" "xl_assertions ?p = dbg"
    by (simp_all add: imx8mq_xlat_port_def)
  have "mmap s = [] @ replicate 15 empty_region" "mmap_ok ?p []" "length (imx8mq_mmap ro) < 15" "max_below ?p s"
    using s sz by (simp_all add: cold_tables_def mmap_ok_def imx8mq_mmap_def max_below_def)
  from add_regions_run [OF this board_fits [OF ro] board_compatible [OF ro] _ board_port_ok]
  obtain s1 where s1: "mfold (\<lambda>(base, sz, attr) _. mmap_add_region ?p base base sz attr) (imx8mq_mmap ro) () s = Ret () s1"
    "mmap s1 = board_regions ro @ replicate 5 empty_region" "same_tables s s1" "max_below ?p s1"
    using board_sorted [OF ro] by (auto simp: imx8mq_mmap_def)
  have "board.sentinel (replicate 5 empty_region)" by (simp add: board.sentinel_def)
  moreover have "next_xlat s1 + tables_needed ?p (board_regions (ro_pages n)) \<le> MAX_XLAT_TABLES ?p"
    using s1(3) s board_tables [of dbg base n] by (simp add: same_tables_def cold_tables_def sz)
  moreover have "pa_supported ?p mmfr0" if dbg
  proof -
    have "unat (mmfr0 AND 0xf) \<in> {0, 1, 2, 3, 4, 5, 6}" using id [OF that] by auto
    then show ?thesis unfolding pa_supported_def sz by auto
  qed
  ultimately obtain s2 where s2: "init_xlat_tables ?p 3 mmfr0 s1 = Ret () s2" "sctlr_el3 s2 = sctlr_el3 s1"
    "\<forall>va < 2 ^ 32. mmu_walk ?p s2 va = xlat_spec (board_regions ro) va"
    using board.init_xlat_tables_run [of s1 n "replicate 5 empty_region" dbg base mmfr0] s1(2-4) s
    by (auto simp: same_tables_def cold_tables_def max_below_def sz n board_base)
  have "sctlr_el3 s2 AND 1 = 0" using s2(2) s1(3) s by (simp add: same_tables_def cold_tables_def)
  then obtain s3 where "enable_mmu_el3 ?p 0 s2 = Ret () s3" "base_xlation_table s3 = base_xlation_table s2"
    "xlat_tables s3 = xlat_tables s2" "mmu_running base s3" using mmu_on by blast
  then show ?thesis using s1(1) s2(1,3) walk_same [of s3 s2] board_spec [OF ro]
    by (simp add: bl31_plat_arch_setup_def mbind_run)
qed

section \<open>Properties\<close>

text \<open>C6. The translation tables are right. When the array of regions is well-formed and the tables are enough,
  \<^verbatim>\<open>init_xlat_tables()\<close> returns, and the MMU finds for every address of the address space the physical
  address and the attributes of the innermost region that contains it, and no translation where no region is.\<close>

theorem xlat_tables_translate:
  assumes "mmap s = R @ replicate n empty_region" "0 < n" "mmap_ok p R" "xlat_port_ok p"
    "\<forall>r \<in> set R. base_pa r mod 2 ^ 30 = base_va r mod 2 ^ 30 \<and> rattr r AND 7 \<le> 2"
    "length (base_xlation_table s) = num_base_entries p" "map length (xlat_tables s) = replicate (MAX_XLAT_TABLES p) 512"
    "next_xlat s + tables_needed p R \<le> MAX_XLAT_TABLES p" "max_below p s" "xl_assertions p \<longrightarrow> pa_supported p mmfr0"
  shows "\<exists>s'. init_xlat_tables p 3 mmfr0 s = Ret () s' \<and>
    (\<forall>va < PLAT_VIRT_ADDR_SPACE_SIZE p.
       case mmu_walk p s' va of
         None \<Rightarrow> \<forall>r \<in> set R. \<not> in_region r va
       | Some (pa, a) \<Rightarrow> \<exists>r \<in> set R. in_region r va \<and> (\<forall>t \<in> set R. in_region t va \<longrightarrow> inside r t) \<and>
           pa = va - base_va r + base_pa r \<and> a = mmap_attrs el3_xn el3_ap1 (rattr r))"
proof -
  have mm: "memory_map p R" by (rule mmap_ok_memory_map [OF assms(3-5)])
  have "memory_map.sentinel (replicate n empty_region)" using assms(2) by (simp add: memory_map.sentinel_def [OF mm])
  then obtain s' where s': "init_xlat_tables p 3 mmfr0 s = Ret () s'"
    "\<forall>va < PLAT_VIRT_ADDR_SPACE_SIZE p. mmu_walk p s' va = xlat_spec R va"
    using memory_map.init_xlat_tables_run [OF mm assms(1) _ assms(6-8), of mmfr0] assms(9,10) by (auto simp: max_below_def)
  have "case xlat_spec R va of None \<Rightarrow> \<forall>r \<in> set R. \<not> in_region r va
     | Some (pa, a) \<Rightarrow> \<exists>r \<in> set R. in_region r va \<and> (\<forall>t \<in> set R. in_region t va \<longrightarrow> inside r t) \<and>
         pa = va - base_va r + base_pa r \<and> a = mmap_attrs el3_xn el3_ap1 (rattr r)" for va
  proof (cases "mmap_lookup R va")
    case None
    then have "\<forall>r \<in> set R. \<not> in_region r va" by (simp add: mmap_lookup_def find_None_iff)
    then show ?thesis using None by (simp add: xlat_spec_def)
  next
    case (Some r)
    then show ?thesis using lookup_Some [OF Some] innermost [OF assms(3) Some] by (simp add: xlat_spec_def) blast
  qed
  then show ?thesis using s' by auto
qed

definition sample_regions :: xlat_state where
  "sample_regions = \<lparr>mmap = board_regions (ro_pages 15) @ replicate 5 empty_region, base_xlation_table = replicate 4 0,
     xlat_tables = replicate 4 (replicate 512 0), next_xlat = 0, xlat_max_pa = 0xffffffff, xlat_max_va = 0xffffffff,
     execute_never_mask = 0, ap1_mask = 0, tcr_ps_bits = 0, mair_el3 = 0, tcr_el3 = 0, ttbr0_el3 = 0, sctlr_el3 = 0x30c50830\<rparr>"

theorem xlat_tables_translate_witness:
  "\<exists>s'. init_xlat_tables (imx8mq_xlat_port True 0) 3 0x1122 sample_regions = Ret () s' \<and>
    mmu_walk (imx8mq_xlat_port True 0) s' 0x915000 = Some (0x915000, 0x7C0)"
proof -
  let ?p = "imx8mq_xlat_port True 0" and ?R = "board_regions (ro_pages 15)"
  have "mmap sample_regions = ?R @ replicate 5 empty_region" by (simp add: sample_regions_def)
  moreover have "next_xlat sample_regions + tables_needed ?p ?R \<le> MAX_XLAT_TABLES ?p"
    using board_tables [of True 0 15] by (simp add: sample_regions_def imx8mq_xlat_port_def)
  moreover have "length (base_xlation_table sample_regions) = num_base_entries ?p" by (simp add: sample_regions_def board_base(2))
  moreover have "map length (xlat_tables sample_regions) = replicate (MAX_XLAT_TABLES ?p) 512" "max_below ?p sample_regions"
    "xl_assertions ?p \<longrightarrow> pa_supported ?p 0x1122" "0x915000 < PLAT_VIRT_ADDR_SPACE_SIZE ?p"
    by (simp_all add: sample_regions_def imx8mq_xlat_port_def max_below_def pa_supported_def)
  ultimately obtain s' where s': "init_xlat_tables ?p 3 0x1122 sample_regions = Ret () s'"
    "case mmu_walk ?p s' 0x915000 of
       None \<Rightarrow> \<forall>r \<in> set ?R. \<not> in_region r 0x915000
     | Some (pa, a) \<Rightarrow> \<exists>r \<in> set ?R. in_region r 0x915000 \<and> (\<forall>t \<in> set ?R. in_region t 0x915000 \<longrightarrow> inside r t) \<and>
         pa = 0x915000 - base_va r + base_pa r \<and> a = mmap_attrs el3_xn el3_ap1 (rattr r)"
    using xlat_tables_translate [OF _ _ board_ok [OF ro_pages_ok] board_port_ok board_offsets, of sample_regions 15 5 True 0 "0x1122"]
    by auto
  have "mmu_walk ?p s' 0x915000 = Some (0x915000, 0x7C0)"
    using s'(2)
    by (auto simp: board_regions_def ident_region_def in_region_def inside_def ro_pages_def mmap_attrs_def LOWER_ATTRS_def
        split: option.splits)
  then show ?thesis using s'(1) by blast
qed

text \<open>C9. \<^verbatim>\<open>mmap_add_region()\<close> in a build with assertions, for any arguments, while the array has room: it refuses
  a region that is not aligned, leaves the address space, is there already, or overlaps another one in part
  or with another offset; it ignores an empty region; every other region it inserts in the order of base addresses,
  larger regions first, and the array stays well-formed.\<close>

theorem mmap_add_region_checked:
  assumes "mmap s = R @ replicate n empty_region" "mmap_ok p R" "2 \<le> n" "xl_assertions p" "xlat_port_ok p"
    "pa < 2 ^ 64" "va < 2 ^ 64" "sz < 2 ^ 64" "r = new_region pa va sz attr"
  shows "mmap_add_region p pa va sz attr s =
      (if sz = 0 \<and> IS_PAGE_ALIGNED pa \<and> IS_PAGE_ALIGNED va then Ret () s
       else if region_fits p r \<and> (\<forall>t \<in> set R. compatible r t) then Ret () (added_region r R n s)
       else Stop Assertion_failed s) \<and>
    (region_fits p r \<and> (\<forall>t \<in> set R. compatible r t) \<longrightarrow>
      mmap (added_region r R n s) = insert_region r R @ replicate (n - 1) empty_region \<and> mmap_ok p (insert_region r R))"
proof -
  have p: "PLAT_VIRT_ADDR_SPACE_SIZE p \<le> 2 ^ 48" "PLAT_PHY_ADDR_SPACE_SIZE p \<le> 2 ^ 48" using assms(5) by (simp_all add: xlat_port_ok_def)
  have n: "0 < n" using assms(3) by simp
  have "mmap_add_region p pa va sz attr s =
      (if sz = 0 \<and> IS_PAGE_ALIGNED pa \<and> IS_PAGE_ALIGNED va then Ret () s
       else if region_fits p r \<and> (\<forall>t \<in> set R. compatible r t) then Ret () (added_region r R n s)
       else Stop Assertion_failed s)"
  proof (cases "sz = 0")
    case True
    then show ?thesis using assms(4,9)
      by (simp add: mmap_add_region_def Let_def dbg_assert_def region_fits_def IS_PAGE_ALIGNED_def prog_simps)
  next
    case False
    then show ?thesis
      using mmap_add_region_rejects [OF assms(1,2) n assms(4) False assms(6-8) p assms(9)]
        mmap_add_region_run [OF assms(1,2) n assms(9) _ _ p] assms(3) by auto
  qed
  then show ?thesis using added_ok [OF assms(2) _ _ assms(3)] by blast
qed

theorem mmap_add_region_checked_witness:
  "mmap_add_region (imx8mq_xlat_port True 0) 0x20000 0x20000 0x1000 8 sample_regions =
    Ret () (added_region (new_region 0x20000 0x20000 0x1000 8) (board_regions (ro_pages 15)) 5 sample_regions) \<and>
   mmap_ok (imx8mq_xlat_port True 0) (insert_region (new_region 0x20000 0x20000 0x1000 8) (board_regions (ro_pages 15)))"
proof -
  let ?r = "new_region 0x20000 0x20000 0x1000 8"
  have "mmap sample_regions = board_regions (ro_pages 15) @ replicate 5 empty_region" by (simp add: sample_regions_def)
  note checked = mmap_add_region_checked [OF this board_ok [OF ro_pages_ok] _ _ board_port_ok, of True 0 "0x20000" "0x20000" "0x1000" ?r 8]
  have "region_fits (imx8mq_xlat_port True 0) ?r" by (simp add: region_fits_def imx8mq_xlat_port_def)
  moreover have "\<forall>t \<in> set (board_regions (ro_pages 15)). compatible ?r t"
    by (simp add: board_regions_def ident_region_def compatible_def inside_def apart_def ro_pages_def)
  ultimately show ?thesis using checked by (simp add: imx8mq_xlat_port_def)
qed

text \<open>C37. The check that the array still ends with an empty region is made before the new region is written: in an
  array with one empty entry left, a region behind all others is accepted, in a build with assertions too,
  and no entry of size 0 is left at the end.\<close>

theorem mmap_add_region_loses_sentinel:
  assumes "mmap s = R @ [empty_region]" "mmap_ok p R" "xlat_port_ok p" "r = new_region pa va sz attr" "region_fits p r"
    "\<forall>t \<in> set R. compatible r t \<and> before t r"
  shows "\<exists>s'. mmap_add_region p pa va sz attr s = Ret () s' \<and> length (mmap s') = length (mmap s) \<and>
    (\<forall>t \<in> set (mmap s'). rsize t \<noteq> 0)"
proof -
  have p: "PLAT_VIRT_ADDR_SPACE_SIZE p \<le> 2 ^ 48" "PLAT_PHY_ADDR_SPACE_SIZE p \<le> 2 ^ 48" using assms(3) by (simp_all add: xlat_port_ok_def)
  have "\<not> before r t" if "t \<in> set R" for t using assms(6) that by (auto simp: before_def)
  then have run: "mmap_add_region p pa va sz attr s = Ret () (added_region r R 1 s)"
    using mmap_add_region_run [of s R 1 p r pa va sz attr] assms p by auto
  have "insert_region r Q = Q @ [r]" if "\<forall>t \<in> set Q. before t r" for Q using that by (induction Q) simp_all
  then have "mmap (added_region r R 1 s) = R @ [r]" using assms(6) by (simp add: added_region_def butlast_append)
  then show ?thesis using run assms(1,2,5) by (auto simp: mmap_ok_def region_fits_def)
qed

theorem mmap_add_region_loses_sentinel_witness:
  "\<exists>s'. mmap_add_region (imx8mq_xlat_port True 0) 0x1000 0x1000 0x1000 8 (sample_regions\<lparr>mmap := [new_region 0 0 0x1000 8, empty_region]\<rparr>) = Ret () s' \<and>
    length (mmap s') = 2 \<and> (\<forall>t \<in> set (mmap s'). rsize t \<noteq> 0)"
proof -
  have ok: "mmap_ok (imx8mq_xlat_port True 0) [new_region 0 0 0x1000 8]" by (simp add: mmap_ok_def region_fits_def imx8mq_xlat_port_def)
  have fits: "region_fits (imx8mq_xlat_port True 0) (new_region 0x1000 0x1000 0x1000 8)" by (simp add: region_fits_def imx8mq_xlat_port_def)
  show ?thesis
    using mmap_add_region_loses_sentinel [OF _ ok board_port_ok refl fits, of "sample_regions\<lparr>mmap := [new_region 0 0 0x1000 8, empty_region]\<rparr>"]
    by (simp add: compatible_def inside_def apart_def before_def numeral_2_eq_2)
qed

text \<open>C7. The MMU of the board: \<^verbatim>\<open>bl31_plat_arch_setup()\<close> returns with the MMU on, and every address below 4 GB is mapped to
  itself with the attributes of the memory map; the addresses outside it are not mapped.\<close>

theorem board_mmu_map:
  assumes "ro_size_ok ro" "cold_tables s" "dbg \<longrightarrow> unat (mmfr0 AND 0xf) < 7"
  shows "\<exists>s'. bl31_plat_arch_setup (imx8mq_xlat_port dbg base) ro mmfr0 s = Ret () s' \<and> mmu_running base s' \<and>
    (\<forall>va < 2 ^ 32. mmu_walk (imx8mq_xlat_port dbg base) s' va =
      map_option (\<lambda>attr. (va, mmap_attrs el3_xn el3_ap1 attr)) (board_attr ro va))"
  using board_run assms by blast

definition sample_cold :: xlat_state where
  "sample_cold = sample_regions\<lparr>mmap := replicate 15 empty_region, xlat_max_pa := 0, xlat_max_va := 0\<rparr>"

lemma sample_cold_ok: "cold_tables sample_cold" "ro_size_ok 0xD000"
  by (simp_all add: cold_tables_def sample_cold_def sample_regions_def ro_size_ok_def)

theorem board_mmu_map_witness:
  "\<exists>s'. bl31_plat_arch_setup (imx8mq_xlat_port True 0x91a000) 0xD000 0x1122 sample_cold = Ret () s' \<and> mmu_running 0x91a000 s' \<and>
    mmu_walk (imx8mq_xlat_port True 0x91a000) s' 0x38800004 = Some (0x38800004, 0x40000000000644) \<and>
    mmu_walk (imx8mq_xlat_port True 0x91a000) s' 0x20000 = None"
proof -
  obtain s' where "bl31_plat_arch_setup (imx8mq_xlat_port True 0x91a000) 0xD000 0x1122 sample_cold = Ret () s'" "mmu_running 0x91a000 s'"
    and w: "\<forall>va < 2 ^ 32. mmu_walk (imx8mq_xlat_port True 0x91a000) s' va =
      map_option (\<lambda>attr. (va, mmap_attrs el3_xn el3_ap1 attr)) (board_attr 0xD000 va)"
    using board_mmu_map [of "0xD000" sample_cold True "0x1122" "0x91a000"] sample_cold_ok by auto
  moreover have "mmu_walk (imx8mq_xlat_port True 0x91a000) s' 0x38800004 = Some (0x38800004, 0x40000000000644)"
    "mmu_walk (imx8mq_xlat_port True 0x91a000) s' 0x20000 = None"
    using w by (simp_all add: board_attr_def mmap_attrs_def LOWER_ATTRS_def)
  ultimately show ?thesis by blast
qed

definition desc_writable :: "u64 \<Rightarrow> bool" where
  "desc_writable a \<longleftrightarrow> a AND 0x80 = 0"

definition desc_executable :: "u64 \<Rightarrow> bool" where
  "desc_executable a \<longleftrightarrow> a AND 0x40000000000000 = 0"

definition desc_non_secure :: "u64 \<Rightarrow> bool" where
  "desc_non_secure a \<longleftrightarrow> a AND 0x20 \<noteq> 0"

lemma attr_cases:
  assumes "attr \<in> {0x2, 0xA, 0x8, 0x1A}"
  shows "desc_writable (mmap_attrs el3_xn el3_ap1 attr) \<longleftrightarrow> attr \<noteq> 0x2"
    "desc_executable (mmap_attrs el3_xn el3_ap1 attr) \<longleftrightarrow> attr = 0x2"
    "desc_non_secure (mmap_attrs el3_xn el3_ap1 attr) \<longleftrightarrow> attr = 0x1A"
  using assms by (auto simp: desc_writable_def desc_executable_def desc_non_secure_def mmap_attrs_def LOWER_ATTRS_def)

lemma board_attr_ranges:
  assumes "ro_size_ok ro" "board_attr ro va = Some attr"
  shows "attr \<in> {0x2, 0xA, 0x8, 0x1A}" "attr = 0x2 \<longleftrightarrow> va < 0x20000 \<or> 0x910000 \<le> va \<and> va < 0x910000 + ro"
    "attr = 0x1A \<longleftrightarrow> 0x40000000 \<le> va"
  using assms by (auto simp: board_attr_def ro_size_ok_def split: if_splits)

text \<open>C8. What the firmware may do with its memory once the MMU is on: no address is both writable and executable, the
  only addresses it may execute are those of the boot ROM and of the read-only part of its image, and the memory
  it accesses as the normal world's is exactly the DRAM.\<close>

theorem board_memory_protected:
  assumes "ro_size_ok ro" "cold_tables s" "dbg \<longrightarrow> unat (mmfr0 AND 0xf) < 7"
  shows "\<exists>s'. bl31_plat_arch_setup (imx8mq_xlat_port dbg base) ro mmfr0 s = Ret () s' \<and>
    (\<forall>va pa a. va < 2 ^ 32 \<and> mmu_walk (imx8mq_xlat_port dbg base) s' va = Some (pa, a) \<longrightarrow>
      \<not> (desc_writable a \<and> desc_executable a) \<and>
      (desc_executable a \<longleftrightarrow> va < 0x20000 \<or> 0x910000 \<le> va \<and> va < 0x910000 + ro) \<and>
      (desc_non_secure a \<longleftrightarrow> 0x40000000 \<le> va))"
proof -
  obtain s' where s': "bl31_plat_arch_setup (imx8mq_xlat_port dbg base) ro mmfr0 s = Ret () s'"
    "\<forall>va < 2 ^ 32. mmu_walk (imx8mq_xlat_port dbg base) s' va =
      map_option (\<lambda>attr. (va, mmap_attrs el3_xn el3_ap1 attr)) (board_attr ro va)"
    using board_run [OF assms(1,2), of dbg mmfr0 base] assms(3) by blast
  have "\<not> (desc_writable a \<and> desc_executable a) \<and> (desc_executable a \<longleftrightarrow> va < 0x20000 \<or> 0x910000 \<le> va \<and> va < 0x910000 + ro) \<and>
      (desc_non_secure a \<longleftrightarrow> 0x40000000 \<le> va)"
    if va: "va < 2 ^ 32" and w: "mmu_walk (imx8mq_xlat_port dbg base) s' va = Some (pa, a)" for va pa a
  proof -
    obtain attr where attr: "board_attr ro va = Some attr" "a = mmap_attrs el3_xn el3_ap1 attr" using s'(2) va w by auto
    note r = board_attr_ranges [OF assms(1) attr(1)]
    show ?thesis unfolding attr(2) attr_cases [OF r(1)] using r(2,3) by blast
  qed
  then show ?thesis using s'(1) by blast
qed

theorem board_memory_protected_witness:
  "\<exists>s'. bl31_plat_arch_setup (imx8mq_xlat_port False 0x91a000) 0xD000 0x1122 sample_cold = Ret () s' \<and>
    mmu_walk (imx8mq_xlat_port False 0x91a000) s' 0x910000 \<noteq> Some (0x910000, 0x740)"
proof -
  obtain s' where "bl31_plat_arch_setup (imx8mq_xlat_port False 0x91a000) 0xD000 0x1122 sample_cold = Ret () s'"
    and w: "\<forall>va pa a. va < 2 ^ 32 \<and> mmu_walk (imx8mq_xlat_port False 0x91a000) s' va = Some (pa, a) \<longrightarrow>
      \<not> (desc_writable a \<and> desc_executable a)"
    using board_memory_protected [of "0xD000" sample_cold False "0x1122" "0x91a000"] sample_cold_ok by blast
  moreover have "mmu_walk (imx8mq_xlat_port False 0x91a000) s' 0x910000 \<noteq> Some (0x910000, 0x740)"
  proof
    assume "mmu_walk (imx8mq_xlat_port False 0x91a000) s' 0x910000 = Some (0x910000, 0x740)"
    then have "\<not> (desc_writable 0x740 \<and> desc_executable 0x740)" by (intro w [rule_format, of "0x910000" "0x910000"]) simp
    then show False by (simp add: desc_writable_def desc_executable_def)
  qed
  ultimately show ?thesis by blast
qed

end
