(* ===== verification/Gicv3_Regs.thy ===== *)
theory Gicv3_Regs
  imports Prelude
begin

text \<open>
  The registers of the GICv3 interrupt controller as the driver reaches them: the accessors of
  \<^verbatim>\<open>drivers/arm/gic/common/gic_common.c\<close>, \<^verbatim>\<open>gic_common_private.h\<close>,
  \<^verbatim>\<open>drivers/arm/gic/v3/gicv3_private.h\<close> and the first part of \<^verbatim>\<open>gicv3_helpers.c\<close>.

  The controller is a parameter: a record of functions that say what a read of its registers
  returns, what a write does to its state, and how that state moves on between two reads of a
  polling loop. A loop that polls a register gives up with \<open>Device_hangs\<close> after
  \<open>gic_patience\<close> reads. Interrupt identifiers, which are \<^verbatim>\<open>unsigned int\<close>, and register numbers are
  natural numbers; addresses and register values are words. The system registers of the
  CPU interface belong to the executing core.
\<close>

section \<open>The controller and the state of the driver\<close>

record 'd gic_device =
  gic_read_32 :: "'d \<Rightarrow> u64 \<Rightarrow> u32"
  gic_read_64 :: "'d \<Rightarrow> u64 \<Rightarrow> u64"
  gic_write_8 :: "u64 \<Rightarrow> u8 \<Rightarrow> 'd \<Rightarrow> 'd"
  gic_write_32 :: "u64 \<Rightarrow> u32 \<Rightarrow> 'd \<Rightarrow> 'd"
  gic_write_64 :: "u64 \<Rightarrow> u64 \<Rightarrow> 'd \<Rightarrow> 'd"
  gic_step :: "'d \<Rightarrow> 'd"
  gic_patience :: nat

text \<open>
  \<^verbatim>\<open>interrupt_prop_t\<close> and \<^verbatim>\<open>gicv3_driver_data_t\<close>. The array of properties comes with its length; the
  array \<^verbatim>\<open>rdistif_base_addrs\<close>, which the driver fills in, is part of the state.
\<close>

record interrupt_prop_t =
  intr_num :: nat
  intr_pri :: u32
  intr_grp :: u32
  intr_cfg :: u32

record gicv3_driver_data_t =
  gicd_base :: u64
  gicr_base :: u64
  interrupt_props :: "interrupt_prop_t list"
  rdistif_num :: nat
  mpidr_to_core_pos :: "(u64 \<Rightarrow> nat) option"

text \<open>
  The CPU interface of the executing core. \<open>icc_sre_el1\<close> is banked by the security state (\<open>True\<close> is
  the bank of SCR\_EL3.NS). Acknowledging, ending and raising an interrupt are logged.
\<close>

datatype icc_event = Icc_acknowledge | Icc_eoir0 u64 | Icc_sgi0r u64

record icc_regs =
  core_scr_el3 :: u64
  icc_sre_el3 :: u64
  icc_sre_el2 :: u64
  icc_sre_el1 :: "bool \<Rightarrow> u64"
  icc_pmr_el1 :: u64
  icc_igrpen0_el1 :: u64
  icc_igrpen1_el3 :: u64
  icc_hppir0_el1 :: u64
  icc_hppir1_el1 :: u64
  icc_iar0_el1 :: u64
  icc_rpr_el1 :: u64
  icc_log :: "icc_event list"

record 'd gic_world =
  gic_dev :: 'd
  gicv3_driver_data :: "gicv3_driver_data_t option"
  gicv2_compat :: bool
  rdistif_base_addrs :: "u64 list"
  gic_lock :: bool
  icc :: icc_regs

section \<open>Constants\<close>

abbreviation MIN_SPI_ID :: nat where "MIN_SPI_ID \<equiv> 32"
abbreviation MIN_PPI_ID :: nat where "MIN_PPI_ID \<equiv> 16"
abbreviation MAX_SPI_ID :: nat where "MAX_SPI_ID \<equiv> 1019"
abbreviation TOTAL_SPI_INTR_NUM :: nat where "TOTAL_SPI_INTR_NUM \<equiv> 988"
abbreviation MIN_LPI_ID :: nat where "MIN_LPI_ID \<equiv> 8192"
abbreviation PENDING_G1S_INTID :: nat where "PENDING_G1S_INTID \<equiv> 1020"
abbreviation PENDING_G1NS_INTID :: nat where "PENDING_G1NS_INTID \<equiv> 1021"
abbreviation GIC_SPURIOUS_INTERRUPT :: nat where "GIC_SPURIOUS_INTERRUPT \<equiv> 1023"
abbreviation INTR_GROUP1S :: u32 where "INTR_GROUP1S \<equiv> 0"
abbreviation INTR_GROUP0 :: u32 where "INTR_GROUP0 \<equiv> 1"
abbreviation INTR_GROUP1NS :: u32 where "INTR_GROUP1NS \<equiv> 2"
abbreviation CTLR_ENABLE_G0_BIT :: u32 where "CTLR_ENABLE_G0_BIT \<equiv> 1"
abbreviation CTLR_ENABLE_G1NS_BIT :: u32 where "CTLR_ENABLE_G1NS_BIT \<equiv> 2"
abbreviation CTLR_ENABLE_G1S_BIT :: u32 where "CTLR_ENABLE_G1S_BIT \<equiv> 4"
abbreviation CTLR_ARE_S_BIT :: u32 where "CTLR_ARE_S_BIT \<equiv> 0x10"
abbreviation CTLR_ARE_NS_BIT :: u32 where "CTLR_ARE_NS_BIT \<equiv> 0x20"
abbreviation GICD_CTLR_RWP_BIT :: u32 where "GICD_CTLR_RWP_BIT \<equiv> 0x80000000"
abbreviation GICR_CTLR_RWP_BIT :: u32 where "GICR_CTLR_RWP_BIT \<equiv> 8"
abbreviation GICR_CTLR_UWP_BIT :: u32 where "GICR_CTLR_UWP_BIT \<equiv> 0x80000000"
abbreviation GICR_CTLR_EN_LPIS_BIT :: u32 where "GICR_CTLR_EN_LPIS_BIT \<equiv> 1"
abbreviation WAKER_SL_BIT :: u32 where "WAKER_SL_BIT \<equiv> 1"
abbreviation WAKER_PS_BIT :: u32 where "WAKER_PS_BIT \<equiv> 2"
abbreviation WAKER_CA_BIT :: u32 where "WAKER_CA_BIT \<equiv> 4"
abbreviation WAKER_QSC_BIT :: u32 where "WAKER_QSC_BIT \<equiv> 0x80000000"
abbreviation GIC_PRI_MASK :: u32 where "GIC_PRI_MASK \<equiv> 0xff"
abbreviation GIC_CFG_MASK :: u32 where "GIC_CFG_MASK \<equiv> 3"
abbreviation GICD_IPRIORITYR_DEF_VAL :: u32 where "GICD_IPRIORITYR_DEF_VAL \<equiv> 0x80808080"
abbreviation IROUTER_IRM_MASK :: u32 where "IROUTER_IRM_MASK \<equiv> 1"
abbreviation GICV3_IRM_PE :: u32 where "GICV3_IRM_PE \<equiv> 0"
abbreviation GICV3_IRM_ANY :: u32 where "GICV3_IRM_ANY \<equiv> 1"

abbreviation GICD_IGROUPR :: u64 where "GICD_IGROUPR \<equiv> 0x80"
abbreviation GICD_ISENABLER :: u64 where "GICD_ISENABLER \<equiv> 0x100"
abbreviation GICD_ICENABLER :: u64 where "GICD_ICENABLER \<equiv> 0x180"
abbreviation GICD_ISPENDR :: u64 where "GICD_ISPENDR \<equiv> 0x200"
abbreviation GICD_ICPENDR :: u64 where "GICD_ICPENDR \<equiv> 0x280"
abbreviation GICD_ISACTIVER :: u64 where "GICD_ISACTIVER \<equiv> 0x300"
abbreviation GICD_ICACTIVER :: u64 where "GICD_ICACTIVER \<equiv> 0x380"
abbreviation GICD_IPRIORITYR :: u64 where "GICD_IPRIORITYR \<equiv> 0x400"
abbreviation GICD_ICFGR :: u64 where "GICD_ICFGR \<equiv> 0xc00"
abbreviation GICD_NSACR :: u64 where "GICD_NSACR \<equiv> 0xe00"
abbreviation GICD_IGRPMODR :: u64 where "GICD_IGRPMODR \<equiv> 0xd00"
abbreviation GICD_IROUTER :: u64 where "GICD_IROUTER \<equiv> 0x6000"
abbreviation GICD_CTLR :: u64 where "GICD_CTLR \<equiv> 0x0"
abbreviation GICD_TYPER :: u64 where "GICD_TYPER \<equiv> 0x4"
abbreviation GICD_PIDR2_GICV3 :: u64 where "GICD_PIDR2_GICV3 \<equiv> 0xffe8"
abbreviation GICR_CTLR :: u64 where "GICR_CTLR \<equiv> 0x0"
abbreviation GICR_TYPER :: u64 where "GICR_TYPER \<equiv> 0x8"
abbreviation GICR_WAKER :: u64 where "GICR_WAKER \<equiv> 0x14"
abbreviation GICR_PROPBASER :: u64 where "GICR_PROPBASER \<equiv> 0x70"
abbreviation GICR_PENDBASER :: u64 where "GICR_PENDBASER \<equiv> 0x78"
abbreviation GICR_IGROUPR0 :: u64 where "GICR_IGROUPR0 \<equiv> 0x10080"
abbreviation GICR_ISENABLER0 :: u64 where "GICR_ISENABLER0 \<equiv> 0x10100"
abbreviation GICR_ICENABLER0 :: u64 where "GICR_ICENABLER0 \<equiv> 0x10180"
abbreviation GICR_ISPENDR0 :: u64 where "GICR_ISPENDR0 \<equiv> 0x10200"
abbreviation GICR_ICPENDR0 :: u64 where "GICR_ICPENDR0 \<equiv> 0x10280"
abbreviation GICR_ISACTIVER0 :: u64 where "GICR_ISACTIVER0 \<equiv> 0x10300"
abbreviation GICR_IPRIORITYR :: u64 where "GICR_IPRIORITYR \<equiv> 0x10400"
abbreviation GICR_ICFGR0 :: u64 where "GICR_ICFGR0 \<equiv> 0x10c00"
abbreviation GICR_ICFGR1 :: u64 where "GICR_ICFGR1 \<equiv> 0x10c04"
abbreviation GICR_IGRPMODR0 :: u64 where "GICR_IGRPMODR0 \<equiv> 0x10d00"
abbreviation GICR_NSACR :: u64 where "GICR_NSACR \<equiv> 0x10e00"

section \<open>Accesses\<close>

definition gic_mmio_read_32 :: "'d gic_device \<Rightarrow> u64 \<Rightarrow> ('d gic_world, u32) prog" where
  "gic_mmio_read_32 G addr = mget (\<lambda>s. gic_read_32 G (gic_dev s) addr)"

definition gic_mmio_read_64 :: "'d gic_device \<Rightarrow> u64 \<Rightarrow> ('d gic_world, u64) prog" where
  "gic_mmio_read_64 G addr = mget (\<lambda>s. gic_read_64 G (gic_dev s) addr)"

definition gic_mmio_write_8 :: "'d gic_device \<Rightarrow> u64 \<Rightarrow> u8 \<Rightarrow> ('d gic_world, unit) prog" where
  "gic_mmio_write_8 G addr val = mmodify (\<lambda>s. s\<lparr>gic_dev := gic_write_8 G addr val (gic_dev s)\<rparr>)"

definition gic_mmio_write_32 :: "'d gic_device \<Rightarrow> u64 \<Rightarrow> u32 \<Rightarrow> ('d gic_world, unit) prog" where
  "gic_mmio_write_32 G addr val = mmodify (\<lambda>s. s\<lparr>gic_dev := gic_write_32 G addr val (gic_dev s)\<rparr>)"

definition gic_mmio_write_64 :: "'d gic_device \<Rightarrow> u64 \<Rightarrow> u64 \<Rightarrow> ('d gic_world, unit) prog" where
  "gic_mmio_write_64 G addr val = mmodify (\<lambda>s. s\<lparr>gic_dev := gic_write_64 G addr val (gic_dev s)\<rparr>)"

text \<open>\<^verbatim>\<open>while (!done(mmio_read_32(addr))) ;\<close>\<close>

primrec gic_poll :: "nat \<Rightarrow> 'd gic_device \<Rightarrow> u64 \<Rightarrow> (u32 \<Rightarrow> bool) \<Rightarrow> ('d gic_world, unit) prog" where
  "gic_poll 0 G addr fin = mstop Device_hangs"
| "gic_poll (Suc n) G addr fin =
     mbind (gic_mmio_read_32 G addr) (\<lambda>v.
     if fin v then mret ()
     else mbind (mmodify (\<lambda>s. s\<lparr>gic_dev := gic_step G (gic_dev s)\<rparr>)) (\<lambda>_. gic_poll n G addr fin))"

text \<open>
  The offset \<^verbatim>\<open>n << 2\<close> of the register for an interrupt, \<^verbatim>\<open>n = id >> shift\<close> (it does not exceed
  32 bits), the position of the interrupt in it, \<^verbatim>\<open>id & ((1U << shift) - 1U)\<close>, and the word \<^verbatim>\<open>1U << bit\<close>.
\<close>

definition reg_offset :: "nat \<Rightarrow> nat \<Rightarrow> u64" where
  "reg_offset shift intr = of_nat (4 * (intr div 2 ^ shift))"

definition reg_bit :: "nat \<Rightarrow> nat \<Rightarrow> nat" where
  "reg_bit shift intr = intr mod 2 ^ shift"

definition id_bit :: "nat \<Rightarrow> nat \<Rightarrow> u32" where
  "id_bit shift intr = push_bit (reg_bit shift intr) 1"

section \<open>Distributor\<close>

subsection \<open>Whole registers\<close>

definition gicd_read_igroupr :: "'d gic_device \<Rightarrow> u64 \<Rightarrow> nat \<Rightarrow> ('d gic_world, u32) prog" where
  "gicd_read_igroupr G base intr = gic_mmio_read_32 G (base + GICD_IGROUPR + reg_offset 5 intr)"

definition gicd_read_isenabler :: "'d gic_device \<Rightarrow> u64 \<Rightarrow> nat \<Rightarrow> ('d gic_world, u32) prog" where
  "gicd_read_isenabler G base intr = gic_mmio_read_32 G (base + GICD_ISENABLER + reg_offset 5 intr)"

definition gicd_read_icenabler :: "'d gic_device \<Rightarrow> u64 \<Rightarrow> nat \<Rightarrow> ('d gic_world, u32) prog" where
  "gicd_read_icenabler G base intr = gic_mmio_read_32 G (base + GICD_ICENABLER + reg_offset 5 intr)"

definition gicd_read_ispendr :: "'d gic_device \<Rightarrow> u64 \<Rightarrow> nat \<Rightarrow> ('d gic_world, u32) prog" where
  "gicd_read_ispendr G base intr = gic_mmio_read_32 G (base + GICD_ISPENDR + reg_offset 5 intr)"

definition gicd_read_icpendr :: "'d gic_device \<Rightarrow> u64 \<Rightarrow> nat \<Rightarrow> ('d gic_world, u32) prog" where
  "gicd_read_icpendr G base intr = gic_mmio_read_32 G (base + GICD_ICPENDR + reg_offset 5 intr)"

definition gicd_read_isactiver :: "'d gic_device \<Rightarrow> u64 \<Rightarrow> nat \<Rightarrow> ('d gic_world, u32) prog" where
  "gicd_read_isactiver G base intr = gic_mmio_read_32 G (base + GICD_ISACTIVER + reg_offset 5 intr)"

definition gicd_read_icactiver :: "'d gic_device \<Rightarrow> u64 \<Rightarrow> nat \<Rightarrow> ('d gic_world, u32) prog" where
  "gicd_read_icactiver G base intr = gic_mmio_read_32 G (base + GICD_ICACTIVER + reg_offset 5 intr)"

definition gicd_read_ipriorityr :: "'d gic_device \<Rightarrow> u64 \<Rightarrow> nat \<Rightarrow> ('d gic_world, u32) prog" where
  "gicd_read_ipriorityr G base intr = gic_mmio_read_32 G (base + GICD_IPRIORITYR + reg_offset 2 intr)"

definition gicd_read_icfgr :: "'d gic_device \<Rightarrow> u64 \<Rightarrow> nat \<Rightarrow> ('d gic_world, u32) prog" where
  "gicd_read_icfgr G base intr = gic_mmio_read_32 G (base + GICD_ICFGR + reg_offset 4 intr)"

definition gicd_read_nsacr :: "'d gic_device \<Rightarrow> u64 \<Rightarrow> nat \<Rightarrow> ('d gic_world, u32) prog" where
  "gicd_read_nsacr G base intr = gic_mmio_read_32 G (base + GICD_NSACR + reg_offset 4 intr)"

definition gicd_read_igrpmodr :: "'d gic_device \<Rightarrow> u64 \<Rightarrow> nat \<Rightarrow> ('d gic_world, u32) prog" where
  "gicd_read_igrpmodr G base intr = gic_mmio_read_32 G (base + GICD_IGRPMODR + reg_offset 5 intr)"

definition gicd_write_igroupr :: "'d gic_device \<Rightarrow> u64 \<Rightarrow> nat \<Rightarrow> u32 \<Rightarrow> ('d gic_world, unit) prog" where
  "gicd_write_igroupr G base intr val = gic_mmio_write_32 G (base + GICD_IGROUPR + reg_offset 5 intr) val"

definition gicd_write_isenabler :: "'d gic_device \<Rightarrow> u64 \<Rightarrow> nat \<Rightarrow> u32 \<Rightarrow> ('d gic_world, unit) prog" where
  "gicd_write_isenabler G base intr val = gic_mmio_write_32 G (base + GICD_ISENABLER + reg_offset 5 intr) val"

definition gicd_write_icenabler :: "'d gic_device \<Rightarrow> u64 \<Rightarrow> nat \<Rightarrow> u32 \<Rightarrow> ('d gic_world, unit) prog" where
  "gicd_write_icenabler G base intr val = gic_mmio_write_32 G (base + GICD_ICENABLER + reg_offset 5 intr) val"

definition gicd_write_ispendr :: "'d gic_device \<Rightarrow> u64 \<Rightarrow> nat \<Rightarrow> u32 \<Rightarrow> ('d gic_world, unit) prog" where
  "gicd_write_ispendr G base intr val = gic_mmio_write_32 G (base + GICD_ISPENDR + reg_offset 5 intr) val"

definition gicd_write_icpendr :: "'d gic_device \<Rightarrow> u64 \<Rightarrow> nat \<Rightarrow> u32 \<Rightarrow> ('d gic_world, unit) prog" where
  "gicd_write_icpendr G base intr val = gic_mmio_write_32 G (base + GICD_ICPENDR + reg_offset 5 intr) val"

definition gicd_write_isactiver :: "'d gic_device \<Rightarrow> u64 \<Rightarrow> nat \<Rightarrow> u32 \<Rightarrow> ('d gic_world, unit) prog" where
  "gicd_write_isactiver G base intr val = gic_mmio_write_32 G (base + GICD_ISACTIVER + reg_offset 5 intr) val"

definition gicd_write_icactiver :: "'d gic_device \<Rightarrow> u64 \<Rightarrow> nat \<Rightarrow> u32 \<Rightarrow> ('d gic_world, unit) prog" where
  "gicd_write_icactiver G base intr val = gic_mmio_write_32 G (base + GICD_ICACTIVER + reg_offset 5 intr) val"

definition gicd_write_ipriorityr :: "'d gic_device \<Rightarrow> u64 \<Rightarrow> nat \<Rightarrow> u32 \<Rightarrow> ('d gic_world, unit) prog" where
  "gicd_write_ipriorityr G base intr val = gic_mmio_write_32 G (base + GICD_IPRIORITYR + reg_offset 2 intr) val"

definition gicd_write_icfgr :: "'d gic_device \<Rightarrow> u64 \<Rightarrow> nat \<Rightarrow> u32 \<Rightarrow> ('d gic_world, unit) prog" where
  "gicd_write_icfgr G base intr val = gic_mmio_write_32 G (base + GICD_ICFGR + reg_offset 4 intr) val"

definition gicd_write_nsacr :: "'d gic_device \<Rightarrow> u64 \<Rightarrow> nat \<Rightarrow> u32 \<Rightarrow> ('d gic_world, unit) prog" where
  "gicd_write_nsacr G base intr val = gic_mmio_write_32 G (base + GICD_NSACR + reg_offset 4 intr) val"

definition gicd_write_igrpmodr :: "'d gic_device \<Rightarrow> u64 \<Rightarrow> nat \<Rightarrow> u32 \<Rightarrow> ('d gic_world, unit) prog" where
  "gicd_write_igrpmodr G base intr val = gic_mmio_write_32 G (base + GICD_IGRPMODR + reg_offset 5 intr) val"

definition gicd_read_ctlr :: "'d gic_device \<Rightarrow> u64 \<Rightarrow> ('d gic_world, u32) prog" where
  "gicd_read_ctlr G base = gic_mmio_read_32 G (base + GICD_CTLR)"

definition gicd_read_typer :: "'d gic_device \<Rightarrow> u64 \<Rightarrow> ('d gic_world, u32) prog" where
  "gicd_read_typer G base = gic_mmio_read_32 G (base + GICD_TYPER)"

definition gicd_read_pidr2 :: "'d gic_device \<Rightarrow> u64 \<Rightarrow> ('d gic_world, u32) prog" where
  "gicd_read_pidr2 G base = gic_mmio_read_32 G (base + GICD_PIDR2_GICV3)"

definition gicd_write_ctlr :: "'d gic_device \<Rightarrow> u64 \<Rightarrow> u32 \<Rightarrow> ('d gic_world, unit) prog" where
  "gicd_write_ctlr G base val = gic_mmio_write_32 G (base + GICD_CTLR) val"

definition gicd_wait_for_pending_write :: "'d gic_device \<Rightarrow> u64 \<Rightarrow> ('d gic_world, unit) prog" where
  "gicd_wait_for_pending_write G base =
     gic_poll (gic_patience G) G (base + GICD_CTLR) (\<lambda>v. v AND GICD_CTLR_RWP_BIT = 0)"

definition irouter_offset :: "nat \<Rightarrow> u64" where
  "irouter_offset intr = of_nat ((8 * intr) mod 2 ^ 32)"

definition gicd_read_irouter :: "bool \<Rightarrow> 'd gic_device \<Rightarrow> u64 \<Rightarrow> nat \<Rightarrow> ('d gic_world, u64) prog" where
  "gicd_read_irouter dbg G base intr =
     mbind (dbg_assert dbg (intr \<ge> MIN_SPI_ID)) (\<lambda>_. gic_mmio_read_64 G (base + GICD_IROUTER + irouter_offset intr))"

definition gicd_write_irouter :: "bool \<Rightarrow> 'd gic_device \<Rightarrow> u64 \<Rightarrow> nat \<Rightarrow> u64 \<Rightarrow> ('d gic_world, unit) prog" where
  "gicd_write_irouter dbg G base intr affinity =
     mbind (dbg_assert dbg (intr \<ge> MIN_SPI_ID)) (\<lambda>_. gic_mmio_write_64 G (base + GICD_IROUTER + irouter_offset intr) affinity)"

definition gicd_clr_ctlr :: "'d gic_device \<Rightarrow> u64 \<Rightarrow> u32 \<Rightarrow> bool \<Rightarrow> ('d gic_world, unit) prog" where
  "gicd_clr_ctlr G base bitmap rwp =
     mbind (gicd_read_ctlr G base) (\<lambda>v.
     mbind (gicd_write_ctlr G base (v AND NOT bitmap)) (\<lambda>_.
     mwhen rwp (gicd_wait_for_pending_write G base)))"

definition gicd_set_ctlr :: "'d gic_device \<Rightarrow> u64 \<Rightarrow> u32 \<Rightarrow> bool \<Rightarrow> ('d gic_world, unit) prog" where
  "gicd_set_ctlr G base bitmap rwp =
     mbind (gicd_read_ctlr G base) (\<lambda>v.
     mbind (gicd_write_ctlr G base (v OR bitmap)) (\<lambda>_.
     mwhen rwp (gicd_wait_for_pending_write G base)))"

text \<open>
  \<^verbatim>\<open>gicd_irouter_val_from_mpidr\<close>: \<^verbatim>\<open>~(U(0xff) << 24)\<close> is an \<^verbatim>\<open>unsigned int\<close>, so that the
  conjunction with the 64-bit MPIDR widens it with zeros.
\<close>

definition gicd_irouter_val_from_mpidr :: "u64 \<Rightarrow> u32 \<Rightarrow> u64" where
  "gicd_irouter_val_from_mpidr mpidr irm =
     (mpidr AND ucast (NOT (push_bit 24 0xff) :: u32)) OR ucast (push_bit 31 (irm AND IROUTER_IRM_MASK))"

subsection \<open>Single interrupts\<close>

definition gicd_get_igroupr :: "'d gic_device \<Rightarrow> u64 \<Rightarrow> nat \<Rightarrow> ('d gic_world, u32) prog" where
  "gicd_get_igroupr G base intr = mbind (gicd_read_igroupr G base intr) (\<lambda>v. mret (drop_bit (reg_bit 5 intr) v AND 1))"

definition gicd_set_igroupr :: "'d gic_device \<Rightarrow> u64 \<Rightarrow> nat \<Rightarrow> ('d gic_world, unit) prog" where
  "gicd_set_igroupr G base intr = mbind (gicd_read_igroupr G base intr) (\<lambda>v. gicd_write_igroupr G base intr (v OR id_bit 5 intr))"

definition gicd_clr_igroupr :: "'d gic_device \<Rightarrow> u64 \<Rightarrow> nat \<Rightarrow> ('d gic_world, unit) prog" where
  "gicd_clr_igroupr G base intr = mbind (gicd_read_igroupr G base intr) (\<lambda>v. gicd_write_igroupr G base intr (v AND NOT (id_bit 5 intr)))"

definition gicd_set_isenabler :: "'d gic_device \<Rightarrow> u64 \<Rightarrow> nat \<Rightarrow> ('d gic_world, unit) prog" where
  "gicd_set_isenabler G base intr = gicd_write_isenabler G base intr (id_bit 5 intr)"

definition gicd_set_icenabler :: "'d gic_device \<Rightarrow> u64 \<Rightarrow> nat \<Rightarrow> ('d gic_world, unit) prog" where
  "gicd_set_icenabler G base intr = gicd_write_icenabler G base intr (id_bit 5 intr)"

definition gicd_set_ispendr :: "'d gic_device \<Rightarrow> u64 \<Rightarrow> nat \<Rightarrow> ('d gic_world, unit) prog" where
  "gicd_set_ispendr G base intr = gicd_write_ispendr G base intr (id_bit 5 intr)"

definition gicd_set_icpendr :: "'d gic_device \<Rightarrow> u64 \<Rightarrow> nat \<Rightarrow> ('d gic_world, unit) prog" where
  "gicd_set_icpendr G base intr = gicd_write_icpendr G base intr (id_bit 5 intr)"

definition gicd_get_isactiver :: "'d gic_device \<Rightarrow> u64 \<Rightarrow> nat \<Rightarrow> ('d gic_world, u32) prog" where
  "gicd_get_isactiver G base intr = mbind (gicd_read_isactiver G base intr) (\<lambda>v. mret (drop_bit (reg_bit 5 intr) v AND 1))"

definition gicd_set_isactiver :: "'d gic_device \<Rightarrow> u64 \<Rightarrow> nat \<Rightarrow> ('d gic_world, unit) prog" where
  "gicd_set_isactiver G base intr = gicd_write_isactiver G base intr (id_bit 5 intr)"

definition gicd_set_icactiver :: "'d gic_device \<Rightarrow> u64 \<Rightarrow> nat \<Rightarrow> ('d gic_world, unit) prog" where
  "gicd_set_icactiver G base intr = gicd_write_icactiver G base intr (id_bit 5 intr)"

definition gicd_get_igrpmodr :: "'d gic_device \<Rightarrow> u64 \<Rightarrow> nat \<Rightarrow> ('d gic_world, u32) prog" where
  "gicd_get_igrpmodr G base intr = mbind (gicd_read_igrpmodr G base intr) (\<lambda>v. mret (drop_bit (reg_bit 5 intr) v AND 1))"

definition gicd_set_igrpmodr :: "'d gic_device \<Rightarrow> u64 \<Rightarrow> nat \<Rightarrow> ('d gic_world, unit) prog" where
  "gicd_set_igrpmodr G base intr = mbind (gicd_read_igrpmodr G base intr) (\<lambda>v. gicd_write_igrpmodr G base intr (v OR id_bit 5 intr))"

definition gicd_clr_igrpmodr :: "'d gic_device \<Rightarrow> u64 \<Rightarrow> nat \<Rightarrow> ('d gic_world, unit) prog" where
  "gicd_clr_igrpmodr G base intr = mbind (gicd_read_igrpmodr G base intr) (\<lambda>v. gicd_write_igrpmodr G base intr (v AND NOT (id_bit 5 intr)))"

definition gicd_set_ipriorityr :: "'d gic_device \<Rightarrow> u64 \<Rightarrow> nat \<Rightarrow> u32 \<Rightarrow> ('d gic_world, unit) prog" where
  "gicd_set_ipriorityr G base intr pri =
     gic_mmio_write_8 G (base + GICD_IPRIORITYR + of_nat intr) (ucast (pri AND GIC_PRI_MASK))"

text \<open>The two bits of an interrupt in its configuration register.\<close>

definition cfg_insert :: "u32 \<Rightarrow> nat \<Rightarrow> u32 \<Rightarrow> u32" where
  "cfg_insert cfg intr v =
     (let bit_shift = 2 * reg_bit 4 intr
      in (v AND NOT (push_bit bit_shift GIC_CFG_MASK)) OR push_bit bit_shift (cfg AND GIC_CFG_MASK))"

definition gicd_set_icfgr :: "'d gic_device \<Rightarrow> u64 \<Rightarrow> nat \<Rightarrow> u32 \<Rightarrow> ('d gic_world, unit) prog" where
  "gicd_set_icfgr G base intr cfg =
     mbind (gicd_read_icfgr G base intr) (\<lambda>v. gicd_write_icfgr G base intr (cfg_insert cfg intr v))"

section \<open>Redistributor\<close>

subsection \<open>Whole registers\<close>

definition gicr_read_ctlr :: "'d gic_device \<Rightarrow> u64 \<Rightarrow> ('d gic_world, u32) prog" where
  "gicr_read_ctlr G base = gic_mmio_read_32 G (base + GICR_CTLR)"

definition gicr_read_waker :: "'d gic_device \<Rightarrow> u64 \<Rightarrow> ('d gic_world, u32) prog" where
  "gicr_read_waker G base = gic_mmio_read_32 G (base + GICR_WAKER)"

definition gicr_read_isenabler0 :: "'d gic_device \<Rightarrow> u64 \<Rightarrow> ('d gic_world, u32) prog" where
  "gicr_read_isenabler0 G base = gic_mmio_read_32 G (base + GICR_ISENABLER0)"

definition gicr_read_igroupr0 :: "'d gic_device \<Rightarrow> u64 \<Rightarrow> ('d gic_world, u32) prog" where
  "gicr_read_igroupr0 G base = gic_mmio_read_32 G (base + GICR_IGROUPR0)"

definition gicr_read_ispendr0 :: "'d gic_device \<Rightarrow> u64 \<Rightarrow> ('d gic_world, u32) prog" where
  "gicr_read_ispendr0 G base = gic_mmio_read_32 G (base + GICR_ISPENDR0)"

definition gicr_read_igrpmodr0 :: "'d gic_device \<Rightarrow> u64 \<Rightarrow> ('d gic_world, u32) prog" where
  "gicr_read_igrpmodr0 G base = gic_mmio_read_32 G (base + GICR_IGRPMODR0)"

definition gicr_read_nsacr :: "'d gic_device \<Rightarrow> u64 \<Rightarrow> ('d gic_world, u32) prog" where
  "gicr_read_nsacr G base = gic_mmio_read_32 G (base + GICR_NSACR)"

definition gicr_read_isactiver0 :: "'d gic_device \<Rightarrow> u64 \<Rightarrow> ('d gic_world, u32) prog" where
  "gicr_read_isactiver0 G base = gic_mmio_read_32 G (base + GICR_ISACTIVER0)"

definition gicr_read_icfgr0 :: "'d gic_device \<Rightarrow> u64 \<Rightarrow> ('d gic_world, u32) prog" where
  "gicr_read_icfgr0 G base = gic_mmio_read_32 G (base + GICR_ICFGR0)"

definition gicr_read_icfgr1 :: "'d gic_device \<Rightarrow> u64 \<Rightarrow> ('d gic_world, u32) prog" where
  "gicr_read_icfgr1 G base = gic_mmio_read_32 G (base + GICR_ICFGR1)"

definition gicr_write_ctlr :: "'d gic_device \<Rightarrow> u64 \<Rightarrow> u32 \<Rightarrow> ('d gic_world, unit) prog" where
  "gicr_write_ctlr G base val = gic_mmio_write_32 G (base + GICR_CTLR) val"

definition gicr_write_waker :: "'d gic_device \<Rightarrow> u64 \<Rightarrow> u32 \<Rightarrow> ('d gic_world, unit) prog" where
  "gicr_write_waker G base val = gic_mmio_write_32 G (base + GICR_WAKER) val"

definition gicr_write_icenabler0 :: "'d gic_device \<Rightarrow> u64 \<Rightarrow> u32 \<Rightarrow> ('d gic_world, unit) prog" where
  "gicr_write_icenabler0 G base val = gic_mmio_write_32 G (base + GICR_ICENABLER0) val"

definition gicr_write_icpendr0 :: "'d gic_device \<Rightarrow> u64 \<Rightarrow> u32 \<Rightarrow> ('d gic_world, unit) prog" where
  "gicr_write_icpendr0 G base val = gic_mmio_write_32 G (base + GICR_ICPENDR0) val"

definition gicr_write_isenabler0 :: "'d gic_device \<Rightarrow> u64 \<Rightarrow> u32 \<Rightarrow> ('d gic_world, unit) prog" where
  "gicr_write_isenabler0 G base val = gic_mmio_write_32 G (base + GICR_ISENABLER0) val"

definition gicr_write_ispendr0 :: "'d gic_device \<Rightarrow> u64 \<Rightarrow> u32 \<Rightarrow> ('d gic_world, unit) prog" where
  "gicr_write_ispendr0 G base val = gic_mmio_write_32 G (base + GICR_ISPENDR0) val"

definition gicr_write_igroupr0 :: "'d gic_device \<Rightarrow> u64 \<Rightarrow> u32 \<Rightarrow> ('d gic_world, unit) prog" where
  "gicr_write_igroupr0 G base val = gic_mmio_write_32 G (base + GICR_IGROUPR0) val"

definition gicr_write_igrpmodr0 :: "'d gic_device \<Rightarrow> u64 \<Rightarrow> u32 \<Rightarrow> ('d gic_world, unit) prog" where
  "gicr_write_igrpmodr0 G base val = gic_mmio_write_32 G (base + GICR_IGRPMODR0) val"

definition gicr_write_nsacr :: "'d gic_device \<Rightarrow> u64 \<Rightarrow> u32 \<Rightarrow> ('d gic_world, unit) prog" where
  "gicr_write_nsacr G base val = gic_mmio_write_32 G (base + GICR_NSACR) val"

definition gicr_write_isactiver0 :: "'d gic_device \<Rightarrow> u64 \<Rightarrow> u32 \<Rightarrow> ('d gic_world, unit) prog" where
  "gicr_write_isactiver0 G base val = gic_mmio_write_32 G (base + GICR_ISACTIVER0) val"

definition gicr_write_icfgr0 :: "'d gic_device \<Rightarrow> u64 \<Rightarrow> u32 \<Rightarrow> ('d gic_world, unit) prog" where
  "gicr_write_icfgr0 G base val = gic_mmio_write_32 G (base + GICR_ICFGR0) val"

definition gicr_write_icfgr1 :: "'d gic_device \<Rightarrow> u64 \<Rightarrow> u32 \<Rightarrow> ('d gic_world, unit) prog" where
  "gicr_write_icfgr1 G base val = gic_mmio_write_32 G (base + GICR_ICFGR1) val"

definition gicr_read_typer :: "'d gic_device \<Rightarrow> u64 \<Rightarrow> ('d gic_world, u64) prog" where
  "gicr_read_typer G base = gic_mmio_read_64 G (base + GICR_TYPER)"

definition gicr_read_propbaser :: "'d gic_device \<Rightarrow> u64 \<Rightarrow> ('d gic_world, u64) prog" where
  "gicr_read_propbaser G base = gic_mmio_read_64 G (base + GICR_PROPBASER)"

definition gicr_read_pendbaser :: "'d gic_device \<Rightarrow> u64 \<Rightarrow> ('d gic_world, u64) prog" where
  "gicr_read_pendbaser G base = gic_mmio_read_64 G (base + GICR_PENDBASER)"

definition gicr_write_propbaser :: "'d gic_device \<Rightarrow> u64 \<Rightarrow> u64 \<Rightarrow> ('d gic_world, unit) prog" where
  "gicr_write_propbaser G base val = gic_mmio_write_64 G (base + GICR_PROPBASER) val"

definition gicr_write_pendbaser :: "'d gic_device \<Rightarrow> u64 \<Rightarrow> u64 \<Rightarrow> ('d gic_world, unit) prog" where
  "gicr_write_pendbaser G base val = gic_mmio_write_64 G (base + GICR_PENDBASER) val"

definition gicr_read_ipriorityr :: "'d gic_device \<Rightarrow> u64 \<Rightarrow> nat \<Rightarrow> ('d gic_world, u32) prog" where
  "gicr_read_ipriorityr G base intr = gic_mmio_read_32 G (base + GICR_IPRIORITYR + reg_offset 2 intr)"

definition gicr_write_ipriorityr :: "'d gic_device \<Rightarrow> u64 \<Rightarrow> nat \<Rightarrow> u32 \<Rightarrow> ('d gic_world, unit) prog" where
  "gicr_write_ipriorityr G base intr val = gic_mmio_write_32 G (base + GICR_IPRIORITYR + reg_offset 2 intr) val"

definition gicr_wait_for_pending_write :: "'d gic_device \<Rightarrow> u64 \<Rightarrow> ('d gic_world, unit) prog" where
  "gicr_wait_for_pending_write G base =
     gic_poll (gic_patience G) G (base + GICR_CTLR) (\<lambda>v. v AND GICR_CTLR_RWP_BIT = 0)"

definition gicr_wait_for_upstream_pending_write :: "'d gic_device \<Rightarrow> u64 \<Rightarrow> ('d gic_world, unit) prog" where
  "gicr_wait_for_upstream_pending_write G base =
     gic_poll (gic_patience G) G (base + GICR_CTLR) (\<lambda>v. v AND GICR_CTLR_UWP_BIT = 0)"

subsection \<open>Single interrupts\<close>

definition gicr_get_igroupr0 :: "'d gic_device \<Rightarrow> u64 \<Rightarrow> nat \<Rightarrow> ('d gic_world, u32) prog" where
  "gicr_get_igroupr0 G base intr = mbind (gicr_read_igroupr0 G base) (\<lambda>v. mret (drop_bit (reg_bit 5 intr) v AND 1))"

definition gicr_set_igroupr0 :: "'d gic_device \<Rightarrow> u64 \<Rightarrow> nat \<Rightarrow> ('d gic_world, unit) prog" where
  "gicr_set_igroupr0 G base intr = mbind (gicr_read_igroupr0 G base) (\<lambda>v. gicr_write_igroupr0 G base (v OR id_bit 5 intr))"

definition gicr_clr_igroupr0 :: "'d gic_device \<Rightarrow> u64 \<Rightarrow> nat \<Rightarrow> ('d gic_world, unit) prog" where
  "gicr_clr_igroupr0 G base intr = mbind (gicr_read_igroupr0 G base) (\<lambda>v. gicr_write_igroupr0 G base (v AND NOT (id_bit 5 intr)))"

definition gicr_get_igrpmodr0 :: "'d gic_device \<Rightarrow> u64 \<Rightarrow> nat \<Rightarrow> ('d gic_world, u32) prog" where
  "gicr_get_igrpmodr0 G base intr = mbind (gicr_read_igrpmodr0 G base) (\<lambda>v. mret (drop_bit (reg_bit 5 intr) v AND 1))"

definition gicr_set_igrpmodr0 :: "'d gic_device \<Rightarrow> u64 \<Rightarrow> nat \<Rightarrow> ('d gic_world, unit) prog" where
  "gicr_set_igrpmodr0 G base intr = mbind (gicr_read_igrpmodr0 G base) (\<lambda>v. gicr_write_igrpmodr0 G base (v OR id_bit 5 intr))"

definition gicr_clr_igrpmodr0 :: "'d gic_device \<Rightarrow> u64 \<Rightarrow> nat \<Rightarrow> ('d gic_world, unit) prog" where
  "gicr_clr_igrpmodr0 G base intr = mbind (gicr_read_igrpmodr0 G base) (\<lambda>v. gicr_write_igrpmodr0 G base (v AND NOT (id_bit 5 intr)))"

definition gicr_set_isenabler0 :: "'d gic_device \<Rightarrow> u64 \<Rightarrow> nat \<Rightarrow> ('d gic_world, unit) prog" where
  "gicr_set_isenabler0 G base intr = gicr_write_isenabler0 G base (id_bit 5 intr)"

definition gicr_set_icenabler0 :: "'d gic_device \<Rightarrow> u64 \<Rightarrow> nat \<Rightarrow> ('d gic_world, unit) prog" where
  "gicr_set_icenabler0 G base intr = gicr_write_icenabler0 G base (id_bit 5 intr)"

definition gicr_set_icpendr0 :: "'d gic_device \<Rightarrow> u64 \<Rightarrow> nat \<Rightarrow> ('d gic_world, unit) prog" where
  "gicr_set_icpendr0 G base intr = gicr_write_icpendr0 G base (id_bit 5 intr)"

definition gicr_set_ispendr0 :: "'d gic_device \<Rightarrow> u64 \<Rightarrow> nat \<Rightarrow> ('d gic_world, unit) prog" where
  "gicr_set_ispendr0 G base intr = gicr_write_ispendr0 G base (id_bit 5 intr)"

definition gicr_get_isactiver0 :: "'d gic_device \<Rightarrow> u64 \<Rightarrow> nat \<Rightarrow> ('d gic_world, u32) prog" where
  "gicr_get_isactiver0 G base intr = mbind (gicr_read_isactiver0 G base) (\<lambda>v. mret (drop_bit (reg_bit 5 intr) v AND 1))"

definition gicr_set_ipriorityr :: "'d gic_device \<Rightarrow> u64 \<Rightarrow> nat \<Rightarrow> u32 \<Rightarrow> ('d gic_world, unit) prog" where
  "gicr_set_ipriorityr G base intr pri =
     gic_mmio_write_8 G (base + GICR_IPRIORITYR + of_nat intr) (ucast (pri AND GIC_PRI_MASK))"

definition gicr_set_icfgr0 :: "'d gic_device \<Rightarrow> u64 \<Rightarrow> nat \<Rightarrow> u32 \<Rightarrow> ('d gic_world, unit) prog" where
  "gicr_set_icfgr0 G base intr cfg = mbind (gicr_read_icfgr0 G base) (\<lambda>v. gicr_write_icfgr0 G base (cfg_insert cfg intr v))"

definition gicr_set_icfgr1 :: "'d gic_device \<Rightarrow> u64 \<Rightarrow> nat \<Rightarrow> u32 \<Rightarrow> ('d gic_world, unit) prog" where
  "gicr_set_icfgr1 G base intr cfg = mbind (gicr_read_icfgr1 G base) (\<lambda>v. gicr_write_icfgr1 G base (cfg_insert cfg intr v))"

text \<open>
  \<^verbatim>\<open>mpidr_from_gicr_typer\<close>: the affinity fields of GICR\_TYPER in the places they have in an MPIDR.
\<close>

definition mpidr_from_gicr_typer :: "u64 \<Rightarrow> u64" where
  "mpidr_from_gicr_typer typer_val =
     push_bit 32 (drop_bit 56 typer_val AND 0xff) OR (drop_bit 32 typer_val AND 0xffffff)"

end
