(* ===== verification/Gicv3_Driver.thy ===== *)
theory Gicv3_Driver
  imports Gicv3_Regs
begin

text \<open>
  The GICv3 driver of BL31: \<^verbatim>\<open>drivers/arm/gic/v3/gicv3_helpers.c\<close> (from the power handling of the
  redistributors on), \<^verbatim>\<open>gicv3_main.c\<close>, and the hooks that \<^verbatim>\<open>gic500.c\<close> and
  \<^verbatim>\<open>arm_gicv3_common.c\<close> run before a redistributor is saved and after it is restored. \<open>dbg\<close> is the
  build option \<^verbatim>\<open>ENABLE_ASSERTIONS\<close>, \<open>G\<close> the controller, \<open>mpidr\<close> the MPIDR of the executing core.
  The firmware runs at EL3, so that \<^verbatim>\<open>assert(IS_IN_EL3())\<close> holds and is left out; barriers and cache
  maintenance have no effect on the state.
\<close>

section \<open>Redistributors\<close>

definition gicv3_rdistif_mark_core_awake :: "bool \<Rightarrow> 'd gic_device \<Rightarrow> u64 \<Rightarrow> ('d gic_world, unit) prog" where
  "gicv3_rdistif_mark_core_awake dbg G base =
     mbind (gicr_read_waker G base) (\<lambda>v.
     mbind (dbg_assert dbg (v AND WAKER_CA_BIT \<noteq> 0)) (\<lambda>_.
     mbind (gicr_read_waker G base) (\<lambda>v.
     mbind (mwhen (v AND WAKER_QSC_BIT \<noteq> 0)
              (mbind (gicr_read_waker G base) (\<lambda>v.
               mbind (gicr_write_waker G base (v AND NOT WAKER_SL_BIT)) (\<lambda>_.
               gic_poll (gic_patience G) G (base + GICR_WAKER) (\<lambda>v. v AND WAKER_QSC_BIT = 0))))) (\<lambda>_.
     mbind (gicr_read_waker G base) (\<lambda>v.
     mbind (gicr_write_waker G base (v AND NOT WAKER_PS_BIT)) (\<lambda>_.
     gic_poll (gic_patience G) G (base + GICR_WAKER) (\<lambda>v. v AND WAKER_CA_BIT = 0)))))))"

definition gicv3_rdistif_mark_core_asleep :: "'d gic_device \<Rightarrow> u64 \<Rightarrow> ('d gic_world, unit) prog" where
  "gicv3_rdistif_mark_core_asleep G base =
     mbind (gicr_read_waker G base) (\<lambda>v.
     mbind (gicr_write_waker G base (v OR WAKER_PS_BIT)) (\<lambda>_.
     gic_poll (gic_patience G) G (base + GICR_WAKER) (\<lambda>v. v AND WAKER_CA_BIT \<noteq> 0)))"

text \<open>
  \<^verbatim>\<open>gicv3_rdistif_base_addrs_probe\<close>: the frames lie \<open>2 ^ 17\<close> bytes apart, and the last one says
  so. Like a polling loop it ends only if the controller lets it, so that it has a bound.
\<close>

primrec rdistif_probe_loop :: "nat \<Rightarrow> bool \<Rightarrow> 'd gic_device \<Rightarrow> nat \<Rightarrow> (u64 \<Rightarrow> nat) option \<Rightarrow> u64 \<Rightarrow> ('d gic_world, unit) prog" where
  "rdistif_probe_loop 0 dbg G num hash base = mstop Device_hangs"
| "rdistif_probe_loop (Suc n) dbg G num hash base =
     mbind (gicr_read_typer G base) (\<lambda>typer_val.
     let proc_num = (case hash of
           Some f \<Rightarrow> f (mpidr_from_gicr_typer typer_val)
         | None \<Rightarrow> unat (drop_bit 8 typer_val AND 0xffff))
     in mbind (dbg_assert dbg (proc_num < num)) (\<lambda>_.
        mbind (mget rdistif_base_addrs) (\<lambda>addrs.
        mbind (array_check addrs proc_num) (\<lambda>_.
        mbind (mmodify (\<lambda>s. s\<lparr>rdistif_base_addrs := addrs[proc_num := base]\<rparr>)) (\<lambda>_.
        if typer_val AND 0x10 = 0 then rdistif_probe_loop n dbg G num hash (base + 0x20000) else mret ())))))"

definition gicv3_rdistif_base_addrs_probe ::
  "bool \<Rightarrow> 'd gic_device \<Rightarrow> nat \<Rightarrow> u64 \<Rightarrow> (u64 \<Rightarrow> nat) option \<Rightarrow> ('d gic_world, unit) prog" where
  "gicv3_rdistif_base_addrs_probe dbg G num base hash = rdistif_probe_loop (gic_patience G) dbg G num hash base"

section \<open>Configuration of the interrupts\<close>

text \<open>\<^verbatim>\<open>num_ints = (gicd_read_typer(gicd_base) & TYPER_IT_LINES_NO_MASK) + 1U) << 5\<close>.\<close>

definition num_ints_of :: "u32 \<Rightarrow> nat" where
  "num_ints_of typer = 32 * (unat (typer AND 0x1f) + 1)"

text \<open>The values of \<^verbatim>\<open>for (index = from; index < num; index += n)\<close>.\<close>

definition id_range :: "nat \<Rightarrow> nat \<Rightarrow> nat \<Rightarrow> nat list" where
  "id_range from num n = map (\<lambda>k. from + n * k) [0..<(num - from + n - 1) div n]"

definition for_ids :: "nat list \<Rightarrow> (nat \<Rightarrow> ('s, unit) prog) \<Rightarrow> ('s, unit) prog" where
  "for_ids ids f = mfold (\<lambda>i _. f i) ids ()"

definition gicv3_spis_config_defaults :: "'d gic_device \<Rightarrow> u64 \<Rightarrow> ('d gic_world, unit) prog" where
  "gicv3_spis_config_defaults G base =
     mbind (gicd_read_typer G base) (\<lambda>typer.
     let num_ints = num_ints_of typer
     in mbind (for_ids (id_range MIN_SPI_ID num_ints 32) (\<lambda>index. gicd_write_igroupr G base index (NOT 0))) (\<lambda>_.
        mbind (for_ids (id_range MIN_SPI_ID num_ints 4)
                 (\<lambda>index. gicd_write_ipriorityr G base index GICD_IPRIORITYR_DEF_VAL)) (\<lambda>_.
        for_ids (id_range MIN_SPI_ID num_ints 16) (\<lambda>index. gicd_write_icfgr G base index 0))))"

definition secure_spi_config ::
  "bool \<Rightarrow> 'd gic_device \<Rightarrow> u64 \<Rightarrow> u64 \<Rightarrow> interrupt_prop_t \<Rightarrow> u32 \<Rightarrow> ('d gic_world, u32) prog" where
  "secure_spi_config dbg G mpidr base prop ctlr_enable =
     (if intr_num prop < MIN_SPI_ID then mret ctlr_enable
      else
        mbind (gicd_clr_igroupr G base (intr_num prop)) (\<lambda>_.
        mbind (dbg_assert dbg (intr_grp prop = INTR_GROUP0 \<or> intr_grp prop = INTR_GROUP1S)) (\<lambda>_.
        mbind (if intr_grp prop = INTR_GROUP1S then gicd_set_igrpmodr G base (intr_num prop)
               else gicd_clr_igrpmodr G base (intr_num prop)) (\<lambda>_.
        mbind (gicd_set_icfgr G base (intr_num prop) (intr_cfg prop)) (\<lambda>_.
        mbind (gicd_set_ipriorityr G base (intr_num prop) (intr_pri prop)) (\<lambda>_.
        mbind (gicd_write_irouter dbg G base (intr_num prop) (gicd_irouter_val_from_mpidr mpidr 0)) (\<lambda>_.
        mbind (gicd_set_isenabler G base (intr_num prop)) (\<lambda>_.
        mret (ctlr_enable OR (if intr_grp prop = INTR_GROUP1S then CTLR_ENABLE_G1S_BIT else CTLR_ENABLE_G0_BIT))))))))))"

definition gicv3_secure_spis_config_props ::
  "bool \<Rightarrow> 'd gic_device \<Rightarrow> u64 \<Rightarrow> u64 \<Rightarrow> interrupt_prop_t list \<Rightarrow> ('d gic_world, u32) prog" where
  "gicv3_secure_spis_config_props dbg G mpidr base props = mfold (secure_spi_config dbg G mpidr base) props 0"

definition gicv3_ppi_sgi_config_defaults :: "'d gic_device \<Rightarrow> u64 \<Rightarrow> ('d gic_world, unit) prog" where
  "gicv3_ppi_sgi_config_defaults G base =
     mbind (gicr_write_icenabler0 G base (NOT 0)) (\<lambda>_.
     mbind (gicr_wait_for_pending_write G base) (\<lambda>_.
     mbind (gicr_write_igroupr0 G base (NOT 0)) (\<lambda>_.
     mbind (for_ids (id_range 0 MIN_SPI_ID 4)
              (\<lambda>index. gicr_write_ipriorityr G base index GICD_IPRIORITYR_DEF_VAL)) (\<lambda>_.
     gicr_write_icfgr1 G base 0))))"

definition secure_ppi_sgi_config ::
  "bool \<Rightarrow> 'd gic_device \<Rightarrow> u64 \<Rightarrow> interrupt_prop_t \<Rightarrow> u32 \<Rightarrow> ('d gic_world, u32) prog" where
  "secure_ppi_sgi_config dbg G base prop ctlr_enable =
     (if intr_num prop \<ge> MIN_SPI_ID then mret ctlr_enable
      else
        mbind (gicr_clr_igroupr0 G base (intr_num prop)) (\<lambda>_.
        mbind (dbg_assert dbg (intr_grp prop = INTR_GROUP0 \<or> intr_grp prop = INTR_GROUP1S)) (\<lambda>_.
        mbind (if intr_grp prop = INTR_GROUP1S then gicr_set_igrpmodr0 G base (intr_num prop)
               else gicr_clr_igrpmodr0 G base (intr_num prop)) (\<lambda>_.
        mbind (gicr_set_ipriorityr G base (intr_num prop) (intr_pri prop)) (\<lambda>_.
        mbind (mwhen (intr_num prop \<ge> MIN_PPI_ID \<and> intr_num prop < MIN_SPI_ID)
                 (gicr_set_icfgr1 G base (intr_num prop) (intr_cfg prop))) (\<lambda>_.
        mbind (gicr_set_isenabler0 G base (intr_num prop)) (\<lambda>_.
        mret (ctlr_enable OR (if intr_grp prop = INTR_GROUP1S then CTLR_ENABLE_G1S_BIT else CTLR_ENABLE_G0_BIT)))))))))"

definition gicv3_secure_ppi_sgi_config_props ::
  "bool \<Rightarrow> 'd gic_device \<Rightarrow> u64 \<Rightarrow> interrupt_prop_t list \<Rightarrow> ('d gic_world, u32) prog" where
  "gicv3_secure_ppi_sgi_config_props dbg G base props = mfold (secure_ppi_sgi_config dbg G base) props 0"

section \<open>Initialisation\<close>

text \<open>\<^verbatim>\<open>gicv3_driver_data\<close>, which must have been set, and the base address of a redistributor.\<close>

definition driver_data :: "bool \<Rightarrow> ('d gic_world, gicv3_driver_data_t) prog" where
  "driver_data dbg =
     mbind (mget gicv3_driver_data) (\<lambda>p.
     mbind (dbg_assert dbg (p \<noteq> None)) (\<lambda>_.
     case p of None \<Rightarrow> mstop Null_pointer | Some data \<Rightarrow> mret data))"

definition redist_base :: "bool \<Rightarrow> gicv3_driver_data_t \<Rightarrow> nat \<Rightarrow> ('d gic_world, u64) prog" where
  "redist_base dbg data proc_num =
     mbind (dbg_assert dbg (proc_num < rdistif_num data)) (\<lambda>_.
     mbind (mget rdistif_base_addrs) (\<lambda>addrs. array_get addrs proc_num))"

text \<open>\<open>id_aa64pfr0\<close> is the value of the identification register of the core.\<close>

definition gicv3_driver_init :: "bool \<Rightarrow> 'd gic_device \<Rightarrow> u64 \<Rightarrow> gicv3_driver_data_t \<Rightarrow> ('d gic_world, unit) prog" where
  "gicv3_driver_init dbg G id_aa64pfr0 data =
     mbind (dbg_assert dbg (gicd_base data \<noteq> 0)) (\<lambda>_.
     mbind (dbg_assert dbg (gicr_base data \<noteq> 0)) (\<lambda>_.
     mbind (dbg_assert dbg (rdistif_num data \<noteq> 0)) (\<lambda>_.
     mbind (dbg_assert dbg (id_aa64pfr0 AND push_bit 24 0xf \<noteq> 0)) (\<lambda>_.
     mbind (gicd_read_pidr2 G (gicd_base data)) (\<lambda>gic_version.
     mbind (dbg_assert dbg (drop_bit 4 gic_version AND 0xf = 3)) (\<lambda>_.
     mbind (gicd_read_ctlr G (gicd_base data)) (\<lambda>ctlr.
     mbind (mmodify (\<lambda>s. s\<lparr>gicv2_compat := (drop_bit 4 ctlr AND 1 = 0)\<rparr>)) (\<lambda>_.
     mbind (gicv3_rdistif_base_addrs_probe dbg G (rdistif_num data) (gicr_base data) (mpidr_to_core_pos data)) (\<lambda>_.
     mmodify (\<lambda>s. s\<lparr>gicv3_driver_data := Some data\<rparr>))))))))))"

definition gicv3_distif_init :: "bool \<Rightarrow> 'd gic_device \<Rightarrow> u64 \<Rightarrow> ('d gic_world, unit) prog" where
  "gicv3_distif_init dbg G mpidr =
     mbind (driver_data dbg) (\<lambda>data.
     let base = gicd_base data
     in mbind (dbg_assert dbg (base \<noteq> 0)) (\<lambda>_.
        mbind (gicd_clr_ctlr G base (CTLR_ENABLE_G0_BIT OR CTLR_ENABLE_G1S_BIT OR CTLR_ENABLE_G1NS_BIT) True) (\<lambda>_.
        mbind (gicd_set_ctlr G base (CTLR_ARE_S_BIT OR CTLR_ARE_NS_BIT) True) (\<lambda>_.
        mbind (gicv3_spis_config_defaults G base) (\<lambda>_.
        mbind (gicv3_secure_spis_config_props dbg G mpidr base (interrupt_props data)) (\<lambda>bitmap.
        gicd_set_ctlr G base bitmap True))))))"

text \<open>\<^verbatim>\<open>gicv3_rdistif_on\<close> and \<^verbatim>\<open>gicv3_rdistif_off\<close> do nothing unless a platform overrides them.\<close>

definition gicv3_rdistif_on :: "nat \<Rightarrow> ('d gic_world, unit) prog" where
  "gicv3_rdistif_on proc_num = mret ()"

definition gicv3_rdistif_off :: "nat \<Rightarrow> ('d gic_world, unit) prog" where
  "gicv3_rdistif_off proc_num = mret ()"

definition gicv3_rdistif_init :: "bool \<Rightarrow> 'd gic_device \<Rightarrow> nat \<Rightarrow> ('d gic_world, unit) prog" where
  "gicv3_rdistif_init dbg G proc_num =
     mbind (driver_data dbg) (\<lambda>data.
     mbind (dbg_assert dbg (proc_num < rdistif_num data)) (\<lambda>_.
     mbind (dbg_assert dbg (gicd_base data \<noteq> 0)) (\<lambda>_.
     mbind (gicd_read_ctlr G (gicd_base data)) (\<lambda>ctlr.
     mbind (dbg_assert dbg (ctlr AND CTLR_ARE_S_BIT \<noteq> 0)) (\<lambda>_.
     mbind (gicv3_rdistif_on proc_num) (\<lambda>_.
     mbind (redist_base dbg data proc_num) (\<lambda>base.
     mbind (gicv3_ppi_sgi_config_defaults G base) (\<lambda>_.
     mbind (gicv3_secure_ppi_sgi_config_props dbg G base (interrupt_props data)) (\<lambda>bitmap.
     mwhen (ctlr AND bitmap \<noteq> bitmap) (gicd_set_ctlr G (gicd_base data) bitmap True))))))))))"

section \<open>The CPU interface\<close>

definition icc_modify :: "(icc_regs \<Rightarrow> icc_regs) \<Rightarrow> ('d gic_world, unit) prog" where
  "icc_modify f = mmodify (\<lambda>s. s\<lparr>icc := f (icc s)\<rparr>)"

definition write_icc_sre_el1 :: "u64 \<Rightarrow> ('d gic_world, unit) prog" where
  "write_icc_sre_el1 v = icc_modify (\<lambda>c. c\<lparr>icc_sre_el1 := (icc_sre_el1 c)(bit (core_scr_el3 c) 0 := v)\<rparr>)"

definition gicv3_cpuif_enable :: "bool \<Rightarrow> 'd gic_device \<Rightarrow> nat \<Rightarrow> ('d gic_world, unit) prog" where
  "gicv3_cpuif_enable dbg G proc_num =
     mbind (driver_data dbg) (\<lambda>data.
     mbind (redist_base dbg data proc_num) (\<lambda>base.
     mbind (gicv3_rdistif_mark_core_awake dbg G base) (\<lambda>_.
     mbind (icc_modify (\<lambda>c. c\<lparr>icc_sre_el3 := icc_sre_el3 c OR 0xf\<rparr>)) (\<lambda>_.
     mbind (mget (\<lambda>s. ucast (core_scr_el3 (icc s)) :: u32)) (\<lambda>scr_el3.
     mbind (icc_modify (\<lambda>c. c\<lparr>core_scr_el3 := ucast (scr_el3 OR 1)\<rparr>)) (\<lambda>_.
     mbind (icc_modify (\<lambda>c. c\<lparr>icc_sre_el2 := icc_sre_el2 c OR 0xf\<rparr>)) (\<lambda>_.
     mbind (write_icc_sre_el1 1) (\<lambda>_.
     mbind (icc_modify (\<lambda>c. c\<lparr>core_scr_el3 := ucast (scr_el3 AND NOT 1)\<rparr>)) (\<lambda>_.
     mbind (icc_modify (\<lambda>c. c\<lparr>icc_pmr_el1 := 0xff\<rparr>)) (\<lambda>_.
     mbind (icc_modify (\<lambda>c. c\<lparr>icc_igrpen0_el1 := 1\<rparr>)) (\<lambda>_.
     mbind (icc_modify (\<lambda>c. c\<lparr>icc_igrpen1_el3 := icc_igrpen1_el3 c OR 2\<rparr>)) (\<lambda>_.
     write_icc_sre_el1 1))))))))))))"

definition gicv3_cpuif_disable :: "bool \<Rightarrow> 'd gic_device \<Rightarrow> nat \<Rightarrow> ('d gic_world, unit) prog" where
  "gicv3_cpuif_disable dbg G proc_num =
     mbind (driver_data dbg) (\<lambda>data.
     mbind (dbg_assert dbg (proc_num < rdistif_num data)) (\<lambda>_.
     mbind (icc_modify (\<lambda>c. c\<lparr>icc_sre_el3 := icc_sre_el3 c OR 6\<rparr>)) (\<lambda>_.
     mbind (icc_modify (\<lambda>c. c\<lparr>icc_igrpen0_el1 := icc_igrpen0_el1 c AND ucast (NOT 1 :: u32)\<rparr>)) (\<lambda>_.
     mbind (icc_modify (\<lambda>c. c\<lparr>icc_igrpen1_el3 := icc_igrpen1_el3 c AND ucast (NOT (1 OR 2) :: u32)\<rparr>)) (\<lambda>_.
     mbind (redist_base dbg data proc_num) (\<lambda>base.
     gicv3_rdistif_mark_core_asleep G base))))))"

definition gicv3_get_pending_interrupt_id :: "('d gic_world, nat) prog" where
  "gicv3_get_pending_interrupt_id =
     mbind (mget (\<lambda>s. unat ((ucast (icc_hppir0_el1 (icc s)) :: u32) AND 0xffffff))) (\<lambda>i.
     if i = PENDING_G1S_INTID \<or> i = PENDING_G1NS_INTID
     then mget (\<lambda>s. unat ((ucast (icc_hppir1_el1 (icc s)) :: u32) AND 0xffffff))
     else mret i)"

definition gicv3_get_pending_interrupt_type :: "('d gic_world, nat) prog" where
  "gicv3_get_pending_interrupt_type = mget (\<lambda>s. unat ((ucast (icc_hppir0_el1 (icc s)) :: u32) AND 0xffffff))"

definition gicv3_acknowledge_interrupt :: "('d gic_world, nat) prog" where
  "gicv3_acknowledge_interrupt =
     mbind (mget (\<lambda>s. unat ((ucast (icc_iar0_el1 (icc s)) :: u32) AND 0xffffff))) (\<lambda>i.
     mbind (icc_modify (\<lambda>c. c\<lparr>icc_log := icc_log c @ [Icc_acknowledge]\<rparr>)) (\<lambda>_. mret i))"

definition gicv3_end_of_interrupt :: "nat \<Rightarrow> ('d gic_world, unit) prog" where
  "gicv3_end_of_interrupt intr = icc_modify (\<lambda>c. c\<lparr>icc_log := icc_log c @ [Icc_eoir0 (of_nat intr)]\<rparr>)"

definition gicv3_get_running_priority :: "('d gic_world, u32) prog" where
  "gicv3_get_running_priority = mget (\<lambda>s. ucast (icc_rpr_el1 (icc s)))"

definition gicv3_set_pmr :: "u32 \<Rightarrow> ('d gic_world, u32) prog" where
  "gicv3_set_pmr msk =
     mbind (mget (\<lambda>s. ucast (icc_pmr_el1 (icc s)))) (\<lambda>old_mask.
     mbind (icc_modify (\<lambda>c. c\<lparr>icc_pmr_el1 := ucast msk\<rparr>)) (\<lambda>_. mret old_mask))"

definition gicv3_is_intr_id_special_identifier :: "nat \<Rightarrow> bool" where
  "gicv3_is_intr_id_special_identifier intr \<longleftrightarrow> intr \<ge> PENDING_G1S_INTID \<and> intr \<le> GIC_SPURIOUS_INTERRUPT"

section \<open>Operations on one interrupt\<close>

definition gicv3_get_interrupt_type :: "bool \<Rightarrow> 'd gic_device \<Rightarrow> nat \<Rightarrow> nat \<Rightarrow> ('d gic_world, u32) prog" where
  "gicv3_get_interrupt_type dbg G intr proc_num =
     mbind (driver_data dbg) (\<lambda>data.
     mbind (dbg_assert dbg (intr < PENDING_G1S_INTID \<or> intr \<ge> MIN_LPI_ID)) (\<lambda>_.
     mbind (dbg_assert dbg (proc_num < rdistif_num data)) (\<lambda>_.
     if intr \<ge> MIN_LPI_ID then mret INTR_GROUP1NS
     else
       mbind (if intr < MIN_SPI_ID then
                mbind (redist_base dbg data proc_num) (\<lambda>base.
                mbind (gicr_get_igroupr0 G base intr) (\<lambda>igroup.
                mbind (gicr_get_igrpmodr0 G base intr) (\<lambda>grpmodr. mret (igroup, grpmodr))))
              else
                mbind (dbg_assert dbg (gicd_base data \<noteq> 0)) (\<lambda>_.
                mbind (gicd_get_igroupr G (gicd_base data) intr) (\<lambda>igroup.
                mbind (gicd_get_igrpmodr G (gicd_base data) intr) (\<lambda>grpmodr. mret (igroup, grpmodr))))) (\<lambda>(igroup, grpmodr).
       mret (if igroup \<noteq> 0 then INTR_GROUP1NS else if grpmodr \<noteq> 0 then INTR_GROUP1S else INTR_GROUP0)))))"

text \<open>What the operations on one interrupt check first.\<close>

definition intr_op_data :: "bool \<Rightarrow> nat \<Rightarrow> ('d gic_world, gicv3_driver_data_t) prog" where
  "intr_op_data dbg proc_num =
     mbind (driver_data dbg) (\<lambda>data.
     mbind (dbg_assert dbg (gicd_base data \<noteq> 0)) (\<lambda>_.
     mbind (dbg_assert dbg (proc_num < rdistif_num data)) (\<lambda>_. mret data)))"

definition gicv3_get_interrupt_active :: "bool \<Rightarrow> 'd gic_device \<Rightarrow> nat \<Rightarrow> nat \<Rightarrow> ('d gic_world, u32) prog" where
  "gicv3_get_interrupt_active dbg G intr proc_num =
     mbind (intr_op_data dbg proc_num) (\<lambda>data.
     mbind (dbg_assert dbg (intr \<le> MAX_SPI_ID)) (\<lambda>_.
     if intr < MIN_SPI_ID then mbind (redist_base dbg data proc_num) (\<lambda>base. gicr_get_isactiver0 G base intr)
     else gicd_get_isactiver G (gicd_base data) intr))"

definition gicv3_enable_interrupt :: "bool \<Rightarrow> 'd gic_device \<Rightarrow> nat \<Rightarrow> nat \<Rightarrow> ('d gic_world, unit) prog" where
  "gicv3_enable_interrupt dbg G intr proc_num =
     mbind (intr_op_data dbg proc_num) (\<lambda>data.
     mbind (dbg_assert dbg (intr \<le> MAX_SPI_ID)) (\<lambda>_.
     if intr < MIN_SPI_ID then mbind (redist_base dbg data proc_num) (\<lambda>base. gicr_set_isenabler0 G base intr)
     else gicd_set_isenabler G (gicd_base data) intr))"

definition gicv3_disable_interrupt :: "bool \<Rightarrow> 'd gic_device \<Rightarrow> nat \<Rightarrow> nat \<Rightarrow> ('d gic_world, unit) prog" where
  "gicv3_disable_interrupt dbg G intr proc_num =
     mbind (intr_op_data dbg proc_num) (\<lambda>data.
     mbind (dbg_assert dbg (intr \<le> MAX_SPI_ID)) (\<lambda>_.
     if intr < MIN_SPI_ID then
       mbind (redist_base dbg data proc_num) (\<lambda>base.
       mbind (gicr_set_icenabler0 G base intr) (\<lambda>_. gicr_wait_for_pending_write G base))
     else
       mbind (gicd_set_icenabler G (gicd_base data) intr) (\<lambda>_. gicd_wait_for_pending_write G (gicd_base data))))"

definition gicv3_set_interrupt_priority :: "bool \<Rightarrow> 'd gic_device \<Rightarrow> nat \<Rightarrow> nat \<Rightarrow> u32 \<Rightarrow> ('d gic_world, unit) prog" where
  "gicv3_set_interrupt_priority dbg G intr proc_num priority =
     mbind (intr_op_data dbg proc_num) (\<lambda>data.
     mbind (dbg_assert dbg (intr \<le> MAX_SPI_ID)) (\<lambda>_.
     if intr < MIN_SPI_ID then mbind (redist_base dbg data proc_num) (\<lambda>base. gicr_set_ipriorityr G base intr priority)
     else gicd_set_ipriorityr G (gicd_base data) intr priority))"

definition spin_lock_gic :: "('d gic_world, unit) prog" where
  "spin_lock_gic = mbind (mget gic_lock) (\<lambda>held. if held then mstop Blocked else mmodify (\<lambda>s. s\<lparr>gic_lock := True\<rparr>))"

definition spin_unlock_gic :: "('d gic_world, unit) prog" where
  "spin_unlock_gic = mmodify (\<lambda>s. s\<lparr>gic_lock := False\<rparr>)"

definition gicv3_set_interrupt_type :: "bool \<Rightarrow> 'd gic_device \<Rightarrow> nat \<Rightarrow> nat \<Rightarrow> u32 \<Rightarrow> ('d gic_world, unit) prog" where
  "gicv3_set_interrupt_type dbg G intr proc_num type =
     mbind (intr_op_data dbg proc_num) (\<lambda>data.
     mbind (dbg_assert dbg (type = INTR_GROUP1S \<or> type = INTR_GROUP0 \<or> type = INTR_GROUP1NS)) (\<lambda>_.
     let igroup = (type = INTR_GROUP1NS); grpmod = (type = INTR_GROUP1S)
     in if intr < MIN_SPI_ID then
          mbind (redist_base dbg data proc_num) (\<lambda>base.
          mbind (if igroup then gicr_set_igroupr0 G base intr else gicr_clr_igroupr0 G base intr) (\<lambda>_.
          if grpmod then gicr_set_igrpmodr0 G base intr else gicr_clr_igrpmodr0 G base intr))
        else
          let base = gicd_base data
          in mbind spin_lock_gic (\<lambda>_.
             mbind (if igroup then gicd_set_igroupr G base intr else gicd_clr_igroupr G base intr) (\<lambda>_.
             mbind (if grpmod then gicd_set_igrpmodr G base intr else gicd_clr_igrpmodr G base intr) (\<lambda>_.
             spin_unlock_gic)))))"

text \<open>\<^verbatim>\<open>GICV3_SGIR_VALUE\<close>, whose mask for an affinity field is \<^verbatim>\<open>SGIR_AFF_MASK\<close>.\<close>

abbreviation SGIR_AFF_MASK :: u64 where "SGIR_AFF_MASK \<equiv> 0xf"

definition GICV3_SGIR_VALUE :: "u64 \<Rightarrow> u64 \<Rightarrow> u64 \<Rightarrow> u64 \<Rightarrow> u64 \<Rightarrow> u64 \<Rightarrow> u64" where
  "GICV3_SGIR_VALUE aff3 aff2 aff1 intid irm tgt =
     push_bit 48 (aff3 AND SGIR_AFF_MASK) OR push_bit 40 (irm AND 1) OR push_bit 32 (aff2 AND SGIR_AFF_MASK) OR
     push_bit 24 (intid AND 0xf) OR push_bit 16 (aff1 AND SGIR_AFF_MASK) OR (tgt AND 0xffff)"

definition gicv3_raise_secure_g0_sgi :: "bool \<Rightarrow> nat \<Rightarrow> u64 \<Rightarrow> ('d gic_world, unit) prog" where
  "gicv3_raise_secure_g0_sgi dbg sgi_num target =
     mbind (dbg_assert dbg (sgi_num < MIN_PPI_ID)) (\<lambda>_.
     let aff0 = target AND 0xff; aff1 = drop_bit 8 target AND 0xff;
         aff2 = drop_bit 16 target AND 0xff; aff3 = drop_bit 32 target AND 0xff
     in mbind (dbg_assert dbg (aff0 < 16)) (\<lambda>_.
        let tgt = push_bit (unat aff0) (1 :: u32)
        in icc_modify (\<lambda>c. c\<lparr>icc_log := icc_log c @
             [Icc_sgi0r (GICV3_SGIR_VALUE aff3 aff2 aff1 (of_nat sgi_num) 0 (ucast tgt))]\<rparr>)))"

definition gicv3_set_spi_routing :: "bool \<Rightarrow> 'd gic_device \<Rightarrow> nat \<Rightarrow> u32 \<Rightarrow> u64 \<Rightarrow> ('d gic_world, unit) prog" where
  "gicv3_set_spi_routing dbg G intr irm mpidr =
     mbind (driver_data dbg) (\<lambda>data.
     mbind (dbg_assert dbg (gicd_base data \<noteq> 0)) (\<lambda>_.
     mbind (dbg_assert dbg (irm = GICV3_IRM_ANY \<or> irm = GICV3_IRM_PE)) (\<lambda>_.
     mbind (dbg_assert dbg (intr \<ge> MIN_SPI_ID \<and> intr \<le> MAX_SPI_ID)) (\<lambda>_.
     mbind (gicd_write_irouter dbg G (gicd_base data) intr (gicd_irouter_val_from_mpidr mpidr irm)) (\<lambda>_.
     mwhen (irm = GICV3_IRM_ANY)
       (mbind (gicd_read_irouter dbg G (gicd_base data) intr) (\<lambda>router.
        if drop_bit 31 router AND 1 = 0 then mstop Panicked else mret ())))))))"

definition gicv3_clear_interrupt_pending :: "bool \<Rightarrow> 'd gic_device \<Rightarrow> nat \<Rightarrow> nat \<Rightarrow> ('d gic_world, unit) prog" where
  "gicv3_clear_interrupt_pending dbg G intr proc_num =
     mbind (intr_op_data dbg proc_num) (\<lambda>data.
     if intr < MIN_SPI_ID then mbind (redist_base dbg data proc_num) (\<lambda>base. gicr_set_icpendr0 G base intr)
     else gicd_set_icpendr G (gicd_base data) intr)"

definition gicv3_set_interrupt_pending :: "bool \<Rightarrow> 'd gic_device \<Rightarrow> nat \<Rightarrow> nat \<Rightarrow> ('d gic_world, unit) prog" where
  "gicv3_set_interrupt_pending dbg G intr proc_num =
     mbind (intr_op_data dbg proc_num) (\<lambda>data.
     if intr < MIN_SPI_ID then mbind (redist_base dbg data proc_num) (\<lambda>base. gicr_set_ispendr0 G base intr)
     else gicd_set_ispendr G (gicd_base data) intr)"

end
