(* ===== verification/Gicv3_Save.thy ===== *)
theory Gicv3_Save
  imports Gicv3_Driver
begin

text \<open>
  Saving and restoring the interrupt controller: \<^verbatim>\<open>gicv3_rdistif_save\<close>,
  \<^verbatim>\<open>gicv3_rdistif_init_restore\<close>, \<^verbatim>\<open>gicv3_distif_save\<close> and \<^verbatim>\<open>gicv3_distif_init_restore\<close> of
  \<^verbatim>\<open>gicv3_main.c\<close>, with the hooks of \<^verbatim>\<open>gic500.c\<close>. A context is a record with the arrays of the
  C structure as lists; a save takes the context it fills in and returns it.
\<close>

section \<open>Contexts\<close>

record gicv3_redist_ctx_t =
  rctx_propbaser :: u64
  rctx_pendbaser :: u64
  rctx_ctlr :: u32
  rctx_igroupr0 :: u32
  rctx_isenabler0 :: u32
  rctx_ispendr0 :: u32
  rctx_isactiver0 :: u32
  rctx_ipriorityr :: "u32 list"
  rctx_icfgr0 :: u32
  rctx_icfgr1 :: u32
  rctx_igrpmodr0 :: u32
  rctx_nsacr :: u32

record gicv3_dist_ctx_t =
  dctx_irouter :: "u64 list"
  dctx_ctlr :: u32
  dctx_igroupr :: "u32 list"
  dctx_isenabler :: "u32 list"
  dctx_ispendr :: "u32 list"
  dctx_isactiver :: "u32 list"
  dctx_ipriorityr :: "u32 list"
  dctx_icfgr :: "u32 list"
  dctx_igrpmodr :: "u32 list"
  dctx_nsacr :: "u32 list"

text \<open>The sizes of the arrays: \<^verbatim>\<open>GICD_NUM_REGS\<close> and \<^verbatim>\<open>GICR_NUM_REGS\<close>.\<close>

definition GICD_NUM_REGS :: "nat \<Rightarrow> nat" where
  "GICD_NUM_REGS shift = (TOTAL_SPI_INTR_NUM + 2 ^ shift - 1) div 2 ^ shift"

definition dist_ctx_sized :: "gicv3_dist_ctx_t \<Rightarrow> bool" where
  "dist_ctx_sized ctx \<longleftrightarrow>
     length (dctx_irouter ctx) = TOTAL_SPI_INTR_NUM \<and> length (dctx_igroupr ctx) = GICD_NUM_REGS 5 \<and>
     length (dctx_isenabler ctx) = GICD_NUM_REGS 5 \<and> length (dctx_ispendr ctx) = GICD_NUM_REGS 5 \<and>
     length (dctx_isactiver ctx) = GICD_NUM_REGS 5 \<and> length (dctx_ipriorityr ctx) = GICD_NUM_REGS 2 \<and>
     length (dctx_icfgr ctx) = GICD_NUM_REGS 4 \<and> length (dctx_igrpmodr ctx) = GICD_NUM_REGS 5 \<and>
     length (dctx_nsacr ctx) = GICD_NUM_REGS 4"

definition redist_ctx_sized :: "gicv3_redist_ctx_t \<Rightarrow> bool" where
  "redist_ctx_sized ctx \<longleftrightarrow> length (rctx_ipriorityr ctx) = 8"

section \<open>The macros\<close>

definition SAVE_GICD_REGS :: "nat \<Rightarrow> nat \<Rightarrow> (nat \<Rightarrow> ('s, 'v) prog) \<Rightarrow> 'v list \<Rightarrow> ('s, 'v list) prog" where
  "SAVE_GICD_REGS shift num rd regs =
     mfold (\<lambda>int_id regs.
       mbind (rd int_id) (\<lambda>v.
       mbind (array_check regs ((int_id - MIN_SPI_ID) div 2 ^ shift)) (\<lambda>_.
       mret (regs[(int_id - MIN_SPI_ID) div 2 ^ shift := v])))) (id_range MIN_SPI_ID num (2 ^ shift)) regs"

definition RESTORE_GICD_REGS :: "nat \<Rightarrow> nat \<Rightarrow> (nat \<Rightarrow> 'v \<Rightarrow> ('s, unit) prog) \<Rightarrow> 'v list \<Rightarrow> ('s, unit) prog" where
  "RESTORE_GICD_REGS shift num wr regs =
     for_ids (id_range MIN_SPI_ID num (2 ^ shift)) (\<lambda>int_id.
       mbind (array_get regs ((int_id - MIN_SPI_ID) div 2 ^ shift)) (\<lambda>v. wr int_id v))"

section \<open>Redistributors\<close>

definition gicv3_distif_pre_save :: "bool \<Rightarrow> 'd gic_device \<Rightarrow> nat \<Rightarrow> ('d gic_world, unit) prog" where
  "gicv3_distif_pre_save dbg G proc_num =
     mbind (driver_data dbg) (\<lambda>data.
     mbind (mget rdistif_base_addrs) (\<lambda>addrs.
     mbind (for_ids [0..<rdistif_num data] (\<lambda>i.
       mbind (array_get addrs i) (\<lambda>base.
       mbind (dbg_assert dbg (base \<noteq> 0)) (\<lambda>_.
       mbind (gicr_read_waker G base) (\<lambda>v.
       mbind (dbg_assert dbg (v AND WAKER_CA_BIT \<noteq> 0)) (\<lambda>_.
       mbind (gicr_read_waker G base) (\<lambda>v.
       dbg_assert dbg (v AND WAKER_PS_BIT \<noteq> 0)))))))) (\<lambda>_.
     mbind (array_get addrs proc_num) (\<lambda>base.
     mbind (gicr_read_waker G base) (\<lambda>v.
     mbind (gicr_write_waker G base (v OR WAKER_SL_BIT)) (\<lambda>_.
     gic_poll (gic_patience G) G (base + GICR_WAKER) (\<lambda>v. v AND WAKER_QSC_BIT \<noteq> 0)))))))"

definition gicv3_distif_post_restore :: "bool \<Rightarrow> 'd gic_device \<Rightarrow> nat \<Rightarrow> ('d gic_world, unit) prog" where
  "gicv3_distif_post_restore dbg G proc_num =
     mbind (driver_data dbg) (\<lambda>data.
     mbind (mget rdistif_base_addrs) (\<lambda>addrs.
     mbind (array_get addrs proc_num) (\<lambda>base.
     mbind (dbg_assert dbg (base \<noteq> 0)) (\<lambda>_.
     mbind (gicr_read_waker G base) (\<lambda>v.
     mwhen (v AND WAKER_SL_BIT \<noteq> 0)
       (mbind (gicr_read_waker G base) (\<lambda>v.
        mbind (dbg_assert dbg (v AND WAKER_QSC_BIT \<noteq> 0)) (\<lambda>_.
        mbind (gicr_read_waker G base) (\<lambda>v.
        mbind (gicr_write_waker G base (v AND NOT WAKER_SL_BIT)) (\<lambda>_.
        gic_poll (gic_patience G) G (base + GICR_WAKER) (\<lambda>v. v AND WAKER_QSC_BIT = 0)))))))))))"

definition save_priorities :: "'d gic_device \<Rightarrow> u64 \<Rightarrow> u32 list \<Rightarrow> ('d gic_world, u32 list) prog" where
  "save_priorities G base regs =
     mfold (\<lambda>int_id regs.
       mbind (gicr_read_ipriorityr G base int_id) (\<lambda>v.
       mbind (array_check regs (int_id div 4)) (\<lambda>_. mret (regs[int_id div 4 := v])))) (id_range 0 32 4) regs"

definition gicv3_rdistif_save ::
  "bool \<Rightarrow> 'd gic_device \<Rightarrow> nat \<Rightarrow> gicv3_redist_ctx_t \<Rightarrow> ('d gic_world, gicv3_redist_ctx_t) prog" where
  "gicv3_rdistif_save dbg G proc_num ctx =
     mbind (driver_data dbg) (\<lambda>data.
     mbind (redist_base dbg data proc_num) (\<lambda>base.
     mbind (gicr_wait_for_pending_write G base) (\<lambda>_.
     mbind (gicr_read_ctlr G base) (\<lambda>ctlr.
     mbind (gicr_read_propbaser G base) (\<lambda>propbaser.
     mbind (gicr_read_pendbaser G base) (\<lambda>pendbaser.
     mbind (gicr_read_igroupr0 G base) (\<lambda>igroupr0.
     mbind (gicr_read_isenabler0 G base) (\<lambda>isenabler0.
     mbind (gicr_read_ispendr0 G base) (\<lambda>ispendr0.
     mbind (gicr_read_isactiver0 G base) (\<lambda>isactiver0.
     mbind (gicr_read_icfgr0 G base) (\<lambda>icfgr0.
     mbind (gicr_read_icfgr1 G base) (\<lambda>icfgr1.
     mbind (gicr_read_igrpmodr0 G base) (\<lambda>igrpmodr0.
     mbind (gicr_read_nsacr G base) (\<lambda>nsacr.
     mbind (save_priorities G base (rctx_ipriorityr ctx)) (\<lambda>ipriorityr.
     mbind (gicv3_distif_pre_save dbg G proc_num) (\<lambda>_.
     mret \<lparr>rctx_propbaser = propbaser, rctx_pendbaser = pendbaser, rctx_ctlr = ctlr, rctx_igroupr0 = igroupr0,
       rctx_isenabler0 = isenabler0, rctx_ispendr0 = ispendr0, rctx_isactiver0 = isactiver0,
       rctx_ipriorityr = ipriorityr, rctx_icfgr0 = icfgr0, rctx_icfgr1 = icfgr1, rctx_igrpmodr0 = igrpmodr0,
       rctx_nsacr = nsacr\<rparr>))))))))))))))))"

definition gicv3_rdistif_init_restore ::
  "bool \<Rightarrow> 'd gic_device \<Rightarrow> nat \<Rightarrow> gicv3_redist_ctx_t \<Rightarrow> ('d gic_world, unit) prog" where
  "gicv3_rdistif_init_restore dbg G proc_num ctx =
     mbind (driver_data dbg) (\<lambda>data.
     mbind (redist_base dbg data proc_num) (\<lambda>base.
     mbind (gicv3_rdistif_on proc_num) (\<lambda>_.
     mbind (gicv3_distif_post_restore dbg G proc_num) (\<lambda>_.
     mbind (gicr_write_icenabler0 G base (NOT 0)) (\<lambda>_.
     mbind (gicr_wait_for_pending_write G base) (\<lambda>_.
     mbind (gicr_write_ctlr G base (rctx_ctlr ctx AND NOT GICR_CTLR_EN_LPIS_BIT)) (\<lambda>_.
     mbind (gicr_write_propbaser G base (rctx_propbaser ctx)) (\<lambda>_.
     mbind (gicr_write_pendbaser G base (rctx_pendbaser ctx)) (\<lambda>_.
     mbind (gicr_write_igroupr0 G base (rctx_igroupr0 ctx)) (\<lambda>_.
     mbind (for_ids (id_range 0 32 4) (\<lambda>int_id.
       mbind (array_get (rctx_ipriorityr ctx) (int_id div 4)) (\<lambda>v. gicr_write_ipriorityr G base int_id v))) (\<lambda>_.
     mbind (gicr_write_icfgr0 G base (rctx_icfgr0 ctx)) (\<lambda>_.
     mbind (gicr_write_icfgr1 G base (rctx_icfgr1 ctx)) (\<lambda>_.
     mbind (gicr_write_igrpmodr0 G base (rctx_igrpmodr0 ctx)) (\<lambda>_.
     mbind (gicr_write_nsacr G base (rctx_nsacr ctx)) (\<lambda>_.
     mbind (gicr_write_ispendr0 G base (rctx_ispendr0 ctx)) (\<lambda>_.
     mbind (gicr_write_isactiver0 G base (rctx_isactiver0 ctx)) (\<lambda>_.
     mbind (gicr_wait_for_upstream_pending_write G base) (\<lambda>_.
     mbind (gicr_write_isenabler0 G base (rctx_isenabler0 ctx)) (\<lambda>_.
     mbind (gicr_write_ctlr G base (rctx_ctlr ctx)) (\<lambda>_.
     gicr_wait_for_pending_write G base))))))))))))))))))))"

section \<open>The distributor\<close>

definition gicv3_distif_save ::
  "bool \<Rightarrow> 'd gic_device \<Rightarrow> gicv3_dist_ctx_t \<Rightarrow> ('d gic_world, gicv3_dist_ctx_t) prog" where
  "gicv3_distif_save dbg G ctx =
     mbind (driver_data dbg) (\<lambda>data.
     let base = gicd_base data
     in mbind (dbg_assert dbg (base \<noteq> 0)) (\<lambda>_.
        mbind (gicd_read_typer G base) (\<lambda>typer.
        let num_ints = num_ints_of typer
        in mbind (dbg_assert dbg (num_ints \<le> MAX_SPI_ID + 1)) (\<lambda>_.
           mbind (gicd_wait_for_pending_write G base) (\<lambda>_.
           mbind (gicd_read_ctlr G base) (\<lambda>ctlr.
           mbind (SAVE_GICD_REGS 5 num_ints (gicd_read_igroupr G base) (dctx_igroupr ctx)) (\<lambda>igroupr.
           mbind (SAVE_GICD_REGS 5 num_ints (gicd_read_isenabler G base) (dctx_isenabler ctx)) (\<lambda>isenabler.
           mbind (SAVE_GICD_REGS 5 num_ints (gicd_read_ispendr G base) (dctx_ispendr ctx)) (\<lambda>ispendr.
           mbind (SAVE_GICD_REGS 5 num_ints (gicd_read_isactiver G base) (dctx_isactiver ctx)) (\<lambda>isactiver.
           mbind (SAVE_GICD_REGS 2 num_ints (gicd_read_ipriorityr G base) (dctx_ipriorityr ctx)) (\<lambda>ipriorityr.
           mbind (SAVE_GICD_REGS 4 num_ints (gicd_read_icfgr G base) (dctx_icfgr ctx)) (\<lambda>icfgr.
           mbind (SAVE_GICD_REGS 5 num_ints (gicd_read_igrpmodr G base) (dctx_igrpmodr ctx)) (\<lambda>igrpmodr.
           mbind (SAVE_GICD_REGS 4 num_ints (gicd_read_nsacr G base) (dctx_nsacr ctx)) (\<lambda>nsacr.
           mbind (SAVE_GICD_REGS 0 num_ints (gicd_read_irouter dbg G base) (dctx_irouter ctx)) (\<lambda>irouter.
           mret \<lparr>dctx_irouter = irouter, dctx_ctlr = ctlr, dctx_igroupr = igroupr, dctx_isenabler = isenabler,
             dctx_ispendr = ispendr, dctx_isactiver = isactiver, dctx_ipriorityr = ipriorityr, dctx_icfgr = icfgr,
             dctx_igrpmodr = igrpmodr, dctx_nsacr = nsacr\<rparr>)))))))))))))))"

definition gicv3_distif_init_restore :: "bool \<Rightarrow> 'd gic_device \<Rightarrow> gicv3_dist_ctx_t \<Rightarrow> ('d gic_world, unit) prog" where
  "gicv3_distif_init_restore dbg G ctx =
     mbind (driver_data dbg) (\<lambda>data.
     let base = gicd_base data
     in mbind (dbg_assert dbg (base \<noteq> 0)) (\<lambda>_.
        mbind (gicd_clr_ctlr G base (CTLR_ENABLE_G0_BIT OR CTLR_ENABLE_G1S_BIT OR CTLR_ENABLE_G1NS_BIT) True) (\<lambda>_.
        mbind (gicd_set_ctlr G base (CTLR_ARE_S_BIT OR CTLR_ARE_NS_BIT) True) (\<lambda>_.
        mbind (gicd_read_typer G base) (\<lambda>typer.
        let num_ints = num_ints_of typer
        in mbind (dbg_assert dbg (num_ints \<le> MAX_SPI_ID + 1)) (\<lambda>_.
           mbind (RESTORE_GICD_REGS 5 num_ints (gicd_write_igroupr G base) (dctx_igroupr ctx)) (\<lambda>_.
           mbind (RESTORE_GICD_REGS 2 num_ints (gicd_write_ipriorityr G base) (dctx_ipriorityr ctx)) (\<lambda>_.
           mbind (RESTORE_GICD_REGS 4 num_ints (gicd_write_icfgr G base) (dctx_icfgr ctx)) (\<lambda>_.
           mbind (RESTORE_GICD_REGS 5 num_ints (gicd_write_igrpmodr G base) (dctx_igrpmodr ctx)) (\<lambda>_.
           mbind (RESTORE_GICD_REGS 4 num_ints (gicd_write_nsacr G base) (dctx_nsacr ctx)) (\<lambda>_.
           mbind (RESTORE_GICD_REGS 0 num_ints (gicd_write_irouter dbg G base) (dctx_irouter ctx)) (\<lambda>_.
           mbind (RESTORE_GICD_REGS 5 num_ints (gicd_write_isenabler G base) (dctx_isenabler ctx)) (\<lambda>_.
           mbind (RESTORE_GICD_REGS 5 num_ints (gicd_write_ispendr G base) (dctx_ispendr ctx)) (\<lambda>_.
           mbind (RESTORE_GICD_REGS 5 num_ints (gicd_write_isactiver G base) (dctx_isactiver ctx)) (\<lambda>_.
           mbind (gicd_write_ctlr G base (dctx_ctlr ctx)) (\<lambda>_.
           gicd_wait_for_pending_write G base))))))))))))))))"

end
