(* ===== verification/Gicv3_Bank.thy ===== *)
theory Gicv3_Bank
  imports Gicv3_Save
begin

text \<open>
  What the driver relies on of the interrupt controller, from the GICv3 architecture: a bank of
  registers, of which some keep what is written to their writable bits, some set or clear the bits
  that are written as ones, and some bits change without a write. The locale \<open>gic_hardware\<close> states the
  laws; the programs of the driver then have an effect on the bank, and the relation \<open>gic_does\<close>
  says which. \<open>gic_reference\<close> is a controller that satisfies the laws.
\<close>

section \<open>The bank of registers\<close>

datatype gic_reg = Other_reg | Plain_reg | Set_reg | Clear_reg | Wide_reg

text \<open>
  The registers by offset: in the frame of the distributor, and in the two frames of a
  redistributor. \<open>Set_reg\<close> are ISENABLER, ISPENDR and ISACTIVER, \<open>Clear_reg\<close> their counterparts
  128 bytes behind them, \<open>Wide_reg\<close> the registers of 64 bits.
\<close>

definition intr_reg_kind :: "nat \<Rightarrow> gic_reg" where
  "intr_reg_kind off =
     (if 0x100 \<le> off \<and> off < 0x400 then (if (off div 0x80) mod 2 = 0 then Set_reg else Clear_reg) else Plain_reg)"

definition gicd_kind :: "nat \<Rightarrow> gic_reg" where
  "gicd_kind off =
     (if off < 0x1000 \<and> off mod 4 = 0 then intr_reg_kind off
      else if 0x6100 \<le> off \<and> off < 0x7fe0 \<and> off mod 8 = 0 then Wide_reg
      else Other_reg)"

definition gicr_kind :: "nat \<Rightarrow> gic_reg" where
  "gicr_kind off =
     (if off = 0 \<or> off = 0x14 then Plain_reg
      else if off = 8 \<or> off = 0x70 \<or> off = 0x78 then Wide_reg
      else if 0x10080 \<le> off \<and> off < 0x11000 \<and> off mod 4 = 0 then intr_reg_kind (off - 0x10000)
      else Other_reg)"

text \<open>
  What is implementation defined: the kind of the register at an address, its writable bits, and the
  bits that change without a write (the bits of a pending write, of the power state, and the pending
  and active interrupts).
\<close>

record gic_hw =
  hw_kind :: "u64 \<Rightarrow> gic_reg"
  hw_writable :: "u64 \<Rightarrow> u32"
  hw_writable64 :: "u64 \<Rightarrow> u64"
  hw_live :: "u64 \<Rightarrow> u32"

record gic_bank =
  b32 :: "u64 \<Rightarrow> u32"
  b64 :: "u64 \<Rightarrow> u64"

definition bank_of :: "'d gic_device \<Rightarrow> gic_hw \<Rightarrow> 'd \<Rightarrow> gic_bank" where
  "bank_of G H d =
     \<lparr>b32 = (\<lambda>a. if hw_kind H a = Plain_reg \<or> hw_kind H a = Set_reg then gic_read_32 G d a AND NOT (hw_live H a) else 0),
      b64 = (\<lambda>a. if hw_kind H a = Wide_reg then gic_read_64 G d a else 0)\<rparr>"

definition bank_write :: "gic_hw \<Rightarrow> u64 \<Rightarrow> u32 \<Rightarrow> gic_bank \<Rightarrow> gic_bank" where
  "bank_write H a v m =
     (case hw_kind H a of
        Plain_reg \<Rightarrow> m\<lparr>b32 := (b32 m)(a := ((b32 m a AND NOT (hw_writable H a)) OR (v AND hw_writable H a)) AND NOT (hw_live H a))\<rparr>
      | Set_reg \<Rightarrow> m\<lparr>b32 := (b32 m)(a := (b32 m a OR (v AND hw_writable H a)) AND NOT (hw_live H a))\<rparr>
      | Clear_reg \<Rightarrow> m\<lparr>b32 := (b32 m)(a - 0x80 := b32 m (a - 0x80) AND NOT v)\<rparr>
      | _ \<Rightarrow> m)"

definition bank_write64 :: "gic_hw \<Rightarrow> u64 \<Rightarrow> u64 \<Rightarrow> gic_bank \<Rightarrow> gic_bank" where
  "bank_write64 H a v m =
     (if hw_kind H a = Wide_reg
      then m\<lparr>b64 := (b64 m)(a := (b64 m a AND NOT (hw_writable64 H a)) OR (v AND hw_writable64 H a))\<rparr> else m)"

text \<open>A byte of a plain register, as the priority of one interrupt is.\<close>

definition byte_insert :: "nat \<Rightarrow> u8 \<Rightarrow> u32 \<Rightarrow> u32" where
  "byte_insert k v w = (w AND NOT (push_bit (8 * k) 0xff)) OR push_bit (8 * k) (ucast v)"

definition bank_write8 :: "gic_hw \<Rightarrow> u64 \<Rightarrow> nat \<Rightarrow> u8 \<Rightarrow> gic_bank \<Rightarrow> gic_bank" where
  "bank_write8 H a k v m = bank_write H a (byte_insert k v (b32 m a)) m"

text \<open>A core sleeps: the redistributor is told so and has answered.\<close>

definition rd_asleep :: "'d gic_device \<Rightarrow> u64 \<Rightarrow> 'd \<Rightarrow> bool" where
  "rd_asleep G b d \<longleftrightarrow> gic_read_32 G d (b + GICR_WAKER) AND WAKER_CA_BIT \<noteq> 0 \<and>
     gic_read_32 G d (b + GICR_WAKER) AND WAKER_PS_BIT \<noteq> 0"

section \<open>Programs that act on the bank\<close>

text \<open>
  \<open>gic_does G H rds m r f\<close>: the program returns \<open>r\<close> of the bank, changes the bank by \<open>f\<close> and nothing
  else in the state, and wakes no redistributor.
\<close>

definition gic_does ::
  "'d gic_device \<Rightarrow> gic_hw \<Rightarrow> u64 list \<Rightarrow> ('d gic_world, 'v) prog \<Rightarrow> (gic_bank \<Rightarrow> 'v) \<Rightarrow> (gic_bank \<Rightarrow> gic_bank) \<Rightarrow> bool" where
  "gic_does G H rds m r f \<longleftrightarrow>
     (\<forall>s. \<exists>d. m s = Ret (r (bank_of G H (gic_dev s))) (s\<lparr>gic_dev := d\<rparr>) \<and>
        bank_of G H d = f (bank_of G H (gic_dev s)) \<and>
        (\<forall>b\<in>set rds. rd_asleep G b (gic_dev s) \<longrightarrow> rd_asleep G b d))"

abbreviation gic_acts where "gic_acts G H rds m f \<equiv> gic_does G H rds m (\<lambda>_. ()) f"

lemma gic_doesD:
  assumes "gic_does G H rds m r f"
  obtains d where "m s = Ret (r (bank_of G H (gic_dev s))) (s\<lparr>gic_dev := d\<rparr>)"
    "bank_of G H d = f (bank_of G H (gic_dev s))"
    "\<And>b. b \<in> set rds \<Longrightarrow> rd_asleep G b (gic_dev s) \<Longrightarrow> rd_asleep G b d"
  using assms unfolding gic_does_def by blast

lemma gic_does_mret: "gic_does G H rds (mret v) (\<lambda>_. v) (\<lambda>m. m)"
proof -
  have "\<exists>d. Ret v s = Ret v (s\<lparr>gic_dev := d\<rparr>) \<and> bank_of G H d = bank_of G H (gic_dev s) \<and>
      (\<forall>b\<in>set rds. rd_asleep G b (gic_dev s) \<longrightarrow> rd_asleep G b d)" for s :: "'a gic_world"
    by (rule exI [of _ "gic_dev s"]) simp
  then show ?thesis by (simp add: gic_does_def prog_simps)
qed

lemma gic_does_mbind:
  fixes m :: "('d gic_world, 'v) prog"
  assumes m: "gic_does G H rds m r f" and n: "\<And>x. gic_does G H rds (n x) (q x) (g x)"
  shows "gic_does G H rds (mbind m n) (\<lambda>b. q (r b) (f b)) (\<lambda>b. g (r b) (f b))"
  unfolding gic_does_def
proof
  fix s :: "'d gic_world"
  let ?b = "bank_of G H (gic_dev s)"
  obtain d where d: "m s = Ret (r ?b) (s\<lparr>gic_dev := d\<rparr>)" "bank_of G H d = f ?b"
      "\<And>b. b \<in> set rds \<Longrightarrow> rd_asleep G b (gic_dev s) \<Longrightarrow> rd_asleep G b d"
    by (rule gic_doesD [OF m]) blast
  obtain e where e: "n (r ?b) (s\<lparr>gic_dev := d\<rparr>) = Ret (q (r ?b) (f ?b)) (s\<lparr>gic_dev := e\<rparr>)"
      "bank_of G H e = g (r ?b) (f ?b)" "\<And>b. b \<in> set rds \<Longrightarrow> rd_asleep G b d \<Longrightarrow> rd_asleep G b e"
    by (rule gic_doesD [OF n [of "r ?b"], where s = "s\<lparr>gic_dev := d\<rparr>"]) (auto simp: d(2))
  show "\<exists>d. mbind m n s = Ret (q (r ?b) (f ?b)) (s\<lparr>gic_dev := d\<rparr>) \<and> bank_of G H d = g (r ?b) (f ?b) \<and>
      (\<forall>b\<in>set rds. rd_asleep G b (gic_dev s) \<longrightarrow> rd_asleep G b d)"
    by (rule exI [of _ e]) (simp add: mbind_def d e)
qed

lemma gic_does_if:
  "(c \<Longrightarrow> gic_does G H rds m r f) \<Longrightarrow> (\<not> c \<Longrightarrow> gic_does G H rds n q g) \<Longrightarrow>
   gic_does G H rds (if c then m else n) (\<lambda>b. if c then r b else q b) (\<lambda>b. if c then f b else g b)"
  by simp

lemma gic_acts_if:
  "(c \<Longrightarrow> gic_acts G H rds m f) \<Longrightarrow> (\<not> c \<Longrightarrow> gic_acts G H rds n g) \<Longrightarrow>
   gic_acts G H rds (if c then m else n) (\<lambda>b. if c then f b else g b)"
  by simp

lemma gic_acts_mwhen: "(c \<Longrightarrow> gic_acts G H rds m f) \<Longrightarrow> gic_acts G H rds (mwhen c m) (\<lambda>b. if c then f b else b)"
  by (simp add: mwhen_def gic_does_mret)

lemma gic_acts_for:
  assumes "\<And>i. i \<in> set ids \<Longrightarrow> gic_acts G H rds (F i) (f i)"
  shows "gic_acts G H rds (for_ids ids F) (fold f ids)"
  using assms
proof (induction ids)
  case Nil
  show ?case using gic_does_mret [of G H rds "()"] by (simp add: for_ids_def id_def)
next
  case (Cons i ids)
  have "gic_acts G H rds (mbind (F i) (\<lambda>_. for_ids ids F)) (\<lambda>x. fold f ids (f i x))"
    by (rule gic_does_mbind) (use Cons in auto)
  then show ?case by (simp add: for_ids_def comp_def)
qed

text \<open>A loop with an accumulator that the bank has no part in, and a loop that only reads.\<close>

lemma gic_does_mfold:
  assumes "\<And>x a. x \<in> set xs \<Longrightarrow> gic_does G H rds (F x a) (\<lambda>_. v x a) (f x)"
  shows "gic_does G H rds (mfold F xs a) (\<lambda>_. fold v xs a) (fold f xs)"
  using assms
proof (induction xs arbitrary: a)
  case Nil
  show ?case using gic_does_mret [of G H rds a] by (simp add: id_def)
next
  case (Cons x xs)
  have "gic_does G H rds (mbind (F x a) (mfold F xs)) (\<lambda>_. fold v xs (v x a)) (\<lambda>b. fold f xs (f x b))"
    by (rule gic_does_mbind [where r = "\<lambda>_. v x a" and q = "\<lambda>a _. fold v xs a" and g = "\<lambda>_. fold f xs"]) (use Cons in auto)
  then show ?case by (simp add: comp_def)
qed

lemma gic_does_mfold_read:
  fixes F :: "'x \<Rightarrow> 'v \<Rightarrow> ('d gic_world, 'v) prog"
  assumes "\<And>x a. x \<in> set xs \<Longrightarrow> P a \<Longrightarrow> gic_does G H rds (F x a) (\<lambda>b. v b x a) (\<lambda>b. b)"
    and "\<And>b x a. P a \<Longrightarrow> P (v b x a)" "P a"
  shows "gic_does G H rds (mfold F xs a) (\<lambda>b. fold (v b) xs a) (\<lambda>b. b)"
  using assms(1,3)
proof (induction xs arbitrary: a)
  case Nil
  show ?case using gic_does_mret [of G H rds a] by simp
next
  case (Cons x xs)
  have rest: "gic_does G H rds (mfold F xs a) (\<lambda>b. fold (v b) xs a) (\<lambda>b. b)" if "P a" for a
    using Cons that by simp
  show ?case
    unfolding gic_does_def
  proof
    fix s :: "'d gic_world"
    let ?b = "bank_of G H (gic_dev s)"
    have "gic_does G H rds (F x a) (\<lambda>b. v b x a) (\<lambda>b. b)" using Cons.prems by simp
    then obtain d where d: "F x a s = Ret (v ?b x a) (s\<lparr>gic_dev := d\<rparr>)" "bank_of G H d = ?b"
        "\<And>b. b \<in> set rds \<Longrightarrow> rd_asleep G b (gic_dev s) \<Longrightarrow> rd_asleep G b d"
      by (rule gic_doesD) blast
    have "P (v ?b x a)" using assms(2) Cons.prems by blast
    then obtain e where e: "mfold F xs (v ?b x a) (s\<lparr>gic_dev := d\<rparr>) = Ret (fold (v ?b) xs (v ?b x a)) (s\<lparr>gic_dev := e\<rparr>)"
        "bank_of G H e = ?b" "\<And>b. b \<in> set rds \<Longrightarrow> rd_asleep G b d \<Longrightarrow> rd_asleep G b e"
      by (rule gic_doesD [OF rest, where s = "s\<lparr>gic_dev := d\<rparr>"]) (auto simp: d(2))
    show "\<exists>d. mfold F (x # xs) a s = Ret (fold (v ?b) (x # xs) a) (s\<lparr>gic_dev := d\<rparr>) \<and> bank_of G H d = ?b \<and>
        (\<forall>b\<in>set rds. rd_asleep G b (gic_dev s) \<longrightarrow> rd_asleep G b d)"
      by (rule exI [of _ e]) (simp add: mbind_def d e)
  qed
qed

section \<open>The laws\<close>

locale gic_hardware =
  fixes G :: "'d gic_device" and H :: gic_hw and gd :: u64 and rds :: "u64 list"
  assumes kind_gicd: "off < 0x10000 \<Longrightarrow> hw_kind H (gd + of_nat off) = gicd_kind off"
    and kind_gicr: "b \<in> set rds \<Longrightarrow> off < 0x20000 \<Longrightarrow> hw_kind H (b + of_nat off) = gicr_kind off"
    and gicd_gicr: "b \<in> set rds \<Longrightarrow> off < 0x10000 \<Longrightarrow> off' < 0x20000 \<Longrightarrow> gd + of_nat off \<noteq> b + of_nat off'"
    and gicr_gicr: "b \<in> set rds \<Longrightarrow> b' \<in> set rds \<Longrightarrow> b \<noteq> b' \<Longrightarrow> off < 0x20000 \<Longrightarrow> off' < 0x20000 \<Longrightarrow>
      b + of_nat off \<noteq> b' + of_nat off'"
    and write_32: "bank_of G H (gic_write_32 G a v d) = bank_write H a v (bank_of G H d)"
    and write_64: "bank_of G H (gic_write_64 G a v' d) = bank_write64 H a v' (bank_of G H d)"
    and write_8: "hw_kind H a = Plain_reg \<Longrightarrow> k < 4 \<Longrightarrow>
      bank_of G H (gic_write_8 G (a + of_nat k) v8 d) = bank_write8 H a k v8 (bank_of G H d)"
    and step: "bank_of G H (gic_step G d) = bank_of G H d"
    and live_plain: "hw_kind H a = Plain_reg \<Longrightarrow> a \<noteq> gd \<Longrightarrow> a \<notin> set rds \<Longrightarrow>
      a \<notin> (\<lambda>b. b + GICR_WAKER) ` set rds \<Longrightarrow> hw_live H a = 0"
    and live_enable: "0x100 \<le> off \<Longrightarrow> off < 0x180 \<Longrightarrow> hw_live H (gd + of_nat off) = 0"
      "b \<in> set rds \<Longrightarrow> hw_live H (b + GICR_ISENABLER0) = 0"
    and live_ctlr: "hw_live H gd = GICD_CTLR_RWP_BIT" "hw_writable H gd AND GICD_CTLR_RWP_BIT = 0"
    and typer: "hw_writable H (gd + GICD_TYPER) = 0"
    and rwp: "\<exists>n<gic_patience G. gic_read_32 G ((gic_step G ^^ n) d) gd AND GICD_CTLR_RWP_BIT = 0"
    and redist_rwp: "b \<in> set rds \<Longrightarrow> \<exists>n<gic_patience G. gic_read_32 G ((gic_step G ^^ n) d) b AND GICR_CTLR_RWP_BIT = 0"
    and awakes: "b \<in> set rds \<Longrightarrow> w AND WAKER_PS_BIT = 0 \<Longrightarrow> \<exists>n<gic_patience G.
      gic_read_32 G ((gic_step G ^^ n) (gic_write_32 G (b + GICR_WAKER) w d)) (b + GICR_WAKER) AND WAKER_CA_BIT = 0"
    and sleeps: "b \<in> set rds \<Longrightarrow> w AND WAKER_PS_BIT \<noteq> 0 \<Longrightarrow> \<exists>n<gic_patience G.
      gic_read_32 G ((gic_step G ^^ n) (gic_write_32 G (b + GICR_WAKER) w d)) (b + GICR_WAKER) AND WAKER_CA_BIT \<noteq> 0"
    and quiesces: "b \<in> set rds \<Longrightarrow> w AND WAKER_SL_BIT = 0 \<Longrightarrow> \<exists>n<gic_patience G.
      gic_read_32 G ((gic_step G ^^ n) (gic_write_32 G (b + GICR_WAKER) w d)) (b + GICR_WAKER) AND WAKER_QSC_BIT = 0"
    and asleep_step: "b \<in> set rds \<Longrightarrow> rd_asleep G b d \<Longrightarrow> rd_asleep G b (gic_step G d)"
    and asleep_write: "b \<in> set rds \<Longrightarrow> rd_asleep G b d \<Longrightarrow> a \<noteq> b + GICR_WAKER \<Longrightarrow>
      rd_asleep G b (gic_write_32 G a v d) \<and> rd_asleep G b (gic_write_64 G a v' d)"
    and asleep_write_8: "b \<in> set rds \<Longrightarrow> rd_asleep G b d \<Longrightarrow> a \<noteq> b + GICR_WAKER \<Longrightarrow> hw_kind H a = Plain_reg \<Longrightarrow> k < 4 \<Longrightarrow>
      rd_asleep G b (gic_write_8 G (a + of_nat k) v8 d)"
begin

section \<open>The effect of an access\<close>

lemma does_write_32: "a \<notin> (\<lambda>b. b + GICR_WAKER) ` set rds \<Longrightarrow> gic_acts G H rds (gic_mmio_write_32 G a v) (bank_write H a v)"
  using asleep_write
  by (fastforce simp: gic_does_def gic_mmio_write_32_def prog_simps write_32)

lemma does_write_64: "a \<notin> (\<lambda>b. b + GICR_WAKER) ` set rds \<Longrightarrow> gic_acts G H rds (gic_mmio_write_64 G a v) (bank_write64 H a v)"
  using asleep_write
  by (fastforce simp: gic_does_def gic_mmio_write_64_def prog_simps write_64)

lemma does_write_8:
  assumes "hw_kind H a = Plain_reg" "k < 4" "a \<notin> (\<lambda>b. b + GICR_WAKER) ` set rds"
  shows "gic_acts G H rds (gic_mmio_write_8 G (a + of_nat k) v) (bank_write8 H a k v)"
  using asleep_write_8 [OF _ _ _ assms(1,2)] assms(3)
  by (fastforce simp: gic_does_def gic_mmio_write_8_def prog_simps write_8 [OF assms(1,2)])

text \<open>A polling loop returns once the controller lets it.\<close>

lemma poll_runs:
  assumes "\<exists>n<k. fin (gic_read_32 G ((gic_step G ^^ n) (gic_dev s)) a)"
  shows "\<exists>n<k. gic_poll k G a fin s = Ret () (s\<lparr>gic_dev := (gic_step G ^^ n) (gic_dev s)\<rparr>) \<and>
    fin (gic_read_32 G ((gic_step G ^^ n) (gic_dev s)) a)"
  using assms
proof (induction k arbitrary: s)
  case 0
  then show ?case by simp
next
  case (Suc k)
  show ?case
  proof (cases "fin (gic_read_32 G (gic_dev s) a)")
    case True
    then show ?thesis by (intro exI [of _ 0]) (simp add: gic_mmio_read_32_def prog_simps)
  next
    case False
    define s' where "s' = s\<lparr>gic_dev := gic_step G (gic_dev s)\<rparr>"
    obtain n where n: "n < Suc k" "fin (gic_read_32 G ((gic_step G ^^ n) (gic_dev s)) a)" using Suc.prems by blast
    with False obtain j where "n = Suc j" by (cases n) auto
    with n have "\<exists>n<k. fin (gic_read_32 G ((gic_step G ^^ n) (gic_dev s')) a)"
      by (auto simp: s'_def funpow_swap1)
    from Suc.IH [OF this] obtain i where i: "i < k"
        "gic_poll k G a fin s' = Ret () (s'\<lparr>gic_dev := (gic_step G ^^ i) (gic_dev s')\<rparr>)"
        "fin (gic_read_32 G ((gic_step G ^^ i) (gic_dev s')) a)" by blast
    have "gic_poll (Suc k) G a fin s = gic_poll k G a fin s'"
      using False by (simp add: gic_mmio_read_32_def s'_def)
    with i show ?thesis by (intro exI [of _ "Suc i"]) (simp add: s'_def funpow_swap1)
  qed
qed

lemma bank_steps: "bank_of G H ((gic_step G ^^ n) d) = bank_of G H d"
  by (induction n) (simp_all add: step)

lemma asleep_steps: "b \<in> set rds \<Longrightarrow> rd_asleep G b d \<Longrightarrow> rd_asleep G b ((gic_step G ^^ n) d)"
  by (induction n) (simp_all add: asleep_step)

lemma does_poll:
  assumes "\<And>d. \<exists>n<gic_patience G. fin (gic_read_32 G ((gic_step G ^^ n) d) a)"
  shows "gic_acts G H rds (gic_poll (gic_patience G) G a fin) (\<lambda>m. m)"
  unfolding gic_does_def
proof
  fix s :: "'d gic_world"
  obtain n where "gic_poll (gic_patience G) G a fin s = Ret () (s\<lparr>gic_dev := (gic_step G ^^ n) (gic_dev s)\<rparr>)"
    using poll_runs [OF assms] by blast
  then show "\<exists>d. gic_poll (gic_patience G) G a fin s = Ret () (s\<lparr>gic_dev := d\<rparr>) \<and>
      bank_of G H d = bank_of G H (gic_dev s) \<and> (\<forall>b\<in>set rds. rd_asleep G b (gic_dev s) \<longrightarrow> rd_asleep G b d)"
    by (intro exI [of _ "(gic_step G ^^ n) (gic_dev s)"]) (simp add: bank_steps asleep_steps)
qed

lemma does_wait: "gic_acts G H rds (gicd_wait_for_pending_write G gd) (\<lambda>m. m)"
  unfolding gicd_wait_for_pending_write_def using rwp by (intro does_poll) simp

lemma does_redist_wait: "b \<in> set rds \<Longrightarrow> gic_acts G H rds (gicr_wait_for_pending_write G b) (\<lambda>m. m)"
  unfolding gicr_wait_for_pending_write_def using redist_rwp by (intro does_poll) simp

section \<open>The effect of reading, changing and writing\<close>

text \<open>A register without live bits is read as it is in the bank.\<close>

lemma read_plain:
  assumes "hw_kind H a = Plain_reg" "hw_live H a = 0"
  shows "gic_read_32 G d a = b32 (bank_of G H d) a"
  using assms by (simp add: bank_of_def)

lemma does_read:
  assumes "hw_kind H a = Plain_reg" "hw_live H a = 0"
  shows "gic_does G H rds (gic_mmio_read_32 G a) (\<lambda>b. b32 b a) (\<lambda>b. b)"
proof -
  have "\<exists>d. Ret (b32 (bank_of G H (gic_dev s)) a) s = Ret (b32 (bank_of G H (gic_dev s)) a) (s\<lparr>gic_dev := d\<rparr>) \<and>
      bank_of G H d = bank_of G H (gic_dev s) \<and> (\<forall>b\<in>set rds. rd_asleep G b (gic_dev s) \<longrightarrow> rd_asleep G b d)"
    for s :: "'d gic_world"
    by (rule exI [of _ "gic_dev s"]) simp
  then show ?thesis by (simp add: gic_does_def gic_mmio_read_32_def prog_simps read_plain [OF assms])
qed

lemma bank_write_cong:
  assumes "hw_kind H a = Plain_reg" "v AND hw_writable H a = w AND hw_writable H a"
  shows "bank_write H a v m = bank_write H a w m"
  using assms by (simp add: bank_write_def)

lemma does_change:
  assumes "hw_kind H a = Plain_reg" "a \<notin> (\<lambda>b. b + GICR_WAKER) ` set rds"
    and "\<And>v. F v AND hw_writable H a = F (v AND NOT (hw_live H a)) AND hw_writable H a"
  shows "gic_acts G H rds (mbind (gic_mmio_read_32 G a) (\<lambda>v. gic_mmio_write_32 G a (F v)))
    (\<lambda>m. bank_write H a (F (b32 m a)) m)"
  unfolding gic_does_def
proof
  fix s :: "'d gic_world"
  let ?v = "gic_read_32 G (gic_dev s) a"
  have "b32 (bank_of G H (gic_dev s)) a = ?v AND NOT (hw_live H a)" using assms(1) by (simp add: bank_of_def)
  then have "bank_write H a (F ?v) m = bank_write H a (F (b32 (bank_of G H (gic_dev s)) a)) m" for m
    using bank_write_cong [OF assms(1)] assms(3) by metis
  with does_write_32 [OF assms(2), of "F ?v"]
  show "\<exists>d. mbind (gic_mmio_read_32 G a) (\<lambda>v. gic_mmio_write_32 G a (F v)) s = Ret () (s\<lparr>gic_dev := d\<rparr>) \<and>
      bank_of G H d = bank_write H a (F (b32 (bank_of G H (gic_dev s)) a)) (bank_of G H (gic_dev s)) \<and>
      (\<forall>b\<in>set rds. rd_asleep G b (gic_dev s) \<longrightarrow> rd_asleep G b d)"
    by (simp add: gic_does_def gic_mmio_read_32_def)
qed

end

end
