(* ===== verification/Gicv3_Effects.thy ===== *)
theory Gicv3_Effects
  imports Gicv3_Bank
begin

text \<open>
  The effect of the accessors and of the configuration loops on the bank of registers, for a
  controller that satisfies the laws, and the two things the bank says of an interrupt: its group
  and whether it is enabled.
\<close>

section \<open>Addresses and bits\<close>

lemma reg_addr: "base + A + reg_offset s i = base + of_nat (unat A + 4 * (i div 2 ^ s))"
  by (simp add: reg_offset_def)

lemma off_eq: "off < 0x100000 \<Longrightarrow> off' < 0x100000 \<Longrightarrow> (base :: u64) + of_nat off = base + of_nat off' \<longleftrightarrow> off = off'"
proof -
  assume "off < 0x100000" "off' < 0x100000"
  then have "(of_nat off :: u64) = of_nat off' \<longleftrightarrow> off = off'"
    by (simp add: word_of_nat_eq_iff take_bit_nat_def)
  then show ?thesis by simp
qed

lemma reg_bit_less: "reg_bit 5 i < 32"
  by (simp add: reg_bit_def)

lemma bit_test: "drop_bit k (v :: u32) AND 1 \<noteq> 0 \<longleftrightarrow> bit v k"
  by (simp add: bit_iff_odd_drop_bit and_one_eq odd_iff_mod_2_eq_one flip: odd_iff_mod_2_eq_one)

section \<open>What the bank says of an interrupt\<close>

definition group_of :: "bool \<Rightarrow> bool \<Rightarrow> u32" where
  "group_of igroup grpmodr = (if igroup then INTR_GROUP1NS else if grpmodr then INTR_GROUP1S else INTR_GROUP0)"

definition spi_type :: "u64 \<Rightarrow> gic_bank \<Rightarrow> nat \<Rightarrow> u32" where
  "spi_type gd m i = group_of (bit (b32 m (gd + of_nat (0x80 + 4 * (i div 32)))) (i mod 32))
     (bit (b32 m (gd + of_nat (0xd00 + 4 * (i div 32)))) (i mod 32))"

definition ppi_type :: "u64 \<Rightarrow> gic_bank \<Rightarrow> nat \<Rightarrow> u32" where
  "ppi_type b m i = group_of (bit (b32 m (b + of_nat 0x10080)) i) (bit (b32 m (b + of_nat 0x10d00)) i)"

definition spi_enabled :: "u64 \<Rightarrow> gic_bank \<Rightarrow> nat \<Rightarrow> bool" where
  "spi_enabled gd m i = bit (b32 m (gd + of_nat (0x100 + 4 * (i div 32)))) (i mod 32)"

definition ppi_enabled :: "u64 \<Rightarrow> gic_bank \<Rightarrow> nat \<Rightarrow> bool" where
  "ppi_enabled b m i = bit (b32 m (b + of_nat 0x10100)) i"

text \<open>The interrupt exists: the bits that belong to it can be written.\<close>

definition spi_implemented :: "gic_hw \<Rightarrow> u64 \<Rightarrow> nat \<Rightarrow> bool" where
  "spi_implemented H gd i \<longleftrightarrow> (\<forall>off\<in>{0x80, 0xd00, 0x100}. bit (hw_writable H (gd + of_nat (off + 4 * (i div 32)))) (i mod 32))"

definition ppi_implemented :: "gic_hw \<Rightarrow> u64 \<Rightarrow> nat \<Rightarrow> bool" where
  "ppi_implemented H b i \<longleftrightarrow> (\<forall>off\<in>{0x10080, 0x10d00, 0x10100}. bit (hw_writable H (b + of_nat off)) i)"

section \<open>Writes, by bits\<close>

definition bank_bit :: "gic_hw \<Rightarrow> u64 \<Rightarrow> nat \<Rightarrow> bool \<Rightarrow> gic_bank \<Rightarrow> gic_bank" where
  "bank_bit H a k val m = bank_write H a (if val then b32 m a OR push_bit k 1 else b32 m a AND NOT (push_bit k 1)) m"

lemma word32_bit_less: "bit (x :: u32) j \<Longrightarrow> j < 32"
  using bit_imp_le_length [of x j] by simp

lemma bank_write_plain:
  assumes "hw_kind H a = Plain_reg" "hw_live H a = 0"
  shows "bit (b32 (bank_write H a v m) a') j =
    (if a' = a \<and> bit (hw_writable H a) j then bit v j else bit (b32 m a') j)"
  using assms by (auto simp: bank_write_def bit_simps dest: word32_bit_less)

lemma bank_bit_bit:
  assumes "hw_kind H a = Plain_reg" "hw_live H a = 0" "k < 32"
  shows "bit (b32 (bank_bit H a k val m) a') j =
    (if a' = a \<and> j = k \<and> bit (hw_writable H a) k then val else bit (b32 m a') j)"
proof -
  have "bit (push_bit k 1 :: u32) j \<longleftrightarrow> j = k"
    using assms(3) by (auto simp: bit_exp_iff)
  then show ?thesis
    unfolding bank_bit_def bank_write_plain [OF assms(1,2)]
    by (auto simp: bit_or_iff bit_and_iff bit_not_iff simp del: push_bit_of_1 dest: word32_bit_less)
qed

lemma bank_write_set:
  assumes "hw_kind H a = Set_reg"
  shows "b32 (bank_write H a v m) a' =
    (if a' = a then (b32 m a OR (v AND hw_writable H a)) AND NOT (hw_live H a) else b32 m a')"
  using assms by (simp add: bank_write_def)

lemma bank_write_clear:
  assumes "hw_kind H a = Clear_reg"
  shows "b32 (bank_write H a v m) a' = (if a' = a - 0x80 then b32 m a' AND NOT v else b32 m a')"
  using assms by (simp add: bank_write_def)

lemma bank_write_other:
  "a' \<noteq> a \<Longrightarrow> (hw_kind H a = Clear_reg \<Longrightarrow> a' \<noteq> a - 0x80) \<Longrightarrow> b32 (bank_write H a v m) a' = b32 m a'"
  by (simp add: bank_write_def split: gic_reg.splits)

lemma bank_write64_b32 [simp]: "b32 (bank_write64 H a v m) = b32 m"
  by (simp add: bank_write64_def)

lemma bank_write_b64 [simp]: "b64 (bank_write H a v m) = b64 m"
  by (simp add: bank_write_def split: gic_reg.splits)

context gic_hardware
begin

section \<open>Accesses to the frames\<close>

lemma waker_image: "x \<in> (\<lambda>b. b + GICR_WAKER) ` set rds \<longleftrightarrow> (\<exists>c\<in>set rds. x = c + of_nat 0x14)"
  by (simp add: image_iff)

lemma waker_addr:
  assumes "off < 0x20000" "off \<noteq> 0x14" "b \<in> set rds"
  shows "b + of_nat off \<notin> (\<lambda>b. b + GICR_WAKER) ` set rds"
  unfolding waker_image
proof
  assume "\<exists>c\<in>set rds. b + of_nat off = c + of_nat 0x14"
  then obtain c where c: "c \<in> set rds" "b + of_nat off = c + of_nat 0x14" by blast
  show False
  proof (cases "b = c")
    case True
    have "off < 0x100000" "(0x14 :: nat) < 0x100000" using assms(1) by simp_all
    from off_eq [OF this, of c] c(2) True assms(2) show ?thesis by metis
  next
    case False
    have "(0x14 :: nat) < 0x20000" by simp
    from gicr_gicr [OF assms(3) c(1) False assms(1) this] c(2) show ?thesis by metis
  qed
qed

lemma waker_gicd:
  assumes "off < 0x10000"
  shows "gd + of_nat off \<notin> (\<lambda>b. b + GICR_WAKER) ` set rds"
  unfolding waker_image
proof
  assume "\<exists>c\<in>set rds. gd + of_nat off = c + of_nat 0x14"
  then obtain c where c: "c \<in> set rds" "gd + of_nat off = c + of_nat 0x14" by blast
  have "(0x14 :: nat) < 0x20000" by simp
  from gicd_gicr [OF c(1) assms this] c(2) show False by metis
qed

lemma base_off: "b + of_nat 0 = (b :: u64)"
  by simp

lemma live_gicd: "0 < off \<Longrightarrow> off < 0x10000 \<Longrightarrow> gicd_kind off = Plain_reg \<Longrightarrow> hw_live H (gd + of_nat off) = 0"
proof (rule live_plain)
  assume o: "0 < off" "off < 0x10000" "gicd_kind off = Plain_reg"
  then show "hw_kind H (gd + of_nat off) = Plain_reg" by (simp add: kind_gicd)
  show "gd + of_nat off \<noteq> gd" using o off_eq [of off 0 gd] by simp
  show "gd + of_nat off \<notin> set rds" using gicd_gicr [OF _ o(2), of _ 0] by force
  show "gd + of_nat off \<notin> (\<lambda>b. b + GICR_WAKER) ` set rds" using o by (simp only: waker_gicd not_False_eq_True)
qed

lemma live_gicr: "b \<in> set rds \<Longrightarrow> off \<noteq> 0 \<Longrightarrow> off \<noteq> 0x14 \<Longrightarrow> off < 0x20000 \<Longrightarrow> gicr_kind off = Plain_reg \<Longrightarrow>
  hw_live H (b + of_nat off) = 0"
proof (rule live_plain)
  assume o: "b \<in> set rds" "off \<noteq> 0" "off \<noteq> 0x14" "off < 0x20000" "gicr_kind off = Plain_reg"
  then show "hw_kind H (b + of_nat off) = Plain_reg" by (simp add: kind_gicr)
  show "b + of_nat off \<noteq> gd" using gicd_gicr [OF o(1) _ o(4), of 0] by force
  show "b + of_nat off \<notin> set rds"
  proof
    assume c: "b + of_nat off \<in> set rds"
    show False
    proof (cases "b + of_nat off = b")
      case True
      with o off_eq [of off 0 b] show ?thesis by simp
    next
      case False
      have "(0 :: nat) < 0x20000" by simp
      from gicr_gicr [OF o(1) c False [symmetric] o(4) this] show ?thesis by simp
    qed
  qed
  show "b + of_nat off \<notin> (\<lambda>b. b + GICR_WAKER) ` set rds" using o by (simp only: waker_addr not_False_eq_True)
qed

lemma does_gicd_write: "off < 0x10000 \<Longrightarrow> gic_acts G H rds (gic_mmio_write_32 G (gd + of_nat off) v) (bank_write H (gd + of_nat off) v)"
  by (rule does_write_32) (rule waker_gicd)

lemma does_gicr_write: "b \<in> set rds \<Longrightarrow> off < 0x20000 \<Longrightarrow> off \<noteq> 0x14 \<Longrightarrow>
  gic_acts G H rds (gic_mmio_write_32 G (b + of_nat off) v) (bank_write H (b + of_nat off) v)"
  by (rule does_write_32) (rule waker_addr)

lemma does_gicd_read: "0 < off \<Longrightarrow> off < 0x1000 \<Longrightarrow> gicd_kind off = Plain_reg \<Longrightarrow>
  gic_does G H rds (gic_mmio_read_32 G (gd + of_nat off)) (\<lambda>b. b32 b (gd + of_nat off)) (\<lambda>b. b)"
  by (rule does_read) (simp_all add: kind_gicd live_gicd)

lemma does_gicr_read: "b \<in> set rds \<Longrightarrow> off \<noteq> 0 \<Longrightarrow> off \<noteq> 0x14 \<Longrightarrow> off < 0x20000 \<Longrightarrow> gicr_kind off = Plain_reg \<Longrightarrow>
  gic_does G H rds (gic_mmio_read_32 G (b + of_nat off)) (\<lambda>m. b32 m (b + of_nat off)) (\<lambda>m. m)"
  by (rule does_read) (simp_all add: kind_gicr live_gicr)

section \<open>Single bits\<close>

lemma does_set_bit:
  assumes "hw_kind H a = Plain_reg" "hw_live H a = 0" "a \<notin> (\<lambda>b. b + GICR_WAKER) ` set rds"
  shows "gic_acts G H rds (mbind (gic_mmio_read_32 G a) (\<lambda>v. gic_mmio_write_32 G a (v OR push_bit k 1))) (bank_bit H a k True)"
    and "gic_acts G H rds (mbind (gic_mmio_read_32 G a) (\<lambda>v. gic_mmio_write_32 G a (v AND NOT (push_bit k 1)))) (bank_bit H a k False)"
  using does_change [OF assms(1,3), of "\<lambda>v. v OR push_bit k 1"]
    does_change [OF assms(1,3), of "\<lambda>v. v AND NOT (push_bit k 1)"]
  by (simp_all add: assms(2) bank_bit_def [abs_def])

lemma does_gicd_bit:
  assumes "0 < off" "off < 0x1000" "gicd_kind off = Plain_reg"
  shows "gic_acts G H rds (mbind (gic_mmio_read_32 G (gd + of_nat off)) (\<lambda>v. gic_mmio_write_32 G (gd + of_nat off) (v OR push_bit k 1)))
      (bank_bit H (gd + of_nat off) k True)"
    and "gic_acts G H rds (mbind (gic_mmio_read_32 G (gd + of_nat off)) (\<lambda>v. gic_mmio_write_32 G (gd + of_nat off) (v AND NOT (push_bit k 1))))
      (bank_bit H (gd + of_nat off) k False)"
  using assms by (intro does_set_bit; simp add: kind_gicd live_gicd waker_gicd del: image_iff)+

lemma does_gicr_bit:
  assumes "b \<in> set rds" "off \<noteq> 0" "off \<noteq> 0x14" "off < 0x20000" "gicr_kind off = Plain_reg"
  shows "gic_acts G H rds (mbind (gic_mmio_read_32 G (b + of_nat off)) (\<lambda>v. gic_mmio_write_32 G (b + of_nat off) (v OR push_bit k 1)))
      (bank_bit H (b + of_nat off) k True)"
    and "gic_acts G H rds (mbind (gic_mmio_read_32 G (b + of_nat off)) (\<lambda>v. gic_mmio_write_32 G (b + of_nat off) (v AND NOT (push_bit k 1))))
      (bank_bit H (b + of_nat off) k False)"
  using assms by (intro does_set_bit; simp add: kind_gicr live_gicr waker_addr del: image_iff)+

lemma kind_intr:
  assumes "i < 1024"
  shows "gicd_kind (0x80 + 4 * (i div 32)) = Plain_reg" "gicd_kind (0xd00 + 4 * (i div 32)) = Plain_reg"
    "gicd_kind (0x100 + 4 * (i div 32)) = Set_reg" "gicd_kind (0x400 + 4 * (i div 4)) = Plain_reg"
    "gicd_kind (0xc00 + 4 * (i div 16)) = Plain_reg"
proof -
  have d: "i div 32 < 32" "i div 4 < 256" "i div 16 < 64" using assms by linarith+
  then have "(0x100 + 4 * (i div 32)) div 0x80 = 2" by (simp add: div_eq_dividend_iff)
  then show "gicd_kind (0x80 + 4 * (i div 32)) = Plain_reg" "gicd_kind (0xd00 + 4 * (i div 32)) = Plain_reg"
      "gicd_kind (0x100 + 4 * (i div 32)) = Set_reg" "gicd_kind (0x400 + 4 * (i div 4)) = Plain_reg"
      "gicd_kind (0xc00 + 4 * (i div 16)) = Plain_reg"
    using d by (simp_all add: gicd_kind_def intr_reg_kind_def mod_mult_self1)
qed

lemma does_gicd_group:
  assumes "i < 1024"
  shows "gic_acts G H rds (gicd_set_igroupr G gd i) (bank_bit H (gd + of_nat (0x80 + 4 * (i div 32))) (i mod 32) True)"
    and "gic_acts G H rds (gicd_clr_igroupr G gd i) (bank_bit H (gd + of_nat (0x80 + 4 * (i div 32))) (i mod 32) False)"
    and "gic_acts G H rds (gicd_set_igrpmodr G gd i) (bank_bit H (gd + of_nat (0xd00 + 4 * (i div 32))) (i mod 32) True)"
    and "gic_acts G H rds (gicd_clr_igrpmodr G gd i) (bank_bit H (gd + of_nat (0xd00 + 4 * (i div 32))) (i mod 32) False)"
proof -
  have a: "gd + GICD_IGROUPR + reg_offset 5 i = gd + of_nat (0x80 + 4 * (i div 32))"
    "gd + GICD_IGRPMODR + reg_offset 5 i = gd + of_nat (0xd00 + 4 * (i div 32))"
    unfolding reg_addr by simp_all
  have d: "0x80 + 4 * (i div 32) < 0x1000" "0xd00 + 4 * (i div 32) < 0x1000" using assms by linarith+
  show "gic_acts G H rds (gicd_set_igroupr G gd i) (bank_bit H (gd + of_nat (0x80 + 4 * (i div 32))) (i mod 32) True)"
    "gic_acts G H rds (gicd_clr_igroupr G gd i) (bank_bit H (gd + of_nat (0x80 + 4 * (i div 32))) (i mod 32) False)"
    "gic_acts G H rds (gicd_set_igrpmodr G gd i) (bank_bit H (gd + of_nat (0xd00 + 4 * (i div 32))) (i mod 32) True)"
    "gic_acts G H rds (gicd_clr_igrpmodr G gd i) (bank_bit H (gd + of_nat (0xd00 + 4 * (i div 32))) (i mod 32) False)"
    unfolding gicd_set_igroupr_def gicd_clr_igroupr_def gicd_set_igrpmodr_def gicd_clr_igrpmodr_def
      gicd_read_igroupr_def gicd_write_igroupr_def gicd_read_igrpmodr_def gicd_write_igrpmodr_def a id_bit_def
    using does_gicd_bit [OF _ d(1) kind_intr(1) [OF assms]] does_gicd_bit [OF _ d(2) kind_intr(2) [OF assms]]
    by (simp_all add: reg_bit_def)
qed

end

end
