(* ===== verification/Gicv3_Config.thy ===== *)
theory Gicv3_Config
  imports Gicv3_Effects
begin

text \<open>
  The configuration of the interrupts at boot, as functions on the bank of registers: the defaults,
  the secure interrupts of the platform, and what the two leave as the group of every interrupt.
\<close>

lemma driver_data_run: "gicv3_driver_data s = Some data \<Longrightarrow> mbind (driver_data dbg) f s = f data s"
  by (simp add: driver_data_def mbind_assoc)

lemma redist_base_run:
  assumes "i < rdistif_num data" "i < length (rdistif_base_addrs s)"
  shows "mbind (redist_base dbg data i) f s = f (rdistif_base_addrs s ! i) s"
  using assms by (simp add: redist_base_def mbind_def prog_simps array_get_def)

section \<open>Writes in a row\<close>

lemma gic_acts_then: "gic_acts G H rds m f \<Longrightarrow> gic_acts G H rds n g \<Longrightarrow> gic_acts G H rds (mbind m (\<lambda>_. n)) (\<lambda>x. g (f x))"
  by (rule gic_does_mbind)

lemma gic_acts_then_ret: "gic_acts G H rds m f \<Longrightarrow> gic_does G H rds n (\<lambda>_. v) g \<Longrightarrow>
  gic_does G H rds (mbind m (\<lambda>_. n)) (\<lambda>_. v) (\<lambda>x. g (f x))"
  by (rule gic_does_mbind)

definition reg_update :: "gic_hw \<Rightarrow> u64 \<Rightarrow> u32 \<Rightarrow> u32 \<Rightarrow> u32" where
  "reg_update H a v old =
     (if hw_kind H a = Plain_reg then (old AND NOT (hw_writable H a)) OR (v AND hw_writable H a)
      else old OR (v AND hw_writable H a)) AND NOT (hw_live H a)"

lemma bank_write_update:
  assumes "hw_kind H a = Plain_reg \<or> hw_kind H a = Set_reg"
  shows "b32 (bank_write H a v m) a' = (if a' = a then reg_update H a v (b32 m a) else b32 m a')"
  using assms by (auto simp: bank_write_def reg_update_def)

lemma reg_update_bit:
  assumes "hw_kind H a = Plain_reg" "hw_live H a = 0"
  shows "bit (reg_update H a v old) j = (if bit (hw_writable H a) j then bit v j else bit old j)"
  using assms by (auto simp: reg_update_def bit_simps dest: word32_bit_less)

definition write_all :: "gic_hw \<Rightarrow> (nat \<Rightarrow> u64) \<Rightarrow> (nat \<Rightarrow> u32) \<Rightarrow> nat list \<Rightarrow> gic_bank \<Rightarrow> gic_bank" where
  "write_all H addr v ids = fold (\<lambda>i. bank_write H (addr i) (v i)) ids"

lemma write_all_other:
  assumes "\<And>i. i \<in> set ids \<Longrightarrow> hw_kind H (addr i) = Plain_reg \<or> hw_kind H (addr i) = Set_reg" "a \<notin> addr ` set ids"
  shows "b32 (write_all H addr v ids m) a = b32 m a"
  using assms
proof (induction ids arbitrary: m)
  case Nil
  then show ?case by (simp add: write_all_def)
next
  case (Cons i ids)
  have "b32 (bank_write H (addr i) (v i) m) a = b32 m a" using Cons.prems by (subst bank_write_update) auto
  with Cons.IH [of "bank_write H (addr i) (v i) m"] Cons.prems show ?case by (simp add: write_all_def)
qed

lemma write_all_at:
  assumes "\<And>i. i \<in> set ids \<Longrightarrow> hw_kind H (addr i) = Plain_reg \<or> hw_kind H (addr i) = Set_reg"
    and "distinct (map addr ids)" "i \<in> set ids"
  shows "b32 (write_all H addr v ids m) (addr i) = reg_update H (addr i) (v i) (b32 m (addr i))"
  using assms
proof (induction ids arbitrary: m)
  case Nil
  then show ?case by simp
next
  case (Cons k ids)
  let ?m = "bank_write H (addr k) (v k) m"
  have all: "write_all H addr v (k # ids) m = write_all H addr v ids ?m" by (simp add: write_all_def)
  have k: "b32 ?m a = (if a = addr k then reg_update H (addr k) (v k) (b32 m (addr k)) else b32 m a)" for a
    using Cons.prems(1) by (intro bank_write_update) simp
  show ?case
  proof (cases "i = k")
    case True
    then have "addr k \<notin> addr ` set ids" using Cons.prems(2) by simp
    with Cons.prems(1) True show ?thesis by (simp add: all write_all_other k)
  next
    case False
    with Cons.prems(3) have i: "i \<in> set ids" by simp
    then have "addr i \<noteq> addr k" using Cons.prems(2) by (metis distinct.simps(2) image_eqI list.set_map list.simps(9))
    with Cons i show ?thesis by (simp add: all k)
  qed
qed

section \<open>The ranges of the loops\<close>

lemma id_range_bounds: "i \<in> set (id_range from num n) \<Longrightarrow> 0 < n \<Longrightarrow> from \<le> i \<and> i < num"
proof -
  assume "i \<in> set (id_range from num n)" and n: "0 < n"
  then obtain k where k: "i = from + n * k" "k < (num - from + n - 1) div n" by (auto simp: id_range_def)
  have "Suc k * n \<le> num - from + n - 1" using k(2) n by (metis Suc_leI less_eq_div_iff_mult_less_eq)
  then show ?thesis using k(1) n by (simp add: mult.commute)
qed

lemma id_range_mem: "k * n < num - from \<Longrightarrow> 0 < n \<Longrightarrow> from + n * k \<in> set (id_range from num n)"
proof -
  assume k: "k * n < num - from" and n: "0 < n"
  have "Suc k * n \<le> num - from + n - 1" using k n by simp
  then have "k < (num - from + n - 1) div n" using n by (metis Suc_le_lessD less_eq_div_iff_mult_less_eq)
  then show ?thesis by (auto simp: id_range_def)
qed

lemma id_range_div: "i \<in> set (id_range 32 num n) \<Longrightarrow> n dvd 32 \<Longrightarrow> 0 < n \<Longrightarrow> n * (i div n) = i"
proof -
  assume i: "i \<in> set (id_range 32 num n)" and n: "n dvd 32" "0 < n"
  then obtain k where "i = 32 + n * k" by (auto simp: id_range_def)
  with n(1) have "n dvd i" by simp
  then show ?thesis by simp
qed

lemma distinct_id_range: "0 < n \<Longrightarrow> distinct (id_range from num n)"
  by (auto simp: id_range_def distinct_map inj_on_def)

lemma num_ints_bound: "num_ints_of typer \<le> 1024" "num_ints_of typer mod 32 = 0"
proof -
  have "unat (typer AND 0x1f) < 32" 
    using word_and_le1 [of "typer" "0x1f"] by (simp add: and.commute word_le_nat_alt)
  then show "num_ints_of typer \<le> 1024" by (simp add: num_ints_of_def)
qed (simp add: num_ints_of_def)

text \<open>The registers of a loop over the interrupts of the distributor lie at distinct addresses.\<close>

definition gicd_at :: "u64 \<Rightarrow> nat \<Rightarrow> nat \<Rightarrow> nat \<Rightarrow> u64" where
  "gicd_at gd off n i = gd + of_nat (off + 4 * (i div n))"

lemma gicd_at_eq:
  assumes "off < 0x20000" "off' < 0x20000" "i < 1024" "i' < 1024" "0 < n" "0 < n'"
  shows "gicd_at gd off n i = gicd_at gd off' n' i' \<longleftrightarrow> off + 4 * (i div n) = off' + 4 * (i' div n')"
proof -
  have "i div n < 1024" "i' div n' < 1024" using assms by (meson div_le_dividend le_less_trans)+
  then show ?thesis unfolding gicd_at_def using assms by (intro off_eq) linarith+
qed

lemma gicd_at_distinct:
  assumes "off < 0x20000" "num \<le> 1024" "n dvd 32" "0 < n"
  shows "distinct (map (gicd_at gd off n) (id_range 32 num n))"
proof (subst distinct_map, intro conjI distinct_id_range inj_onI)
  show "0 < n" by fact
next
  fix i i' assume i: "i \<in> set (id_range 32 num n)" "i' \<in> set (id_range 32 num n)"
    and eq: "gicd_at gd off n i = gicd_at gd off n i'"
  have "i < 1024" "i' < 1024" using id_range_bounds i assms by (meson less_le_trans)+
  then have "i div n = i' div n" using eq assms by (simp add: gicd_at_eq)
  then show "i = i'" using id_range_div assms i by metis
qed

section \<open>The distributor\<close>

definition spis_defaults :: "gic_hw \<Rightarrow> u64 \<Rightarrow> nat \<Rightarrow> gic_bank \<Rightarrow> gic_bank" where
  "spis_defaults H gd num m =
     write_all H (gicd_at gd 0xc00 16) (\<lambda>_. 0) (id_range MIN_SPI_ID num 16)
       (write_all H (gicd_at gd 0x400 4) (\<lambda>_. GICD_IPRIORITYR_DEF_VAL) (id_range MIN_SPI_ID num 4)
         (write_all H (gicd_at gd 0x80 32) (\<lambda>_. NOT 0) (id_range MIN_SPI_ID num 32) m))"

definition secure_spi_effect :: "gic_hw \<Rightarrow> u64 \<Rightarrow> u64 \<Rightarrow> interrupt_prop_t \<Rightarrow> gic_bank \<Rightarrow> gic_bank" where
  "secure_spi_effect H gd mpidr p m =
     (let i = intr_num p
      in if i < MIN_SPI_ID then m
         else
           let m = bank_bit H (gicd_at gd 0x80 32 i) (i mod 32) False m;
               m = bank_bit H (gicd_at gd 0xd00 32 i) (i mod 32) (intr_grp p = INTR_GROUP1S) m;
               m = bank_write H (gicd_at gd 0xc00 16 i) (cfg_insert (intr_cfg p) i (b32 m (gicd_at gd 0xc00 16 i))) m;
               m = bank_write8 H (gicd_at gd 0x400 4 i) (i mod 4) (ucast (intr_pri p AND GIC_PRI_MASK)) m;
               m = bank_write64 H (gd + of_nat (0x6000 + 8 * i)) (gicd_irouter_val_from_mpidr mpidr 0) m
           in bank_write H (gicd_at gd 0x100 32 i) (id_bit 5 i) m)"

definition group_enable :: "interrupt_prop_t \<Rightarrow> u32" where
  "group_enable p = (if intr_grp p = INTR_GROUP1S then CTLR_ENABLE_G1S_BIT else CTLR_ENABLE_G0_BIT)"

text \<open>A property the driver accepts: an interrupt of a secure group.\<close>

definition prop_ok :: "interrupt_prop_t \<Rightarrow> bool" where
  "prop_ok p \<longleftrightarrow> intr_num p \<le> MAX_SPI_ID \<and> (intr_grp p = INTR_GROUP0 \<or> intr_grp p = INTR_GROUP1S)"

context gic_hardware
begin

lemma does_gicd_reg:
  assumes "base + A + reg_offset s i = gicd_at gd off n i" "off + 4 * (i div n) < 0x10000" "base = gd"
  shows "gic_acts G H rds (gic_mmio_write_32 G (base + A + reg_offset s i) v) (bank_write H (gicd_at gd off n i) v)"
  unfolding assms(1) unfolding gicd_at_def using assms(2) by (rule does_gicd_write)

lemma gicd_addrs:
  "base + GICD_IGROUPR + reg_offset 5 i = gicd_at base 0x80 32 i" "base + GICD_IGRPMODR + reg_offset 5 i = gicd_at base 0xd00 32 i"
  "base + GICD_ISENABLER + reg_offset 5 i = gicd_at base 0x100 32 i" "base + GICD_ICENABLER + reg_offset 5 i = gicd_at base 0x180 32 i"
  "base + GICD_ISPENDR + reg_offset 5 i = gicd_at base 0x200 32 i" "base + GICD_ICPENDR + reg_offset 5 i = gicd_at base 0x280 32 i"
  "base + GICD_ISACTIVER + reg_offset 5 i = gicd_at base 0x300 32 i"
  "base + GICD_IPRIORITYR + reg_offset 2 i = gicd_at base 0x400 4 i" "base + GICD_ICFGR + reg_offset 4 i = gicd_at base 0xc00 16 i"
  "base + GICD_NSACR + reg_offset 4 i = gicd_at base 0xe00 16 i"
  "base + GICR_IPRIORITYR + reg_offset 2 i = gicd_at base 0x10400 4 i"
  by (simp_all add: reg_addr gicd_at_def)

lemma does_gicd_at: "i < 1024 \<Longrightarrow> 0 < n \<Longrightarrow> off < 0x1000 \<Longrightarrow>
  gic_acts G H rds (gic_mmio_write_32 G (gicd_at gd off n i) v) (bank_write H (gicd_at gd off n i) v)"
  unfolding gicd_at_def
  by (rule does_gicd_write) (use div_le_dividend [of i n] in linarith)

lemma does_spis_defaults:
  "gic_acts G H rds (gicv3_spis_config_defaults G gd) (\<lambda>m. spis_defaults H gd (num_ints_of (b32 m (gd + of_nat 4))) m)"
proof -
  have typer: "gic_does G H rds (gicd_read_typer G gd) (\<lambda>b. b32 b (gd + of_nat 4)) (\<lambda>b. b)"
    using does_gicd_read [of 4] by (simp add: gicd_read_typer_def gicd_kind_def intr_reg_kind_def)
  have loop: "gic_acts G H rds (for_ids (id_range 32 (num_ints_of t) n) (\<lambda>i. gic_mmio_write_32 G (gicd_at gd off k i) v))
      (write_all H (gicd_at gd off k) (\<lambda>_. v) (id_range 32 (num_ints_of t) n))"
    if "0 < n" "off < 0x1000" "0 < k" for t n off k v
    unfolding write_all_def
  proof (rule gic_acts_for)
    fix i assume "i \<in> set (id_range 32 (num_ints_of t) n)"
    then have "i < 1024" using id_range_bounds [OF _ that(1)] num_ints_bound(1) [of t] by (meson less_le_trans)
    then show "gic_acts G H rds (gic_mmio_write_32 G (gicd_at gd off k i) v) (bank_write H (gicd_at gd off k i) v)"
      using that by (intro does_gicd_at)
  qed
  show ?thesis
    unfolding gicv3_spis_config_defaults_def Let_def gicd_write_igroupr_def gicd_write_ipriorityr_def gicd_write_icfgr_def
      gicd_addrs spis_defaults_def
    by (intro gic_does_mbind [OF typer] gic_acts_then loop; simp)
qed

text \<open>Reading a register of the distributor, changing it and writing it back.\<close>

lemma does_gicd_change:
  assumes "i < 1024" "gicd_kind (off + 4 * (i div n)) = Plain_reg" "0 < off" "off + 4 * (i div n) < 0x1000"
  shows "gic_acts G H rds (mbind (gic_mmio_read_32 G (gicd_at gd off n i)) (\<lambda>v. gic_mmio_write_32 G (gicd_at gd off n i) (F v)))
    (\<lambda>m. bank_write H (gicd_at gd off n i) (F (b32 m (gicd_at gd off n i))) m)"
  unfolding gicd_at_def
  by (rule does_change) (use assms live_gicd [of "off + 4 * (i div n)"] in \<open>simp_all add: kind_gicd waker_gicd del: image_iff of_nat_add of_nat_mult\<close>)

lemma does_gicd_priority:
  assumes "i < 1024"
  shows "gic_acts G H rds (gicd_set_ipriorityr G gd i pri) (bank_write8 H (gicd_at gd 0x400 4 i) (i mod 4) (ucast (pri AND GIC_PRI_MASK)))"
proof -
  have "gicd_at gd 0x400 4 i + of_nat (i mod 4) = gd + of_nat (0x400 + (4 * (i div 4) + i mod 4))"
    by (simp only: gicd_at_def of_nat_add add.assoc)
  then have a0: "gicd_at gd 0x400 4 i + of_nat (i mod 4) = gd + of_nat (0x400 + i)"
    by (simp only: mult_div_mod_eq)
  then have a: "gd + GICD_IPRIORITYR + of_nat i = gicd_at gd 0x400 4 i + of_nat (i mod 4)"
    by simp
  have w: "gicd_at gd 0x400 4 i \<notin> (\<lambda>b. b + GICR_WAKER) ` set rds"
    unfolding gicd_at_def by (rule waker_gicd) (use assms in linarith)
  have k: "hw_kind H (gicd_at gd 0x400 4 i) = Plain_reg"
    unfolding gicd_at_def by (subst kind_gicd) (use assms kind_intr(4) in auto)
  show ?thesis
    unfolding gicd_set_ipriorityr_def a by (rule does_write_8 [OF k _ w]) simp
qed

lemma does_irouter:
  assumes "32 \<le> i" "i \<le> 1019"
  shows "gic_acts G H rds (gicd_write_irouter dbg G gd i v) (bank_write64 H (gd + of_nat (0x6000 + 8 * i)) v)"
proof -
  have a: "gd + GICD_IROUTER + irouter_offset i = gd + of_nat (0x6000 + 8 * i)"
    using assms by (simp add: irouter_offset_def)
  show ?thesis
    unfolding gicd_write_irouter_def a
    using does_write_64 [OF waker_gicd [of "0x6000 + 8 * i"]] assms by simp
qed

lemma does_secure_spi:
  assumes "prop_ok p"
  shows "gic_does G H rds (secure_spi_config dbg G mpidr gd p a)
    (\<lambda>_. if intr_num p < MIN_SPI_ID then a else a OR group_enable p) (secure_spi_effect H gd mpidr p)"
proof (cases "intr_num p < MIN_SPI_ID")
  case True
  then show ?thesis by (simp add: secure_spi_config_def secure_spi_effect_def [abs_def] gic_does_mret)
next
  case False
  let ?i = "intr_num p"
  have i: "?i < 1024" "32 \<le> ?i" "?i \<le> 1019" "intr_grp p = INTR_GROUP0 \<or> intr_grp p = INTR_GROUP1S"
    using assms False by (auto simp: prop_ok_def)
  note group = does_gicd_group [OF i(1), folded gicd_at_def]
  have grp: "gic_acts G H rds (if intr_grp p = INTR_GROUP1S then gicd_set_igrpmodr G gd ?i else gicd_clr_igrpmodr G gd ?i)
      (bank_bit H (gicd_at gd 0xd00 32 ?i) (?i mod 32) (intr_grp p = INTR_GROUP1S))"
    using group(3,4) by simp
  have cfg: "gic_acts G H rds (gicd_set_icfgr G gd ?i (intr_cfg p))
      (\<lambda>m. bank_write H (gicd_at gd 0xc00 16 ?i) (cfg_insert (intr_cfg p) ?i (b32 m (gicd_at gd 0xc00 16 ?i))) m)"
    unfolding gicd_set_icfgr_def gicd_read_icfgr_def gicd_write_icfgr_def gicd_addrs
    by (rule does_gicd_change [OF i(1) kind_intr(5) [OF i(1)]]) (use i(1) in simp_all)
  have en: "gic_acts G H rds (gicd_set_isenabler G gd ?i) (bank_write H (gicd_at gd 0x100 32 ?i) (id_bit 5 ?i))"
    unfolding gicd_set_isenabler_def gicd_write_isenabler_def gicd_addrs
    by (rule does_gicd_at [OF i(1)]) simp_all
  have ret: "gic_does G H rds (mret (a OR group_enable p)) (\<lambda>_. a OR group_enable p) (\<lambda>b. b)"
    by (rule gic_does_mret)
  have code: "secure_spi_config dbg G mpidr gd p a =
      mbind (gicd_clr_igroupr G gd ?i) (\<lambda>_.
      mbind (if intr_grp p = INTR_GROUP1S then gicd_set_igrpmodr G gd ?i else gicd_clr_igrpmodr G gd ?i) (\<lambda>_.
      mbind (gicd_set_icfgr G gd ?i (intr_cfg p)) (\<lambda>_.
      mbind (gicd_set_ipriorityr G gd ?i (intr_pri p)) (\<lambda>_.
      mbind (gicd_write_irouter dbg G gd ?i (gicd_irouter_val_from_mpidr mpidr 0)) (\<lambda>_.
      mbind (gicd_set_isenabler G gd ?i) (\<lambda>_. mret (a OR group_enable p)))))))"
    unfolding secure_spi_config_def group_enable_def dbg_assert_holds [OF i(4)] using False by simp
  have effect: "secure_spi_effect H gd mpidr p = (\<lambda>m.
      let m = bank_bit H (gicd_at gd 0x80 32 ?i) (?i mod 32) False m;
          m = bank_bit H (gicd_at gd 0xd00 32 ?i) (?i mod 32) (intr_grp p = INTR_GROUP1S) m;
          m = bank_write H (gicd_at gd 0xc00 16 ?i) (cfg_insert (intr_cfg p) ?i (b32 m (gicd_at gd 0xc00 16 ?i))) m;
          m = bank_write8 H (gicd_at gd 0x400 4 ?i) (?i mod 4) (ucast (intr_pri p AND GIC_PRI_MASK)) m;
          m = bank_write64 H (gd + of_nat (0x6000 + 8 * ?i)) (gicd_irouter_val_from_mpidr mpidr 0) m
      in bank_write H (gicd_at gd 0x100 32 ?i) (id_bit 5 ?i) m)"
    using False by (intro ext) (simp add: secure_spi_effect_def Let_def)
  note step6 = gic_acts_then_ret [OF en ret]
  note step5 = gic_acts_then_ret [OF does_irouter [OF i(2,3), of dbg "gicd_irouter_val_from_mpidr mpidr 0"] step6]
  note step4 = gic_acts_then_ret [OF does_gicd_priority [OF i(1), of "intr_pri p"] step5]
  note steps = gic_acts_then_ret [OF group(2) gic_acts_then_ret [OF grp gic_acts_then_ret [OF cfg step4]]]
  show ?thesis
    unfolding code effect Let_def using False steps by simp
qed

lemma does_ctlr:
  "gic_acts G H rds (gicd_set_ctlr G gd bits True) (\<lambda>m. bank_write H gd (b32 m gd OR bits) m)"
  "gic_acts G H rds (gicd_clr_ctlr G gd bits True) (\<lambda>m. bank_write H gd (b32 m gd AND NOT bits) m)"
proof -
  have k: "hw_kind H gd = Plain_reg" using kind_gicd [of 0] by (simp add: gicd_kind_def intr_reg_kind_def)
  have w: "gd \<notin> (\<lambda>b. b + GICR_WAKER) ` set rds" using waker_gicd [of 0] by (simp del: image_iff)
  have r: "\<not> (bit (hw_writable H gd) n \<and> bit GICD_CTLR_RWP_BIT n)" for n
    using live_ctlr(2) by (metis bit_0_eq bit_and_iff bot_apply bot_bool_def)
  have "(v OR bits) AND hw_writable H gd = ((v AND NOT (hw_live H gd)) OR bits) AND hw_writable H gd"
    "(v AND NOT bits) AND hw_writable H gd = ((v AND NOT (hw_live H gd)) AND NOT bits) AND hw_writable H gd" for v
    using r unfolding live_ctlr(1) by (auto intro!: bit_eqI simp: bit_simps simp del: bit_numeral_iff)
  note change = does_change [OF k w, where F = "\<lambda>v. v OR bits", OF this(1)]
    does_change [OF k w, where F = "\<lambda>v. v AND NOT bits", OF this(2)]
  have a: "gd + GICD_CTLR = gd" by simp
  show "gic_acts G H rds (gicd_set_ctlr G gd bits True) (\<lambda>m. bank_write H gd (b32 m gd OR bits) m)"
    "gic_acts G H rds (gicd_clr_ctlr G gd bits True) (\<lambda>m. bank_write H gd (b32 m gd AND NOT bits) m)"
    unfolding gicd_set_ctlr_def gicd_clr_ctlr_def gicd_read_ctlr_def gicd_write_ctlr_def a mwhen_simps
    using gic_acts_then [OF change(1) does_wait] gic_acts_then [OF change(2) does_wait]
    by (simp_all add: mbind_assoc)
qed

end

definition spi_groups :: "interrupt_prop_t list \<Rightarrow> u32" where
  "spi_groups props = fold (\<lambda>p a. if intr_num p < MIN_SPI_ID then a else a OR group_enable p) props 0"

definition distif_effect :: "gic_hw \<Rightarrow> u64 \<Rightarrow> u64 \<Rightarrow> interrupt_prop_t list \<Rightarrow> gic_bank \<Rightarrow> gic_bank" where
  "distif_effect H gd mpidr props m =
     (let m = bank_write H gd (b32 m gd AND NOT 7) m;
          m = bank_write H gd (b32 m gd OR 0x30) m;
          m = spis_defaults H gd (num_ints_of (b32 m (gd + of_nat 4))) m;
          m = fold (secure_spi_effect H gd mpidr) props m
      in bank_write H gd (b32 m gd OR spi_groups props) m)"

text \<open>The group of an interrupt by the properties of the platform: the last one for it, or group 1 non-secure.\<close>

definition configured_type :: "interrupt_prop_t list \<Rightarrow> nat \<Rightarrow> u32" where
  "configured_type props i = fold (\<lambda>p t. if intr_num p = i then intr_grp p else t) props INTR_GROUP1NS"

lemma gicd_at_neq:
  assumes "i < 1024" "i' < 1024" "off + 4 * (1023 div n) < off' \<or> off' + 4 * (1023 div n') < off"
    and "off < 0x20000" "off' < 0x20000" "0 < n" "0 < n'"
  shows "gicd_at gd off n i \<noteq> gicd_at gd off' n' i'"
proof -
  have "i div n \<le> 1023 div n" "i' div n' \<le> 1023 div n'" using assms(1,2) by (simp_all add: div_le_mono)
  then have "off + 4 * (i div n) \<noteq> off' + 4 * (i' div n')" using assms(3) by linarith
  then show ?thesis using assms by (simp add: gicd_at_eq)
qed

lemma gicd_at_base: "i < 1024 \<Longrightarrow> 0 < off \<Longrightarrow> off < 0x20000 \<Longrightarrow> gicd_at gd off n i \<noteq> gd"
proof -
  assume a: "i < 1024" "0 < off" "off < 0x20000"
  have "i div n < 1024" using a(1) by (meson div_le_dividend le_less_trans)
  then show ?thesis using a off_eq [of "off + 4 * (i div n)" 0 gd] by (simp add: gicd_at_def)
qed

text \<open>The registers of the groups and the enables.\<close>

definition watched :: "u64 \<Rightarrow> u64 list \<Rightarrow> u64 \<Rightarrow> bool" where
  "watched gd rds a \<longleftrightarrow> (\<exists>off\<in>{0x80, 0xd00, 0x100}. \<exists>i<1024. a = gicd_at gd off 32 i) \<or>
     (\<exists>b\<in>set rds. \<exists>off\<in>{0x10080, 0x10d00, 0x10100}. a = b + of_nat off)"

lemma watchedE:
  assumes "watched gd rds a"
  obtains (dist) off i where "off \<in> {0x80, 0xd00, 0x100}" "i < 1024" "a = gicd_at gd off 32 i"
    | (redist) b off where "b \<in> set rds" "off \<in> {0x10080, 0x10d00, 0x10100}" "a = b + of_nat off"
  using assms unfolding watched_def by blast

lemma watched_gicd: "i < 1024 \<Longrightarrow> off \<in> {0x80, 0xd00, 0x100} \<Longrightarrow> watched gd rds (gicd_at gd off 32 i)"
  unfolding watched_def by blast

lemma watched_gicr: "b \<in> set rds \<Longrightarrow> off \<in> {0x10080, 0x10d00, 0x10100} \<Longrightarrow> watched gd rds (b + of_nat off)"
  unfolding watched_def by blast

lemma ctlr_masks:
  "bit (0x37 :: u32) j \<longleftrightarrow> j \<in> {0, 1, 2, 4, 5}" "bit (0x30 :: u32) j \<longleftrightarrow> j \<in> {4, 5}"
  "bit (7 :: u32) j \<longleftrightarrow> j \<in> {0, 1, 2}" "bit (4 :: u32) j \<longleftrightarrow> j = 2"
proof -
  have "bit (0x37 :: u32) j = (j \<in> {0, 1, 2, 4, 5}) \<and> bit (0x30 :: u32) j = (j \<in> {4, 5}) \<and>
    bit (7 :: u32) j = (j \<in> {0, 1, 2}) \<and> bit (4 :: u32) j = (j = 2)"
  proof (cases "j < 6")
    case True
    then have "j \<in> {0, 1, 2, 3, 4, 5}" by auto
    then show ?thesis by auto
  next
    case False
    have "(0x37 :: u32) = 0x37 AND mask 6" "(0x30 :: u32) = 0x30 AND mask 6" "(7 :: u32) = 7 AND mask 6" "(4 :: u32) = 4 AND mask 6"
      by (simp_all add: mask_numeral)
    then have "\<not> bit (0x37 :: u32) j" "\<not> bit (0x30 :: u32) j" "\<not> bit (7 :: u32) j" "\<not> bit (4 :: u32) j"
      using False by (metis bit_and_iff bit_mask_iff)+
    then show ?thesis using False by auto
  qed
  then show "bit (0x37 :: u32) j \<longleftrightarrow> j \<in> {0, 1, 2, 4, 5}" "bit (0x30 :: u32) j \<longleftrightarrow> j \<in> {4, 5}"
    "bit (7 :: u32) j \<longleftrightarrow> j \<in> {0, 1, 2}" "bit (4 :: u32) j \<longleftrightarrow> j = 2" by blast+
qed

lemma group_enable_bit: "bit (group_enable p) j \<Longrightarrow> j = 0 \<or> j = 2"
  by (auto simp: group_enable_def ctlr_masks(4) bit_1_iff simp del: bit_numeral_word_iff split: if_splits)

lemma spi_groups_bit: "bit (spi_groups props) j \<Longrightarrow> j = 0 \<or> j = 2"
proof -
  have "bit (fold (\<lambda>p a. if intr_num p < MIN_SPI_ID then a else a OR group_enable p) props a) j \<Longrightarrow> bit a j \<or> j = 0 \<or> j = 2" for a
    proof (induction props arbitrary: a)
    case (Cons p props)
    then show ?case using group_enable_bit [of p j] by (fastforce simp: bit_or_iff split: if_splits)
  qed simp
  then show "bit (spi_groups props) j \<Longrightarrow> j = 0 \<or> j = 2" unfolding spi_groups_def by force
qed

context gic_hardware
begin

lemma gicd_distif_runs:
  assumes "gicv3_driver_data s = Some data" "gicd_base data = gd" "gd \<noteq> 0" "list_all prop_ok (interrupt_props data)"
  obtains d where "gicv3_distif_init dbg G mpidr s = Ret () (s\<lparr>gic_dev := d\<rparr>)"
    "bank_of G H d = distif_effect H gd mpidr (interrupt_props data) (bank_of G H (gic_dev s))"
    "\<And>b. b \<in> set rds \<Longrightarrow> rd_asleep G b (gic_dev s) \<Longrightarrow> rd_asleep G b d"
proof -
  let ?props = "interrupt_props data"
  have props: "gic_does G H rds (gicv3_secure_spis_config_props dbg G mpidr gd ?props) (\<lambda>_. spi_groups ?props)
      (fold (secure_spi_effect H gd mpidr) ?props)"
    unfolding gicv3_secure_spis_config_props_def spi_groups_def
    using assms(4) by (intro gic_does_mfold does_secure_spi) (simp add: list_all_iff)
  have seven: "CTLR_ENABLE_G0_BIT OR CTLR_ENABLE_G1S_BIT OR CTLR_ENABLE_G1NS_BIT = 7"
    "CTLR_ARE_S_BIT OR CTLR_ARE_NS_BIT = 0x30" by simp_all
  have "gic_acts G H rds (mbind (gicd_clr_ctlr G gd 7 True) (\<lambda>_. mbind (gicd_set_ctlr G gd 0x30 True) (\<lambda>_.
      mbind (gicv3_spis_config_defaults G gd) (\<lambda>_. mbind (gicv3_secure_spis_config_props dbg G mpidr gd ?props) (\<lambda>bitmap.
      gicd_set_ctlr G gd bitmap True))))) (distif_effect H gd mpidr ?props)"
    unfolding distif_effect_def Let_def
    by (rule gic_acts_then [OF does_ctlr(2) gic_acts_then [OF does_ctlr(1) gic_acts_then [OF does_spis_defaults
        gic_does_mbind [OF props does_ctlr(1)]]]])
  moreover have "gicv3_distif_init dbg G mpidr s = mbind (gicd_clr_ctlr G gd 7 True) (\<lambda>_. mbind (gicd_set_ctlr G gd 0x30 True) (\<lambda>_.
      mbind (gicv3_spis_config_defaults G gd) (\<lambda>_. mbind (gicv3_secure_spis_config_props dbg G mpidr gd ?props) (\<lambda>bitmap.
      gicd_set_ctlr G gd bitmap True)))) s"
    using assms(1-3) unfolding gicv3_distif_init_def driver_data_run [OF assms(1)] Let_def seven by simp
  ultimately show thesis using that by (metis gic_doesD)
qed

lemma gicd_at_kind:
  assumes "i < 1024"
  shows "hw_kind H (gicd_at gd 0x80 32 i) = Plain_reg" "hw_live H (gicd_at gd 0x80 32 i) = 0"
    "hw_kind H (gicd_at gd 0xd00 32 i) = Plain_reg" "hw_live H (gicd_at gd 0xd00 32 i) = 0"
    "hw_kind H (gicd_at gd 0x100 32 i) = Set_reg" "hw_live H (gicd_at gd 0x100 32 i) = 0"
    "hw_kind H (gicd_at gd 0x400 4 i) = Plain_reg" "hw_kind H (gicd_at gd 0xc00 16 i) = Plain_reg"
proof -
  have d: "i div 32 < 32" "i div 4 < 256" "i div 16 < 64" using assms by linarith+
  show "hw_kind H (gicd_at gd 0x80 32 i) = Plain_reg" "hw_kind H (gicd_at gd 0xd00 32 i) = Plain_reg"
    "hw_kind H (gicd_at gd 0x100 32 i) = Set_reg"
    "hw_kind H (gicd_at gd 0x400 4 i) = Plain_reg" "hw_kind H (gicd_at gd 0xc00 16 i) = Plain_reg"
    unfolding gicd_at_def using d by (subst kind_gicd; simp add: kind_intr [OF assms])+
  show "hw_live H (gicd_at gd 0x80 32 i) = 0" "hw_live H (gicd_at gd 0xd00 32 i) = 0"
    unfolding gicd_at_def by (rule live_gicd; use d kind_intr [OF assms] in simp)+
  show "hw_live H (gicd_at gd 0x100 32 i) = 0"
    unfolding gicd_at_def by (rule live_enable(1)) (use d in simp_all)
qed

lemma watched_gicd_at:
  assumes "watched gd rds a" "i < 1024" "0x400 \<le> off" "off + 4 * (1023 div n) < 0xd00" "0 < n"
  shows "a \<noteq> gicd_at gd off n i"
  using assms(1)
proof (cases rule: watchedE)
  case (dist off' k)
  have "off' < 0x20000" "off' + 4 * (1023 div 32) < off \<or> off + 4 * (1023 div n) < off'" using dist(1) assms(3,4) by auto
  then have "gicd_at gd off' 32 k \<noteq> gicd_at gd off n i" using dist(2) assms by (intro gicd_at_neq) simp_all
  then show ?thesis by (simp only: dist(3) not_False_eq_True)
next
  case (redist b off')
  have "i div n \<le> 1023 div n" using assms(2) by (simp add: div_le_mono)
  then have o: "off + 4 * (i div n) < 0x10000" "off' < 0x20000" using assms redist(2) by auto
  from gicd_gicr [OF redist(1) o] show ?thesis unfolding redist(3) gicd_at_def by (rule not_sym)
qed

lemma watched_ctlr:
  assumes "watched gd rds a"
  shows "a \<noteq> gd"
  using assms
proof (cases rule: watchedE)
  case (dist off i)
  have "0 < off" "off < 0x20000" using dist(1) by auto
  from gicd_at_base [OF dist(2) this] show ?thesis by (simp only: dist(3) not_False_eq_True)
next
  case (redist b off)
  have "(0 :: nat) < 0x10000" "off < 0x20000" using redist(2) by auto
  from gicd_gicr [OF redist(1) this] show ?thesis unfolding redist(3) by simp
qed

lemma ctlr_other: "a \<noteq> gd \<Longrightarrow> b32 (bank_write H gd v m) a = b32 m a"
  using kind_gicd [of 0] by (simp add: bank_write_update gicd_kind_def intr_reg_kind_def)

lemma bank_bit_other: "hw_kind H a = Plain_reg \<Longrightarrow> a' \<noteq> a \<Longrightarrow> b32 (bank_bit H a k val m) a' = b32 m a'"
  by (simp add: bank_bit_def bank_write_update)

lemma secure_spi_other:
  assumes p: "prop_ok p" and w: "watched gd rds a"
    and a: "a \<noteq> gicd_at gd 0x80 32 (intr_num p)" "a \<noteq> gicd_at gd 0xd00 32 (intr_num p)" "a \<noteq> gicd_at gd 0x100 32 (intr_num p)"
  shows "b32 (secure_spi_effect H gd mpidr p m) a = b32 m a"
proof -
  have i: "intr_num p < 1024" using p by (simp add: prop_ok_def)
  note k = gicd_at_kind [OF i]
  have "a \<noteq> gicd_at gd 0xc00 16 (intr_num p)" "a \<noteq> gicd_at gd 0x400 4 (intr_num p)"
    using w i by (intro watched_gicd_at; simp)+
  then show ?thesis
    using a k by (simp add: secure_spi_effect_def Let_def bank_bit_other bank_write8_def bank_write_update)
qed

lemma secure_spi_at:
  assumes p: "prop_ok p" and i: "intr_num p = i" "32 \<le> i"
  shows "b32 (secure_spi_effect H gd mpidr p m) (gicd_at gd 0x80 32 i) = b32 (bank_bit H (gicd_at gd 0x80 32 i) (i mod 32) False m) (gicd_at gd 0x80 32 i)"
    and "b32 (secure_spi_effect H gd mpidr p m) (gicd_at gd 0xd00 32 i) = b32 (bank_bit H (gicd_at gd 0xd00 32 i) (i mod 32) (intr_grp p = INTR_GROUP1S) m) (gicd_at gd 0xd00 32 i)"
    and "b32 (secure_spi_effect H gd mpidr p m) (gicd_at gd 0x100 32 i) = reg_update H (gicd_at gd 0x100 32 i) (id_bit 5 i) (b32 m (gicd_at gd 0x100 32 i))"
proof -
  have i': "i < 1024" using p i(1) by (simp add: prop_ok_def)
  note k = gicd_at_kind [OF i']
  have w: "gicd_at gd off 32 i \<noteq> gicd_at gd 0xc00 16 i" "gicd_at gd off 32 i \<noteq> gicd_at gd 0x400 4 i"
    if "off \<in> {0x80, 0xd00, 0x100}" for off
    using watched_gicd [OF i' that] i' by (intro watched_gicd_at; simp)+
  have n: "gicd_at gd 0x80 32 i \<noteq> gicd_at gd 0xd00 32 i" "gicd_at gd 0x80 32 i \<noteq> gicd_at gd 0x100 32 i"
    "gicd_at gd 0xd00 32 i \<noteq> gicd_at gd 0x100 32 i"
    using i' by (intro gicd_at_neq; simp)+
  show "b32 (secure_spi_effect H gd mpidr p m) (gicd_at gd 0x80 32 i) = b32 (bank_bit H (gicd_at gd 0x80 32 i) (i mod 32) False m) (gicd_at gd 0x80 32 i)"
    "b32 (secure_spi_effect H gd mpidr p m) (gicd_at gd 0xd00 32 i) = b32 (bank_bit H (gicd_at gd 0xd00 32 i) (i mod 32) (intr_grp p = INTR_GROUP1S) m) (gicd_at gd 0xd00 32 i)"
    "b32 (secure_spi_effect H gd mpidr p m) (gicd_at gd 0x100 32 i) = reg_update H (gicd_at gd 0x100 32 i) (id_bit 5 i) (b32 m (gicd_at gd 0x100 32 i))"
    using i k n n [symmetric] w [of "0x80"] w [of "0xd00"] w [of "0x100"]
    by (simp_all add: secure_spi_effect_def Let_def bank_bit_other bank_write8_def bank_write_update bank_bit_def)
qed

lemma secure_spi_bits:
  assumes p: "prop_ok p" "32 \<le> intr_num p" "spi_implemented H gd (intr_num p)" and j: "j < 1024"
  shows "bit (b32 (secure_spi_effect H gd mpidr p m) (gicd_at gd 0x80 32 j)) (j mod 32) =
      (if intr_num p = j then False else bit (b32 m (gicd_at gd 0x80 32 j)) (j mod 32))" (is ?igroup)
    and "bit (b32 (secure_spi_effect H gd mpidr p m) (gicd_at gd 0xd00 32 j)) (j mod 32) =
      (if intr_num p = j then intr_grp p = INTR_GROUP1S else bit (b32 m (gicd_at gd 0xd00 32 j)) (j mod 32))" (is ?grpmod)
    and "bit (b32 (secure_spi_effect H gd mpidr p m) (gicd_at gd 0x100 32 j)) (j mod 32) =
      (intr_num p = j \<or> bit (b32 m (gicd_at gd 0x100 32 j)) (j mod 32))" (is ?enable)
proof -
  let ?i = "intr_num p"
  have i: "?i < 1024" using p(1) by (simp add: prop_ok_def)
  note k = gicd_at_kind [OF i]
  have wr: "bit (hw_writable H (gicd_at gd off 32 ?i)) (?i mod 32)" if "off \<in> {0x80, 0xd00, 0x100}" for off
    using p(3) that by (auto simp: spi_implemented_def gicd_at_def)
  have "?igroup \<and> ?grpmod \<and> ?enable"
  proof (cases "?i div 32 = j div 32")
    case True
    then have same: "gicd_at gd off 32 j = gicd_at gd off 32 ?i" for off by (simp add: gicd_at_def)
    have eq: "j mod 32 = ?i mod 32 \<longleftrightarrow> ?i = j" using True by (metis mult_div_mod_eq)
    have id: "bit (id_bit 5 ?i) (j mod 32) \<longleftrightarrow> ?i = j"
      unfolding eq [symmetric] by (auto simp: id_bit_def reg_bit_def bit_exp_iff)
    have m: "?i mod 32 < 32" by simp
    note at = secure_spi_at [OF p(1) refl p(2)]
    have ?igroup using wr [of "0x80"] eq by (simp add: same at(1) bank_bit_bit [OF k(1,2) m])
    moreover have ?grpmod using wr [of "0xd00"] eq by (simp add: same at(2) bank_bit_bit [OF k(3,4) m])
    moreover have "bit (hw_writable H (gicd_at gd 0x100 32 ?i)) (j mod 32)" if "?i = j" using wr [of "0x100"] that by simp
    then have ?enable unfolding same at(3) using id by (auto simp: reg_update_def k bit_or_iff bit_and_iff)
    ultimately show ?thesis by blast
  next
    case False
    have "gicd_at gd off 32 j \<noteq> gicd_at gd off' 32 ?i" if "off \<in> {0x80, 0xd00, 0x100}" "off' \<in> {0x80, 0xd00, 0x100}" for off off'
    proof (cases "off = off'")
      case True
      moreover have "off' < 0x20000" using that(2) by auto
      ultimately show ?thesis using \<open>?i div 32 \<noteq> j div 32\<close> i j by (simp add: gicd_at_eq)
    next
      case False
      then show ?thesis using i j that by (intro gicd_at_neq) auto
    qed
    note o = secure_spi_other [OF p(1) watched_gicd [OF j], OF _ this this this]
    have "?i \<noteq> j" using False by auto
    then show ?thesis by (simp add: o)
  qed
  then show ?igroup ?grpmod ?enable by blast+
qed

lemma spi_type_at: "spi_type gd m i = group_of (bit (b32 m (gicd_at gd 0x80 32 i)) (i mod 32)) (bit (b32 m (gicd_at gd 0xd00 32 i)) (i mod 32))"
  by (simp add: spi_type_def gicd_at_def)

lemma spi_enabled_at: "spi_enabled gd m i = bit (b32 m (gicd_at gd 0x100 32 i)) (i mod 32)"
  by (simp add: spi_enabled_def gicd_at_def)

lemma secure_spi_type:
  assumes "prop_ok p" "32 \<le> intr_num p \<Longrightarrow> spi_implemented H gd (intr_num p)" "32 \<le> j" "j < 1024"
  shows "spi_type gd (secure_spi_effect H gd mpidr p m) j = (if intr_num p = j then intr_grp p else spi_type gd m j)"
    and "spi_enabled gd (secure_spi_effect H gd mpidr p m) j = (intr_num p = j \<or> spi_enabled gd m j)"
proof -
  have "spi_type gd (secure_spi_effect H gd mpidr p m) j = (if intr_num p = j then intr_grp p else spi_type gd m j) \<and>
    spi_enabled gd (secure_spi_effect H gd mpidr p m) j = (intr_num p = j \<or> spi_enabled gd m j)"
  proof (cases "32 \<le> intr_num p")
    case True
    note b = secure_spi_bits [OF assms(1) True assms(2) [OF True] assms(4)]
    show ?thesis using assms(1) unfolding spi_type_at spi_enabled_at b by (auto simp: group_of_def prop_ok_def)
  next
    case False
    then show ?thesis using assms(3) by (simp add: secure_spi_effect_def)
  qed
  then show "spi_type gd (secure_spi_effect H gd mpidr p m) j = (if intr_num p = j then intr_grp p else spi_type gd m j)"
    "spi_enabled gd (secure_spi_effect H gd mpidr p m) j = (intr_num p = j \<or> spi_enabled gd m j)" by blast+
qed

lemma secure_spis_type:
  assumes "list_all prop_ok props" "\<And>p. p \<in> set props \<Longrightarrow> 32 \<le> intr_num p \<Longrightarrow> spi_implemented H gd (intr_num p)" "32 \<le> j" "j < 1024"
  shows "spi_type gd (fold (secure_spi_effect H gd mpidr) props m) j =
      fold (\<lambda>p t. if intr_num p = j then intr_grp p else t) props (spi_type gd m j)"
    and "spi_enabled gd (fold (secure_spi_effect H gd mpidr) props m) j = (spi_enabled gd m j \<or> (\<exists>p\<in>set props. intr_num p = j))"
  using assms(1,2) by (induction props arbitrary: m) (auto simp: secure_spi_type [OF _ _ assms(3,4)])

lemma spis_defaults_other:
  assumes "num \<le> 1024" "\<And>i. i < 1024 \<Longrightarrow> a \<noteq> gicd_at gd 0xc00 16 i" "\<And>i. i < 1024 \<Longrightarrow> a \<noteq> gicd_at gd 0x400 4 i"
  shows "b32 (spis_defaults H gd num m) a = b32 (write_all H (gicd_at gd 0x80 32) (\<lambda>_. NOT 0) (id_range 32 num 32) m) a"
proof -
  have b: "i < 1024" if "i \<in> set (id_range 32 num n)" "0 < n" for i n
    using id_range_bounds that assms(1) by (meson less_le_trans)
  have "a \<notin> gicd_at gd 0xc00 16 ` set (id_range 32 num 16)" "a \<notin> gicd_at gd 0x400 4 ` set (id_range 32 num 4)"
    using assms(2,3) b by (metis (no_types) imageE zero_less_numeral)+
  then show ?thesis
    unfolding spis_defaults_def using gicd_at_kind(7,8) b by (subst write_all_other; simp)+
qed

lemma spis_defaults_watched:
  assumes "num \<le> 1024" "watched gd rds a" "\<And>i. i < 1024 \<Longrightarrow> a \<noteq> gicd_at gd 0x80 32 i"
  shows "b32 (spis_defaults H gd num m) a = b32 m a"
proof -
  have i: "i < 1024" if "i \<in> set (id_range 32 num 32)" for i
    using id_range_bounds [OF that] assms(1) by linarith
  then have "a \<notin> gicd_at gd 0x80 32 ` set (id_range 32 num 32)" using assms(3) by blast
  with i have "b32 (write_all H (gicd_at gd 0x80 32) (\<lambda>_. NOT 0) (id_range 32 num 32) m) a = b32 m a"
    using gicd_at_kind(1) by (intro write_all_other) blast
  moreover have "a \<noteq> gicd_at gd 0xc00 16 i" "a \<noteq> gicd_at gd 0x400 4 i" if "i < 1024" for i
    using watched_gicd_at [OF assms(2) that, of "0xc00" 16] watched_gicd_at [OF assms(2) that, of "0x400" 4] by simp_all
  ultimately show ?thesis using assms(1) by (subst spis_defaults_other) auto
qed

lemma spis_defaults_group:
  assumes "num \<le> 1024" "num mod 32 = 0" "32 \<le> i" "i < num" "spi_implemented H gd i"
  shows "bit (b32 (spis_defaults H gd num m) (gicd_at gd 0x80 32 i)) (i mod 32)"
proof -
  let ?k = "32 * (i div 32)"
  have i: "i < 1024" using assms by linarith
  have k: "gicd_at gd 0x80 32 i = gicd_at gd 0x80 32 ?k" by (simp add: gicd_at_def)
  have b: "x < 1024" if "x \<in> set (id_range 32 num 32)" for x
    using id_range_bounds [OF that] assms(1) by linarith
  have "32 + 32 * (i div 32 - 1) \<in> set (id_range 32 num 32)"
    using assms by (intro id_range_mem) linarith+
  moreover have "32 + 32 * (i div 32 - 1) = ?k" using assms(3) by linarith
  ultimately have mem: "?k \<in> set (id_range 32 num 32)" by metis
  have w: "bit (hw_writable H (gicd_at gd 0x80 32 ?k)) (i mod 32)"
    using assms(5) unfolding spi_implemented_def k [symmetric] by (simp add: gicd_at_def)
  have all: "b32 (write_all H (gicd_at gd 0x80 32) (\<lambda>_. NOT 0) (id_range 32 num 32) m) (gicd_at gd 0x80 32 ?k) =
      reg_update H (gicd_at gd 0x80 32 ?k) (NOT 0) (b32 m (gicd_at gd 0x80 32 ?k))"
    using mem b gicd_at_kind(1) assms(1) by (intro write_all_at gicd_at_distinct) auto
  have "gicd_at gd 0x80 32 ?k \<noteq> gicd_at gd 0xc00 16 x \<and> gicd_at gd 0x80 32 ?k \<noteq> gicd_at gd 0x400 4 x" if "x < 1024" for x
    using that b [OF mem] by (intro conjI gicd_at_neq) simp_all
  then have "b32 (spis_defaults H gd num m) (gicd_at gd 0x80 32 ?k) = reg_update H (gicd_at gd 0x80 32 ?k) (NOT 0) (b32 m (gicd_at gd 0x80 32 ?k))"
    using assms(1) all by (subst spis_defaults_other) auto
  then show ?thesis
    unfolding k using w gicd_at_kind(1,2) [OF b [OF mem]] by (simp add: reg_update_bit bit_not_iff)
qed

lemma spis_defaults_enabled:
  assumes "num \<le> 1024" "j < 1024"
  shows "spi_enabled gd (spis_defaults H gd num m) j = spi_enabled gd m j"
proof -
  have "gicd_at gd 0x100 32 j \<noteq> gicd_at gd 0x80 32 i" if "i < 1024" for i
    using assms(2) that by (intro gicd_at_neq) simp_all
  moreover have "watched gd rds (gicd_at gd 0x100 32 j)" using assms(2) by (intro watched_gicd) simp_all
  ultimately show ?thesis using assms(1) by (simp add: spi_enabled_at spis_defaults_watched)
qed

lemma bank_spi_cong:
  assumes "\<And>off. off \<in> {0x80, 0xd00, 0x100} \<Longrightarrow> b32 m (gicd_at gd off 32 j) = b32 m' (gicd_at gd off 32 j)"
  shows "spi_type gd m j = spi_type gd m' j" "spi_enabled gd m j = spi_enabled gd m' j"
  using assms by (simp_all add: spi_type_at spi_enabled_at)

lemma distif_types:
  assumes props: "list_all prop_ok props" "\<And>p. p \<in> set props \<Longrightarrow> 32 \<le> intr_num p \<Longrightarrow> spi_implemented H gd (intr_num p)"
    and j: "32 \<le> j" "j < num_ints_of (b32 m (gd + of_nat 4))" "spi_implemented H gd j"
  shows "spi_type gd (distif_effect H gd mpidr props m) j = configured_type props j"
    and "spi_enabled gd (distif_effect H gd mpidr props m) j = (spi_enabled gd m j \<or> (\<exists>p\<in>set props. intr_num p = j))"
proof -
  define m1 where "m1 = bank_write H gd (b32 m gd AND NOT 7) m"
  define m2 where "m2 = bank_write H gd (b32 m1 gd OR 0x30) m1"
  define num where "num = num_ints_of (b32 m2 (gd + of_nat 4))"
  define m3 where "m3 = spis_defaults H gd num m2"
  define m4 where "m4 = fold (secure_spi_effect H gd mpidr) props m3"
  have effect: "distif_effect H gd mpidr props m = bank_write H gd (b32 m4 gd OR spi_groups props) m4"
    by (simp add: distif_effect_def Let_def m1_def m2_def m3_def m4_def num_def)
  have n: "num = num_ints_of (b32 m (gd + of_nat 4))"
    using off_eq [of 4 0 gd] by (simp add: num_def m2_def m1_def ctlr_other)
  have num: "num \<le> 1024" "num mod 32 = 0" unfolding n by (rule num_ints_bound)+
  then have j': "j < 1024" "j < num" using j(2) n by simp_all
  have c: "b32 (bank_write H gd v m) (gicd_at gd off 32 j) = b32 m (gicd_at gd off 32 j)" if "off \<in> {0x80, 0xd00, 0x100}" for v m off
    using watched_ctlr [OF watched_gicd [OF j'(1) that]] by (rule ctlr_other)
  have "spi_type gd m3 j = INTR_GROUP1NS"
    unfolding m3_def spi_type_at using spis_defaults_group [OF num j(1) j'(2) j(3)] by (simp add: group_of_def)
  then show "spi_type gd (distif_effect H gd mpidr props m) j = configured_type props j"
    unfolding effect configured_type_def
    using bank_spi_cong(1) [of "bank_write H gd (b32 m4 gd OR spi_groups props) m4" j m4, OF c]
      secure_spis_type(1) [OF props j(1) j'(1), of mpidr m3] by (simp add: m4_def)
  have "spi_enabled gd m3 j = spi_enabled gd m j"
    unfolding m3_def spis_defaults_enabled [OF num(1) j'(1)]
    using bank_spi_cong(2) [of m2 j m] c by (simp add: m2_def m1_def)
  then show "spi_enabled gd (distif_effect H gd mpidr props m) j = (spi_enabled gd m j \<or> (\<exists>p\<in>set props. intr_num p = j))"
    unfolding effect
    using bank_spi_cong(2) [of "bank_write H gd (b32 m4 gd OR spi_groups props) m4" j m4, OF c]
      secure_spis_type(2) [OF props j(1) j'(1), of mpidr m3] by (simp add: m4_def)
qed

lemma secure_spis_other:
  assumes "list_all prop_ok props" "watched gd rds a" "\<And>off i. off \<in> {0x80, 0xd00, 0x100} \<Longrightarrow> i < 1024 \<Longrightarrow> a \<noteq> gicd_at gd off 32 i"
  shows "b32 (fold (secure_spi_effect H gd mpidr) props m) a = b32 m a"
  using assms(1)
proof (induction props arbitrary: m)
  case (Cons p props)
  then have p: "prop_ok p" "intr_num p < 1024" by (simp_all add: prop_ok_def)
  show ?case using Cons by (simp add: secure_spi_other [OF p(1) assms(2) assms(3) assms(3) assms(3), OF _ p(2) _ p(2) _ p(2)])
qed simp

text \<open>The distributor's part leaves the redistributors alone.\<close>

lemma distif_redist:
  assumes "list_all prop_ok props" "b \<in> set rds" "off \<in> {0x10080, 0x10d00, 0x10100}"
  shows "b32 (distif_effect H gd mpidr props m) (b + of_nat off) = b32 m (b + of_nat off)"
proof -
  let ?a = "b + of_nat off :: u64"
  have w: "watched gd rds ?a" using assms by (intro watched_gicr)
  have o: "off < 0x20000" using assms(3) by auto
  have n: "?a \<noteq> gicd_at gd x 32 i" if "x \<in> {0x80, 0xd00, 0x100}" "i < 1024" for x i
  proof -
    have "x + 4 * (i div 32) < 0x10000" using that by auto
    from gicd_gicr [OF assms(2) this o] show ?thesis unfolding gicd_at_def by (rule not_sym)
  qed
  have c: "b32 (bank_write H gd v m) ?a = b32 m ?a" for v m using watched_ctlr [OF w] by (rule ctlr_other)
  have s: "b32 (fold (secure_spi_effect H gd mpidr) props m) ?a = b32 m ?a" for m
    by (rule secure_spis_other [OF assms(1) w]) (rule n)
  have d: "b32 (spis_defaults H gd (num_ints_of t) m) ?a = b32 m ?a" for t m
    by (rule spis_defaults_watched [OF num_ints_bound(1) w]) (rule n; simp)
  show ?thesis unfolding distif_effect_def Let_def c s d by (rule refl)
qed

section \<open>The groups enabled in the distributor\<close>

lemma ctlr_bit:
  assumes "j < 31"
  shows "bit (b32 (bank_write H gd v m) gd) j = (if bit (hw_writable H gd) j then bit v j else bit (b32 m gd) j)"
proof -
  have "hw_kind H gd = Plain_reg" using kind_gicd [of 0] by (simp add: gicd_kind_def intr_reg_kind_def)
  moreover have "\<not> bit (hw_live H gd) j"
    using assms bit_exp_iff [of 31 j, where ?'a = "32 word"] unfolding live_ctlr(1) by simp
  ultimately show ?thesis using assms by (simp add: bank_write_update reg_update_def bit_simps)
qed

lemma spi_effects_ctlr:
  "num \<le> 1024 \<Longrightarrow> b32 (spis_defaults H gd num m) gd = b32 m gd"
  "list_all prop_ok props \<Longrightarrow> b32 (fold (secure_spi_effect H gd mpidr) props m) gd = b32 m gd"
proof -
  have n: "gd \<noteq> gicd_at gd off k i" if "i < 1024" "0 < off" "off < 0x20000" for off k i
    using gicd_at_base [OF that, of gd k] by (rule not_sym)
  have i: "i < 1024" if "i \<in> set (id_range 32 num 32)" "num \<le> 1024" for i
    using id_range_bounds [OF that(1)] that(2) by linarith
  show "b32 (spis_defaults H gd num m) gd = b32 m gd" if num: "num \<le> 1024"
  proof -
    have "gd \<notin> gicd_at gd 0x80 32 ` set (id_range 32 num 32)" using i num n by fastforce
    then have "b32 (write_all H (gicd_at gd 0x80 32) (\<lambda>_. NOT 0) (id_range 32 num 32) m) gd = b32 m gd"
      using gicd_at_kind(1) i num by (intro write_all_other) blast
    then show ?thesis using num n by (subst spis_defaults_other) simp_all
  qed
  show "b32 (fold (secure_spi_effect H gd mpidr) props m) gd = b32 m gd" if "list_all prop_ok props"
    using that
  proof (induction props arbitrary: m)
    case (Cons p props)
    then have p: "intr_num p < 1024" by (simp add: prop_ok_def)
    have "b32 (secure_spi_effect H gd mpidr p m) gd = b32 m gd"
      using n [OF p] gicd_at_kind [OF p]
      by (simp add: secure_spi_effect_def Let_def bank_bit_other bank_write8_def bank_write_update)
    with Cons show ?case by simp
  qed simp
qed

lemma distif_ctlr:
  assumes "list_all prop_ok props" "hw_writable H gd AND 0x37 = 0x37"
  shows "b32 (distif_effect H gd mpidr props m) gd AND 0x37 = spi_groups props OR 0x30"
proof (rule bit_eqI)
  fix j
  let ?e = "distif_effect H gd mpidr props m"
  have "bit (b32 ?e gd) j = (bit (spi_groups props) j \<or> j \<in> {4, 5})" if j: "j \<in> {0, 1, 2, 4, 5}"
  proof -
    have w: "bit (hw_writable H gd) j" using assms(2) j ctlr_masks(1) [of j] by (metis bit_and_iff)
    have "j < 31" using j by auto
    note c = ctlr_bit [OF this]
    have n7: "bit (b AND NOT 7 :: u32) j = (bit b j \<and> j \<notin> {0, 1, 2})" for b
      using j by (auto simp: bit_and_iff bit_not_iff ctlr_masks simp del: bit_numeral_word_iff)
    show ?thesis
      unfolding distif_effect_def Let_def c spi_effects_ctlr(1) [OF num_ints_bound(1)] spi_effects_ctlr(2) [OF assms(1)] n7 bit_or_iff
        ctlr_masks
      using w j by auto
  qed
  then show "bit (b32 ?e gd AND 0x37) j = bit (spi_groups props OR 0x30) j"
    using spi_groups_bit [of props j] by (auto simp: bit_and_iff bit_or_iff ctlr_masks simp del: bit_numeral_word_iff)
qed

end

end
