(* ===== verification/Gicv3_Redist.thy ===== *)
theory Gicv3_Redist
  imports Gicv3_Config
begin

text \<open>
  The configuration of the private interrupts of a core at boot, as a function on the bank of
  registers, and the power state of a redistributor.
\<close>

definition ppi_defaults :: "gic_hw \<Rightarrow> u64 \<Rightarrow> gic_bank \<Rightarrow> gic_bank" where
  "ppi_defaults H b m =
     bank_write H (b + of_nat 0x10c04) 0
       (write_all H (gicd_at b 0x10400 4) (\<lambda>_. GICD_IPRIORITYR_DEF_VAL) (id_range 0 MIN_SPI_ID 4)
         (bank_write H (b + of_nat 0x10080) (NOT 0) (bank_write H (b + of_nat 0x10180) (NOT 0) m)))"

definition secure_ppi_effect :: "gic_hw \<Rightarrow> u64 \<Rightarrow> interrupt_prop_t \<Rightarrow> gic_bank \<Rightarrow> gic_bank" where
  "secure_ppi_effect H b p m =
     (let i = intr_num p
      in if i \<ge> MIN_SPI_ID then m
         else
           let m = bank_bit H (b + of_nat 0x10080) i False m;
               m = bank_bit H (b + of_nat 0x10d00) i (intr_grp p = INTR_GROUP1S) m;
               m = bank_write8 H (gicd_at b 0x10400 4 i) (i mod 4) (ucast (intr_pri p AND GIC_PRI_MASK)) m;
               m = (if i \<ge> MIN_PPI_ID then bank_write H (b + of_nat 0x10c04) (cfg_insert (intr_cfg p) i (b32 m (b + of_nat 0x10c04))) m else m)
           in bank_write H (b + of_nat 0x10100) (id_bit 5 i) m)"

definition ppi_groups :: "interrupt_prop_t list \<Rightarrow> u32" where
  "ppi_groups props = fold (\<lambda>p a. if intr_num p \<ge> MIN_SPI_ID then a else a OR group_enable p) props 0"

lemma and_not_disjoint:
  fixes w :: "'a :: len word"
  assumes "w AND k = 0"
  shows "w AND NOT k = w"
proof (rule bit_eqI)
  fix j
  have "\<not> (bit w j \<and> bit k j)" using assms by (metis bit_0_eq bit_and_iff bot_apply bot_bool_def)
  then show "bit (w AND NOT k) j = bit w j" by (auto simp: bit_and_iff bit_not_iff dest: bit_imp_le_length)
qed

lemma ppi_groups_bit: "bit (ppi_groups props) j \<Longrightarrow> j = 0 \<or> j = 2"
proof -
  have "bit (fold (\<lambda>p a. if intr_num p \<ge> MIN_SPI_ID then a else a OR group_enable p) props a) j \<Longrightarrow> bit a j \<or> j = 0 \<or> j = 2" for a
  proof (induction props arbitrary: a)
    case (Cons p props)
    then show ?case using group_enable_bit [of p j] by (fastforce simp: bit_or_iff split: if_splits)
  qed simp
  then show "bit (ppi_groups props) j \<Longrightarrow> j = 0 \<or> j = 2" unfolding ppi_groups_def by force
qed

definition rdistif_effect :: "gic_hw \<Rightarrow> u64 \<Rightarrow> u64 \<Rightarrow> interrupt_prop_t list \<Rightarrow> gic_bank \<Rightarrow> gic_bank" where
  "rdistif_effect H gd b props m =
     (let m' = fold (secure_ppi_effect H b) props (ppi_defaults H b m)
      in if b32 m gd AND ppi_groups props \<noteq> ppi_groups props then bank_write H gd (b32 m' gd OR ppi_groups props) m' else m')"

context gic_hardware
begin

section \<open>The effects\<close>

lemma gicr_frame:
  assumes "b \<in> set rds"
  shows "hw_kind H (b + of_nat 0x10080) = Plain_reg" "hw_live H (b + of_nat 0x10080) = 0"
    "hw_kind H (b + of_nat 0x10d00) = Plain_reg" "hw_live H (b + of_nat 0x10d00) = 0"
    "hw_kind H (b + of_nat 0x10100) = Set_reg" "hw_live H (b + of_nat 0x10100) = 0"
    "hw_kind H (b + of_nat 0x10c04) = Plain_reg" "hw_live H (b + of_nat 0x10c04) = 0"
    "hw_kind H (b + of_nat 0x10180) = Clear_reg" "b + of_nat 0x10180 - 0x80 = b + of_nat 0x10100"
    "i < 32 \<Longrightarrow> hw_kind H (gicd_at b 0x10400 4 i) = Plain_reg"
proof -
  note d = gicr_kind_def intr_reg_kind_def
  show k: "hw_kind H (b + of_nat 0x10080) = Plain_reg" "hw_kind H (b + of_nat 0x10d00) = Plain_reg"
    "hw_kind H (b + of_nat 0x10100) = Set_reg" "hw_kind H (b + of_nat 0x10c04) = Plain_reg"
    "hw_kind H (b + of_nat 0x10180) = Clear_reg"
    by (subst kind_gicr [OF assms]; simp add: d)+
  show "hw_live H (b + of_nat 0x10080) = 0" "hw_live H (b + of_nat 0x10d00) = 0" "hw_live H (b + of_nat 0x10c04) = 0"
    by (rule live_gicr [OF assms]; simp add: d)+
  show "hw_live H (b + of_nat 0x10100) = 0" using live_enable(2) [OF assms] by simp
  show "b + of_nat 0x10180 - 0x80 = b + of_nat 0x10100" by simp
  show "hw_kind H (gicd_at b 0x10400 4 i) = Plain_reg" if "i < 32"
  proof -
    have q: "i div 4 < 8" using that by linarith
    then have "gicr_kind (0x10400 + 4 * (i div 4)) = Plain_reg"
      by (simp add: d mod_add_eq)
    then show ?thesis unfolding gicd_at_def using q by (subst kind_gicr [OF assms]) simp_all
  qed
qed

lemma does_gicr:
  assumes "b \<in> set rds" "off < 0x20000" "off \<noteq> 0x14"
  shows "gic_acts G H rds (gic_mmio_write_32 G (b + of_nat off) v) (bank_write H (b + of_nat off) v)"
  by (rule does_gicr_write [OF assms])

lemma gicr_addr:
  "b + GICR_IGROUPR0 = b + of_nat 0x10080" "b + GICR_IGRPMODR0 = b + of_nat 0x10d00" "b + GICR_ISENABLER0 = b + of_nat 0x10100"
  "b + GICR_ICENABLER0 = b + of_nat 0x10180" "b + GICR_ICFGR1 = b + of_nat 0x10c04"
  by simp_all

lemma does_ppi_defaults:
  assumes b: "b \<in> set rds"
  shows "gic_acts G H rds (gicv3_ppi_sgi_config_defaults G b) (ppi_defaults H b)"
proof -
  have prio: "gic_acts G H rds (for_ids (id_range 0 32 4) (\<lambda>i. gic_mmio_write_32 G (gicd_at b 0x10400 4 i) v))
      (write_all H (gicd_at b 0x10400 4) (\<lambda>_. v) (id_range 0 32 4))" for v
    unfolding write_all_def
  proof (rule gic_acts_for)
    fix i assume "i \<in> set (id_range 0 32 4)"
    then have "i < 32" using id_range_bounds [of i 0 32 4] by simp
    then have "0x10400 + 4 * (i div 4) < 0x20000" "0x10400 + 4 * (i div 4) \<noteq> 0x14" by auto
    from does_gicr [OF b this] show "gic_acts G H rds (gic_mmio_write_32 G (gicd_at b 0x10400 4 i) v) (bank_write H (gicd_at b 0x10400 4 i) v)"
      unfolding gicd_at_def .
  qed
  have w: "gic_acts G H rds (gic_mmio_write_32 G (b + of_nat off) v) (bank_write H (b + of_nat off) v)"
    if "off = 0x10180 \<or> off = 0x10080 \<or> off = 0x10c04" for off v
    using that by (intro does_gicr b) auto
  show ?thesis
    unfolding gicv3_ppi_sgi_config_defaults_def gicr_write_icenabler0_def gicr_write_igroupr0_def gicr_write_ipriorityr_def
      gicr_write_icfgr1_def gicd_addrs gicr_addr ppi_defaults_def [abs_def]
    by (rule gic_acts_then [OF w gic_acts_then [OF does_redist_wait [OF b] gic_acts_then [OF w gic_acts_then [OF prio w]]]]; simp)
qed

lemma does_gicr_priority:
  assumes b: "b \<in> set rds" and i: "i < 32"
  shows "gic_acts G H rds (gicr_set_ipriorityr G b i pri) (bank_write8 H (gicd_at b 0x10400 4 i) (i mod 4) (ucast (pri AND GIC_PRI_MASK)))"
proof -
  have "gicd_at b 0x10400 4 i + of_nat (i mod 4) = b + of_nat (0x10400 + (4 * (i div 4) + i mod 4))"
    by (simp only: gicd_at_def of_nat_add add.assoc)
  then have a0: "gicd_at b 0x10400 4 i + of_nat (i mod 4) = b + of_nat (0x10400 + i)"
    by (simp only: mult_div_mod_eq)
  then have a: "b + GICR_IPRIORITYR + of_nat i = gicd_at b 0x10400 4 i + of_nat (i mod 4)"
    by simp
  have w: "gicd_at b 0x10400 4 i \<notin> (\<lambda>b. b + GICR_WAKER) ` set rds"
    unfolding gicd_at_def by (rule waker_addr) (use i b in \<open>linarith, simp, simp\<close>)
  show ?thesis
    unfolding gicr_set_ipriorityr_def a by (rule does_write_8 [OF gicr_frame(11) [OF b i] _ w]) simp
qed

lemma does_secure_ppi:
  assumes b: "b \<in> set rds" and p: "prop_ok p"
  shows "gic_does G H rds (secure_ppi_sgi_config dbg G b p a)
    (\<lambda>_. if intr_num p \<ge> MIN_SPI_ID then a else a OR group_enable p) (secure_ppi_effect H b p)"
proof (cases "intr_num p \<ge> MIN_SPI_ID")
  case True
  then show ?thesis by (simp add: secure_ppi_sgi_config_def secure_ppi_effect_def [abs_def] gic_does_mret)
next
  case False
  let ?i = "intr_num p"
  have i: "?i < 32" "intr_grp p = INTR_GROUP0 \<or> intr_grp p = INTR_GROUP1S" using p False by (auto simp: prop_ok_def)
  have bit: "id_bit 5 ?i = push_bit ?i 1" using i(1) by (simp add: id_bit_def reg_bit_def)
  have f: "(0x10080 :: nat) \<noteq> 0" "(0x10080 :: nat) \<noteq> 0x14" "(0x10080 :: nat) < 0x20000" "gicr_kind 0x10080 = Plain_reg"
    "(0x10d00 :: nat) \<noteq> 0" "(0x10d00 :: nat) \<noteq> 0x14" "(0x10d00 :: nat) < 0x20000" "gicr_kind 0x10d00 = Plain_reg"
    by (simp_all add: gicr_kind_def intr_reg_kind_def)
  have ig: "gic_acts G H rds (gicr_clr_igroupr0 G b ?i) (bank_bit H (b + of_nat 0x10080) ?i False)"
    unfolding gicr_clr_igroupr0_def gicr_read_igroupr0_def gicr_write_igroupr0_def gicr_addr bit
    by (rule does_gicr_bit(2) [OF b f(1-4)])
  have grp: "gic_acts G H rds (if intr_grp p = INTR_GROUP1S then gicr_set_igrpmodr0 G b ?i else gicr_clr_igrpmodr0 G b ?i)
      (bank_bit H (b + of_nat 0x10d00) ?i (intr_grp p = INTR_GROUP1S))"
    unfolding gicr_set_igrpmodr0_def gicr_clr_igrpmodr0_def gicr_read_igrpmodr0_def gicr_write_igrpmodr0_def gicr_addr bit
    using does_gicr_bit [OF b f(5-8)] by simp
  have cfg: "gic_acts G H rds (mwhen (?i \<ge> MIN_PPI_ID \<and> ?i < MIN_SPI_ID) (gicr_set_icfgr1 G b ?i (intr_cfg p)))
      (\<lambda>m. if ?i \<ge> MIN_PPI_ID then bank_write H (b + of_nat 0x10c04) (cfg_insert (intr_cfg p) ?i (b32 m (b + of_nat 0x10c04))) m else m)"
  proof -
    have "gic_acts G H rds (gicr_set_icfgr1 G b ?i (intr_cfg p))
        (\<lambda>m. bank_write H (b + of_nat 0x10c04) (cfg_insert (intr_cfg p) ?i (b32 m (b + of_nat 0x10c04))) m)"
      unfolding gicr_set_icfgr1_def gicr_read_icfgr1_def gicr_write_icfgr1_def gicr_addr
      by (rule does_change [OF gicr_frame(7) [OF b] waker_addr [OF _ _ b]])
        (simp_all only: gicr_frame(8) [OF b], simp_all)
    then have "gic_acts G H rds (mwhen (?i \<ge> MIN_PPI_ID) (gicr_set_icfgr1 G b ?i (intr_cfg p)))
        (\<lambda>m. if ?i \<ge> MIN_PPI_ID then bank_write H (b + of_nat 0x10c04) (cfg_insert (intr_cfg p) ?i (b32 m (b + of_nat 0x10c04))) m else m)"
      by (rule gic_acts_mwhen)
    moreover have "(?i \<ge> MIN_PPI_ID \<and> ?i < MIN_SPI_ID) = (?i \<ge> MIN_PPI_ID)" using i(1) by simp
    ultimately show ?thesis by (simp only:)
  qed
  have en: "gic_acts G H rds (gicr_set_isenabler0 G b ?i) (bank_write H (b + of_nat 0x10100) (id_bit 5 ?i))"
    unfolding gicr_set_isenabler0_def gicr_write_isenabler0_def gicr_addr
    by (rule does_gicr [OF b]) simp_all
  have ret: "gic_does G H rds (mret (a OR group_enable p)) (\<lambda>_. a OR group_enable p) (\<lambda>b. b)"
    by (rule gic_does_mret)
  have code: "secure_ppi_sgi_config dbg G b p a =
      mbind (gicr_clr_igroupr0 G b ?i) (\<lambda>_.
      mbind (if intr_grp p = INTR_GROUP1S then gicr_set_igrpmodr0 G b ?i else gicr_clr_igrpmodr0 G b ?i) (\<lambda>_.
      mbind (gicr_set_ipriorityr G b ?i (intr_pri p)) (\<lambda>_.
      mbind (mwhen (?i \<ge> MIN_PPI_ID \<and> ?i < MIN_SPI_ID) (gicr_set_icfgr1 G b ?i (intr_cfg p))) (\<lambda>_.
      mbind (gicr_set_isenabler0 G b ?i) (\<lambda>_. mret (a OR group_enable p))))))"
    unfolding secure_ppi_sgi_config_def group_enable_def dbg_assert_holds [OF i(2)] using False by simp
  have effect: "secure_ppi_effect H b p = (\<lambda>m.
      let m = bank_bit H (b + of_nat 0x10080) ?i False m;
          m = bank_bit H (b + of_nat 0x10d00) ?i (intr_grp p = INTR_GROUP1S) m;
          m = bank_write8 H (gicd_at b 0x10400 4 ?i) (?i mod 4) (ucast (intr_pri p AND GIC_PRI_MASK)) m;
          m = (if ?i \<ge> MIN_PPI_ID then bank_write H (b + of_nat 0x10c04) (cfg_insert (intr_cfg p) ?i (b32 m (b + of_nat 0x10c04))) m else m)
      in bank_write H (b + of_nat 0x10100) (id_bit 5 ?i) m)"
    using False by (intro ext) (simp add: secure_ppi_effect_def Let_def)
  note steps = gic_acts_then_ret [OF ig gic_acts_then_ret [OF grp gic_acts_then_ret [OF does_gicr_priority [OF b i(1), of "intr_pri p"]
    gic_acts_then_ret [OF cfg gic_acts_then_ret [OF en ret]]]]]
  show ?thesis
    unfolding code effect Let_def using False steps by simp
qed

section \<open>The groups and enables of the private interrupts\<close>

lemma frame_neq:
  fixes b :: u64
  shows "i < 32 \<Longrightarrow> x < 0x10400 \<or> 0x10420 \<le> x \<Longrightarrow> x < 0x20000 \<Longrightarrow> gicd_at b 0x10400 4 i \<noteq> b + of_nat x"
    and "x < 0x20000 \<Longrightarrow> y < 0x20000 \<Longrightarrow> b + of_nat x = b + of_nat y \<longleftrightarrow> x = y"
proof -
  show "b + of_nat x = b + of_nat y \<longleftrightarrow> x = y" if "x < 0x20000" "y < 0x20000" for x y using that by (intro off_eq) simp_all
  assume a: "i < 32" "x < 0x10400 \<or> 0x10420 \<le> x" "x < 0x20000"
  have "i div 4 < 8" using a(1) by linarith
  then show "gicd_at b 0x10400 4 i \<noteq> b + of_nat x" using a off_eq [of "0x10400 + 4 * (i div 4)" x b] unfolding gicd_at_def by auto
qed

lemma ppi_prio_other:
  assumes "b \<in> set rds" "\<And>i. i < 32 \<Longrightarrow> a \<noteq> gicd_at b 0x10400 4 i"
  shows "b32 (write_all H (gicd_at b 0x10400 4) v (id_range 0 32 4) m) a = b32 m a"
proof -
  have i: "i < 32" if "i \<in> set (id_range 0 32 4)" for i using id_range_bounds [OF that] by simp
  then have "a \<notin> gicd_at b 0x10400 4 ` set (id_range 0 32 4)" using assms(2) by blast
  then show ?thesis using gicr_frame(11) [OF assms(1)] i by (intro write_all_other) blast
qed

lemma ppi_defaults_at:
  assumes b: "b \<in> set rds"
  shows "b32 (ppi_defaults H b m) (b + of_nat 0x10080) = reg_update H (b + of_nat 0x10080) (NOT 0) (b32 m (b + of_nat 0x10080))"
    and "b32 (ppi_defaults H b m) (b + of_nat 0x10100) = 0"
proof -
  have p: "b + of_nat 0x10080 \<noteq> gicd_at b 0x10400 4 i" "b + of_nat 0x10100 \<noteq> gicd_at b 0x10400 4 i" if "i < 32" for i
    by (rule not_sym, rule frame_neq(1) [OF that]; simp)+
  note f = gicr_frame(1-10) [OF b]
  have n: "b + of_nat 0x10080 \<noteq> b + of_nat 0x10c04" "b + of_nat 0x10100 \<noteq> b + of_nat 0x10c04"
    "b + of_nat 0x10080 \<noteq> b + of_nat 0x10100" "b + of_nat 0x10100 \<noteq> b + of_nat 0x10080"
    by (subst frame_neq(2); simp)+
  note w = bank_write_update [of H "b + of_nat 0x10c04"] bank_write_update [of H "b + of_nat 0x10080"] bank_write_clear [OF f(9)]
  show "b32 (ppi_defaults H b m) (b + of_nat 0x10080) = reg_update H (b + of_nat 0x10080) (NOT 0) (b32 m (b + of_nat 0x10080))"
    unfolding ppi_defaults_def using n f(1,7) by (simp only: w ppi_prio_other [OF b p(1)] f(10) simp_thms if_False if_True)
  show "b32 (ppi_defaults H b m) (b + of_nat 0x10100) = 0"
    unfolding ppi_defaults_def using n f(1,7) by (simp only: w ppi_prio_other [OF b p(2)] f(10) simp_thms if_False if_True) simp
qed

lemma ppi_effects_other:
  assumes b: "b \<in> set rds" and a: "\<And>off. off < 0x20000 \<Longrightarrow> a \<noteq> b + of_nat off"
  shows "b32 (ppi_defaults H b m) a = b32 m a" "b32 (secure_ppi_effect H b p m) a = b32 m a"
proof -
  have a': "a \<noteq> b + of_nat 0x10080" "a \<noteq> b + of_nat 0x10d00" "a \<noteq> b + of_nat 0x10100" "a \<noteq> b + of_nat 0x10c04"
    by (rule a; simp)+
  have g: "a \<noteq> gicd_at b 0x10400 4 i" if "i < 32" for i
    unfolding gicd_at_def by (rule a) (use that in linarith)
  note f = gicr_frame(1-10) [OF b]
  note w = bank_write_update [of H "b + of_nat 0x10c04"] bank_write_update [of H "b + of_nat 0x10080"]
    bank_write_update [of H "b + of_nat 0x10100"] bank_write_clear [OF f(9)]
    bank_bit_other [OF f(1) a'(1)] bank_bit_other [OF f(3) a'(2)]
  show "b32 (ppi_defaults H b m) a = b32 m a"
    unfolding ppi_defaults_def using a' f(1,7) by (simp only: w ppi_prio_other [OF b g] f(10) simp_thms if_False)
  show "b32 (secure_ppi_effect H b p m) a = b32 m a"
  proof (cases "intr_num p < 32")
    case True
    have "b32 (bank_write8 H (gicd_at b 0x10400 4 (intr_num p)) k v m) a = b32 m a" for k v m
      unfolding bank_write8_def using gicr_frame(11) [OF b True] g [OF True] by (simp add: bank_write_update)
    with a' f True show ?thesis
      unfolding secure_ppi_effect_def Let_def by (simp only: w simp_thms if_False split: if_split)
  qed (simp add: secure_ppi_effect_def)
qed

lemma secure_ppi_at:
  assumes b: "b \<in> set rds" and i: "intr_num p < 32"
  shows "b32 (secure_ppi_effect H b p m) (b + of_nat 0x10080) = b32 (bank_bit H (b + of_nat 0x10080) (intr_num p) False m) (b + of_nat 0x10080)"
    and "b32 (secure_ppi_effect H b p m) (b + of_nat 0x10d00) =
      b32 (bank_bit H (b + of_nat 0x10d00) (intr_num p) (intr_grp p = INTR_GROUP1S) m) (b + of_nat 0x10d00)"
    and "b32 (secure_ppi_effect H b p m) (b + of_nat 0x10100) =
      reg_update H (b + of_nat 0x10100) (id_bit 5 (intr_num p)) (b32 m (b + of_nat 0x10100))"
proof -
  note f = gicr_frame(1-10) [OF b]
  have n: "(b + of_nat x = b + of_nat y) = (x = y)" if "x \<in> {0x10080, 0x10d00, 0x10100, 0x10c04}" "y \<in> {0x10080, 0x10d00, 0x10100, 0x10c04}" for x y
    using that by (intro frame_neq(2)) auto
  have n8: "b32 (bank_write8 H (gicd_at b 0x10400 4 (intr_num p)) k v m) (b + of_nat x) = b32 m (b + of_nat x)"
    if "x \<in> {0x10080, 0x10d00, 0x10100, 0x10c04}" for x k v m
  proof -
    have "gicd_at b 0x10400 4 (intr_num p) \<noteq> b + of_nat x" using that by (intro frame_neq(1) [OF i]) auto
    then show ?thesis unfolding bank_write8_def using gicr_frame(11) [OF b i] by (subst bank_write_update) auto
  qed
  have bb: "b32 (bank_bit H (b + of_nat y) k val m) (b + of_nat x) = b32 m (b + of_nat x)"
    if "x \<noteq> y" "x \<in> {0x10080, 0x10d00, 0x10100, 0x10c04}" "y = 0x10080 \<or> y = 0x10d00" for x y k val m
  proof (rule bank_bit_other)
    show "hw_kind H (b + of_nat y) = Plain_reg" using that(3) f(1,3) by blast
    show "b + of_nat x \<noteq> b + of_nat y" using that n [of x y] by auto
  qed
  have bw: "b32 (bank_write H (b + of_nat y) v m) (b + of_nat x) = (if x = y then reg_update H (b + of_nat y) v (b32 m (b + of_nat y)) else b32 m (b + of_nat x))"
    if "x \<in> {0x10080, 0x10d00, 0x10100, 0x10c04}" "y = 0x10c04 \<or> y = 0x10100" for x y v m
    using that n [of x y] f(5,7) by (subst bank_write_update) auto
  have own: "b32 (bank_bit H a k val m') a = b32 (bank_bit H a k val m) a" if "hw_kind H a = Plain_reg" "b32 m' a = b32 m a" for a k val m m'
    using that by (simp add: bank_bit_def bank_write_update)
  have cfg: "b32 (if c then bank_write H (b + of_nat 0x10c04) v m else m) (b + of_nat x) = b32 m (b + of_nat x)"
    if "x \<in> {0x10080, 0x10d00, 0x10100}" for c v x m using that bw [of x "0x10c04"] by (cases c) auto
  have i': "\<not> MIN_SPI_ID \<le> intr_num p" using i by simp
  have e: "b32 (bank_write H (b + of_nat 0x10100) v m) (b + of_nat 0x10080) = b32 m (b + of_nat 0x10080)"
    "b32 (bank_write H (b + of_nat 0x10100) v m) (b + of_nat 0x10d00) = b32 m (b + of_nat 0x10d00)"
    "b32 (bank_write H (b + of_nat 0x10100) v m) (b + of_nat 0x10100) = reg_update H (b + of_nat 0x10100) v (b32 m (b + of_nat 0x10100))" for v m
    by (subst bw; simp)+
  have c: "b32 (if c then bank_write H (b + of_nat 0x10c04) v m else m) (b + of_nat 0x10080) = b32 m (b + of_nat 0x10080)"
    "b32 (if c then bank_write H (b + of_nat 0x10c04) v m else m) (b + of_nat 0x10d00) = b32 m (b + of_nat 0x10d00)"
    "b32 (if c then bank_write H (b + of_nat 0x10c04) v m else m) (b + of_nat 0x10100) = b32 m (b + of_nat 0x10100)" for c v m
    by (rule cfg; simp)+
  have w: "b32 (bank_write8 H (gicd_at b 0x10400 4 (intr_num p)) k v m) (b + of_nat 0x10080) = b32 m (b + of_nat 0x10080)"
    "b32 (bank_write8 H (gicd_at b 0x10400 4 (intr_num p)) k v m) (b + of_nat 0x10d00) = b32 m (b + of_nat 0x10d00)"
    "b32 (bank_write8 H (gicd_at b 0x10400 4 (intr_num p)) k v m) (b + of_nat 0x10100) = b32 m (b + of_nat 0x10100)" for k v m
    by (rule n8; simp)+
  have g: "b32 (bank_bit H (b + of_nat 0x10d00) k val m) (b + of_nat 0x10080) = b32 m (b + of_nat 0x10080)"
    "b32 (bank_bit H (b + of_nat 0x10d00) k val m) (b + of_nat 0x10100) = b32 m (b + of_nat 0x10100)"
    "b32 (bank_bit H (b + of_nat 0x10080) k val m) (b + of_nat 0x10100) = b32 m (b + of_nat 0x10100)"
    "b32 (bank_bit H (b + of_nat 0x10080) k val m) (b + of_nat 0x10d00) = b32 m (b + of_nat 0x10d00)" for k val m
    by (rule bb; simp)+
  show "b32 (secure_ppi_effect H b p m) (b + of_nat 0x10080) = b32 (bank_bit H (b + of_nat 0x10080) (intr_num p) False m) (b + of_nat 0x10080)"
    unfolding secure_ppi_effect_def Let_def if_not_P [OF i'] e c w g by (rule refl)
  show "b32 (secure_ppi_effect H b p m) (b + of_nat 0x10d00) =
      b32 (bank_bit H (b + of_nat 0x10d00) (intr_num p) (intr_grp p = INTR_GROUP1S) m) (b + of_nat 0x10d00)"
    unfolding secure_ppi_effect_def Let_def if_not_P [OF i'] e c w by (rule own [OF f(3)]) (rule g)
  show "b32 (secure_ppi_effect H b p m) (b + of_nat 0x10100) =
      reg_update H (b + of_nat 0x10100) (id_bit 5 (intr_num p)) (b32 m (b + of_nat 0x10100))"
    unfolding secure_ppi_effect_def Let_def if_not_P [OF i'] e c w g by (rule refl)
qed

lemma secure_ppi_type:
  assumes b: "b \<in> set rds" and p: "prop_ok p" "intr_num p < 32 \<Longrightarrow> ppi_implemented H b (intr_num p)" and j: "j < 32"
  shows "ppi_type b (secure_ppi_effect H b p m) j = (if intr_num p = j then intr_grp p else ppi_type b m j)"
    and "ppi_enabled b (secure_ppi_effect H b p m) j = (intr_num p = j \<or> ppi_enabled b m j)"
proof -
  have "ppi_type b (secure_ppi_effect H b p m) j = (if intr_num p = j then intr_grp p else ppi_type b m j) \<and>
    ppi_enabled b (secure_ppi_effect H b p m) j = (intr_num p = j \<or> ppi_enabled b m j)"
  proof (cases "intr_num p < 32")
    case True
    note f = gicr_frame(1-10) [OF b]
    have wr: "bit (hw_writable H (b + of_nat x)) (intr_num p)" if "x \<in> {0x10080, 0x10d00, 0x10100}" for x
      using p(2) [OF True] that unfolding ppi_implemented_def by blast
    have id: "bit (id_bit 5 (intr_num p)) j \<longleftrightarrow> intr_num p = j"
      using True by (auto simp: id_bit_def reg_bit_def bit_exp_iff)
    note at = secure_ppi_at [OF b True]
    have "ppi_type b (secure_ppi_effect H b p m) j = (if intr_num p = j then intr_grp p else ppi_type b m j)"
      unfolding ppi_type_def at bank_bit_bit [OF f(1,2) True] bank_bit_bit [OF f(3,4) True]
      using wr [of "0x10080"] wr [of "0x10d00"] p(1) by (auto simp: group_of_def prop_ok_def)
    moreover have "ppi_enabled b (secure_ppi_effect H b p m) j = (intr_num p = j \<or> ppi_enabled b m j)"
      unfolding ppi_enabled_def at reg_update_def f(5,6)
      using id wr [of "0x10100"] by (auto simp: bit_or_iff bit_and_iff)
    ultimately show ?thesis by blast
  next
    case False
    then show ?thesis using j by (simp add: secure_ppi_effect_def)
  qed
  then show "ppi_type b (secure_ppi_effect H b p m) j = (if intr_num p = j then intr_grp p else ppi_type b m j)"
    "ppi_enabled b (secure_ppi_effect H b p m) j = (intr_num p = j \<or> ppi_enabled b m j)" by blast+
qed

lemma ctlr_read: "gic_read_32 G d gd AND w = b32 (bank_of G H d) gd AND w" if "w AND GICD_CTLR_RWP_BIT = 0" for w
proof -
  have "hw_kind H gd = Plain_reg" using kind_gicd [of 0] by (simp add: gicd_kind_def intr_reg_kind_def)
  then have e: "b32 (bank_of G H d) gd = gic_read_32 G d gd AND NOT GICD_CTLR_RWP_BIT" by (simp add: bank_of_def live_ctlr(1))
  show ?thesis unfolding e using and_not_disjoint [OF that] by (simp only: and.assoc and.commute [of "NOT GICD_CTLR_RWP_BIT"])
qed

lemma gicd_rdistif_runs:
  assumes data: "gicv3_driver_data s = Some data" "gicd_base data = gd" "gd \<noteq> 0" "list_all prop_ok (interrupt_props data)"
    and core: "core < rdistif_num data" "core < length (rdistif_base_addrs s)" "rdistif_base_addrs s ! core = b" "b \<in> set rds"
    and are: "b32 (bank_of G H (gic_dev s)) gd AND CTLR_ARE_S_BIT \<noteq> 0"
  obtains d where "gicv3_rdistif_init dbg G core s = Ret () (s\<lparr>gic_dev := d\<rparr>)"
    "bank_of G H d = rdistif_effect H gd b (interrupt_props data) (bank_of G H (gic_dev s))"
    "\<And>b. b \<in> set rds \<Longrightarrow> rd_asleep G b (gic_dev s) \<Longrightarrow> rd_asleep G b d"
proof -
  let ?props = "interrupt_props data" and ?g = "ppi_groups (interrupt_props data)"
  let ?ctlr = "gic_read_32 G (gic_dev s) gd"
  have g: "?g AND GICD_CTLR_RWP_BIT = 0"
  proof (rule bit_eqI)
    fix j
    have "bit (GICD_CTLR_RWP_BIT :: u32) j \<longleftrightarrow> j = 31" using bit_exp_iff [of 31 j, where ?'a = "32 word"] by auto
    then show "bit (?g AND GICD_CTLR_RWP_BIT) j = bit (0 :: u32) j" using ppi_groups_bit [of ?props j] by (auto simp: bit_and_iff)
  qed
  have raw: "?ctlr AND ?g = b32 (bank_of G H (gic_dev s)) gd AND ?g" "?ctlr AND CTLR_ARE_S_BIT \<noteq> 0"
    using ctlr_read [OF g, of "gic_dev s"] ctlr_read [of "CTLR_ARE_S_BIT" "gic_dev s"] are by simp_all
  have props: "gic_does G H rds (gicv3_secure_ppi_sgi_config_props dbg G b ?props) (\<lambda>_. ?g) (fold (secure_ppi_effect H b) ?props)"
    unfolding gicv3_secure_ppi_sgi_config_props_def ppi_groups_def
    using data(4) by (intro gic_does_mfold does_secure_ppi [OF core(4)]) (simp add: list_all_iff)
  let ?body = "mbind (gicv3_ppi_sgi_config_defaults G b) (\<lambda>_. mbind (gicv3_secure_ppi_sgi_config_props dbg G b ?props) (\<lambda>bitmap.
      mwhen (?ctlr AND bitmap \<noteq> bitmap) (gicd_set_ctlr G gd bitmap True)))"
  have "gic_acts G H rds ?body (\<lambda>m. let m' = fold (secure_ppi_effect H b) ?props (ppi_defaults H b m)
      in if ?ctlr AND ?g \<noteq> ?g then bank_write H gd (b32 m' gd OR ?g) m' else m')"
    unfolding Let_def
    by (rule gic_acts_then [OF does_ppi_defaults [OF core(4)] gic_does_mbind [OF props gic_acts_mwhen [OF does_ctlr(1)]]])
  then obtain d where d: "?body s = Ret () (s\<lparr>gic_dev := d\<rparr>)"
      "bank_of G H d = (let m' = fold (secure_ppi_effect H b) ?props (ppi_defaults H b (bank_of G H (gic_dev s)))
      in if ?ctlr AND ?g \<noteq> ?g then bank_write H gd (b32 m' gd OR ?g) m' else m')"
      "\<And>b. b \<in> set rds \<Longrightarrow> rd_asleep G b (gic_dev s) \<Longrightarrow> rd_asleep G b d" by (rule gic_doesD) blast
  have "gicv3_rdistif_init dbg G core s = ?body s"
    unfolding gicv3_rdistif_init_def driver_data_run [OF data(1)] gicd_read_ctlr_def gic_mmio_read_32_def data(2) gicv3_rdistif_on_def
    using data(3) core(1) raw(2) redist_base_run [OF core(1,2)] by (simp add: core(3))
  then show thesis using that d by (simp add: rdistif_effect_def raw(1))
qed

lemma secure_ppis_type:
  assumes b: "b \<in> set rds" and props: "list_all prop_ok props" "\<And>p. p \<in> set props \<Longrightarrow> intr_num p < 32 \<Longrightarrow> ppi_implemented H b (intr_num p)"
    and j: "j < 32"
  shows "ppi_type b (fold (secure_ppi_effect H b) props m) j = fold (\<lambda>p t. if intr_num p = j then intr_grp p else t) props (ppi_type b m j)"
    and "ppi_enabled b (fold (secure_ppi_effect H b) props m) j = (ppi_enabled b m j \<or> (\<exists>p\<in>set props. intr_num p = j))"
  using props by (induction props arbitrary: m) (auto simp: secure_ppi_type [OF b _ _ j])

lemma secure_ppis_other:
  assumes "b \<in> set rds" "\<And>off. off < 0x20000 \<Longrightarrow> a \<noteq> b + of_nat off"
  shows "b32 (fold (secure_ppi_effect H b) props m) a = b32 m a"
  by (induction props arbitrary: m) (simp_all add: ppi_effects_other(2) [OF assms])

lemma gd_frame: "b \<in> set rds \<Longrightarrow> off < 0x20000 \<Longrightarrow> gd \<noteq> b + of_nat off"
  using gicd_gicr [of b 0 off] by simp

lemma rdistif_other:
  assumes "b \<in> set rds" "a \<noteq> gd" "\<And>off. off < 0x20000 \<Longrightarrow> a \<noteq> b + of_nat off"
  shows "b32 (rdistif_effect H gd b props m) a = b32 m a"
  unfolding rdistif_effect_def Let_def
  by (simp add: ctlr_other [OF assms(2)] secure_ppis_other [OF assms(1,3)] ppi_effects_other(1) [OF assms(1,3)])

lemma rdistif_spi:
  assumes "b \<in> set rds" "i < 1024"
  shows "spi_type gd (rdistif_effect H gd b props m) i = spi_type gd m i"
    and "spi_enabled gd (rdistif_effect H gd b props m) i = spi_enabled gd m i"
proof -
  have same: "b32 (rdistif_effect H gd b props m) (gicd_at gd off 32 i) = b32 m (gicd_at gd off 32 i)" if o: "off \<in> {0x80, 0xd00, 0x100}" for off
  proof (rule rdistif_other [OF assms(1)])
    show "gicd_at gd off 32 i \<noteq> gd" using watched_ctlr [OF watched_gicd [OF assms(2) o]] .
    have "i div 32 < 32" using assms(2) by linarith
    then have l: "off + 4 * (i div 32) < 0x10000" using o by auto
    show "gicd_at gd off 32 i \<noteq> b + of_nat x" if "x < 0x20000" for x
      unfolding gicd_at_def by (rule gicd_gicr [OF assms(1) l that])
  qed
  show "spi_type gd (rdistif_effect H gd b props m) i = spi_type gd m i"
    by (rule bank_spi_cong(1)) (rule same)
  show "spi_enabled gd (rdistif_effect H gd b props m) i = spi_enabled gd m i"
    by (rule bank_spi_cong(2)) (rule same)
qed

lemma rdistif_types:
  assumes b: "b \<in> set rds" and props: "list_all prop_ok props" "\<And>p. p \<in> set props \<Longrightarrow> intr_num p < 32 \<Longrightarrow> ppi_implemented H b (intr_num p)"
    and j: "j < 32" "ppi_implemented H b j"
  shows "ppi_type b (rdistif_effect H gd b props m) j = configured_type props j"
    and "ppi_enabled b (rdistif_effect H gd b props m) j = (\<exists>p\<in>set props. intr_num p = j)"
proof -
  let ?m = "fold (secure_ppi_effect H b) props (ppi_defaults H b m)"
  have same: "b32 (rdistif_effect H gd b props m) (b + of_nat off) = b32 ?m (b + of_nat off)" if "off < 0x20000" for off
    unfolding rdistif_effect_def Let_def using ctlr_other [OF not_sym [OF gd_frame [OF b that]]] by simp
  note f = gicr_frame(1-10) [OF b] and at = ppi_defaults_at [OF b]
  have w: "bit (hw_writable H (b + of_nat 0x10080)) j" using j(2) unfolding ppi_implemented_def by blast
  have "bit (reg_update H (b + of_nat 0x10080) (NOT 0) x) j" for x
    unfolding reg_update_bit [OF f(1,2)] using w j(1) by (simp add: bit_not_iff)
  then have "ppi_type b (ppi_defaults H b m) j = INTR_GROUP1NS"
    unfolding ppi_type_def at group_of_def by (simp only: if_True)
  moreover have "ppi_type b (rdistif_effect H gd b props m) j = ppi_type b ?m j"
    unfolding ppi_type_def using same [of "0x10080"] same [of "0x10d00"] by (simp del: of_nat_numeral)
  ultimately show "ppi_type b (rdistif_effect H gd b props m) j = configured_type props j"
    unfolding configured_type_def using secure_ppis_type(1) [OF b props j(1), of "ppi_defaults H b m"] by simp
  have "\<not> ppi_enabled b (ppi_defaults H b m) j" unfolding ppi_enabled_def at by simp
  moreover have "ppi_enabled b (rdistif_effect H gd b props m) j = ppi_enabled b ?m j"
    unfolding ppi_enabled_def using same [of "0x10100"] by (simp del: of_nat_numeral)
  ultimately show "ppi_enabled b (rdistif_effect H gd b props m) j = (\<exists>p\<in>set props. intr_num p = j)"
    using secure_ppis_type(2) [OF b props j(1), of "ppi_defaults H b m"] by simp
qed

lemma rdistif_ctlr:
  assumes b: "b \<in> set rds" and w: "hw_writable H gd AND 0x37 = 0x37"
  shows "b32 (rdistif_effect H gd b props m) gd AND 0x37 = (b32 m gd AND 0x37) OR ppi_groups props"
proof (rule bit_eqI)
  fix j
  let ?g = "ppi_groups props"
  have g: "bit ?g j \<Longrightarrow> bit (0x37 :: u32) j" using ppi_groups_bit [of props j] ctlr_masks(1) [of j] by auto
  have gd: "b32 (fold (secure_ppi_effect H b) props (ppi_defaults H b m)) gd = b32 m gd"
    using secure_ppis_other [OF b gd_frame [OF b]] ppi_effects_other(1) [OF b gd_frame [OF b]] by simp
  have wj: "bit (hw_writable H gd) j" if "bit (0x37 :: u32) j" using w that by (metis bit_and_iff)
  have j31: "j < 31" if "bit (0x37 :: u32) j" using that ctlr_masks(1) [of j] by auto
  show "bit (b32 (rdistif_effect H gd b props m) gd AND 0x37) j = bit ((b32 m gd AND 0x37) OR ?g) j"
  proof (cases "b32 m gd AND ?g = ?g")
    case True
    then have "bit ?g j \<Longrightarrow> bit (b32 m gd) j" by (metis bit_and_iff)
    with True g show ?thesis unfolding rdistif_effect_def Let_def by (auto simp: gd bit_and_iff bit_or_iff simp del: bit_numeral_word_iff)
  next
    case False
    then have "rdistif_effect H gd b props m = bank_write H gd (b32 m gd OR ?g) (fold (secure_ppi_effect H b) props (ppi_defaults H b m))"
      unfolding rdistif_effect_def Let_def by (simp add: gd)
    then show ?thesis
      using g wj j31 ctlr_bit [of j] by (auto simp: bit_and_iff bit_or_iff gd simp del: bit_numeral_word_iff)
  qed
qed

end

end
