(* ===== verification/Gicv3_Power.thy ===== *)
theory Gicv3_Power
  imports Gicv3_Redist
begin

text \<open>
  Waking a core and putting it to sleep in its redistributor, and the CPU interface of the core, for
  a controller that satisfies the laws.
\<close>

text \<open>What \<^verbatim>\<open>gicv3_cpuif_enable\<close> and \<^verbatim>\<open>gicv3_cpuif_disable\<close> leave in the system registers of the core.\<close>

definition icc_on :: "icc_regs \<Rightarrow> icc_regs" where
  "icc_on c = c\<lparr>core_scr_el3 := ucast ((ucast (core_scr_el3 c) :: u32) AND NOT 1), icc_sre_el3 := icc_sre_el3 c OR 0xf,
     icc_sre_el2 := icc_sre_el2 c OR 0xf, icc_sre_el1 := (\<lambda>_. 1), icc_pmr_el1 := 0xff, icc_igrpen0_el1 := 1,
     icc_igrpen1_el3 := icc_igrpen1_el3 c OR 2\<rparr>"

definition icc_off :: "icc_regs \<Rightarrow> icc_regs" where
  "icc_off c = c\<lparr>icc_sre_el3 := icc_sre_el3 c OR 6, icc_igrpen0_el1 := icc_igrpen0_el1 c AND 0xfffffffe,
     icc_igrpen1_el3 := icc_igrpen1_el3 c AND 0xfffffffc\<rparr>"

lemma dbg_assert_run: "c \<Longrightarrow> mbind (dbg_assert dbg c) f s = f () s"
  by simp

lemma read_32_run: "mbind (gic_mmio_read_32 G a) f s = f (gic_read_32 G (gic_dev s) a) s"
  by (simp add: gic_mmio_read_32_def)

lemma write_32_run: "mbind (gic_mmio_write_32 G a v) f s = f () (s\<lparr>gic_dev := gic_write_32 G a v (gic_dev s)\<rparr>)"
  by (simp add: gic_mmio_write_32_def)

context gic_hardware
begin

text \<open>The banks agree on everything but the power state of one redistributor.\<close>

definition same_but_waker :: "u64 \<Rightarrow> 'd \<Rightarrow> 'd \<Rightarrow> bool" where
  "same_but_waker b d d' \<longleftrightarrow> b64 (bank_of G H d') = b64 (bank_of G H d) \<and>
     (\<forall>a. a \<noteq> b + GICR_WAKER \<longrightarrow> b32 (bank_of G H d') a = b32 (bank_of G H d) a)"

lemma same_but_waker_trans: "same_but_waker b d d' \<Longrightarrow> same_but_waker b d' d'' \<Longrightarrow> same_but_waker b d d''"
  by (simp add: same_but_waker_def)

lemma same_but_waker_steps: "same_but_waker b d ((gic_step G ^^ n) d)"
  by (simp add: same_but_waker_def bank_steps)

lemma same_but_waker_write:
  assumes "b \<in> set rds"
  shows "same_but_waker b d (gic_write_32 G (b + GICR_WAKER) v d)"
proof -
  have "hw_kind H (b + of_nat 0x14) = Plain_reg" by (subst kind_gicr [OF assms]) (simp_all add: gicr_kind_def)
  then show ?thesis by (simp add: same_but_waker_def write_32 bank_write_update)
qed

lemma waker_poll_runs:
  assumes "\<exists>n<gic_patience G. fin (gic_read_32 G ((gic_step G ^^ n) (gic_dev s)) a)"
  obtains d where "gic_poll (gic_patience G) G a fin s = Ret () (s\<lparr>gic_dev := d\<rparr>)" "same_but_waker b (gic_dev s) d"
    "fin (gic_read_32 G d a)"
  using poll_runs [OF assms] same_but_waker_steps by blast

lemma mark_core_awake_runs:
  assumes b: "b \<in> set rds" and a: "rd_asleep G b (gic_dev s)"
  obtains d where "gicv3_rdistif_mark_core_awake dbg G b s = Ret () (s\<lparr>gic_dev := d\<rparr>)" "same_but_waker b (gic_dev s) d"
    "gic_read_32 G d (b + GICR_WAKER) AND WAKER_CA_BIT = 0"
proof -
  let ?w = "b + GICR_WAKER" and ?rd = "\<lambda>d. gic_read_32 G d (b + GICR_WAKER)"
  let ?quiet = "mwhen (?rd (gic_dev s) AND WAKER_QSC_BIT \<noteq> 0) (mbind (gicr_read_waker G b) (\<lambda>v.
      mbind (gicr_write_waker G b (v AND NOT WAKER_SL_BIT)) (\<lambda>_.
      gic_poll (gic_patience G) G ?w (\<lambda>v. v AND WAKER_QSC_BIT = 0))))"
  obtain d1 where d1: "?quiet s = Ret () (s\<lparr>gic_dev := d1\<rparr>)" "same_but_waker b (gic_dev s) d1"
  proof (cases "?rd (gic_dev s) AND WAKER_QSC_BIT \<noteq> 0")
    case True
    let ?v = "?rd (gic_dev s) AND NOT WAKER_SL_BIT"
    have "?v AND WAKER_SL_BIT = 0" by (simp add: and.assoc)
    from quiesces [OF b this, of "gic_dev s"] obtain d where
      "gic_poll (gic_patience G) G ?w (\<lambda>v. v AND WAKER_QSC_BIT = 0) (s\<lparr>gic_dev := gic_write_32 G ?w ?v (gic_dev s)\<rparr>)
         = Ret () (s\<lparr>gic_dev := d\<rparr>)" "same_but_waker b (gic_write_32 G ?w ?v (gic_dev s)) d"
      using waker_poll_runs [where s = "s\<lparr>gic_dev := gic_write_32 G ?w ?v (gic_dev s)\<rparr>" and fin = "\<lambda>v. v AND WAKER_QSC_BIT = 0" and a = ?w and b = b]
      by auto
    then show thesis
      using that [of d] True same_but_waker_trans [OF same_but_waker_write [OF b]]
      by (simp add: gicr_read_waker_def gicr_write_waker_def read_32_run write_32_run)
  next
    case False
    then show thesis using that [of "gic_dev s"] same_but_waker_steps [of b "gic_dev s" 0] by (simp add: prog_simps)
  qed
  let ?v = "?rd d1 AND NOT WAKER_PS_BIT"
  have "?v AND WAKER_PS_BIT = 0" by (simp add: and.assoc)
  from awakes [OF b this, of d1] obtain d where d:
    "gic_poll (gic_patience G) G ?w (\<lambda>v. v AND WAKER_CA_BIT = 0) (s\<lparr>gic_dev := gic_write_32 G ?w ?v d1\<rparr>) = Ret () (s\<lparr>gic_dev := d\<rparr>)"
    "same_but_waker b (gic_write_32 G ?w ?v d1) d" "?rd d AND WAKER_CA_BIT = 0"
    using waker_poll_runs [where s = "s\<lparr>gic_dev := gic_write_32 G ?w ?v d1\<rparr>" and fin = "\<lambda>v. v AND WAKER_CA_BIT = 0" and a = ?w and b = b]
    by auto
  have ca: "?rd (gic_dev s) AND WAKER_CA_BIT \<noteq> 0" using a by (simp add: rd_asleep_def)
  have "gicv3_rdistif_mark_core_awake dbg G b s = mbind ?quiet (\<lambda>_. mbind (gicr_read_waker G b) (\<lambda>v.
      mbind (gicr_write_waker G b (v AND NOT WAKER_PS_BIT)) (\<lambda>_.
      gic_poll (gic_patience G) G ?w (\<lambda>v. v AND WAKER_CA_BIT = 0)))) s"
    unfolding gicv3_rdistif_mark_core_awake_def gicr_read_waker_def read_32_run dbg_assert_run [OF ca] by (rule refl)
  also have "\<dots> = mbind (gicr_read_waker G b) (\<lambda>v. mbind (gicr_write_waker G b (v AND NOT WAKER_PS_BIT)) (\<lambda>_.
      gic_poll (gic_patience G) G ?w (\<lambda>v. v AND WAKER_CA_BIT = 0))) (s\<lparr>gic_dev := d1\<rparr>)"
    by (rule mbind_run(1)) (rule d1(1))
  also have "\<dots> = Ret () (s\<lparr>gic_dev := d\<rparr>)"
    using d(1) by (simp add: gicr_read_waker_def gicr_write_waker_def read_32_run write_32_run)
  finally show thesis
    using that d(3) same_but_waker_trans [OF d1(2) same_but_waker_trans [OF same_but_waker_write [OF b] d(2)]] by blast
qed

lemma mark_core_asleep_runs:
  assumes b: "b \<in> set rds"
  obtains d where "gicv3_rdistif_mark_core_asleep G b s = Ret () (s\<lparr>gic_dev := d\<rparr>)" "same_but_waker b (gic_dev s) d"
    "gic_read_32 G d (b + GICR_WAKER) AND WAKER_CA_BIT \<noteq> 0"
proof -
  let ?w = "b + GICR_WAKER"
  let ?v = "gic_read_32 G (gic_dev s) ?w OR WAKER_PS_BIT"
  have "?v AND WAKER_PS_BIT \<noteq> 0" by (simp add: bit.conj_disj_distrib2)
  from sleeps [OF b this, of "gic_dev s"] obtain d where d:
    "gic_poll (gic_patience G) G ?w (\<lambda>v. v AND WAKER_CA_BIT \<noteq> 0) (s\<lparr>gic_dev := gic_write_32 G ?w ?v (gic_dev s)\<rparr>) = Ret () (s\<lparr>gic_dev := d\<rparr>)"
    "same_but_waker b (gic_write_32 G ?w ?v (gic_dev s)) d" "gic_read_32 G d ?w AND WAKER_CA_BIT \<noteq> 0"
    using waker_poll_runs [where s = "s\<lparr>gic_dev := gic_write_32 G ?w ?v (gic_dev s)\<rparr>" and fin = "\<lambda>v. v AND WAKER_CA_BIT \<noteq> 0" and a = ?w and b = b]
    by auto
  then show thesis
    using that [of d] same_but_waker_trans [OF same_but_waker_write [OF b]]
    by (simp add: gicv3_rdistif_mark_core_asleep_def gicr_read_waker_def gicr_write_waker_def read_32_run write_32_run)
qed

lemma cpuif_enable_runs:
  assumes "gicv3_driver_data s = Some data" "core < rdistif_num data" "core < length (rdistif_base_addrs s)"
    "rdistif_base_addrs s ! core = b" "b \<in> set rds" "rd_asleep G b (gic_dev s)"
  obtains d where "gicv3_cpuif_enable dbg G core s = Ret () (s\<lparr>gic_dev := d, icc := icc_on (icc s)\<rparr>)"
    "same_but_waker b (gic_dev s) d" "gic_read_32 G d (b + GICR_WAKER) AND WAKER_CA_BIT = 0"
proof -
  obtain d where d: "gicv3_rdistif_mark_core_awake dbg G b s = Ret () (s\<lparr>gic_dev := d\<rparr>)" "same_but_waker b (gic_dev s) d"
      "gic_read_32 G d (b + GICR_WAKER) AND WAKER_CA_BIT = 0"
    by (rule mark_core_awake_runs [OF assms(5,6)])
  have awake: "mbind (gicv3_rdistif_mark_core_awake dbg G b) f s = f () (s\<lparr>gic_dev := d\<rparr>)"
    for f :: "unit \<Rightarrow> ('d gic_world, unit) prog"
    by (rule mbind_run(1)) (rule d(1))
  have "gicv3_cpuif_enable dbg G core s = Ret () (s\<lparr>gic_dev := d, icc := icc_on (icc s)\<rparr>)"
    unfolding gicv3_cpuif_enable_def driver_data_run [OF assms(1)] redist_base_run [OF assms(2,3)] assms(4) awake
    by (simp add: icc_modify_def write_icc_sre_el1_def icc_on_def bit_simps fun_eq_iff mmodify_def)
  with that d show thesis by blast
qed

lemma cpuif_disable_runs:
  assumes "gicv3_driver_data s = Some data" "core < rdistif_num data" "core < length (rdistif_base_addrs s)"
    "rdistif_base_addrs s ! core = b" "b \<in> set rds"
  obtains d where "gicv3_cpuif_disable dbg G core s = Ret () (s\<lparr>gic_dev := d, icc := icc_off (icc s)\<rparr>)"
    "same_but_waker b (gic_dev s) d" "gic_read_32 G d (b + GICR_WAKER) AND WAKER_CA_BIT \<noteq> 0"
proof -
  let ?s = "s\<lparr>icc := icc_off (icc s)\<rparr>"
  obtain d where d: "gicv3_rdistif_mark_core_asleep G b ?s = Ret () (?s\<lparr>gic_dev := d\<rparr>)" "same_but_waker b (gic_dev s) d"
      "gic_read_32 G d (b + GICR_WAKER) AND WAKER_CA_BIT \<noteq> 0"
    using mark_core_asleep_runs [OF assms(5), of ?s] by auto
  have "gicv3_cpuif_disable dbg G core s = gicv3_rdistif_mark_core_asleep G b ?s"
    unfolding gicv3_cpuif_disable_def driver_data_run [OF assms(1)] dbg_assert_run [OF assms(2)] icc_modify_def mbind_mmodify_run
    using assms(2,3) by (subst redist_base_run) (simp_all add: assms(4) icc_off_def)
  with that [of d] d show thesis by simp
qed

end

end
