(* ===== verification/Gicv3_Reference.thy ===== *)
theory Gicv3_Reference
  imports Gicv3_Power
begin

text \<open>
  A controller that satisfies the laws of \<open>gic_hardware\<close>, with the frames of the i.MX8MQ: its state is a
  bank of registers, a write takes effect at once, and a core is asleep when its redistributor is
  told so. It is the instance on which the laws are shown to hold together.
\<close>

definition frame_kind :: "u64 \<Rightarrow> u64 list \<Rightarrow> u64 \<Rightarrow> gic_reg" where
  "frame_kind gd rds a =
     (if a - gd < 0x10000 then gicd_kind (unat (a - gd))
      else case find (\<lambda>b. a - b < 0x20000) rds of Some b \<Rightarrow> gicr_kind (unat (a - b)) | None \<Rightarrow> Other_reg)"

definition frame_hw :: "u64 \<Rightarrow> u64 list \<Rightarrow> gic_hw" where
  "frame_hw gd rds =
     \<lparr>hw_kind = frame_kind gd rds,
      hw_writable = (\<lambda>a. if a = gd then 0x37 else if a = gd + GICD_TYPER then 0
        else if a \<in> set (map (\<lambda>b. b + GICR_WAKER) rds) then 3 else NOT 0),
      hw_writable64 = (\<lambda>a. if a \<in> set (map (\<lambda>b. b + GICR_TYPER) rds) then 0 else NOT 0),
      hw_live = (\<lambda>a. if a = gd then GICD_CTLR_RWP_BIT else if a \<in> set rds then 0x80000008
        else if a \<in> set (map (\<lambda>b. b + GICR_WAKER) rds) then 0x80000005 else 0)\<rparr>"

definition ref_read_32 :: "u64 \<Rightarrow> u64 list \<Rightarrow> gic_bank \<Rightarrow> u64 \<Rightarrow> u32" where
  "ref_read_32 gd rds m a =
     (let H = frame_hw gd rds
      in if hw_kind H a = Clear_reg then b32 m (a - 0x80)
         else (b32 m a AND NOT (hw_live H a)) OR
           (if a \<in> set (map (\<lambda>b. b + GICR_WAKER) rds) \<and> b32 m a AND WAKER_PS_BIT \<noteq> 0 then WAKER_CA_BIT else 0))"

definition gic_reference :: "u64 \<Rightarrow> u64 list \<Rightarrow> gic_bank gic_device" where
  "gic_reference gd rds =
     \<lparr>gic_read_32 = ref_read_32 gd rds, gic_read_64 = (\<lambda>m a. b64 m a),
      gic_write_8 = (\<lambda>a v m. bank_write8 (frame_hw gd rds) (a AND NOT 3) (unat (a AND 3)) v m),
      gic_write_32 = bank_write (frame_hw gd rds), gic_write_64 = bank_write64 (frame_hw gd rds),
      gic_step = (\<lambda>m. m), gic_patience = 8\<rparr>"

text \<open>The frames of the i.MX8MQ: \<^verbatim>\<open>PLAT_GICD_BASE\<close>, and four redistributors from \<^verbatim>\<open>PLAT_GICR_BASE\<close> on.\<close>

abbreviation PLAT_GICD_BASE :: u64 where "PLAT_GICD_BASE \<equiv> 0x38800000"
abbreviation PLAT_GICR_BASE :: u64 where "PLAT_GICR_BASE \<equiv> 0x38880000"

definition mq_frames :: "u64 list" where
  "mq_frames = [0x38880000, 0x388a0000, 0x388c0000, 0x388e0000]"

abbreviation mq_hw :: gic_hw where "mq_hw \<equiv> frame_hw PLAT_GICD_BASE mq_frames"
abbreviation mq_gic :: "gic_bank gic_device" where "mq_gic \<equiv> gic_reference PLAT_GICD_BASE mq_frames"

lemma of_nat_less64: "c + off < 2 ^ 64 \<Longrightarrow> k < 2 ^ 64 \<Longrightarrow> (of_nat c + of_nat off :: u64) < of_nat k \<longleftrightarrow> c + off < k"
proof -
  assume a: "c + off < 2 ^ 64" "k < 2 ^ 64"
  have "(of_nat (c + off) :: u64) < of_nat k \<longleftrightarrow> c + off < k"
    using a by (simp add: word_of_nat_less_iff take_bit_nat_eq_self del: of_nat_add)
  then show ?thesis by simp
qed

lemma mq_kind_gicd: "off < 0x10000 \<Longrightarrow> hw_kind mq_hw (PLAT_GICD_BASE + of_nat off) = gicd_kind off"
proof -
  assume o: "off < 0x10000"
  have "(of_nat off :: u64) < 0x10000" using of_nat_less64 [of 0 off "0x10000"] o by simp
  moreover have "unat (of_nat off :: u64) = off" using o by (simp add: unat_of_nat)
  ultimately show ?thesis by (simp add: frame_hw_def frame_kind_def)
qed

lemma mq_kind_gicr:
  assumes "b \<in> set mq_frames" "off < 0x20000"
  shows "hw_kind mq_hw (b + of_nat off) = gicr_kind off"
proof -
  have l: "\<not> (0x80000 + of_nat off :: u64) < 0x10000" "\<not> (0xa0000 + of_nat off :: u64) < 0x10000"
    "\<not> (0xc0000 + of_nat off :: u64) < 0x10000" "\<not> (0xe0000 + of_nat off :: u64) < 0x10000"
    "\<not> (0x20000 + of_nat off :: u64) < 0x20000" "\<not> (0x40000 + of_nat off :: u64) < 0x20000" "\<not> (0x60000 + of_nat off :: u64) < 0x20000"
    "(of_nat off :: u64) < 0x20000"
    using of_nat_less64 [of "0x80000" off "0x10000"] of_nat_less64 [of "0xa0000" off "0x10000"]
      of_nat_less64 [of "0xc0000" off "0x10000"] of_nat_less64 [of "0xe0000" off "0x10000"]
      of_nat_less64 [of "0x20000" off "0x20000"] of_nat_less64 [of "0x40000" off "0x20000"]
      of_nat_less64 [of "0x60000" off "0x20000"] of_nat_less64 [of 0 off "0x20000"] assms(2) by simp_all
  have u: "unat (of_nat off :: u64) = off" using assms(2) by (simp add: unat_of_nat)
  have "b = 0x38880000 \<or> b = 0x388a0000 \<or> b = 0x388c0000 \<or> b = 0x388e0000" using assms(1) by (simp add: mq_frames_def)
  then show ?thesis
    using l u by (elim disjE) (simp_all add: frame_hw_def frame_kind_def mq_frames_def algebra_simps)
qed

section \<open>The laws\<close>

lemma waker_live: "a \<in> set (map (\<lambda>b. b + GICR_WAKER) rds) \<Longrightarrow> a \<noteq> gd \<Longrightarrow> a \<notin> set rds \<Longrightarrow> hw_live (frame_hw gd rds) a = 0x80000005"
  by (simp add: frame_hw_def)

lemma ref_bank:
  assumes "\<And>a. a \<in> set (map (\<lambda>b. b + GICR_WAKER) rds) \<Longrightarrow> a \<noteq> gd \<and> a \<notin> set rds"
  shows "bank_of (gic_reference gd rds) (frame_hw gd rds) m =
    \<lparr>b32 = (\<lambda>a. if hw_kind (frame_hw gd rds) a = Plain_reg \<or> hw_kind (frame_hw gd rds) a = Set_reg
        then b32 m a AND NOT (hw_live (frame_hw gd rds) a) else 0),
     b64 = (\<lambda>a. if hw_kind (frame_hw gd rds) a = Wide_reg then b64 m a else 0)\<rparr>"
proof -
  let ?H = "frame_hw gd rds"
  have "ref_read_32 gd rds m a AND NOT (hw_live ?H a) = b32 m a AND NOT (hw_live ?H a)"
    if k: "hw_kind ?H a = Plain_reg \<or> hw_kind ?H a = Set_reg" for a
  proof (cases "a \<in> set (map (\<lambda>b. b + GICR_WAKER) rds)")
    case True
    have "(WAKER_CA_BIT :: u32) AND NOT 0x80000005 = 0" by simp
    moreover have "hw_live ?H a = 0x80000005" using waker_live [OF True] assms [OF True] by blast
    ultimately show ?thesis using k by (auto simp: ref_read_32_def Let_def bit.conj_disj_distrib2 and.assoc)
  next
    case False
    then have "ref_read_32 gd rds m a = b32 m a AND NOT (hw_live ?H a)" using k unfolding ref_read_32_def Let_def by auto
    then show ?thesis by (simp add: and.assoc)
  qed
  then show ?thesis by (auto simp: bank_of_def gic_reference_def fun_eq_iff)
qed

lemma masked_update:
  fixes old :: u32
  shows "((old AND NOT l) AND NOT w OR v AND w) AND NOT l = (old AND NOT w OR v AND w) AND NOT l"
    and "((old AND NOT l) OR v AND w) AND NOT l = (old OR v AND w) AND NOT l"
    and "(old AND NOT v) AND NOT l = (old AND NOT l) AND NOT v"
  by (rule bit_eqI; auto simp: bit_and_iff bit_or_iff bit_not_iff)+

definition bank_mask :: "gic_hw \<Rightarrow> gic_bank \<Rightarrow> gic_bank" where
  "bank_mask H m = \<lparr>b32 = (\<lambda>a. if hw_kind H a = Plain_reg \<or> hw_kind H a = Set_reg then b32 m a AND NOT (hw_live H a) else 0),
     b64 = (\<lambda>a. if hw_kind H a = Wide_reg then b64 m a else 0)\<rparr>"

lemma mask_write: "bank_mask H (bank_write H a v m) = bank_write H a v (bank_mask H m)"
proof (cases "hw_kind H a")
  case Plain_reg
  then show ?thesis by (auto simp: bank_mask_def bank_write_def fun_eq_iff masked_update(1))
next
  case Set_reg
  then show ?thesis by (auto simp: bank_mask_def bank_write_def fun_eq_iff masked_update(2))
next
  case Clear_reg
  then show ?thesis by (auto simp: bank_mask_def bank_write_def fun_eq_iff masked_update(3))
qed (simp_all add: bank_mask_def bank_write_def)

lemma mask_write64: "bank_mask H (bank_write64 H a v m) = bank_write64 H a v (bank_mask H m)"
  by (auto simp: bank_mask_def bank_write64_def fun_eq_iff)

lemma mask_write8:
  assumes "hw_kind H a = Plain_reg"
  shows "bank_mask H (bank_write8 H a k v m) = bank_write8 H a k v (bank_mask H m)"
proof -
  let ?B = "push_bit (8 * k) 0xff :: u32" and ?l = "hw_live H a" and ?w = "hw_writable H a"
  have "(((x AND NOT ?l) AND NOT ?w OR byte_insert k v x AND ?w)) AND NOT ?l =
      ((x AND NOT ?l) AND NOT ?w OR byte_insert k v (x AND NOT ?l) AND ?w) AND NOT ?l" for x
    unfolding byte_insert_def by (rule bit_eqI) (auto simp: bit_and_iff bit_or_iff bit_not_iff)
  then have "bank_write H a (byte_insert k v (b32 m a)) (bank_mask H m) = bank_write H a (byte_insert k v (b32 (bank_mask H m) a)) (bank_mask H m)"
    using assms by (simp add: bank_write_def bank_mask_def)
  then show ?thesis by (simp add: bank_write8_def mask_write)
qed

section \<open>The controller of the board\<close>

lemma mq_cases: "b \<in> set mq_frames \<Longrightarrow> \<exists>k<4. b = of_nat (0x38880000 + 0x20000 * k)"
proof -
  assume "b \<in> set mq_frames"
  then consider "b = 0x38880000" | "b = 0x388a0000" | "b = 0x388c0000" | "b = 0x388e0000" by (auto simp: mq_frames_def)
  then show ?thesis
    by cases (rule exI [of _ 0], simp, rule exI [of _ 1], simp, rule exI [of _ 2], simp, rule exI [of _ 3], simp)
qed

lemma of_nat_eq64: "x < 2 ^ 64 \<Longrightarrow> y < 2 ^ 64 \<Longrightarrow> (of_nat x :: u64) = of_nat y \<longleftrightarrow> x = y"
  by (simp add: word_of_nat_eq_iff take_bit_nat_eq_self)

lemma mq_apart:
  "b \<in> set mq_frames \<Longrightarrow> off < 0x10000 \<Longrightarrow> off' < 0x20000 \<Longrightarrow> PLAT_GICD_BASE + of_nat off \<noteq> b + of_nat off'"
  "b \<in> set mq_frames \<Longrightarrow> b' \<in> set mq_frames \<Longrightarrow> b \<noteq> b' \<Longrightarrow> off < 0x20000 \<Longrightarrow> off' < 0x20000 \<Longrightarrow> b + of_nat off \<noteq> b' + of_nat off'"
proof -
  show "PLAT_GICD_BASE + of_nat off \<noteq> b + of_nat off'" if b: "b \<in> set mq_frames" and o: "off < 0x10000" "off' < 0x20000"
  proof -
    obtain k where k: "k < 4" "b = of_nat (0x38880000 + 0x20000 * k)" using mq_cases [OF b] by blast
    have "(of_nat (0x38800000 + off) :: u64) \<noteq> of_nat (0x38880000 + 0x20000 * k + off')"
      using o k(1) by (subst of_nat_eq64) simp_all
    then show ?thesis unfolding k(2) by simp
  qed
  show "b + of_nat off \<noteq> b' + of_nat off'"
    if b: "b \<in> set mq_frames" "b' \<in> set mq_frames" "b \<noteq> b'" and o: "off < 0x20000" "off' < 0x20000"
  proof -
    obtain k where k: "k < 4" "b = of_nat (0x38880000 + 0x20000 * k)" using mq_cases [OF b(1)] by blast
    obtain l where l: "l < 4" "b' = of_nat (0x38880000 + 0x20000 * l)" using mq_cases [OF b(2)] by blast
    have "k \<noteq> l" using b(3) k l by auto
    then have "0x38880000 + 0x20000 * k + off \<noteq> 0x38880000 + 0x20000 * l + off'" using o by (cases k l rule: linorder_cases) linarith+
    moreover have "0x38880000 + 0x20000 * k + off < 2 ^ 64" "0x38880000 + 0x20000 * l + off' < 2 ^ 64"
      using o k(1) l(1) by simp_all
    ultimately have "(of_nat (0x38880000 + 0x20000 * k + off) :: u64) \<noteq> of_nat (0x38880000 + 0x20000 * l + off')"
      using of_nat_eq64 by metis
    then show ?thesis unfolding k(2) l(2) by simp
  qed
qed

lemma mq_bank: "bank_of mq_gic mq_hw m = bank_mask mq_hw m"
proof -
  have "a \<noteq> PLAT_GICD_BASE \<and> a \<notin> set mq_frames" if "a \<in> set (map (\<lambda>b. b + GICR_WAKER) mq_frames)" for a
    using that by (auto simp: mq_frames_def)
  from ref_bank [OF this] show ?thesis by (simp only: bank_mask_def)
qed

lemma mq_waker:
  assumes "b \<in> set mq_frames"
  shows "hw_kind mq_hw (b + GICR_WAKER) = Plain_reg" "hw_live mq_hw (b + GICR_WAKER) = 0x80000005" "hw_writable mq_hw (b + GICR_WAKER) = 3"
    "ref_read_32 PLAT_GICD_BASE mq_frames m (b + GICR_WAKER) =
      (b32 m (b + GICR_WAKER) AND NOT 0x80000005) OR (if b32 m (b + GICR_WAKER) AND WAKER_PS_BIT \<noteq> 0 then WAKER_CA_BIT else 0)"
proof -
  have "b + of_nat 0x14 = b + GICR_WAKER" by simp
  with mq_kind_gicr [OF assms, of "0x14"] show k: "hw_kind mq_hw (b + GICR_WAKER) = Plain_reg" by (simp add: gicr_kind_def)
  have "b = 0x38880000 \<or> b = 0x388a0000 \<or> b = 0x388c0000 \<or> b = 0x388e0000" using assms by (simp add: mq_frames_def)
  then show l: "hw_live mq_hw (b + GICR_WAKER) = 0x80000005" "hw_writable mq_hw (b + GICR_WAKER) = 3"
    by (elim disjE; simp add: frame_hw_def mq_frames_def)+
  show "ref_read_32 PLAT_GICD_BASE mq_frames m (b + GICR_WAKER) =
      (b32 m (b + GICR_WAKER) AND NOT 0x80000005) OR (if b32 m (b + GICR_WAKER) AND WAKER_PS_BIT \<noteq> 0 then WAKER_CA_BIT else 0)"
    using assms k unfolding ref_read_32_def Let_def l by auto
qed

lemma ps_bit: "(x :: u32) AND NOT 0x80000005 AND WAKER_PS_BIT = x AND WAKER_PS_BIT" "(WAKER_CA_BIT :: u32) AND WAKER_PS_BIT = 0"
  "(x :: u32) AND NOT 0x80000005 AND WAKER_CA_BIT = 0" "(x :: u32) AND NOT 0x80000005 AND WAKER_QSC_BIT = 0"
  by (simp_all add: and.assoc)

lemma mq_asleep:
  assumes "b \<in> set mq_frames"
  shows "rd_asleep mq_gic b m \<longleftrightarrow> b32 m (b + GICR_WAKER) AND WAKER_PS_BIT \<noteq> 0"
  unfolding rd_asleep_def gic_reference_def gic_device.simps mq_waker(4) [OF assms]
  by (auto simp: bit.conj_disj_distrib2 and.assoc)

lemma mq_waker_write:
  assumes "b \<in> set mq_frames"
  shows "b32 (bank_write mq_hw (b + GICR_WAKER) v m) (b + GICR_WAKER) AND WAKER_PS_BIT = v AND WAKER_PS_BIT"
  unfolding bank_write_update [OF disjI1 [OF mq_waker(1) [OF assms]]] reg_update_def mq_waker(1-3) [OF assms]
  by (simp add: bit.conj_disj_distrib2 and.assoc)

lemma mq_waker_other:
  assumes b: "b \<in> set mq_frames" and a: "a \<noteq> b + GICR_WAKER"
  shows "b32 (bank_write mq_hw a v m) (b + GICR_WAKER) = b32 m (b + GICR_WAKER)"
proof (rule bank_write_other)
  show "b + GICR_WAKER \<noteq> a" using a by simp
  show "b + GICR_WAKER \<noteq> a - 0x80" if c: "hw_kind mq_hw a = Clear_reg"
  proof
    assume e: "b + GICR_WAKER = a - 0x80"
    then have "a = b + of_nat 0x94" by (simp add: algebra_simps)
    then have "hw_kind mq_hw a = gicr_kind 0x94" using mq_kind_gicr [OF b, of "0x94"] by simp
    then show False using c by (simp add: gicr_kind_def)
  qed
qed

lemma low_bits:
  assumes "(a :: u64) AND 3 = 0" "k < 4"
  shows "(a + of_nat k) AND NOT 3 = a" "unat ((a + of_nat k) AND 3) = k"
proof -
  have k: "of_nat k AND 3 = (of_nat k :: u64)" "unat (of_nat k :: u64) = k"
  proof -
    have "k = 0 \<or> k = 1 \<or> k = 2 \<or> k = 3" using assms(2) by linarith
    then show "of_nat k AND 3 = (of_nat k :: u64)" "unat (of_nat k :: u64) = k" by (elim disjE; simp)+
  qed
  have "\<not> (bit a n \<and> bit (of_nat k :: u64) n)" for n
    using assms(1) k(1) by (metis bit_0_eq bit_and_iff bot_apply bot_bool_def)
  then have s: "a + of_nat k = a OR of_nat k" by (intro disjunctive_add) blast
  have "of_nat k AND NOT 3 = (0 :: u64)" by (subst k(1) [symmetric]) (simp add: and.assoc)
  moreover have "a AND NOT 3 = a"
    using assms(1) by (rule and_not_disjoint)
  ultimately show "(a + of_nat k) AND NOT 3 = a" unfolding s by (simp only: bit.conj_disj_distrib2 or.right_neutral)
  show "unat ((a + of_nat k) AND 3) = k" unfolding s by (simp only: bit.conj_disj_distrib2 assms(1) k or.left_neutral)
qed

lemma aligned_offset:
  fixes x c :: u64
  assumes "unat x mod 4 = 0" "c AND 3 = 0"
  shows "(c + x) AND 3 = 0"
proof -
  have m: "(y AND 3 = 0) = (take_bit 2 y = 0)" for y :: u64 by (simp only: take_bit_eq_mask) (simp add: mask_numeral)
  have u: "unat (take_bit 2 y) = unat y mod 4" for y :: u64 unfolding unsigned_take_bit_eq by (simp add: take_bit_eq_mod)
  have "take_bit 2 c = 0" using assms(2) m [of c] by blast
  then have "unat c mod 4 = 0" using u [of c] by simp
  with assms(1) have "(unat c + unat x) mod 4 = 0" by presburger
  moreover have "unat (c + x) mod 4 = (unat c + unat x) mod 4"
    unfolding unat_word_ariths(1) by (rule mod_mod_cancel) simp
  ultimately have "unat (take_bit 2 (c + x)) = 0" using u [of "c + x"] by linarith
  then have "take_bit 2 (c + x) = 0" by (rule unat_eq_zero [THEN iffD1])
  then show ?thesis using m [of "c + x"] by blast
qed

lemma mq_aligned:
  assumes "hw_kind mq_hw a = Plain_reg" "k < 4"
  shows "(a + of_nat k) AND NOT 3 = a" "unat ((a + of_nat k) AND 3) = k"
proof -
  have "a AND 3 = 0"
  proof (cases "a - PLAT_GICD_BASE < 0x10000")
    case True
    then have "gicd_kind (unat (a - PLAT_GICD_BASE)) = Plain_reg" using assms(1) by (simp add: frame_hw_def frame_kind_def)
    then have "unat (a - PLAT_GICD_BASE) mod 4 = 0" by (auto simp: gicd_kind_def split: if_splits)
    from aligned_offset [OF this, of PLAT_GICD_BASE] show ?thesis by simp
  next
    case False
    then obtain b where b: "find (\<lambda>b. a - b < 0x20000) mq_frames = Some b" "gicr_kind (unat (a - b)) = Plain_reg"
      using assms(1) by (auto simp: frame_hw_def frame_kind_def split: option.splits)
    then have "unat (a - b) mod 4 = 0" by (auto simp: gicr_kind_def split: if_splits)
    moreover have "b \<in> set mq_frames" using b(1) by (auto simp: find_Some_iff)
    then have "b AND 3 = 0" by (auto simp: mq_frames_def)
    ultimately show ?thesis using aligned_offset [of "a - b" b] by simp
  qed
  then show "(a + of_nat k) AND NOT 3 = a" "unat ((a + of_nat k) AND 3) = k" using low_bits assms(2) by blast+
qed

lemma mq_live_gicd: "0 < off \<Longrightarrow> off < 0x10000 \<Longrightarrow> hw_live mq_hw (PLAT_GICD_BASE + of_nat off) = 0"
proof -
  assume o: "0 < off" "off < 0x10000"
  have "PLAT_GICD_BASE + of_nat off \<noteq> b" if "b \<in> set mq_frames" for b using mq_apart(1) [OF that o(2), of 0] by simp
  moreover have "PLAT_GICD_BASE + of_nat off \<noteq> b + GICR_WAKER" if "b \<in> set mq_frames" for b
    using mq_apart(1) [OF that o(2), of "0x14"] by simp
  moreover have "PLAT_GICD_BASE + of_nat off \<noteq> PLAT_GICD_BASE" using o off_eq [of off 0 PLAT_GICD_BASE] by simp
  ultimately show ?thesis unfolding frame_hw_def gic_hw.simps by auto
qed

lemma mq_rwp:
  "ref_read_32 PLAT_GICD_BASE mq_frames m PLAT_GICD_BASE AND GICD_CTLR_RWP_BIT = 0"
  "b \<in> set mq_frames \<Longrightarrow> ref_read_32 PLAT_GICD_BASE mq_frames m b AND GICR_CTLR_RWP_BIT = 0"
proof -
  have "hw_kind mq_hw PLAT_GICD_BASE = Plain_reg" using mq_kind_gicd [of 0] by (simp add: gicd_kind_def intr_reg_kind_def)
  then show "ref_read_32 PLAT_GICD_BASE mq_frames m PLAT_GICD_BASE AND GICD_CTLR_RWP_BIT = 0"
    by (simp add: ref_read_32_def Let_def mq_frames_def) (simp add: frame_hw_def and.assoc)
  assume b: "b \<in> set mq_frames"
  then have k: "hw_kind mq_hw b = Plain_reg" using mq_kind_gicr [OF b, of 0] by (simp add: gicr_kind_def)
  have "b = 0x38880000 \<or> b = 0x388a0000 \<or> b = 0x388c0000 \<or> b = 0x388e0000" using b by (simp add: mq_frames_def)
  then have "hw_live mq_hw b = 0x80000008" "b \<notin> set (map (\<lambda>b. b + GICR_WAKER) mq_frames)"
    by (elim disjE; simp add: frame_hw_def mq_frames_def)+
  then show "ref_read_32 PLAT_GICD_BASE mq_frames m b AND GICR_CTLR_RWP_BIT = 0"
    using k by (simp add: ref_read_32_def Let_def and.assoc)
qed

lemma mq_waker_bits:
  assumes "b \<in> set mq_frames"
  shows "w AND WAKER_PS_BIT = 0 \<Longrightarrow>
      ref_read_32 PLAT_GICD_BASE mq_frames (bank_write mq_hw (b + GICR_WAKER) w m) (b + GICR_WAKER) AND WAKER_CA_BIT = 0"
    and "w AND WAKER_PS_BIT \<noteq> 0 \<Longrightarrow>
      ref_read_32 PLAT_GICD_BASE mq_frames (bank_write mq_hw (b + GICR_WAKER) w m) (b + GICR_WAKER) AND WAKER_CA_BIT \<noteq> 0"
    and "ref_read_32 PLAT_GICD_BASE mq_frames m (b + GICR_WAKER) AND WAKER_QSC_BIT = 0"
  unfolding mq_waker(4) [OF assms] mq_waker_write [OF assms]
  by (simp_all add: bit.conj_disj_distrib2 and.assoc)

interpretation mq: gic_hardware mq_gic mq_hw PLAT_GICD_BASE mq_frames
proof
  show "hw_kind mq_hw (PLAT_GICD_BASE + of_nat off) = gicd_kind off" if "off < 0x10000" for off using that by (rule mq_kind_gicd)
  show "hw_kind mq_hw (b + of_nat off) = gicr_kind off" if "b \<in> set mq_frames" "off < 0x20000" for b off
    using that by (rule mq_kind_gicr)
  show "PLAT_GICD_BASE + of_nat off \<noteq> b + of_nat off'" if "b \<in> set mq_frames" "off < 0x10000" "off' < 0x20000" for b off off'
    using that by (rule mq_apart)
  show "b + of_nat off \<noteq> b' + of_nat off'"
    if "b \<in> set mq_frames" "b' \<in> set mq_frames" "b \<noteq> b'" "off < 0x20000" "off' < 0x20000" for b b' off off'
    using that by (rule mq_apart)
  show "bank_of mq_gic mq_hw (gic_write_32 mq_gic a v d) = bank_write mq_hw a v (bank_of mq_gic mq_hw d)" for a v d
    unfolding mq_bank by (simp add: gic_reference_def mask_write)
  show "bank_of mq_gic mq_hw (gic_write_64 mq_gic a v d) = bank_write64 mq_hw a v (bank_of mq_gic mq_hw d)" for a v d
    unfolding mq_bank by (simp add: gic_reference_def mask_write64)
  show "bank_of mq_gic mq_hw (gic_write_8 mq_gic (a + of_nat k) v d) = bank_write8 mq_hw a k v (bank_of mq_gic mq_hw d)"
    if "hw_kind mq_hw a = Plain_reg" "k < 4" for a k v d
    unfolding mq_bank by (simp only: gic_reference_def gic_device.simps mq_aligned [OF that] mask_write8 [OF that(1)])
  show "bank_of mq_gic mq_hw (gic_step mq_gic d) = bank_of mq_gic mq_hw d" for d by (simp add: gic_reference_def)
  show "hw_live mq_hw a = 0" if "a \<noteq> PLAT_GICD_BASE" "a \<notin> set mq_frames" "a \<notin> (\<lambda>b. b + GICR_WAKER) ` set mq_frames" for a
    using that unfolding frame_hw_def gic_hw.simps by auto
  show "hw_live mq_hw PLAT_GICD_BASE = GICD_CTLR_RWP_BIT" "hw_writable mq_hw PLAT_GICD_BASE AND GICD_CTLR_RWP_BIT = 0"
    "hw_writable mq_hw (PLAT_GICD_BASE + GICD_TYPER) = 0"
    by (simp_all add: frame_hw_def)
  show "hw_live mq_hw (PLAT_GICD_BASE + of_nat off) = 0" if o: "0x100 \<le> off" "off < 0x180" for off
    by (rule mq_live_gicd) (use o in simp_all)
  show "hw_live mq_hw (b + GICR_ISENABLER0) = 0" if "b \<in> set mq_frames" for b
    using that by (auto simp: frame_hw_def mq_frames_def)
  have step: "(gic_step mq_gic ^^ n) d = d" for n d by (induction n) (simp_all add: gic_reference_def)
  have patience: "0 < gic_patience mq_gic" by (simp add: gic_reference_def)
  show "\<exists>n<gic_patience mq_gic. gic_read_32 mq_gic ((gic_step mq_gic ^^ n) d) PLAT_GICD_BASE AND GICD_CTLR_RWP_BIT = 0" for d
    using patience mq_rwp(1) [of d] unfolding step by (simp only: gic_reference_def gic_device.simps) blast
  show "\<exists>n<gic_patience mq_gic. gic_read_32 mq_gic ((gic_step mq_gic ^^ n) d) b AND GICR_CTLR_RWP_BIT = 0" if "b \<in> set mq_frames" for b d
    using patience mq_rwp(2) [OF that, of d] unfolding step by (simp only: gic_reference_def gic_device.simps) blast
  show "\<exists>n<gic_patience mq_gic. gic_read_32 mq_gic ((gic_step mq_gic ^^ n) (gic_write_32 mq_gic (b + GICR_WAKER) w d)) (b + GICR_WAKER) AND WAKER_CA_BIT = 0"
    if "b \<in> set mq_frames" "w AND WAKER_PS_BIT = 0" for b w d
    using patience mq_waker_bits(1) [OF that] unfolding step by (simp only: gic_reference_def gic_device.simps) blast
  show "\<exists>n<gic_patience mq_gic. gic_read_32 mq_gic ((gic_step mq_gic ^^ n) (gic_write_32 mq_gic (b + GICR_WAKER) w d)) (b + GICR_WAKER) AND WAKER_CA_BIT \<noteq> 0"
    if "b \<in> set mq_frames" "w AND WAKER_PS_BIT \<noteq> 0" for b w d
    using patience mq_waker_bits(2) [OF that] unfolding step by (simp only: gic_reference_def gic_device.simps) blast
  show "\<exists>n<gic_patience mq_gic. gic_read_32 mq_gic ((gic_step mq_gic ^^ n) (gic_write_32 mq_gic (b + GICR_WAKER) w d)) (b + GICR_WAKER) AND WAKER_QSC_BIT = 0"
    if "b \<in> set mq_frames" "w AND WAKER_SL_BIT = 0" for b w d
    using patience mq_waker_bits(3) [OF that(1)] unfolding step by (simp only: gic_reference_def gic_device.simps) blast
  show "rd_asleep mq_gic b (gic_step mq_gic d)" if "b \<in> set mq_frames" "rd_asleep mq_gic b d" for b d
    using that by (simp add: gic_reference_def)
  show "rd_asleep mq_gic b (gic_write_32 mq_gic a v d) \<and> rd_asleep mq_gic b (gic_write_64 mq_gic a v' d)"
    if "b \<in> set mq_frames" "rd_asleep mq_gic b d" "a \<noteq> b + GICR_WAKER" for b a v v' d
    using that(2) mq_waker_other [OF that(1,3)] unfolding mq_asleep [OF that(1)]
    by (simp add: gic_reference_def bank_write64_def)
  show "rd_asleep mq_gic b (gic_write_8 mq_gic (a + of_nat k) v8 d)"
    if "b \<in> set mq_frames" "rd_asleep mq_gic b d" "a \<noteq> b + GICR_WAKER" "hw_kind mq_hw a = Plain_reg" "k < 4" for b a k v8 d
    using that(2) unfolding mq_asleep [OF that(1)]
    by (simp only: gic_reference_def gic_device.simps mq_aligned [OF that(4,5)] bank_write8_def mq_waker_other [OF that(1,3)] simp_thms)
qed

end
