(* ===== verification/Gicv3_Intr.thy ===== *)
theory Gicv3_Intr
  imports Gicv3_Reference
begin

text \<open>
  The operations on the group of one interrupt, for a controller that satisfies the laws: what
  \<^verbatim>\<open>gicv3_get_interrupt_type\<close> returns, and what \<^verbatim>\<open>gicv3_set_interrupt_type\<close> does to the bank.
\<close>

lemma group_of_bits:
  "(if drop_bit k v AND 1 \<noteq> 0 then INTR_GROUP1NS else if drop_bit k w AND 1 \<noteq> 0 then INTR_GROUP1S else INTR_GROUP0) =
   group_of (bit (v :: u32) k) (bit (w :: u32) k)"
  by (simp only: bit_test group_of_def)

definition type_ok :: "u32 \<Rightarrow> bool" where
  "type_ok type \<longleftrightarrow> type = INTR_GROUP1S \<or> type = INTR_GROUP0 \<or> type = INTR_GROUP1NS"

text \<open>The registers of the group of an interrupt for the core whose redistributor is at \<open>b\<close>, its group, and the group that is written.\<close>

definition group_reg :: "nat \<Rightarrow> u64 \<Rightarrow> u64 \<Rightarrow> nat \<Rightarrow> u64" where
  "group_reg off gd b i = (if i < MIN_SPI_ID then b + of_nat (0x10000 + off) else gicd_at gd off 32 i)"

definition type_in :: "u64 \<Rightarrow> u64 \<Rightarrow> gic_bank \<Rightarrow> nat \<Rightarrow> u32" where
  "type_in gd b m i = group_of (bit (b32 m (group_reg 0x80 gd b i)) (i mod 32)) (bit (b32 m (group_reg 0xd00 gd b i)) (i mod 32))"

definition type_effect :: "gic_hw \<Rightarrow> u64 \<Rightarrow> u64 \<Rightarrow> nat \<Rightarrow> u32 \<Rightarrow> gic_bank \<Rightarrow> gic_bank" where
  "type_effect H gd b i type m =
     bank_bit H (group_reg 0xd00 gd b i) (i mod 32) (type = INTR_GROUP1S)
       (bank_bit H (group_reg 0x80 gd b i) (i mod 32) (type = INTR_GROUP1NS) m)"

text \<open>The bits of the group can be written.\<close>

definition group_implemented :: "gic_hw \<Rightarrow> u64 \<Rightarrow> u64 \<Rightarrow> nat \<Rightarrow> bool" where
  "group_implemented H gd b i \<longleftrightarrow>
     bit (hw_writable H (group_reg 0x80 gd b i)) (i mod 32) \<and> bit (hw_writable H (group_reg 0xd00 gd b i)) (i mod 32)"

lemma type_in_ppi: "i < 32 \<Longrightarrow> type_in gd b m i = ppi_type b m i"
  by (simp add: type_in_def ppi_type_def group_reg_def)

lemma type_in_spi: "32 \<le> i \<Longrightarrow> type_in gd b m i = spi_type gd m i"
  by (simp add: type_in_def spi_type_def group_reg_def gicd_at_def)

context gic_hardware
begin

lemma get_type_runs:
  assumes data: "gicv3_driver_data s = Some data" "gicd_base data = gd" "gd \<noteq> 0"
    and core: "core < rdistif_num data" "core < length (rdistif_base_addrs s)" "rdistif_base_addrs s ! core = b" "b \<in> set rds"
    and i: "i < 1020"
  shows "gicv3_get_interrupt_type dbg G i core s = Ret (type_in gd b (bank_of G H (gic_dev s)) i) s"
proof (cases "i < 32")
  case True
  note f = gicr_frame(1-4) [OF core(4)]
  let ?m = "bank_of G H (gic_dev s)"
  have a: "b + GICR_IGROUPR0 = b + of_nat 0x10080" "b + GICR_IGRPMODR0 = b + of_nat 0x10d00" by simp_all
  have k: "reg_bit 5 i = i" using True by (simp add: reg_bit_def)
  have run: "mbind (redist_base dbg data core) (\<lambda>base. mbind (gicr_get_igroupr0 G base i) (\<lambda>igroup.
      mbind (gicr_get_igrpmodr0 G base i) (\<lambda>grpmodr. mret (igroup, grpmodr)))) s =
    Ret (drop_bit i (b32 ?m (b + of_nat 0x10080)) AND 1, drop_bit i (b32 ?m (b + of_nat 0x10d00)) AND 1) s"
    unfolding redist_base_run [OF core(1,2)] core(3) gicr_get_igroupr0_def gicr_get_igrpmodr0_def
      gicr_read_igroupr0_def gicr_read_igrpmodr0_def a k
    by (simp add: mbind_assoc gic_mmio_read_32_def read_plain [OF f(1,2)] read_plain [OF f(3,4)] prog_simps del: of_nat_numeral)
  show ?thesis
    using True i core(1) unfolding gicv3_get_interrupt_type_def driver_data_run [OF data(1)] type_in_ppi [OF True] ppi_type_def
    by (simp add: mbind_def [where m = "mbind _ _"] run prog_simps group_of_bits del: of_nat_numeral)
next
  case False
  then have le: "32 \<le> i" by simp
  have i': "i < 1024" using i by simp
  have d: "0x80 + 4 * (i div 32) < 0x1000" "0xd00 + 4 * (i div 32) < 0x1000" using i by linarith+
  have a: "gd + GICD_IGROUPR + reg_offset 5 i = gd + of_nat (0x80 + 4 * (i div 32))"
    "gd + GICD_IGRPMODR + reg_offset 5 i = gd + of_nat (0xd00 + 4 * (i div 32))"
    unfolding reg_addr by simp_all
  have r: "gic_read_32 G e (gd + of_nat (0x80 + 4 * (i div 32))) = b32 (bank_of G H e) (gd + of_nat (0x80 + 4 * (i div 32)))"
    "gic_read_32 G e (gd + of_nat (0xd00 + 4 * (i div 32))) = b32 (bank_of G H e) (gd + of_nat (0xd00 + 4 * (i div 32)))" for e
    using d kind_intr(1,2) [OF i'] by (intro read_plain; simp only: kind_gicd live_gicd)+
  let ?m = "bank_of G H (gic_dev s)"
  have run: "mbind (dbg_assert dbg (gicd_base data \<noteq> 0)) (\<lambda>_. mbind (gicd_get_igroupr G (gicd_base data) i) (\<lambda>igroup.
      mbind (gicd_get_igrpmodr G (gicd_base data) i) (\<lambda>grpmodr. mret (igroup, grpmodr)))) s =
    Ret (drop_bit (i mod 32) (b32 ?m (gd + of_nat (0x80 + 4 * (i div 32)))) AND 1,
      drop_bit (i mod 32) (b32 ?m (gd + of_nat (0xd00 + 4 * (i div 32)))) AND 1) s"
    using data(2,3) unfolding gicd_get_igroupr_def gicd_get_igrpmodr_def gicd_read_igroupr_def gicd_read_igrpmodr_def
    by (simp only: a) (simp add: mbind_assoc gic_mmio_read_32_def r prog_simps reg_bit_def del: of_nat_add of_nat_mult)
  show ?thesis
    using False i core(1) unfolding gicv3_get_interrupt_type_def driver_data_run [OF data(1)] type_in_spi [OF le] spi_type_def
    by (simp add: mbind_def [where m = "mbind _ _"] run prog_simps group_of_bits del: of_nat_add of_nat_mult)
qed

lemma group_reg_plain:
  assumes "b \<in> set rds" "i < 1020" "off = 0x80 \<or> off = 0xd00"
  shows "hw_kind H (group_reg off gd b i) = Plain_reg" "hw_live H (group_reg off gd b i) = 0"
    "group_reg off gd b i \<notin> (\<lambda>b. b + GICR_WAKER) ` set rds"
proof -
  show "hw_kind H (group_reg off gd b i) = Plain_reg" "hw_live H (group_reg off gd b i) = 0"
    using assms gicr_frame(1-4) [OF assms(1)] gicd_at_kind(1-4) [of i] by (auto simp: group_reg_def simp del: of_nat_numeral of_nat_add)
  have "off + 4 * (i div 32) < 0x10000" using assms(2,3) by auto
  then have "gicd_at gd off 32 i \<notin> (\<lambda>b. b + GICR_WAKER) ` set rds" unfolding gicd_at_def by (rule waker_gicd)
  moreover have "b + of_nat (0x10000 + off) \<notin> (\<lambda>b. b + GICR_WAKER) ` set rds" using assms(1,3) by (intro waker_addr) auto
  ultimately show "group_reg off gd b i \<notin> (\<lambda>b. b + GICR_WAKER) ` set rds" by (simp only: group_reg_def split: if_split) blast
qed

lemma group_reg_eq:
  assumes "b \<in> set rds" "b' \<in> set rds" "i < 1020" "j < 1020" "off = 0x80 \<or> off = 0xd00" "off' = 0x80 \<or> off' = 0xd00"
  shows "group_reg off gd b i = group_reg off' gd b' j \<longleftrightarrow> off = off' \<and> i div 32 = j div 32 \<and> (i < 32 \<longrightarrow> b = b')"
proof -
  have l: "off + 4 * (i div 32) < 0x10000" "off' + 4 * (j div 32) < 0x10000" "0x10000 + off < 0x20000" "0x10000 + off' < 0x20000"
    using assms by auto
  have z: "k div 32 = 0 \<longleftrightarrow> k < 32" for k :: nat by (simp add: div_eq_0_iff)
  have d: "i div 32 < 32" "j div 32 < 32" using assms by linarith+
  consider (both) "i < 32" "j < 32" | (left) "i < 32" "\<not> j < 32" | (right) "\<not> i < 32" "j < 32" | (none) "\<not> i < 32" "\<not> j < 32" by blast
  then show ?thesis
  proof cases
    case both
    show ?thesis
    proof (cases "b = b'")
      case True
      then show ?thesis using both off_eq [of "0x10000 + off" "0x10000 + off'" b] l by (simp only: group_reg_def if_True div_less) auto
    next
      case False
      then show ?thesis using both gicr_gicr [OF assms(1,2) False l(3,4)] by (simp only: group_reg_def if_True div_less) blast
    qed
  next
    case left
    then show ?thesis using gicd_gicr [OF assms(1) l(2,3)] z [of j] by (simp only: group_reg_def if_True if_False div_less gicd_at_def) metis
  next
    case right
    then show ?thesis using gicd_gicr [OF assms(2) l(1,4)] z [of i] by (simp only: group_reg_def if_True if_False div_less gicd_at_def) metis
  next
    case none
    have "off + 4 * (i div 32) = off' + 4 * (j div 32) \<longleftrightarrow> off = off' \<and> i div 32 = j div 32"
      using d assms(5,6) by (elim disjE) simp_all
    then show ?thesis using none gicd_at_eq [of off off' i j 32 32 gd] assms by (simp only: group_reg_def if_False) auto
  qed
qed

lemma type_effect_type:
  assumes b: "b \<in> set rds" "b' \<in> set rds" and ij: "i < 1020" "j < 1020" and w: "group_implemented H gd b i" and t: "type_ok type"
  shows "type_in gd b' (type_effect H gd b i type m) j = (if j = i \<and> (i < 32 \<longrightarrow> b' = b) then type else type_in gd b' m j)"
proof -
  let ?m = "type_effect H gd b i type m"
  have p: "hw_kind H (group_reg off gd b i) = Plain_reg" "hw_live H (group_reg off gd b i) = 0" if "off = 0x80 \<or> off = 0xd00" for off
    using group_reg_plain [OF b(1) ij(1) that] by blast+
  let ?c = "j = i \<and> (i < 32 \<longrightarrow> b' = b)"
  have same: "(i div 32 = j div 32 \<and> (i < 32 \<longrightarrow> b = b')) \<and> j mod 32 = i mod 32 \<longleftrightarrow> ?c"
    by (metis div_mult_mod_eq)
  have k: "i mod 32 < 32" by simp
  have at: "bit (b32 ?m a) l =
      (if a = group_reg 0xd00 gd b i \<and> l = i mod 32 then type = INTR_GROUP1S
       else if a = group_reg 0x80 gd b i \<and> l = i mod 32 then type = INTR_GROUP1NS else bit (b32 m a) l)" for a l
    using w unfolding type_effect_def bank_bit_bit [OF p [OF disjI2 [OF refl]] k] bank_bit_bit [OF p [OF disjI1 [OF refl]] k] group_implemented_def
    by simp
  have g: "group_reg 0x80 gd b' j = group_reg 0xd00 gd b i \<longleftrightarrow> False" "group_reg 0xd00 gd b' j = group_reg 0x80 gd b i \<longleftrightarrow> False"
    "group_reg 0x80 gd b' j = group_reg 0x80 gd b i \<and> j mod 32 = i mod 32 \<longleftrightarrow> ?c"
    "group_reg 0xd00 gd b' j = group_reg 0xd00 gd b i \<and> j mod 32 = i mod 32 \<longleftrightarrow> ?c"
    using group_reg_eq [OF b(2,1) ij(2,1)] same by auto
  show ?thesis unfolding type_in_def at g using t by (auto simp: group_of_def type_ok_def)
qed

lemma set_type_runs:
  assumes data: "gicv3_driver_data s = Some data" "gicd_base data = gd" "gd \<noteq> 0"
    and core: "core < rdistif_num data" "core < length (rdistif_base_addrs s)" "rdistif_base_addrs s ! core = b" "b \<in> set rds"
    and i: "i < 1020" and t: "type_ok type" and lock: "\<not> gic_lock s"
  obtains d where "gicv3_set_interrupt_type dbg G i core type s = Ret () (s\<lparr>gic_dev := d\<rparr>)"
    "bank_of G H d = type_effect H gd b i type (bank_of G H (gic_dev s))"
proof (cases "i < 32")
  case True
  have f: "(0x10080 :: nat) \<noteq> 0" "(0x10080 :: nat) \<noteq> 0x14" "(0x10080 :: nat) < 0x20000" "gicr_kind 0x10080 = Plain_reg"
    "(0x10d00 :: nat) \<noteq> 0" "(0x10d00 :: nat) \<noteq> 0x14" "(0x10d00 :: nat) < 0x20000" "gicr_kind 0x10d00 = Plain_reg"
    by (simp_all add: gicr_kind_def intr_reg_kind_def)
  have bit: "id_bit 5 i = push_bit i 1" using True by (simp add: id_bit_def reg_bit_def)
  have ig: "gic_acts G H rds (if type = INTR_GROUP1NS then gicr_set_igroupr0 G b i else gicr_clr_igroupr0 G b i)
      (bank_bit H (b + of_nat 0x10080) i (type = INTR_GROUP1NS))"
    unfolding gicr_set_igroupr0_def gicr_clr_igroupr0_def gicr_read_igroupr0_def gicr_write_igroupr0_def gicr_addr bit
    using does_gicr_bit [OF core(4) f(1-4)] by simp
  have im: "gic_acts G H rds (if type = INTR_GROUP1S then gicr_set_igrpmodr0 G b i else gicr_clr_igrpmodr0 G b i)
      (bank_bit H (b + of_nat 0x10d00) i (type = INTR_GROUP1S))"
    unfolding gicr_set_igrpmodr0_def gicr_clr_igrpmodr0_def gicr_read_igrpmodr0_def gicr_write_igrpmodr0_def gicr_addr bit
    using does_gicr_bit [OF core(4) f(5-8)] by simp
  have code: "gicv3_set_interrupt_type dbg G i core type s =
      mbind (if type = INTR_GROUP1NS then gicr_set_igroupr0 G b i else gicr_clr_igroupr0 G b i) (\<lambda>_.
      if type = INTR_GROUP1S then gicr_set_igrpmodr0 G b i else gicr_clr_igrpmodr0 G b i) s"
    using t True core data(2,3) unfolding gicv3_set_interrupt_type_def intr_op_data_def mbind_assoc driver_data_run [OF data(1)]
    by (simp add: redist_base_run type_ok_def)
  have effect: "type_effect H gd b i type m = bank_bit H (b + of_nat 0x10d00) i (type = INTR_GROUP1S)
      (bank_bit H (b + of_nat 0x10080) i (type = INTR_GROUP1NS) m)" for m
    using True by (simp add: type_effect_def group_reg_def)
  from gic_doesD [OF gic_acts_then [OF ig im], of s] show thesis
    using that unfolding code effect by metis
next
  case False
  let ?s = "s\<lparr>gic_lock := True\<rparr>"
  have i': "i < 1024" using i by simp
  note g = does_gicd_group [OF i']
  have ig: "gic_acts G H rds (if type = INTR_GROUP1NS then gicd_set_igroupr G gd i else gicd_clr_igroupr G gd i)
      (bank_bit H (gicd_at gd 0x80 32 i) (i mod 32) (type = INTR_GROUP1NS))"
    unfolding gicd_at_def using g(1,2) by simp
  have im: "gic_acts G H rds (if type = INTR_GROUP1S then gicd_set_igrpmodr G gd i else gicd_clr_igrpmodr G gd i)
      (bank_bit H (gicd_at gd 0xd00 32 i) (i mod 32) (type = INTR_GROUP1S))"
    unfolding gicd_at_def using g(3,4) by simp
  have effect: "type_effect H gd b i type m = bank_bit H (gicd_at gd 0xd00 32 i) (i mod 32) (type = INTR_GROUP1S)
      (bank_bit H (gicd_at gd 0x80 32 i) (i mod 32) (type = INTR_GROUP1NS) m)" for m
    using False by (simp add: type_effect_def group_reg_def)
  obtain d where d: "mbind (if type = INTR_GROUP1NS then gicd_set_igroupr G gd i else gicd_clr_igroupr G gd i) (\<lambda>_.
      if type = INTR_GROUP1S then gicd_set_igrpmodr G gd i else gicd_clr_igrpmodr G gd i) ?s = Ret () (?s\<lparr>gic_dev := d\<rparr>)"
    "bank_of G H d = type_effect H gd b i type (bank_of G H (gic_dev ?s))"
    using gic_doesD [OF gic_acts_then [OF ig im], of ?s] unfolding effect by metis
  have code: "gicv3_set_interrupt_type dbg G i core type s =
      mbind (mbind (if type = INTR_GROUP1NS then gicd_set_igroupr G gd i else gicd_clr_igroupr G gd i) (\<lambda>_.
      if type = INTR_GROUP1S then gicd_set_igrpmodr G gd i else gicd_clr_igrpmodr G gd i)) (\<lambda>_. spin_unlock_gic) ?s"
    using t False core(1) data(2,3) lock
    unfolding gicv3_set_interrupt_type_def intr_op_data_def mbind_assoc driver_data_run [OF data(1)]
    by (simp add: type_ok_def Let_def spin_lock_gic_def mbind_assoc)
  also have "\<dots> = spin_unlock_gic (?s\<lparr>gic_dev := d\<rparr>)"
    by (rule mbind_run(1)) (rule d(1))
  also have "\<dots> = Ret () (s\<lparr>gic_dev := d\<rparr>)"
    using lock by (simp add: spin_unlock_gic_def mmodify_def)
  finally have "gicv3_set_interrupt_type dbg G i core type s = Ret () (s\<lparr>gic_dev := d\<rparr>)" .
  with that d(2) show thesis by simp
qed

end

end
