(* ===== verification/Plat_Gic.thy ===== *)
theory Plat_Gic
  imports Gicv3_Intr Imx8mq_Psci Interrupt_Mgmt
begin

text \<open>
  The port of the interrupt controller: the part of \<^verbatim>\<open>plat/common/plat_gicv3.c\<close> that BL31 contains
  (without \<^verbatim>\<open>plat_interrupt_type_to_line\<close>, which is in \<open>Interrupt_Mgmt\<close>),
  \<^verbatim>\<open>plat/imx/common/plat_imx8_gic.c\<close> and \<^verbatim>\<open>plat_my_core_pos\<close> of
  \<^verbatim>\<open>plat/imx/common/imx8_helpers.S\<close>. \<open>mpidr\<close> is the MPIDR of the executing core.
\<close>

section \<open>The interrupt controller as the interrupt management framework sees it\<close>

abbreviation INTR_ID_UNAVAILABLE :: nat where "INTR_ID_UNAVAILABLE \<equiv> 0xffffffff"
abbreviation INTR_TYPE_INVAL :: u32 where "INTR_TYPE_INVAL \<equiv> 3"
abbreviation INTR_ROUTING_MODE_PE :: u32 where "INTR_ROUTING_MODE_PE \<equiv> 0"
abbreviation INTR_ROUTING_MODE_ANY :: u32 where "INTR_ROUTING_MODE_ANY \<equiv> 1"

definition imx_my_core_pos :: "u64 \<Rightarrow> nat" where
  "imx_my_core_pos mpidr = unat ((mpidr AND 0xff) + drop_bit 6 (mpidr AND 0xff00))"

definition plat_ic_get_pending_interrupt_id :: "('d gic_world, nat) prog" where
  "plat_ic_get_pending_interrupt_id =
     mbind gicv3_get_pending_interrupt_id (\<lambda>irqnr.
     mret (if gicv3_is_intr_id_special_identifier irqnr then INTR_ID_UNAVAILABLE else irqnr))"

definition plat_ic_get_pending_interrupt_type :: "('d gic_world, u32) prog" where
  "plat_ic_get_pending_interrupt_type =
     mbind gicv3_get_pending_interrupt_type (\<lambda>irqnr.
     mret (if irqnr = PENDING_G1S_INTID then INTR_TYPE_S_EL1
           else if irqnr = PENDING_G1NS_INTID then INTR_TYPE_NS
           else if irqnr = GIC_SPURIOUS_INTERRUPT then INTR_TYPE_INVAL
           else INTR_TYPE_EL3))"

definition plat_ic_acknowledge_interrupt :: "('d gic_world, nat) prog" where
  "plat_ic_acknowledge_interrupt = gicv3_acknowledge_interrupt"

definition plat_ic_get_interrupt_type :: "bool \<Rightarrow> 'd gic_device \<Rightarrow> u64 \<Rightarrow> nat \<Rightarrow> ('d gic_world, u32) prog" where
  "plat_ic_get_interrupt_type dbg G mpidr intr = gicv3_get_interrupt_type dbg G intr (imx_my_core_pos mpidr)"

definition plat_ic_end_of_interrupt :: "nat \<Rightarrow> ('d gic_world, unit) prog" where
  "plat_ic_end_of_interrupt intr = gicv3_end_of_interrupt intr"

definition plat_ic_get_running_priority :: "('d gic_world, u32) prog" where
  "plat_ic_get_running_priority = gicv3_get_running_priority"

definition plat_ic_is_spi :: "nat \<Rightarrow> bool" where
  "plat_ic_is_spi intr \<longleftrightarrow> intr \<ge> MIN_SPI_ID \<and> intr \<le> MAX_SPI_ID"

definition plat_ic_is_ppi :: "nat \<Rightarrow> bool" where
  "plat_ic_is_ppi intr \<longleftrightarrow> intr \<ge> MIN_PPI_ID \<and> intr < MIN_SPI_ID"

definition plat_ic_is_sgi :: "nat \<Rightarrow> bool" where
  "plat_ic_is_sgi intr \<longleftrightarrow> intr \<ge> 0 \<and> intr < MIN_PPI_ID"

definition plat_ic_get_interrupt_active :: "bool \<Rightarrow> 'd gic_device \<Rightarrow> u64 \<Rightarrow> nat \<Rightarrow> ('d gic_world, u32) prog" where
  "plat_ic_get_interrupt_active dbg G mpidr intr = gicv3_get_interrupt_active dbg G intr (imx_my_core_pos mpidr)"

definition plat_ic_enable_interrupt :: "bool \<Rightarrow> 'd gic_device \<Rightarrow> u64 \<Rightarrow> nat \<Rightarrow> ('d gic_world, unit) prog" where
  "plat_ic_enable_interrupt dbg G mpidr intr = gicv3_enable_interrupt dbg G intr (imx_my_core_pos mpidr)"

definition plat_ic_disable_interrupt :: "bool \<Rightarrow> 'd gic_device \<Rightarrow> u64 \<Rightarrow> nat \<Rightarrow> ('d gic_world, unit) prog" where
  "plat_ic_disable_interrupt dbg G mpidr intr = gicv3_disable_interrupt dbg G intr (imx_my_core_pos mpidr)"

definition plat_ic_set_interrupt_priority :: "bool \<Rightarrow> 'd gic_device \<Rightarrow> u64 \<Rightarrow> nat \<Rightarrow> u32 \<Rightarrow> ('d gic_world, unit) prog" where
  "plat_ic_set_interrupt_priority dbg G mpidr intr priority =
     gicv3_set_interrupt_priority dbg G intr (imx_my_core_pos mpidr) priority"

definition plat_ic_has_interrupt_type :: "bool \<Rightarrow> u32 \<Rightarrow> ('d gic_world, int) prog" where
  "plat_ic_has_interrupt_type dbg type =
     mbind (dbg_assert dbg (type = INTR_TYPE_EL3 \<or> type = INTR_TYPE_S_EL1 \<or> type = INTR_TYPE_NS)) (\<lambda>_. mret 1)"

definition plat_ic_set_interrupt_type :: "bool \<Rightarrow> 'd gic_device \<Rightarrow> u64 \<Rightarrow> nat \<Rightarrow> u32 \<Rightarrow> ('d gic_world, unit) prog" where
  "plat_ic_set_interrupt_type dbg G mpidr intr type = gicv3_set_interrupt_type dbg G intr (imx_my_core_pos mpidr) type"

definition plat_ic_raise_el3_sgi :: "bool \<Rightarrow> 'd gic_device \<Rightarrow> u64 \<Rightarrow> nat \<Rightarrow> u64 \<Rightarrow> ('d gic_world, unit) prog" where
  "plat_ic_raise_el3_sgi dbg G mpidr sgi_num target =
     mbind (dbg_assert dbg (imx_plat_core_pos_by_mpidr target \<ge> 0)) (\<lambda>_.
     mbind (mwhen dbg (mbind (plat_ic_get_interrupt_type dbg G mpidr sgi_num) (\<lambda>t. dbg_assert dbg (t = INTR_TYPE_EL3)))) (\<lambda>_.
     gicv3_raise_secure_g0_sgi dbg sgi_num target))"

definition plat_ic_set_spi_routing :: "bool \<Rightarrow> 'd gic_device \<Rightarrow> nat \<Rightarrow> u32 \<Rightarrow> u64 \<Rightarrow> ('d gic_world, unit) prog" where
  "plat_ic_set_spi_routing dbg G intr routing_mode mpidr =
     mbind (if routing_mode = INTR_ROUTING_MODE_PE
            then mbind (dbg_assert dbg (imx_plat_core_pos_by_mpidr mpidr \<ge> 0)) (\<lambda>_. mret GICV3_IRM_PE)
            else if routing_mode = INTR_ROUTING_MODE_ANY then mret GICV3_IRM_ANY
            else mbind (dbg_assert dbg False) (\<lambda>_. mret 0)) (\<lambda>irm.
     gicv3_set_spi_routing dbg G intr irm mpidr)"

definition plat_ic_set_interrupt_pending :: "bool \<Rightarrow> 'd gic_device \<Rightarrow> u64 \<Rightarrow> nat \<Rightarrow> ('d gic_world, unit) prog" where
  "plat_ic_set_interrupt_pending dbg G mpidr intr =
     mbind (dbg_assert dbg (intr \<ge> MIN_PPI_ID)) (\<lambda>_. gicv3_set_interrupt_pending dbg G intr (imx_my_core_pos mpidr))"

definition plat_ic_clear_interrupt_pending :: "bool \<Rightarrow> 'd gic_device \<Rightarrow> u64 \<Rightarrow> nat \<Rightarrow> ('d gic_world, unit) prog" where
  "plat_ic_clear_interrupt_pending dbg G mpidr intr =
     mbind (dbg_assert dbg (intr \<ge> MIN_PPI_ID)) (\<lambda>_. gicv3_clear_interrupt_pending dbg G intr (imx_my_core_pos mpidr))"

definition plat_ic_set_priority_mask :: "u32 \<Rightarrow> ('d gic_world, u32) prog" where
  "plat_ic_set_priority_mask msk = gicv3_set_pmr msk"

definition plat_ic_get_interrupt_id :: "u32 \<Rightarrow> nat" where
  "plat_ic_get_interrupt_id raw =
     (let intr = unat (raw AND 0xffffff)
      in if gicv3_is_intr_id_special_identifier intr then INTR_ID_UNAVAILABLE else intr)"

section \<open>The board\<close>

text \<open>
  Interrupt 6 belongs to S-EL1 and interrupt 7 to EL3, both with the highest secure priority, which
  is zero, and level triggered.
\<close>

definition g01s_interrupt_props :: "interrupt_prop_t list" where
  "g01s_interrupt_props =
     [\<lparr>intr_num = 6, intr_pri = 0, intr_grp = INTR_GROUP1S, intr_cfg = 0\<rparr>,
      \<lparr>intr_num = 7, intr_pri = 0, intr_grp = INTR_GROUP0, intr_cfg = 0\<rparr>]"

definition plat_imx_mpidr_to_core_pos :: "u64 \<Rightarrow> nat" where
  "plat_imx_mpidr_to_core_pos mpidr = nat (imx_plat_core_pos_by_mpidr mpidr mod 2 ^ 32)"

definition arm_gic_data :: gicv3_driver_data_t where
  "arm_gic_data =
     \<lparr>gicd_base = PLAT_GICD_BASE, gicr_base = PLAT_GICR_BASE, interrupt_props = g01s_interrupt_props,
      rdistif_num = 4, mpidr_to_core_pos = Some plat_imx_mpidr_to_core_pos\<rparr>"

definition plat_gic_driver_init :: "bool \<Rightarrow> 'd gic_device \<Rightarrow> u64 \<Rightarrow> ('d gic_world, unit) prog" where
  "plat_gic_driver_init dbg G id_aa64pfr0 = gicv3_driver_init dbg G id_aa64pfr0 arm_gic_data"

definition plat_gic_init :: "bool \<Rightarrow> 'd gic_device \<Rightarrow> u64 \<Rightarrow> ('d gic_world, unit) prog" where
  "plat_gic_init dbg G mpidr =
     mbind (gicv3_distif_init dbg G mpidr) (\<lambda>_.
     mbind (gicv3_rdistif_init dbg G (imx_my_core_pos mpidr)) (\<lambda>_.
     gicv3_cpuif_enable dbg G (imx_my_core_pos mpidr)))"

definition plat_gic_cpuif_enable :: "bool \<Rightarrow> 'd gic_device \<Rightarrow> u64 \<Rightarrow> ('d gic_world, unit) prog" where
  "plat_gic_cpuif_enable dbg G mpidr = gicv3_cpuif_enable dbg G (imx_my_core_pos mpidr)"

definition plat_gic_cpuif_disable :: "bool \<Rightarrow> 'd gic_device \<Rightarrow> u64 \<Rightarrow> ('d gic_world, unit) prog" where
  "plat_gic_cpuif_disable dbg G mpidr = gicv3_cpuif_disable dbg G (imx_my_core_pos mpidr)"

definition plat_gic_pcpu_init :: "bool \<Rightarrow> 'd gic_device \<Rightarrow> u64 \<Rightarrow> ('d gic_world, unit) prog" where
  "plat_gic_pcpu_init dbg G mpidr = gicv3_rdistif_init dbg G (imx_my_core_pos mpidr)"

record plat_gic_ctx =
  rdist_ctx :: "gicv3_redist_ctx_t list"
  dist_ctx :: gicv3_dist_ctx_t

definition plat_gic_save :: "bool \<Rightarrow> 'd gic_device \<Rightarrow> nat \<Rightarrow> plat_gic_ctx \<Rightarrow> ('d gic_world, plat_gic_ctx) prog" where
  "plat_gic_save dbg G proc_num ctx =
     mbind (mfold (\<lambda>i rctx.
       mbind (array_get rctx i) (\<lambda>c.
       mbind (gicv3_rdistif_save dbg G i c) (\<lambda>c. mret (rctx[i := c])))) [0..<4] (rdist_ctx ctx)) (\<lambda>rctx.
     mbind (gicv3_distif_save dbg G (dist_ctx ctx)) (\<lambda>dctx.
     mret \<lparr>rdist_ctx = rctx, dist_ctx = dctx\<rparr>))"

definition plat_gic_restore :: "bool \<Rightarrow> 'd gic_device \<Rightarrow> nat \<Rightarrow> plat_gic_ctx \<Rightarrow> ('d gic_world, unit) prog" where
  "plat_gic_restore dbg G proc_num ctx =
     mbind (gicv3_distif_init_restore dbg G (dist_ctx ctx)) (\<lambda>_.
     for_ids [0..<4] (\<lambda>i. mbind (array_get (rdist_ctx ctx) i) (gicv3_rdistif_init_restore dbg G i)))"

end
