(* ===== verification/Plat_Gic_Results.thy ===== *)
theory Plat_Gic_Results
  imports Plat_Gic
begin

text \<open>
  The interrupt controller of the board after the cold boot, for every controller that satisfies the
  laws and identifies itself as the one of the i.MX8MQ.
\<close>

section \<open>Finding the redistributors\<close>

text \<open>
  A GICv3, with one redistributor for every core in the order of the cores, of which the last one says that it is the last.
\<close>

definition mq_identified :: "'d gic_device \<Rightarrow> 'd \<Rightarrow> bool" where
  "mq_identified G d \<longleftrightarrow>
     drop_bit 4 (gic_read_32 G d (PLAT_GICD_BASE + GICD_PIDR2_GICV3)) AND 0xf = 3 \<and>
     (\<forall>i<4. mpidr_from_gicr_typer (gic_read_64 G d (mq_frames ! i + GICR_TYPER)) = of_nat i \<and>
        (gic_read_64 G d (mq_frames ! i + GICR_TYPER) AND 0x10 = 0 \<longleftrightarrow> i \<noteq> 3))"

lemma core_pos: "i < 4 \<Longrightarrow> plat_imx_mpidr_to_core_pos (of_nat i) = i"
proof -
  assume "i < 4"
  then have "i = 0 \<or> i = 1 \<or> i = 2 \<or> i = 3" by linarith
  then show ?thesis
    by (elim disjE; simp add: plat_imx_mpidr_to_core_pos_def imx_plat_core_pos_by_mpidr_def)
qed

lemma my_core_pos: "c < 4 \<Longrightarrow> mpidr = 0x80000000 OR of_nat c \<Longrightarrow> imx_my_core_pos mpidr = c"
proof -
  assume "c < 4" "mpidr = 0x80000000 OR of_nat c"
  then have "c = 0 \<or> c = 1 \<or> c = 2 \<or> c = 3" "mpidr = 0x80000000 OR of_nat c" by auto
  then show ?thesis by (elim disjE; simp add: imx_my_core_pos_def)
qed

lemma probe_step:
  assumes id: "mq_identified G (gic_dev s)" and i: "i < 4" and len: "length (rdistif_base_addrs s) = 4"
  shows "rdistif_probe_loop (Suc n) dbg G 4 (Some plat_imx_mpidr_to_core_pos) (mq_frames ! i) s =
    (if i = 3 then Ret () (s\<lparr>rdistif_base_addrs := (rdistif_base_addrs s)[i := mq_frames ! i]\<rparr>)
     else rdistif_probe_loop n dbg G 4 (Some plat_imx_mpidr_to_core_pos) (mq_frames ! Suc i)
       (s\<lparr>rdistif_base_addrs := (rdistif_base_addrs s)[i := mq_frames ! i]\<rparr>))"
proof -
  have t: "mpidr_from_gicr_typer (gic_read_64 G (gic_dev s) (mq_frames ! i + GICR_TYPER)) = of_nat i"
    "gic_read_64 G (gic_dev s) (mq_frames ! i + GICR_TYPER) AND 0x10 = 0 \<longleftrightarrow> i \<noteq> 3"
    using id i by (auto simp: mq_identified_def)
  have "i = 0 \<or> i = 1 \<or> i = 2 \<or> i = 3" using i by linarith
  then have next_frame: "i \<noteq> 3 \<Longrightarrow> mq_frames ! i + 0x20000 = mq_frames ! Suc i" by (elim disjE) (simp_all add: mq_frames_def)
  show ?thesis
    using i len t next_frame core_pos [OF i]
    by (simp add: gicr_read_typer_def gic_mmio_read_64_def Let_def prog_simps mq_identified_def)
qed

lemma frames_step: "i < 4 \<Longrightarrow> length xs = 4 \<Longrightarrow>
  take (Suc i) (xs[i := mq_frames ! i]) @ drop (Suc i) mq_frames = take i xs @ drop i mq_frames"
  by (simp add: take_Suc_conv_app_nth Cons_nth_drop_Suc mq_frames_def [THEN arg_cong [of _ _ length]])

lemma probe_runs:
  assumes "mq_identified G (gic_dev s)" "length (rdistif_base_addrs s) = 4" "i < 4" "4 \<le> n + i"
  shows "rdistif_probe_loop n dbg G 4 (Some plat_imx_mpidr_to_core_pos) (mq_frames ! i) s =
    Ret () (s\<lparr>rdistif_base_addrs := take i (rdistif_base_addrs s) @ drop i mq_frames\<rparr>)"
  using assms
proof (induction n arbitrary: i s)
  case 0
  then show ?case by simp
next
  case (Suc n)
  let ?s = "s\<lparr>rdistif_base_addrs := (rdistif_base_addrs s)[i := mq_frames ! i]\<rparr>"
  note step = frames_step [OF Suc.prems(3,2)]
  show ?case
  proof (cases "i = 3")
    case True
    have "drop (Suc i) mq_frames = []" "take (Suc i) xs = xs" if "length xs = 4" for xs :: "u64 list"
      using True that by (simp_all add: mq_frames_def)
    with step Suc.prems(2) have "(rdistif_base_addrs s)[i := mq_frames ! i] = take i (rdistif_base_addrs s) @ drop i mq_frames"
      by (metis append_Nil2 length_list_update)
    then show ?thesis unfolding probe_step [OF Suc.prems(1,3,2)] using True by simp
  next
    case False
    have "rdistif_probe_loop n dbg G 4 (Some plat_imx_mpidr_to_core_pos) (mq_frames ! Suc i) ?s =
        Ret () (?s\<lparr>rdistif_base_addrs := take (Suc i) (rdistif_base_addrs ?s) @ drop (Suc i) mq_frames\<rparr>)"
      by (rule Suc.IH) (use Suc.prems False in simp_all)
    then show ?thesis unfolding probe_step [OF Suc.prems(1,3,2)] using False step by simp
  qed
qed

lemma driver_init_runs:
  assumes id: "mq_identified G (gic_dev s)" and len: "length (rdistif_base_addrs s) = 4" and n: "4 \<le> gic_patience G"
    and cpu: "pfr0 AND push_bit 24 0xf \<noteq> 0"
  obtains compat where "plat_gic_driver_init dbg G pfr0 s =
    Ret () (s\<lparr>gicv2_compat := compat, rdistif_base_addrs := mq_frames, gicv3_driver_data := Some arm_gic_data\<rparr>)"
proof -
  let ?compat = "drop_bit 4 (gic_read_32 G (gic_dev s) PLAT_GICD_BASE) AND 1 = 0"
  let ?s = "s\<lparr>gicv2_compat := ?compat\<rparr>"
  have "mq_identified G (gic_dev ?s)" "length (rdistif_base_addrs ?s) = 4" using id len by simp_all
  from probe_runs [OF this, of 0 "gic_patience G" dbg] n
  have probe: "gicv3_rdistif_base_addrs_probe dbg G 4 PLAT_GICR_BASE (Some plat_imx_mpidr_to_core_pos) ?s =
      Ret () (?s\<lparr>rdistif_base_addrs := mq_frames\<rparr>)"
    by (simp add: gicv3_rdistif_base_addrs_probe_def mq_frames_def)
  have "drop_bit 4 (gic_read_32 G (gic_dev s) (PLAT_GICD_BASE + GICD_PIDR2_GICV3)) AND 0xf = 3"
    using id by (simp add: mq_identified_def)
  then have "plat_gic_driver_init dbg G pfr0 s = mbind (gicv3_rdistif_base_addrs_probe dbg G 4 PLAT_GICR_BASE (Some plat_imx_mpidr_to_core_pos))
      (\<lambda>_. mmodify (\<lambda>s. s\<lparr>gicv3_driver_data := Some arm_gic_data\<rparr>)) ?s"
    using cpu by (simp add: plat_gic_driver_init_def gicv3_driver_init_def arm_gic_data_def gicd_read_pidr2_def gicd_read_ctlr_def
        read_32_run)
  also have "\<dots> = Ret () (?s\<lparr>rdistif_base_addrs := mq_frames, gicv3_driver_data := Some arm_gic_data\<rparr>)"
    by (rule trans, rule mbind_run(1), rule probe) (simp add: mmodify_def)
  finally show thesis by (rule that)
qed


section \<open>The cold boot\<close>

text \<open>
  What the board provides when core \<open>c\<close> boots: a controller that satisfies the laws and identifies
  itself, whose redistributor says that the core sleeps, with the fields of GICD\_CTLR that select
  groups and affinity routing writable, and the interrupts 6 and 7.
\<close>

definition mq_ready :: "'d gic_device \<Rightarrow> gic_hw \<Rightarrow> nat \<Rightarrow> 'd gic_world \<Rightarrow> bool" where
  "mq_ready G H c s \<longleftrightarrow>
     gic_hardware G H PLAT_GICD_BASE mq_frames \<and> 4 \<le> gic_patience G \<and> mq_identified G (gic_dev s) \<and>
     length (rdistif_base_addrs s) = 4 \<and> c < 4 \<and> rd_asleep G (mq_frames ! c) (gic_dev s) \<and>
     hw_writable H PLAT_GICD_BASE AND 0x37 = 0x37 \<and>
     ppi_implemented H (mq_frames ! c) 6 \<and> ppi_implemented H (mq_frames ! c) 7"

lemma board_props:
  "list_all prop_ok g01s_interrupt_props" "p \<in> set g01s_interrupt_props \<Longrightarrow> intr_num p = 6 \<or> intr_num p = 7"
  "configured_type g01s_interrupt_props i = (if i = 6 then INTR_TYPE_S_EL1 else if i = 7 then INTR_TYPE_EL3 else INTR_TYPE_NS)"
  "(\<exists>p\<in>set g01s_interrupt_props. intr_num p = i) \<longleftrightarrow> i = 6 \<or> i = 7"
  "spi_groups g01s_interrupt_props = 0" "ppi_groups g01s_interrupt_props = 5"
  by (auto simp: g01s_interrupt_props_def prop_ok_def configured_type_def spi_groups_def ppi_groups_def group_enable_def)

lemma arm_gic_fields:
  "gicd_base arm_gic_data = PLAT_GICD_BASE" "rdistif_num arm_gic_data = 4" "interrupt_props arm_gic_data = g01s_interrupt_props"
  by (simp_all add: arm_gic_data_def)

lemma board_frame: "c < 4 \<Longrightarrow> c < length mq_frames" "c < 4 \<Longrightarrow> mq_frames ! c \<in> set mq_frames"
  by (simp_all add: mq_frames_def nth_mem [of c mq_frames, unfolded mq_frames_def, simplified] del: set_simps)

context gic_hardware
begin

lemma same_but_waker_types:
  assumes w: "same_but_waker b d d'" and b: "b \<in> set rds"
  shows "i < 1024 \<Longrightarrow> 32 \<le> i \<Longrightarrow> spi_type gd (bank_of G H d') i = spi_type gd (bank_of G H d) i"
    and "i < 1024 \<Longrightarrow> spi_enabled gd (bank_of G H d') i = spi_enabled gd (bank_of G H d) i"
    and "ppi_type b (bank_of G H d') i = ppi_type b (bank_of G H d) i"
    and "ppi_enabled b (bank_of G H d') i = ppi_enabled b (bank_of G H d) i"
    and "b32 (bank_of G H d') gd = b32 (bank_of G H d) gd"
proof -
  have same: "b32 (bank_of G H d') a = b32 (bank_of G H d) a" if "a \<notin> (\<lambda>b. b + GICR_WAKER) ` set rds" for a
    using w b that unfolding same_but_waker_def by blast
  have g: "b32 (bank_of G H d') (gd + of_nat off) = b32 (bank_of G H d) (gd + of_nat off)" if "off < 0x10000" for off
    by (rule same) (rule waker_gicd [OF that])
  have r: "b32 (bank_of G H d') (b + of_nat off) = b32 (bank_of G H d) (b + of_nat off)" if "off < 0x20000" "off \<noteq> 0x14" for off
    by (rule same) (rule waker_addr [OF that b])
  have l: "0x80 + 4 * (i div 32) < 0x10000" "0xd00 + 4 * (i div 32) < 0x10000" "0x100 + 4 * (i div 32) < 0x10000" if "i < 1024"
    using that by linarith+
  show "spi_type gd (bank_of G H d') i = spi_type gd (bank_of G H d) i" if "i < 1024" "32 \<le> i"
    unfolding spi_type_def g [OF l(1) [OF that(1)]] g [OF l(2) [OF that(1)]] by (rule refl)
  show "spi_enabled gd (bank_of G H d') i = spi_enabled gd (bank_of G H d) i" if "i < 1024"
    unfolding spi_enabled_def g [OF l(3) [OF that]] by (rule refl)
  show "ppi_type b (bank_of G H d') i = ppi_type b (bank_of G H d) i" unfolding ppi_type_def by (subst (1 2) r) simp_all
  show "ppi_enabled b (bank_of G H d') i = ppi_enabled b (bank_of G H d) i" unfolding ppi_enabled_def by (subst r) simp_all
  show "b32 (bank_of G H d') gd = b32 (bank_of G H d) gd" using g [of 0] by simp
qed

end


text \<open>The set-up of a controller that satisfies the laws runs to its end, and this is what it leaves.\<close>

definition boot_bank :: "gic_hw \<Rightarrow> u64 \<Rightarrow> u64 \<Rightarrow> u64 \<Rightarrow> interrupt_prop_t list \<Rightarrow> gic_bank \<Rightarrow> gic_bank" where
  "boot_bank H gd b mpidr props m = rdistif_effect H gd b props (distif_effect H gd mpidr props m)"

context gic_hardware
begin

lemma gic_init_runs:
  assumes data: "gicv3_driver_data s = Some data" "gicd_base data = gd" "gd \<noteq> 0" "list_all prop_ok (interrupt_props data)"
    and core: "core < rdistif_num data" "core < length (rdistif_base_addrs s)" "rdistif_base_addrs s ! core = b" "b \<in> set rds"
    and asleep: "rd_asleep G b (gic_dev s)" and w: "hw_writable H gd AND 0x37 = 0x37"
  obtains d e where "mbind (gicv3_distif_init dbg G mpidr) (\<lambda>_. mbind (gicv3_rdistif_init dbg G core) (\<lambda>_.
      gicv3_cpuif_enable dbg G core)) s = Ret () (s\<lparr>gic_dev := e, icc := icc_on (icc s)\<rparr>)"
    "bank_of G H d = boot_bank H gd b mpidr (interrupt_props data) (bank_of G H (gic_dev s))"
    "same_but_waker b d e" "gic_read_32 G e (b + GICR_WAKER) AND WAKER_CA_BIT = 0"
proof -
  let ?props = "interrupt_props data"
  obtain d1 where d1: "gicv3_distif_init dbg G mpidr s = Ret () (s\<lparr>gic_dev := d1\<rparr>)"
      "bank_of G H d1 = distif_effect H gd mpidr ?props (bank_of G H (gic_dev s))"
      "\<And>b. b \<in> set rds \<Longrightarrow> rd_asleep G b (gic_dev s) \<Longrightarrow> rd_asleep G b d1"
    by (rule gicd_distif_runs [OF data]) blast
  have "b32 (bank_of G H d1) gd AND 0x37 = spi_groups ?props OR 0x30"
    unfolding d1(2) by (rule distif_ctlr [OF data(4) w])
  then have "bit (b32 (bank_of G H d1) gd) 4"
    by (metis bit_and_iff bit_or_iff ctlr_masks(2) insertI1)
  then have are: "b32 (bank_of G H (gic_dev (s\<lparr>gic_dev := d1\<rparr>))) gd AND CTLR_ARE_S_BIT \<noteq> 0"
    using bit_test [of 4 "b32 (bank_of G H d1) gd"] by (auto simp: and_exp_eq_0_iff_not_bit [of _ 4, simplified])
  have s1: "gicv3_driver_data (s\<lparr>gic_dev := d1\<rparr>) = Some data" "core < length (rdistif_base_addrs (s\<lparr>gic_dev := d1\<rparr>))"
    "rdistif_base_addrs (s\<lparr>gic_dev := d1\<rparr>) ! core = b"
    using data core by simp_all
  obtain d2 where d2: "gicv3_rdistif_init dbg G core (s\<lparr>gic_dev := d1\<rparr>) = Ret () (s\<lparr>gic_dev := d2\<rparr>)"
      "bank_of G H d2 = rdistif_effect H gd b ?props (bank_of G H d1)" "rd_asleep G b d2"
    using gicd_rdistif_runs [OF s1(1) data(2-4) core(1) s1(2,3) core(4) are, of dbg] d1(3) [OF core(4) asleep] core(4) by auto
  have s2: "gicv3_driver_data (s\<lparr>gic_dev := d2\<rparr>) = Some data" "core < length (rdistif_base_addrs (s\<lparr>gic_dev := d2\<rparr>))"
    "rdistif_base_addrs (s\<lparr>gic_dev := d2\<rparr>) ! core = b" "rd_asleep G b (gic_dev (s\<lparr>gic_dev := d2\<rparr>))"
    using data core d2(3) by simp_all
  obtain e where e: "gicv3_cpuif_enable dbg G core (s\<lparr>gic_dev := d2\<rparr>) = Ret () (s\<lparr>gic_dev := e, icc := icc_on (icc s)\<rparr>)"
      "same_but_waker b d2 e" "gic_read_32 G e (b + GICR_WAKER) AND WAKER_CA_BIT = 0"
    using cpuif_enable_runs [OF s2(1) core(1) s2(2,3) core(4) s2(4), of dbg] by auto
  show thesis
    by (rule that [of e d2]) (simp_all add: mbind_def d1(1) d2(1) e boot_bank_def d1(2) d2(2))
qed

lemma boot_bank_types:
  assumes b: "b \<in> set rds" and ok: "list_all prop_ok props" "\<forall>p\<in>set props. intr_num p < 32 \<and> ppi_implemented H b (intr_num p)"
  shows "j < 32 \<Longrightarrow> ppi_implemented H b j \<Longrightarrow>
      ppi_type b (boot_bank H gd b mpidr props m) j = configured_type props j \<and>
      ppi_enabled b (boot_bank H gd b mpidr props m) j = (\<exists>p\<in>set props. intr_num p = j)"
    and "32 \<le> j \<Longrightarrow> j < num_ints_of (b32 m (gd + of_nat 4)) \<Longrightarrow> spi_implemented H gd j \<Longrightarrow>
      spi_type gd (boot_bank H gd b mpidr props m) j = configured_type props j \<and>
      spi_enabled gd (boot_bank H gd b mpidr props m) j = spi_enabled gd m j"
    and "hw_writable H gd AND 0x37 = 0x37 \<Longrightarrow>
      b32 (boot_bank H gd b mpidr props m) gd AND 0x37 = spi_groups props OR 0x30 OR ppi_groups props"
proof -
  have props: "list_all prop_ok props" "\<And>p. p \<in> set props \<Longrightarrow> intr_num p < 32"
    "\<And>p. p \<in> set props \<Longrightarrow> ppi_implemented H b (intr_num p)"
    using ok by blast+
  have np: "\<And>p. p \<in> set props \<Longrightarrow> 32 \<le> intr_num p \<Longrightarrow> spi_implemented H gd (intr_num p)"
    using props(2) leD by blast
  show "ppi_type b (boot_bank H gd b mpidr props m) j = configured_type props j \<and>
      ppi_enabled b (boot_bank H gd b mpidr props m) j = (\<exists>p\<in>set props. intr_num p = j)" if "j < 32" "ppi_implemented H b j"
    unfolding boot_bank_def using rdistif_types [OF b props(1,3) that] by blast
  show "spi_type gd (boot_bank H gd b mpidr props m) j = configured_type props j \<and>
      spi_enabled gd (boot_bank H gd b mpidr props m) j = spi_enabled gd m j"
    if j: "32 \<le> j" "j < num_ints_of (b32 m (gd + of_nat 4))" "spi_implemented H gd j"
  proof -
    have "j < 1024" using j(2) num_ints_bound(1) [of "b32 m (gd + of_nat 4)"] by linarith
    moreover have "\<not> (\<exists>p\<in>set props. intr_num p = j)" using props(2) j(1) by force
    ultimately show ?thesis
      unfolding boot_bank_def using distif_types [OF props(1) np j, of mpidr] by (simp only: rdistif_spi [OF b]) blast
  qed
  show "b32 (boot_bank H gd b mpidr props m) gd AND 0x37 = spi_groups props OR 0x30 OR ppi_groups props"
    if "hw_writable H gd AND 0x37 = 0x37"
    unfolding boot_bank_def rdistif_ctlr [OF b that] distif_ctlr [OF props(1) that] by (rule or.assoc)
qed

end


section \<open>The board after the cold boot\<close>

text \<open>The identifiers of the interrupts that exist for the core whose redistributor is at \<open>b\<close>, of the lines the distributor has.\<close>

definition irq_present :: "gic_hw \<Rightarrow> u64 \<Rightarrow> nat \<Rightarrow> nat \<Rightarrow> bool" where
  "irq_present H b num i \<longleftrightarrow>
     (if i < MIN_SPI_ID then ppi_implemented H b i else i < num \<and> i \<le> MAX_SPI_ID \<and> spi_implemented H PLAT_GICD_BASE i)"

text \<open>
  C5. The set-up of the interrupt controller on the boot core: \<^verbatim>\<open>plat_gic_driver_init()\<close> and
  \<^verbatim>\<open>plat_gic_init()\<close> return, and of the interrupts that exist exactly two are left to the secure side: 6 for S-EL1
  and 7 for EL3, as \<^verbatim>\<open>plat_ic_get_interrupt_type()\<close> then reports; of the private interrupts of the core
  these two alone are enabled, the shared ones are as they were; the distributor forwards the two
  secure groups, but not yet that of the normal world, with affinity routing on; and the core is
  awake with its CPU interface on.
\<close>

theorem board_interrupts_secured:
  assumes ready: "mq_ready G H c s" and mpidr: "mpidr = 0x80000000 OR of_nat c" and cpu: "pfr0 AND push_bit 24 0xf \<noteq> 0"
    and num: "num = num_ints_of (gic_read_32 G (gic_dev s) (PLAT_GICD_BASE + GICD_TYPER))"
  shows "\<exists>s'. mbind (plat_gic_driver_init dbg G pfr0) (\<lambda>_. plat_gic_init dbg G mpidr) s = Ret () s' \<and>
     (\<forall>i. irq_present H (mq_frames ! c) num i \<longrightarrow>
        plat_ic_get_interrupt_type dbg G mpidr i s' =
          Ret (if i = 6 then INTR_TYPE_S_EL1 else if i = 7 then INTR_TYPE_EL3 else INTR_TYPE_NS) s' \<and>
        (if i < MIN_SPI_ID then ppi_enabled (mq_frames ! c) (bank_of G H (gic_dev s')) i = (i = 6 \<or> i = 7)
         else spi_enabled PLAT_GICD_BASE (bank_of G H (gic_dev s')) i = spi_enabled PLAT_GICD_BASE (bank_of G H (gic_dev s)) i)) \<and>
     b32 (bank_of G H (gic_dev s')) PLAT_GICD_BASE AND 0x37 =
       CTLR_ENABLE_G0_BIT OR CTLR_ENABLE_G1S_BIT OR CTLR_ARE_S_BIT OR CTLR_ARE_NS_BIT \<and>
     gic_read_32 G (gic_dev s') (mq_frames ! c + GICR_WAKER) AND WAKER_CA_BIT = 0 \<and> icc s' = icc_on (icc s)"
proof -
  let ?b = "mq_frames ! c" and ?m = "bank_of G H (gic_dev s)" and ?props = g01s_interrupt_props
  have r: "gic_hardware G H PLAT_GICD_BASE mq_frames" "4 \<le> gic_patience G" "mq_identified G (gic_dev s)"
    "length (rdistif_base_addrs s) = 4" "c < 4" "rd_asleep G ?b (gic_dev s)" "hw_writable H PLAT_GICD_BASE AND 0x37 = 0x37"
    "ppi_implemented H ?b 6" "ppi_implemented H ?b 7"
    using ready by (simp_all add: mq_ready_def)
  note pos = my_core_pos [OF r(5) mpidr] and b = board_frame(2) [OF r(5)]
  obtain compat where init: "plat_gic_driver_init dbg G pfr0 s =
      Ret () (s\<lparr>gicv2_compat := compat, rdistif_base_addrs := mq_frames, gicv3_driver_data := Some arm_gic_data\<rparr>)"
    by (rule driver_init_runs [OF r(3,4,2) cpu])
  define s1 where "s1 = s\<lparr>gicv2_compat := compat, rdistif_base_addrs := mq_frames, gicv3_driver_data := Some arm_gic_data\<rparr>"
  have s1: "gicv3_driver_data s1 = Some arm_gic_data" "gicd_base arm_gic_data = PLAT_GICD_BASE" "PLAT_GICD_BASE \<noteq> 0"
    "list_all prop_ok (interrupt_props arm_gic_data)" "c < rdistif_num arm_gic_data" "c < length (rdistif_base_addrs s1)"
    "rdistif_base_addrs s1 ! c = ?b" "rd_asleep G ?b (gic_dev s1)"
    using r(5,6) board_props(1) board_frame(1) by (simp_all add: s1_def arm_gic_fields)
  obtain d e where run: "mbind (gicv3_distif_init dbg G mpidr) (\<lambda>_. mbind (gicv3_rdistif_init dbg G c) (\<lambda>_.
      gicv3_cpuif_enable dbg G c)) s1 = Ret () (s1\<lparr>gic_dev := e, icc := icc_on (icc s1)\<rparr>)"
    "bank_of G H d = boot_bank H PLAT_GICD_BASE ?b mpidr (interrupt_props arm_gic_data) (bank_of G H (gic_dev s1))"
    "gic_hardware.same_but_waker G H ?b d e" "gic_read_32 G e (?b + GICR_WAKER) AND WAKER_CA_BIT = 0"
    by (rule gic_hardware.gic_init_runs [OF r(1) s1(1-7) b s1(8) r(7)])
  define s2 where "s2 = s1\<lparr>gic_dev := e, icc := icc_on (icc s1)\<rparr>"
  have bank: "bank_of G H d = boot_bank H PLAT_GICD_BASE ?b mpidr ?props ?m"
    using run(2) by (simp add: s1_def arm_gic_fields)
  note same = gic_hardware.same_but_waker_types [OF r(1) run(3) b]
  have props: "\<forall>p\<in>set ?props. intr_num p < 32 \<and> ppi_implemented H ?b (intr_num p)"
    using board_props(2) r(8,9) by fastforce+
  note types = gic_hardware.boot_bank_types [OF r(1) b board_props(1) props, where mpidr = mpidr and m = ?m, folded bank]
  have typer: "num = num_ints_of (b32 ?m (PLAT_GICD_BASE + of_nat 4))"
  proof -
    have k: "hw_kind H (PLAT_GICD_BASE + of_nat 4) = Plain_reg" "hw_live H (PLAT_GICD_BASE + of_nat 4) = 0"
      using gic_hardware.kind_gicd [OF r(1), of 4] gic_hardware.live_gicd [OF r(1), of 4]
      by (simp_all add: gicd_kind_def intr_reg_kind_def)
    show ?thesis unfolding num gic_hardware.read_plain [OF r(1) k, symmetric] by simp
  qed
  have s2: "gicv3_driver_data s2 = Some arm_gic_data" "c < length (rdistif_base_addrs s2)" "rdistif_base_addrs s2 ! c = ?b" "gic_dev s2 = e"
    using s1(1,6,7) by (simp_all add: s2_def)
  have irq: "plat_ic_get_interrupt_type dbg G mpidr i s2 =
          Ret (if i = 6 then INTR_TYPE_S_EL1 else if i = 7 then INTR_TYPE_EL3 else INTR_TYPE_NS) s2 \<and>
        (if i < MIN_SPI_ID then ppi_enabled ?b (bank_of G H e) i = (i = 6 \<or> i = 7)
         else spi_enabled PLAT_GICD_BASE (bank_of G H e) i = spi_enabled PLAT_GICD_BASE ?m i)" if i: "irq_present H ?b num i" for i
  proof -
    have i1020: "i < 1020" using i by (auto simp: irq_present_def split: if_splits)
    note get = gic_hardware.get_type_runs [OF r(1) s2(1) s1(2,3,5) s2(2,3) b i1020, of dbg]
    show ?thesis
    proof (cases "i < 32")
      case True
      then have p: "ppi_implemented H ?b i" using i by (simp add: irq_present_def)
      show ?thesis
        unfolding plat_ic_get_interrupt_type_def pos get s2(4) type_in_ppi [OF True] same(3,4)
        using types(1) [OF True p] True by (simp add: board_props(3,4))
    next
      case False
      then have le: "32 \<le> i" and p: "i < num" "spi_implemented H PLAT_GICD_BASE i" using i by (simp_all add: irq_present_def)
      have "i < 1024" using i1020 by simp
      show ?thesis
        unfolding plat_ic_get_interrupt_type_def pos get s2(4) type_in_spi [OF le] same(1) [OF \<open>i < 1024\<close> le] same(2) [OF \<open>i < 1024\<close>]
        using types(2) [OF le p(1) [unfolded typer] p(2)] False by (simp add: board_props(3))
    qed
  qed
  have "b32 (bank_of G H e) PLAT_GICD_BASE AND 0x37 = 0x35"
    unfolding same(5) using types(3) [OF r(7)] by (simp add: board_props(5,6))
  moreover have "mbind (plat_gic_driver_init dbg G pfr0) (\<lambda>_. plat_gic_init dbg G mpidr) s = Ret () s2"
    using init run(1) by (simp add: mbind_def plat_gic_init_def pos s1_def s2_def)
  ultimately show ?thesis using irq run(4) by (intro exI [of _ s2]) (simp add: s2(4), simp add: s2_def s1_def)
qed

text \<open>A controller like that of the board with 160 interrupts, out of reset, and the driver before it is initialised.\<close>

definition sample_gic :: gic_bank where
  "sample_gic =
     \<lparr>b32 = (\<lambda>a. if a = PLAT_GICD_BASE + GICD_PIDR2_GICV3 then 0x3b else if a = PLAT_GICD_BASE + GICD_TYPER then 4
        else if a \<in> set (map (\<lambda>b. b + GICR_WAKER) mq_frames) then WAKER_PS_BIT else 0),
      b64 = (\<lambda>a. if a = 0x38880008 then 0 else if a = 0x388a0008 then 0x100000000 else if a = 0x388c0008 then 0x200000000
        else if a = 0x388e0008 then 0x300000010 else 0)\<rparr>"

definition sample_icc :: icc_regs where
  "sample_icc = \<lparr>core_scr_el3 = 0, icc_sre_el3 = 0, icc_sre_el2 = 0, icc_sre_el1 = (\<lambda>_. 0), icc_pmr_el1 = 0, icc_igrpen0_el1 = 0,
     icc_igrpen1_el3 = 0, icc_hppir0_el1 = 0x3ff, icc_hppir1_el1 = 0x3ff, icc_iar0_el1 = 0x3ff, icc_rpr_el1 = 0xff, icc_log = []\<rparr>"

definition sample_gic_world :: "gic_bank gic_world" where
  "sample_gic_world = \<lparr>gic_dev = sample_gic, gicv3_driver_data = None, gicv2_compat = False,
     rdistif_base_addrs = [0, 0, 0, 0], gic_lock = False, icc = sample_icc\<rparr>"

lemma sample_gic_ready: "mq_ready mq_gic mq_hw 0 sample_gic_world"
proof -
  have hw: "gic_hardware mq_gic mq_hw PLAT_GICD_BASE mq_frames" by unfold_locales
  have four: "(\<forall>i<4. P i) \<longleftrightarrow> P 0 \<and> P 1 \<and> P 2 \<and> P (3 :: nat)" for P
    by (auto simp: numeral_eq_Suc less_Suc_eq)
  have "PLAT_GICD_BASE + of_nat 0xffe8 = PLAT_GICD_BASE + GICD_PIDR2_GICV3" by simp
  with mq_kind_gicd [of "0xffe8"] have "hw_kind mq_hw (PLAT_GICD_BASE + GICD_PIDR2_GICV3) = Other_reg"
    by (simp add: gicd_kind_def)
  then have "mq_identified mq_gic sample_gic"
    unfolding mq_identified_def four gic_reference_def gic_device.simps ref_read_32_def Let_def
    by (simp add: frame_hw_def mq_frames_def sample_gic_def mpidr_from_gicr_typer_def)
  moreover have "rd_asleep mq_gic (mq_frames ! 0) sample_gic"
    by (subst mq_asleep) (simp_all add: mq_frames_def sample_gic_def)
  moreover have "hw_writable mq_hw PLAT_GICD_BASE AND 0x37 = 0x37" by (simp add: frame_hw_def)
  moreover have "ppi_implemented mq_hw (mq_frames ! 0) 6" "ppi_implemented mq_hw (mq_frames ! 0) 7"
    by (simp_all add: ppi_implemented_def frame_hw_def mq_frames_def)
  ultimately show ?thesis
    using hw by (simp add: mq_ready_def sample_gic_world_def gic_reference_def)
qed

theorem board_interrupts_secured_witness:
  "\<exists>s'. mbind (plat_gic_driver_init True mq_gic 0x1000000) (\<lambda>_. plat_gic_init True mq_gic 0x80000000) sample_gic_world = Ret () s' \<and>
     plat_ic_get_interrupt_type True mq_gic 0x80000000 7 s' = Ret INTR_TYPE_EL3 s' \<and>
     plat_ic_get_interrupt_type True mq_gic 0x80000000 5 s' = Ret INTR_TYPE_NS s' \<and>
     plat_ic_get_interrupt_type True mq_gic 0x80000000 40 s' = Ret INTR_TYPE_NS s'"
proof -
  have id: "(0x80000000 :: u64) = 0x80000000 OR of_nat 0" "(0x1000000 :: u64) AND push_bit 24 0xf \<noteq> 0" by simp_all
  have "num_ints_of (gic_read_32 mq_gic (gic_dev sample_gic_world) (PLAT_GICD_BASE + GICD_TYPER)) = 160"
  proof -
    have "hw_kind mq_hw (PLAT_GICD_BASE + of_nat 4) = Plain_reg" "hw_live mq_hw (PLAT_GICD_BASE + of_nat 4) = 0"
      using mq_kind_gicd [of 4] mq_live_gicd [of 4] by (simp_all add: gicd_kind_def intr_reg_kind_def)
    then have "gic_read_32 mq_gic (gic_dev sample_gic_world) (PLAT_GICD_BASE + GICD_TYPER) = 4"
      by (simp add: gic_reference_def ref_read_32_def Let_def sample_gic_world_def sample_gic_def mq_frames_def)
    then show ?thesis by (simp add: num_ints_of_def)
  qed
  then have num: "160 = num_ints_of (gic_read_32 mq_gic (gic_dev sample_gic_world) (PLAT_GICD_BASE + GICD_TYPER))" by simp
  have "irq_present mq_hw (mq_frames ! 0) 160 7" "irq_present mq_hw (mq_frames ! 0) 160 5" "irq_present mq_hw (mq_frames ! 0) 160 40"
    by (simp_all add: irq_present_def ppi_implemented_def spi_implemented_def frame_hw_def mq_frames_def)
  with board_interrupts_secured [OF sample_gic_ready id num, of True] show ?thesis by auto
qed

end
