(* ===== verification/Spec2Isabelle.thy ===== *)
theory Spec2Isabelle
  imports Bl31_Main Bakery_Lock Xlat_Board Plat_Gic_Results
begin

text \<open>
  A verification of BL31, the firmware that runs at exception level 3 on the i.MX8MQ of the Coral
  board: the sources under \<^verbatim>\<open>src/imx-atf\<close> that the build \<^verbatim>\<open>make PLAT=imx8mq SPD=opteed bl31\<close> compiles.

  \<^bold>\<open>The program.\<close> After its cold boot the firmware is entered only through exceptions. An SMC is routed by
  its owning entity to one of five services: the standard service, which is PSCI, the power management of
  the four cores; the SiP service of the SoC (power controller, Cortex-M4, high assurance boot,
  interconnect, build information); the Arm architecture service; and the dispatcher that hands calls to
  OP-TEE, the operating system of the secure world. A core that wakes up comes back through the warm boot
  entry point of PSCI. Secure interrupts are handed to OP-TEE. PSCI calls the hooks of the platform, which
  program the general power controller, and the hooks of the dispatcher, which lets OP-TEE know about
  every change of power.

  \<^bold>\<open>The model.\<close> A piece of C is a program over an explicit state (\<open>Prelude\<close>): a function to \<open>Ret v s\<close>,
  or to \<open>Stop r s\<close> with the reason (a failed assertion, a panic, an access outside an array, a lost
  power, a lock that is held, ...). Integers keep their width. Registers of devices are a map from
  addresses to words; a device that changes a register by itself is the field \<open>device\<close>, and a loop that
  polls such a register is bounded by \<open>poll_limit\<close>: the theorems assume \<open>self_clearing\<close>, that the
  device clears a request bit within the limit, and show that the loops then end. The build and the
  executing core are the record \<open>cpu_env\<close>: \<open>imx8mq_port\<close> is the board.

  \<^item> \<open>Psci_Types\<close>, \<open>Psci_Common\<close>, \<open>Psci_Stat\<close>, \<open>Psci_Power\<close>, \<open>Psci_Setup\<close>, \<open>Psci_Main\<close>: the PSCI library,
    \<^verbatim>\<open>lib/psci/*.c\<close>, \<^verbatim>\<open>include/lib/psci\<close> and \<^verbatim>\<open>plat/common/plat_psci_common.c\<close>. Its file scope variables and
    per-CPU data are the record \<open>psci_state\<close>; \<open>world\<close> is the state of whatever lies behind its hooks.
  \<^item> \<open>Imx8mq_Gpc\<close>, \<open>Imx8mq_Psci\<close>, \<open>Imx8mq_Sip\<close>: the port, \<^verbatim>\<open>plat/imx/imx8mq/gpc.c\<close>, \<^verbatim>\<open>imx8mq_psci.c\<close>,
    \<^verbatim>\<open>src.c\<close>, \<^verbatim>\<open>plat/imx/common/imx8_topology.c\<close>, \<^verbatim>\<open>imx8_sip_svc.c\<close>, \<^verbatim>\<open>imx8m/hab.c\<close> and \<^verbatim>\<open>misc.c\<close>, over the
    record \<open>imx_world\<close>.
  \<^item> \<open>Interrupt_Mgmt\<close>, \<open>Context_Mgmt\<close>, \<open>Runtime_Svc\<close>: \<^verbatim>\<open>bl31/interrupt_mgmt.c\<close>,
    \<^verbatim>\<open>lib/el3_runtime/aarch64/context_mgmt.c\<close> (in part) and \<^verbatim>\<open>common/runtime_svc.c\<close>.
  \<^item> \<open>Opteed\<close>: \<^verbatim>\<open>services/spd/opteed/*.c\<close>, over \<open>bl31_world\<close>, which extends \<open>imx_world\<close>. OP-TEE is the field
    \<open>sp_run\<close>, a function from the entries made so far to its answer; \<open>optee_answers\<close> is the protocol it
    must keep.
  \<^item> \<open>Bakery_Lock\<close>: \<^verbatim>\<open>lib/locks/bakery/bakery_lock_normal.c\<close> as an interleaved step relation.
  \<^item> \<open>Xlat_Tables\<close>: \<^verbatim>\<open>lib/xlat_tables/xlat_tables_common.c\<close>, \<^verbatim>\<open>lib/xlat_tables/aarch64/xlat_tables.c\<close> and
    \<^verbatim>\<open>bl31_plat_arch_setup()\<close> of \<^verbatim>\<open>plat/imx/imx8mq/imx8mq_bl31_setup.c\<close>: the array of memory regions, the
    translation tables filled from it and the registers of the MMU, in the record \<open>xlat_state\<close>.
  \<^item> \<open>Bl31_Main\<close>: \<^verbatim>\<open>services/std_svc/std_svc_setup.c\<close>, \<^verbatim>\<open>services/arm_arch_svc/arm_arch_svc_setup.c\<close>, the
    five service descriptors and the part of \<^verbatim>\<open>bl31_main()\<close> that starts the services, from
    \<^verbatim>\<open>runtime_svc_init()\<close> to the call of \<^verbatim>\<open>bl32_init\<close>.
  \<^item> \<open>Gicv3_Regs\<close>, \<open>Gicv3_Driver\<close>, \<open>Gicv3_Save\<close>, \<open>Plat_Gic\<close>: the driver of the interrupt controller,
    \<^verbatim>\<open>drivers/arm/gic/v3\<close> (\<^verbatim>\<open>gicv3_helpers.c\<close>, \<^verbatim>\<open>gicv3_main.c\<close>, \<^verbatim>\<open>gicv3_private.h\<close>, \<^verbatim>\<open>gic500.c\<close>) and
    \<^verbatim>\<open>drivers/arm/gic/common\<close>, and its port, \<^verbatim>\<open>plat/common/plat_gicv3.c\<close> and
    \<^verbatim>\<open>plat/imx/common/plat_imx8_gic.c\<close>, over the record \<open>gic_world\<close>. The controller itself is a parameter, the
    record \<open>gic_device\<close> of what a read returns, what a write changes and how a polled register moves on.

  \<^bold>\<open>The proofs.\<close> \<open>Psci_Tree\<close> and \<open>Psci_Coordination\<close> show what the loops over the power domain tree compute,
  for every tree, against the reference \<open>coord_result\<close>. \<open>Psci_Platform\<close> states what the library relies on as
  the locale of a platform and a dispatcher: every hook keeps an invariant of the world, and the state
  \<open>sp_states\<close> of the secure payload follows the hooks. Inside it \<open>Psci_Behaviour\<close>, \<open>Psci_Invariant\<close>,
  \<open>Psci_System\<close>, \<open>Psci_Frontend\<close> and \<open>Psci_Steps\<close> prove the behaviour of every operation, that the invariant
  \<open>psci_inv\<close> is kept, and lift it to the steps of the cores. \<open>Imx8mq_Bl31\<close>, \<open>Imx8mq_Boot\<close>, \<open>Opteed_Pm\<close> and
  \<open>Opteed_Boot\<close> discharge the laws for the port, alone and with the dispatcher, and run the cold boot.
  \<open>Psci_Results\<close>, \<open>Psci_Calls\<close> and \<open>Imx8mq_Results\<close> hold the properties of single operations;
  \<open>Bl31_System\<close> is the step relation of the whole firmware, \<open>Bl31_Main\<close> shows that the start of the
  services ends in one of its states, and this theory holds the properties of its states. Properties of a
  single PSCI call in \<open>Psci_Results\<close> and \<open>Psci_Calls\<close> are stated over \<open>imx_reachable\<close>, the states of the port
  without a dispatcher, where the call ends before any hook of the dispatcher or, for CPU\_ON, where the
  dispatcher has none; what depends on the dispatcher is stated here, over \<open>bl31_reachable\<close>.

  \<open>Xlat_Walk\<close> says what the MMU does with the tables (\<open>mmu_walk\<close>), \<open>Xlat_Fill\<close> proves, in the locale
  \<open>memory_map\<close> of a good list of regions, that the recursive filling makes the walk find the region of every
  address with the tables it has, \<open>Xlat_Regions\<close> shows that \<open>mmap_add_region\<close> keeps such a list, and \<open>Xlat_Board\<close>
  interprets the locale on the memory map of the board. The recursion of the filling ends by the level and the
  index of the entry; no fuel is needed.

  \<open>Gicv3_Bank\<close> states in the locale \<open>gic_hardware\<close> what the driver relies on of the controller: its registers
  behave as a bank of registers with their kinds (plain, set, clear), and the bits that the driver polls
  change within \<open>gic_patience\<close> reads, so that the loops end. Inside it \<open>Gicv3_Effects\<close>, \<open>Gicv3_Config\<close>,
  \<open>Gicv3_Redist\<close> and \<open>Gicv3_Power\<close> show what the initialisation and the power operations do to the bank, and
  \<open>Gicv3_Intr\<close> that the type of an interrupt reads back as it was set. \<open>Gicv3_Reference\<close> interprets the locale on
  an executable controller with the addresses of the board (\<open>mq_gic\<close>), and \<open>Plat_Gic_Results\<close> runs the set-up
  of the board, for every controller that keeps the laws. A probe of the redistributors needs a
  \<open>gic_patience\<close> of at least four, one for each core.

  \<^bold>\<open>What is assumed.\<close> The operations of two cores on the library do not interleave within the sections
  that the locks of the library protect; the bakery lock that gives this is verified on its own. A
  standby call that gives up the locks lets the others run: \<open>wfi_others\<close> in the calls, separate steps in
  the step relation. The boot ROM and the DDR frequency handler are parameters that keep the data of
  the other components (\<open>sip_callees_ok\<close>). Stores are visible in program order after the barriers
  and cache operations of the code. The map of device registers is total: that the MMU lets an access
  through is assumed, except in C39, where the address comes from the caller.

  \<^bold>\<open>Not modelled.\<close> The exception vectors and other assembly, with the table look-up of the SMC
  vector, which \<open>handle_runtime_svc\<close> performs the same way in C; the save and restore of system registers on an exception return; the platform
  set-up before the services start (console, CSU, RDC, TZASC), whose calls are straight-line register
  writes, and the preparation of the next image at the end of \<^verbatim>\<open>bl31_main()\<close>; the functions of the GIC driver
  for the interrupt translation service, which the board does not use; DRAM retention and the calls of
  the interrupt controller port out of the PSCI hooks, which the model of the hooks logs as events; DDR
  frequency scaling. The rest of the repository (boot loader, UEFI, OP-TEE, Windows drivers,
  image tools) runs in other worlds or on the build host.
\<close>

section \<open>The firmware after a cold boot\<close>

text \<open>
  C1. From the cold boot on, whatever PSCI calls, SiP calls, OP-TEE calls and secure interrupts the
  cores see and in whatever order they wake up, every power domain above a running core is in the
  state RUN.
\<close>

theorem running_domains_on:
  assumes r: "bl31_reachable b fq res rom dvfs version (s, ph)" and ok: "sip_callees_ok rom dvfs"
    and c: "c < 4" "ph c = Running" and l: "l \<in> {1..2}"
  shows "local_state (psci_non_cpu_pd_nodes s ! ancestor s c l) = PSCI_LOCAL_STATE_RUN"
  using inv_running_domains_run [OF bl31_reachableD(1) [OF r ok], of c l] c l by simp

theorem running_domains_on_witness:
  "\<exists>s. sample_reach (s, boot_phases) \<and> local_state (psci_non_cpu_pd_nodes s ! ancestor s 0 2) = PSCI_LOCAL_STATE_RUN"
proof -
  obtain s where s: "sample_reach (s, boot_phases)" by (rule sample_bl31_boot)
  from s running_domains_on [OF s sample_callees, of 0 2] show ?thesis by (auto simp: boot_phases_def)
qed

text \<open>
  C14. No power domain is ever in a deeper state than one of its cores has asked for, and no lock of
  the library is held between the operations of the cores.
\<close>

theorem domain_states_agreed:
  assumes r: "bl31_reachable b fq res rom dvfs version (s, ph)" and ok: "sip_callees_ok rom dvfs"
  shows "(\<forall>c < 4. \<forall>l \<in> {1..2}.
       local_state (psci_non_cpu_pd_nodes s ! ancestor s c l) \<le> psci_req_local_pwr_states s ! (l - 1) ! c) \<and>
     (\<forall>lock \<in> set (psci_locks s). lock = None) \<and> (\<forall>n \<in> set (psci_cpu_pd_nodes s). cpu_lock n = None)"
proof -
  note i = psci_invD [OF bl31_reachableD(1) [OF r ok]]
  have "\<forall>c < 4. \<forall>l \<in> {1..2}.
      local_state (psci_non_cpu_pd_nodes s ! ancestor s c l) \<le> psci_req_local_pwr_states s ! (l - 1) ! c"
    using i(2) by (simp add: dom_ok_def)
  moreover have "\<forall>lock \<in> set (psci_locks s). lock = None" "\<forall>n \<in> set (psci_cpu_pd_nodes s). cpu_lock n = None"
    using i(3) by (auto simp: unlocked_def all_set_conv_all_nth)
  ultimately show ?thesis by blast
qed

theorem domain_states_agreed_witness:
  "\<exists>s. sample_reach (s, boot_phases) \<and>
     local_state (psci_non_cpu_pd_nodes s ! ancestor s 3 1) \<le> psci_req_local_pwr_states s ! 0 ! 3 \<and>
     (\<forall>lock \<in> set (psci_locks s). lock = None)"
proof -
  obtain s where s: "sample_reach (s, boot_phases)" by (rule sample_bl31_boot)
  note a = domain_states_agreed [OF s sample_callees]
  have "local_state (psci_non_cpu_pd_nodes s ! ancestor s 3 1) \<le> psci_req_local_pwr_states s ! (1 - 1) ! 3"
    by (rule a [THEN conjunct1, rule_format]) simp_all
  then show ?thesis using s a by auto
qed

text \<open>
  C2. OP-TEE follows PSCI: on every core the state the dispatcher records for OP-TEE is ON while the
  core runs or waits in standby, SUSPEND while it is without power in a suspend, and OFF when it
  has been turned off or not yet come up.
\<close>

theorem optee_follows_psci:
  assumes r: "bl31_reachable b fq res rom dvfs version (s, ph)" and ok: "sip_callees_ok rom dvfs" and c: "c < 4"
  shows "get_optee_pstate (optee_state (opteed_sp_context (world s) ! c)) =
     (if ph c \<noteq> Down then OPTEE_PSTATE_ON
      else if aff_info_state (psci_svc_cpu_data s ! c) = AFF_STATE_ON then OPTEE_PSTATE_SUSPEND
      else OPTEE_PSTATE_OFF)"
proof -
  note d = bl31_reachableD [OF r ok]
  have "get_optee_pstate (optee_state (opteed_sp_context (world s) ! c)) = sp_pstate (sp_of s ph c)"
    using opteed_okD(10) [OF d(2) c] by (simp add: opteed_core_ok_def)
  then show ?thesis
    using sp_of_core [OF d(1), of c] c
    by (cases "ph c"; cases "aff_info_state (psci_svc_cpu_data s ! c)") (simp_all add: sp_pstate_def)
qed

theorem optee_follows_psci_witness:
  "\<exists>s. sample_reach (s, boot_phases) \<and> get_optee_pstate (optee_state (opteed_sp_context (world s) ! 0)) = OPTEE_PSTATE_ON"
proof -
  obtain s where s: "sample_reach (s, boot_phases)" by (rule sample_bl31_boot)
  from s optee_follows_psci [OF s sample_callees, of 0] show ?thesis by (auto simp: boot_phases_def)
qed

text \<open>
  C3. A core that is without power and not OFF always comes back: its warm boot returns (it waits
  for no lock, and neither panics nor fails an assertion), with OP-TEE resumed or started on it, its
  affinity state ON and the domains above it in RUN; and the state after it is again one of the
  states of the firmware.
\<close>

theorem warm_boot_returns:
  assumes r: "bl31_reachable b fq res rom dvfs version (s, ph)" and ok: "sip_callees_ok rom dvfs"
    and e: "on_core (imx8mq_port b fq) e c" and ph: "ph c = Down"
    and aff: "aff_info_state (psci_svc_cpu_data s ! c) \<noteq> AFF_STATE_OFF"
  shows "\<exists>t. psci_warmboot_entrypoint e s = Ret () t \<and> bl31_reachable b fq res rom dvfs version (t, ph(c := Running)) \<and>
     aff_info_state (psci_svc_cpu_data t ! c) = AFF_STATE_ON \<and>
     get_optee_pstate (optee_state (opteed_sp_context (world t) ! c)) = OPTEE_PSTATE_ON \<and>
     (\<forall>l \<in> {1..2}. local_state (psci_non_cpu_pd_nodes t ! ancestor t c l) = PSCI_LOCAL_STATE_RUN)"
proof -
  note o = on_coreD [OF e] and f = imx_fields [OF on_coreD(1) [OF e]]
  have "imx_optee.ok b res e s ph" using bl31_reachable_ok [OF r ok] imx_optee.sys_ok_iff [OF o(1)] by simp
  from imx_optee.wp_warmboot [OF this o(2) o(3) [symmetric] ph aff]
  obtain t where t: "psci_warmboot_entrypoint e s = Ret () t"
    by (auto simp: wp_def split: outcome.splits)
  have "psci_step (imx8mq_port b fq) (s, ph) (t, ph(c := Running))"
    by (rule warm_boot [where e = e]) fact+
  then have r': "bl31_reachable b fq res rom dvfs version (t, ph(c := Running))"
    by (rule stepped [OF r psci])
  note d = bl31_reachableD [OF r' ok]
  have "cpu_ok (imx8mq_port b fq) t c Running" using psci_invD(4) [OF d(1), of c] o(4) f by simp
  moreover have "\<forall>l \<in> {1..2}. local_state (psci_non_cpu_pd_nodes t ! ancestor t c l) = PSCI_LOCAL_STATE_RUN"
    using inv_running_domains_run [OF d(1), of c] o(4) f by simp
  moreover have "get_optee_pstate (optee_state (opteed_sp_context (world t) ! c)) = OPTEE_PSTATE_ON"
    using opteed_okD(10) [OF d(2), of c] sp_of_core [OF d(1), of c] o(4) f by (simp add: opteed_core_ok_def)
  ultimately show ?thesis using t r' by (auto simp: cpu_ok_def Let_def)
qed

theorem warm_boot_returns_witness:
  "\<exists>s t. aff_info_state (psci_svc_cpu_data s ! 1) = AFF_STATE_ON_PENDING \<and>
     psci_warmboot_entrypoint (sample_env 1) s = Ret () t \<and> sample_reach (t, boot_phases(1 := Running)) \<and>
     get_optee_pstate (optee_state (opteed_sp_context (world t) ! 1)) = OPTEE_PSTATE_ON"
proof -
  obtain s where s: "sample_reach (s, boot_phases)" "aff_info_state (psci_svc_cpu_data s ! 1) = AFF_STATE_ON_PENDING"
    by (rule sample_bl31_second)
  have "on_core (imx8mq_port True 8333333) (sample_env 1 :: bl31_world cpu_env) 1" by (simp add: sample_env_port)
  from warm_boot_returns [OF s(1) sample_callees this] s(2) show ?thesis by (auto simp: boot_phases_def)
qed



section \<open>The OP-TEE dispatcher\<close>

text \<open>
  C18. The cold boot with OP-TEE returns: PSCI, then the dispatcher, are set up, OP-TEE's first run
  ends with the address of its vector table, its power management hooks are registered with PSCI,
  and it is ON on the boot core and OFF on the others.
\<close>

theorem cold_boot_returns:
  assumes e: "on_port (imx8mq_port b fq) e" "plat_my_core_pos e = 0" and args: "verify_psci_lib_args_v1 args"
    and w: "imx_ok w" "opteed_cold vt ep w"
  shows "\<exists>t w1 t2. psci_setup e imx_plat_setup_psci_ops args (zeroed_psci_state e ops0 w) = Ret 0 t \<and>
     opteed_setup b (regs e) (world t) = Ret 0 w1 \<and> opteed_init b res e (t\<lparr>world := w1\<rparr>) = Ret vt t2 \<and>
     bl31_reachable b fq res rom dvfs version (t2, boot_phases) \<and> psci_spd_pm t2 = Some (opteed_pm b res) \<and>
     (\<forall>c < 4. aff_info_state (psci_svc_cpu_data t2 ! c) = (if c = 0 then AFF_STATE_ON else AFF_STATE_OFF)) \<and>
     (\<forall>c < 4. get_optee_pstate (optee_state (opteed_sp_context (world t2) ! c)) = (if c = 0 then OPTEE_PSTATE_ON else OPTEE_PSTATE_OFF))"
proof -
  obtain t w1 t2 w' w2 where run: "psci_setup e imx_plat_setup_psci_ops args (zeroed_psci_state e ops0 w) = Ret 0 t"
    "opteed_setup b (regs e) (world t) = Ret 0 w1" "opteed_init b res e (t\<lparr>world := w1\<rparr>) = Ret vt t2"
    "imx_booted e imx_plat_psci_ops w' t"
    "t2 = t\<lparr>psci_spd_pm := Some (opteed_pm b res),
      psci_caps := psci_setup_caps e (imx_plat_psci_ops :: bl31_world plat_psci_ops_t) OR (define_psci_cap 0xc4000007 OR define_psci_cap 0x84000006),
      world := w2\<rparr>"
    by (rule optee_boot_returns [OF e args w(2)])
  have svc: "aff_info_state (psci_svc_cpu_data t2 ! c) = (if c = 0 then AFF_STATE_ON else AFF_STATE_OFF)" if "c < 4" for c
    using run(4,5) that by (auto simp: imx_booted_def nth_list_update)
  have "imx_optee.sys_ok b res b fq (t2, boot_phases)"
    by (rule optee_boot_sys_ok [OF e args w run(1-3)])
  then have ok: "psci_inv (imx8mq_port b fq) t2 boot_phases" "opteed_ok b (sp_of t2 boot_phases) (world t2)"
    by (simp_all add: imx_optee.sys_ok_def imx_optee.plat_ok_def imx_with_def)
  have "get_optee_pstate (optee_state (opteed_sp_context (world t2) ! c)) = (if c = 0 then OPTEE_PSTATE_ON else OPTEE_PSTATE_OFF)"
    if c: "c < 4" for c
    using opteed_okD(10) [OF ok(2) c] sp_of_core [OF ok(1), of c] c svc [OF c]
    by (simp add: opteed_core_ok_def boot_phases_def sp_pstate_def)
  moreover have "bl31_cold_boot b fq res (t2, boot_phases)"
    unfolding bl31_cold_boot_def using e args w run(1-3) by blast
  ultimately show ?thesis using run(1-3,5) svc booted by fastforce
qed

theorem cold_boot_returns_witness:
  "\<exists>t w1 t2. psci_setup (sample_env 0) imx_plat_setup_psci_ops sample_args
       (zeroed_psci_state (sample_env 0 :: bl31_world cpu_env) imx_plat_psci_ops sample_bl31) = Ret 0 t \<and>
     opteed_setup True (regs (sample_env 0 :: bl31_world cpu_env)) (world t) = Ret 0 w1 \<and>
     opteed_init True 0 (sample_env 0) (t\<lparr>world := w1\<rparr>) = Ret 0xfe001000 t2 \<and> sample_reach (t2, boot_phases)"
proof -
  let ?e = "sample_env 0 :: bl31_world cpu_env"
  have "on_port (imx8mq_port True 8333333) ?e" "plat_my_core_pos ?e = 0"
    using on_coreD(1,3) [OF sample_env_port [THEN iffD2, of 0]] by simp_all
  from cold_boot_returns [OF this sample_boot(3) sample_bl31_cold(2,1), where ?ops0.0 = imx_plat_psci_ops and res = 0
      and rom = "\<lambda>_ _. mret 0" and dvfs = "\<lambda>_ _ _ _. mret 0" and version = "[]"]
  show ?thesis by blast
qed

text \<open>
  C17. A call from the normal world is handed to OP-TEE as it was made: the eight argument registers
  of the saved secure context get the function identifier and the arguments, the context resumes
  at the fast or the yielding entry of the vector table, by the type of the call, the next exception
  return goes to the secure world, and nothing of PSCI changes.
\<close>

theorem smc_forwarded_to_optee:
  assumes r: "bl31_reachable b fq res rom dvfs version (s, ph)" and ok: "sip_callees_ok rom dvfs"
    and e: "on_core (imx8mq_port b fq) e c" and ph: "ph c = Running" and ns: "\<not> is_caller_secure flags"
  shows "\<exists>w. opteed_smc_handler b res e fid x1 x2 x3 x4 xs flags s = Ret To_optee (s\<lparr>world := w\<rparr>) \<and>
     bl31_reachable b fq res rom dvfs version (s\<lparr>world := w\<rparr>, ph) \<and> next_eret w ! c = Some SECURE \<and>
     gpregs (cpu_ctx (opteed_sp_context w ! c)) = (gpregs (cpu_ctx (opteed_sp_context (world s) ! c)))
       [4 := xs ! 0, 5 := xs ! 1, 6 := xs ! 2, 7 := xs ! 3, 0 := ucast fid, 1 := x1, 2 := x2, 3 := x3] \<and>
     ctx_elr_el3 (cpu_ctx (opteed_sp_context w ! c)) =
       vector_addr (if GET_SMC_TYPE fid = 1 then fast_smc_entry else yield_smc_entry) (world s)"
proof -
  note o = on_coreD [OF e] and f = imx_fields [OF on_coreD(1) [OF e]] and sys = bl31_reachableD [OF r ok]
  have c4: "c < 4" using o(4) f by simp
  have "sp_of s ph c = SP_ON" using sp_of_core [OF sys(1), of c] c4 ph by simp
  then have sc: "secure_context (world s) ! c = Some c" by (intro sp_context_installed [OF sys(2)]) simp
  note d = opteed_okD(1-3) [OF sys(2)]
  have run: "\<exists>w. opteed_forward_smc b c fid x1 x2 x3 xs (world s) = Ret () w \<and> next_eret w ! c = Some SECURE \<and>
     gpregs (cpu_ctx (opteed_sp_context w ! c)) = (gpregs (cpu_ctx (opteed_sp_context (world s) ! c)))
       [4 := xs ! 0, 5 := xs ! 1, 6 := xs ! 2, 7 := xs ! 3, 0 := ucast fid, 1 := x1, 2 := x2, 3 := x3] \<and>
     ctx_elr_el3 (cpu_ctx (opteed_sp_context w ! c)) =
       vector_addr (if GET_SMC_TYPE fid = 1 then fast_smc_entry else yield_smc_entry) (world s)"
    unfolding opteed_forward_smc_def
    using d c4 sc
    by (simp add: mbind_def prog_simps cm_set_elr_el3_def cm_get_secure_context_def ctx_run next_eret_run write_gpreg_def lists4
        dbg_assert_def)
  then obtain w where w: "opteed_forward_smc b c fid x1 x2 x3 xs (world s) = Ret () w" "next_eret w ! c = Some SECURE"
     "gpregs (cpu_ctx (opteed_sp_context w ! c)) = (gpregs (cpu_ctx (opteed_sp_context (world s) ! c)))
       [4 := xs ! 0, 5 := xs ! 1, 6 := xs ! 2, 7 := xs ! 3, 0 := ucast fid, 1 := x1, 2 := x2, 3 := x3]"
     "ctx_elr_el3 (cpu_ctx (opteed_sp_context w ! c)) =
       vector_addr (if GET_SMC_TYPE fid = 1 then fast_smc_entry else yield_smc_entry) (world s)" by blast
  have h: "opteed_smc_handler b res e fid x1 x2 x3 x4 xs flags s = Ret To_optee (s\<lparr>world := w\<rparr>)"
    using w(1) ns o(3) by (simp add: opteed_smc_handler_def mbind_def lift_world_def prog_simps)
  have "bl31_reachable b fq res rom dvfs version (s\<lparr>world := w\<rparr>, ph)"
    by (rule stepped [OF r]) (rule optee_call, fact+)
  then show ?thesis using h w by blast
qed

theorem smc_forwarded_to_optee_witness:
  "\<exists>s w. sample_reach (s, boot_phases) \<and>
     opteed_smc_handler True 0 (sample_env 0) 0xb2000000 1 2 3 4 [4, 5, 6, 7] 1 s = Ret To_optee (s\<lparr>world := w\<rparr>) \<and>
     next_eret w ! 0 = Some SECURE \<and> ctx_elr_el3 (cpu_ctx (opteed_sp_context w ! 0)) = vector_addr fast_smc_entry (world s)"
proof -
  obtain s where s: "sample_reach (s, boot_phases)" by (rule sample_bl31_boot)
  have "on_core (imx8mq_port True 8333333) (sample_env 0 :: bl31_world cpu_env) 0" by (simp add: sample_env_port)
  moreover have "\<not> is_caller_secure 1" "GET_SMC_TYPE 0xb2000000 = 1" by code_simp+
  ultimately show ?thesis
    using s smc_forwarded_to_optee [OF s sample_callees, of "sample_env 0" 0 1 "0xb2000000" 1 2 3 4 "[4, 5, 6, 7]"]
    by (auto simp: boot_phases_def)
qed

section \<open>The SiP service and the MMU\<close>

text \<open>
  C39. Masking an interrupt writes wherever its number leads, as far as the MMU lets it. With the
  translation tables that \<^verbatim>\<open>bl31_plat_arch_setup()\<close> has made, every word of device memory from the
  first mask register on that EL3 may write at all is open to the normal world: for each of its bits
  there is a call that sets the bit and changes no other register. The resource domain controller
  and the central security unit, which separate the two worlds, lie in this range. (Addresses the
  tables do not map, as those of the TrustZone address space controller, are out of reach: the
  access faults.)
\<close>

theorem gpc_mask_sets_mapped_bit:
  assumes tables: "ro_size_ok ro" "cold_tables s" "dbg \<longrightarrow> unat (mmfr0 AND 0xf) < 7"
      "bl31_plat_arch_setup (imx8mq_xlat_port dbg base) ro mmfr0 s = Ret () s'"
    and mapped: "mmu_walk (imx8mq_xlat_port dbg base) s' va = Some (pa, a)" "desc_writable a"
    and va: "va = 0x303a0030 + 4 * k" "va < 0x40000000" and bit: "j < 32"
  shows "pa = va \<and> imx_svc_smc_handler rom dvfs vs 0xC2000000 0 (32 * of_nat k + of_nat j) x3 x4 w =
     Ret 0 (w\<lparr>mmio := (mmio w)(of_nat va := mmio w (of_nat va) OR BIT32 j)\<rparr>)"
proof -
  obtain t where t: "bl31_plat_arch_setup (imx8mq_xlat_port dbg base) ro mmfr0 s = Ret () t"
      "\<forall>va < 2 ^ 32. mmu_walk (imx8mq_xlat_port dbg base) t va = map_option (\<lambda>attr. (va, mmap_attrs el3_xn el3_ap1 attr)) (board_attr ro va)"
    using board_run tables(1-3) by blast
  then have "t = s'" using tables(4) by simp
  then have "pa = va" using t(2) mapped(1) va(2) by fastforce
  moreover have "k < 2 ^ 27" using va by simp
  moreover have "IMX_GPC_BASE + 0x30 + 4 * of_nat k = (of_nat va :: u64)" unfolding va(1) by simp
  ultimately show ?thesis using gpc_mask_sets_bit [of k j rom dvfs vs x3 x4 w] bit by simp
qed

theorem gpc_mask_sets_mapped_bit_witness:
  "\<exists>s' a. bl31_plat_arch_setup (imx8mq_xlat_port True 0x91a000) 0xD000 0x1122 sample_cold = Ret () s' \<and>
     mmu_walk (imx8mq_xlat_port True 0x91a000) s' 0x303e0000 = Some (0x303e0000, a) \<and> desc_writable a \<and>
     imx_svc_smc_handler (\<lambda>_ _. mret 0) (\<lambda>_ _ _ _. mret 0) [] 0xC2000000 0 0x1ffe9f 0 0 sample_world =
       Ret 0 (sample_world\<lparr>mmio := (mmio sample_world)(0x303e0000 := BIT32 31)\<rparr>)"
proof -
  obtain s' where s': "bl31_plat_arch_setup (imx8mq_xlat_port True 0x91a000) 0xD000 0x1122 sample_cold = Ret () s'"
      "\<forall>va < 2 ^ 32. mmu_walk (imx8mq_xlat_port True 0x91a000) s' va = map_option (\<lambda>attr. (va, mmap_attrs el3_xn el3_ap1 attr)) (board_attr 0xD000 va)"
    using board_run [OF sample_cold_ok(2,1), of True "0x1122" "0x91a000"] by fastforce
  have at: "board_attr 0xD000 0x303e0000 = Some 0x8" by (simp add: board_attr_def)
  have walk: "mmu_walk (imx8mq_xlat_port True 0x91a000) s' 0x303e0000 = Some (0x303e0000, mmap_attrs el3_xn el3_ap1 0x8)"
    using s'(2) at by simp
  have w: "desc_writable (mmap_attrs el3_xn el3_ap1 0x8)" using attr_cases(1) [of 8] by simp
  from gpc_mask_sets_mapped_bit [OF sample_cold_ok(2,1) _ s'(1) walk w, of "0xfff4" 31 "\<lambda>_ _. mret 0" "\<lambda>_ _ _ _. mret 0" "[]" 0 0 sample_world]
  show ?thesis using s'(1) walk w by (auto simp: sample_world_def)
qed

end
